(* ===== verification/Go_Prelude.thy ===== *)
theory Go_Prelude
  imports Complex_Main "HOL-Library.AList" "HOL-Library.Sublist"
    "HOL-Library.Signed_Division" "HOL-Library.Multiset"
begin

text \<open>
  The vocabulary every component theory shares: Go's \<^verbatim>\<open>int64\<close> wrap-around, the
  \<^verbatim>\<open>time\<close> package as far as the sources use it, Go maps with their arbitrary
  iteration order, bounded histories (append, then keep the newest \<open>n\<close> entries)
  and the contract of a substring test.

  Go counters of type \<^verbatim>\<open>int\<close> and \<^verbatim>\<open>int64\<close> that only ever grow by one per call are
  modelled as \<^typ>\<open>int\<close>: they would need \<open>2 ^ 63\<close> calls to wrap. Durations, which the
  sources multiply and add, wrap with \<open>wrap64\<close>.
\<close>

named_theorems go_simps \<open>unfolding rules of the shared Go vocabulary\<close>
named_theorems history_simps \<open>facts on bounded histories\<close>
named_theorems inv_intros \<open>introduction rules that establish a component invariant\<close>

section \<open>Fixed-width integers\<close>

definition wrap64 :: "int \<Rightarrow> int" where
  "wrap64 x = (x + 2 ^ 63) mod 2 ^ 64 - 2 ^ 63"

definition in_int64 :: "int \<Rightarrow> bool" where
  "in_int64 x \<longleftrightarrow> - (2 ^ 63) \<le> x \<and> x < 2 ^ 63"

lemma wrap64_id: "in_int64 x \<Longrightarrow> wrap64 x = x"
  by (simp add: in_int64_def wrap64_def)

lemma wrap64_in_int64 [simp]: "in_int64 (wrap64 x)"
proof -
  have "0 \<le> (x + 2 ^ 63) mod 2 ^ 64" "(x + 2 ^ 63) mod 2 ^ 64 < 2 ^ 64"
    by simp_all
  then show ?thesis by (simp add: wrap64_def in_int64_def)
qed

lemma wrap64_bounds: "- (2 ^ 63) \<le> wrap64 x" "wrap64 x < 2 ^ 63"
  using wrap64_in_int64 [of x] by (simp_all add: in_int64_def)

lemma wrap64_nonneg_id: "0 \<le> x \<Longrightarrow> x < 2 ^ 63 \<Longrightarrow> wrap64 x = x"
  by (rule wrap64_id) (simp add: in_int64_def)

text \<open>Go's integer division truncates towards zero.\<close>

definition go_quot :: "int \<Rightarrow> int \<Rightarrow> int" where
  "go_quot a b = sgn a * sgn b * (\<bar>a\<bar> div \<bar>b\<bar>)"

lemma go_quot_nonneg: "0 \<le> a \<Longrightarrow> 0 < b \<Longrightarrow> go_quot a b = a div b"
  by (cases "a = 0") (simp_all add: go_quot_def)

section \<open>Time\<close>

text \<open>
  A \<^verbatim>\<open>time.Time\<close> is its distance in nanoseconds from the zero time, a
  \<^verbatim>\<open>time.Duration\<close> a number of nanoseconds. The clock is an argument of every operation
  that reads it: one argument per call of \<^verbatim>\<open>time.Now\<close> or \<^verbatim>\<open>time.Since\<close>.
\<close>

type_synonym Time = int
type_synonym Duration = int

abbreviation (input) zero_time :: Time where
  "zero_time \<equiv> 0"

definition IsZero :: "Time \<Rightarrow> bool" where
  "IsZero t \<longleftrightarrow> t = 0"

definition max_duration :: Duration where
  "max_duration = 2 ^ 63 - 1"

definition min_duration :: Duration where
  "min_duration = - (2 ^ 63)"

text \<open>\<^verbatim>\<open>Time.Sub\<close> saturates instead of wrapping.\<close>

definition Sub :: "Time \<Rightarrow> Time \<Rightarrow> Duration" where
  "Sub t u = max min_duration (min max_duration (t - u))"

abbreviation (input) Millisecond :: Duration where
  "Millisecond \<equiv> 1000000"

abbreviation (input) Second :: Duration where
  "Second \<equiv> 1000000000"

abbreviation (input) Minute :: Duration where
  "Minute \<equiv> 60000000000"

abbreviation (input) Hour :: Duration where
  "Hour \<equiv> 3600000000000"

lemma Sub_self [simp]: "Sub t t = 0"
  by (simp add: Sub_def max_duration_def min_duration_def)

lemma Sub_neg: "t < u \<Longrightarrow> Sub t u < 0"
  by (auto simp: Sub_def max_duration_def min_duration_def)

lemma Sub_mono: "t \<le> t' \<Longrightarrow> Sub t u \<le> Sub t' u"
  by (auto simp: Sub_def)

lemma Sub_antimono: "u \<le> u' \<Longrightarrow> Sub t u' \<le> Sub t u"
  by (auto simp: Sub_def)

lemma Sub_nonneg: "u \<le> t \<Longrightarrow> 0 \<le> Sub t u"
  by (auto simp: Sub_def max_duration_def min_duration_def)

lemma Sub_ge_iff: "0 \<le> d \<Longrightarrow> d \<le> max_duration \<Longrightarrow> d \<le> Sub t u \<longleftrightarrow> u + d \<le> t"
  by (auto simp: Sub_def max_duration_def min_duration_def)

lemma Sub_gt_iff: "0 \<le> d \<Longrightarrow> d < max_duration \<Longrightarrow> d < Sub t u \<longleftrightarrow> u + d < t"
  by (auto simp: Sub_def max_duration_def min_duration_def)

text \<open>\<^verbatim>\<open>Time.Unix\<close>: whole seconds since 1970, which lies 62135596800 seconds after the zero time.\<close>

definition Unix :: "Time \<Rightarrow> int" where
  "Unix t = t div Second - 62135596800"

section \<open>Maps and their iteration order\<close>

text \<open>
  A Go map is an association list with distinct keys. Go leaves the order of
  \<^verbatim>\<open>for k, v := range m\<close> open and may choose another one for every loop. \<open>range_keys ord m\<close>
  visits the keys of \<open>m\<close> in the order in which \<open>ord\<close> lists them and the others after
  that: for every \<open>ord\<close> it is a permutation of the keys, and every permutation is reached
  by some \<open>ord\<close>. A theorem about all \<open>ord\<close> is a theorem about every iteration order.
\<close>

type_synonym ('k, 'v) gomap = "('k \<times> 'v) list"

definition gomap_ok :: "('k, 'v) gomap \<Rightarrow> bool" where
  "gomap_ok m \<longleftrightarrow> distinct (map fst m)"

definition range_keys :: "'k list \<Rightarrow> ('k, 'v) gomap \<Rightarrow> 'k list" where
  "range_keys ord m =
     filter (\<lambda>k. k \<in> set (map fst m)) (remdups ord) @
     filter (\<lambda>k. k \<notin> set ord) (map fst m)"

definition range_over :: "'k list \<Rightarrow> ('k, 'v) gomap \<Rightarrow> ('k \<times> 'v) list" where
  "range_over ord m = map (\<lambda>k. (k, the (map_of m k))) (range_keys ord m)"

lemma set_range_keys [simp]: "set (range_keys ord m) = set (map fst m)"
  by (auto simp: range_keys_def)

lemma distinct_range_keys: "gomap_ok m \<Longrightarrow> distinct (range_keys ord m)"
  by (auto simp: range_keys_def gomap_ok_def)

lemma range_keys_reaches_every_order:
  assumes "distinct ord" "set ord = set (map fst m)"
  shows "range_keys ord m = ord"
  using assms by (auto simp: range_keys_def distinct_remdups_id filter_id_conv filter_empty_conv)

lemma set_range_over [simp]: "gomap_ok m \<Longrightarrow> set (range_over ord m) = set m"
  unfolding range_over_def set_map set_range_keys gomap_ok_def
  by (force simp: image_iff)

lemma map_fst_range_over [simp]: "map fst (range_over ord m) = range_keys ord m"
  by (simp add: range_over_def comp_def)

lemma length_range_over: "gomap_ok m \<Longrightarrow> length (range_over ord m) = length m"
proof -
  assume ok: "gomap_ok m"
  then have "length (range_keys ord m) = card (set (range_keys ord m))"
    by (simp only: distinct_card [OF distinct_range_keys])
  also have "\<dots> = card (set (map fst m))"
    by simp
  also have "\<dots> = length (map fst m)"
    using ok unfolding gomap_ok_def by (rule distinct_card)
  finally have "length (range_keys ord m) = length m"
    by simp
  then show "length (range_over ord m) = length m"
    by (simp add: range_over_def)
qed

lemma gomap_ok_Nil [simp]: "gomap_ok []"
  by (simp add: gomap_ok_def)

lemma gomap_ok_update [simp]: "gomap_ok m \<Longrightarrow> gomap_ok (AList.update k v m)"
  by (simp add: gomap_ok_def distinct_update)

lemma gomap_ok_delete [simp]: "gomap_ok m \<Longrightarrow> gomap_ok (AList.delete k m)"
  by (simp add: gomap_ok_def distinct_delete)

lemma length_update_le: "length (AList.update k v m) \<le> Suc (length m)"
  by (induction m) auto

lemma length_update_old: "k \<in> fst ` set m \<Longrightarrow> length (AList.update k v m) = length m"
  by (induction m) auto

lemma length_update_new: "k \<notin> fst ` set m \<Longrightarrow> length (AList.update k v m) = Suc (length m)"
  by (induction m) auto

lemma length_delete_less:
  assumes "k \<in> fst ` set m"
  shows "length (AList.delete k m) < length m"
proof -
  obtain p where "p \<in> set m" "fst p = k" using assms by blast
  then have "length (filter (\<lambda>(k', _). k \<noteq> k') m) < length m"
    by (intro length_filter_less [of p]) auto
  then show ?thesis by (simp add: AList.delete_eq)
qed

text \<open>Reading a counter map: a missing key reads as zero, as Go's zero value does.\<close>

definition count_of :: "('k, int) gomap \<Rightarrow> 'k \<Rightarrow> int" where
  "count_of m k = (case map_of m k of None \<Rightarrow> 0 | Some n \<Rightarrow> n)"

definition incr_key :: "'k \<Rightarrow> ('k, int) gomap \<Rightarrow> ('k, int) gomap" where
  "incr_key k m = AList.update k (count_of m k + 1) m"

lemma count_of_incr [simp]:
  "count_of (incr_key k m) k' = (if k' = k then count_of m k + 1 else count_of m k')"
  by (simp add: count_of_def incr_key_def update_conv)

lemma count_of_Nil [simp]: "count_of [] k = 0"
  by (simp add: count_of_def)

definition total_count :: "('k, int) gomap \<Rightarrow> int" where
  "total_count m = sum_list (map snd m)"

lemma total_count_update:
  "gomap_ok m \<Longrightarrow> total_count (AList.update k v m) = total_count m - count_of m k + v"
  by (induction m) (auto simp: total_count_def count_of_def gomap_ok_def)

lemma total_count_incr: "gomap_ok m \<Longrightarrow> total_count (incr_key k m) = total_count m + 1"
  by (simp add: incr_key_def total_count_update)

lemma gomap_ok_incr [simp]: "gomap_ok m \<Longrightarrow> gomap_ok (incr_key k m)"
  by (simp add: incr_key_def)

section \<open>Arrival orders\<close>

text \<open>
  Values that several goroutines send to one channel arrive in some order. \<open>arrange ord xs\<close> takes the
  positions of \<open>xs\<close> that \<open>ord\<close> lists, in that order, and then the others: a permutation of \<open>xs\<close> for
  every \<open>ord\<close>, and every permutation for some \<open>ord\<close>.
\<close>

definition arrange :: "nat list \<Rightarrow> 'a list \<Rightarrow> 'a list" where
  "arrange ord xs = map (nth xs) (filter (\<lambda>i. i < length xs) (remdups ord) @ filter (\<lambda>i. i \<notin> set ord) [0..<length xs])"

lemma mset_arrange [simp]: "mset (arrange ord xs) = mset xs"
proof -
  let ?is = "filter (\<lambda>i. i < length xs) (remdups ord) @ filter (\<lambda>i. i \<notin> set ord) [0..<length xs]"
  have "distinct ?is" by auto
  moreover have "set ?is = set [0..<length xs]" by auto
  ultimately have "mset ?is = mset [0..<length xs]" by (metis distinct_upt set_eq_iff_mset_eq_distinct)
  then have "mset (map (nth xs) ?is) = mset (map (nth xs) [0..<length xs])" by (metis mset_map)
  then show ?thesis by (simp add: arrange_def map_nth)
qed

lemma length_arrange [simp]: "length (arrange ord xs) = length xs"
  by (metis mset_arrange size_mset)

lemma set_arrange [simp]: "set (arrange ord xs) = set xs"
  by (metis mset_arrange set_mset_mset)

section \<open>Counting the positions of a list\<close>

text \<open>
  The actors of a step relation are a list of phases; a step changes the phase at one position.
\<close>

lemma count_list_update:
  "i < length xs \<Longrightarrow> int (length (filter P (xs[i := x]))) =
     int (length (filter P xs)) - (if P (xs ! i) then 1 else 0) + (if P x then 1 else 0)"
proof (induction xs arbitrary: i)
  case (Cons y ys)
  show ?case
  proof (cases i)
    case (Suc j)
    then have "int (length (filter P (ys[j := x]))) =
        int (length (filter P ys)) - (if P (ys ! j) then 1 else 0) + (if P x then 1 else 0)"
      using Cons.IH [of j] Cons.prems by simp
    then show ?thesis using Suc by auto
  qed simp
qed simp

definition number :: "('a \<Rightarrow> bool) \<Rightarrow> 'a list \<Rightarrow> nat" where
  "number P xs = length (filter P xs)"

lemma number_update:
  "i < length xs \<Longrightarrow> number P (xs[i := x]) + (if P (xs ! i) then 1 else 0) = number P xs + (if P x then 1 else 0)"
  using count_list_update [of i xs P x] by (simp add: number_def split: if_splits)

lemma number_same: "i < length xs \<Longrightarrow> P (xs ! i) = P x \<Longrightarrow> number P (xs[i := x]) = number P xs"
  using number_update [of i xs P x] by simp

lemma number_up: "i < length xs \<Longrightarrow> \<not> P (xs ! i) \<Longrightarrow> P x \<Longrightarrow> number P (xs[i := x]) = Suc (number P xs)"
  using number_update [of i xs P x] by simp

lemma number_down: "i < length xs \<Longrightarrow> P (xs ! i) \<Longrightarrow> \<not> P x \<Longrightarrow> number P xs = Suc (number P (xs[i := x]))"
  using number_update [of i xs P x] by simp

lemma number_snoc: "number P (xs @ [x]) = number P xs + (if P x then 1 else 0)"
  by (simp add: number_def)

lemma number_pos: "number P xs = 0 \<longleftrightarrow> (\<forall>i < length xs. \<not> P (xs ! i))"
  by (simp add: number_def filter_empty_conv all_set_conv_all_nth)

section \<open>Minima, maxima and averages of lists\<close>

lemma fold_min_le: "x \<in> set xs \<Longrightarrow> fold min xs (a::int) \<le> x" "fold min xs a \<le> a"
  by (induction xs arbitrary: a) (auto intro: order_trans [OF _ min.cobounded1] order_trans [OF _ min.cobounded2])

lemma fold_max_ge: "x \<in> set xs \<Longrightarrow> x \<le> fold max xs (a::int)" "a \<le> fold max xs a"
  by (induction xs arbitrary: a) (auto intro: order_trans [OF max.cobounded1] order_trans [OF max.cobounded2])

lemma sum_list_between:
  "(\<And>x. x \<in> set xs \<Longrightarrow> lo \<le> x \<and> x \<le> (hi::int)) \<Longrightarrow>
   lo * int (length xs) \<le> sum_list xs \<and> sum_list xs \<le> hi * int (length xs)"
proof (induction xs)
  case (Cons x xs)
  then have "lo \<le> x \<and> x \<le> hi" "lo * int (length xs) \<le> sum_list xs \<and> sum_list xs \<le> hi * int (length xs)"
    by simp_all
  then show ?case by (simp add: algebra_simps)
qed simp

lemma fold_min_nonneg: "(\<And>x. x \<in> set xs \<Longrightarrow> 0 \<le> x) \<Longrightarrow> 0 \<le> (a::int) \<Longrightarrow> 0 \<le> fold min xs a"
  by (induction xs arbitrary: a) auto

lemma average_between:
  fixes s n :: int
  assumes "lo * n \<le> s" "s \<le> hi * n" "0 < n"
  shows "lo \<le> s div n \<and> s div n \<le> hi"
proof -
  have "lo * n div n \<le> s div n" "s div n \<le> hi * n div n"
    using zdiv_mono1 [OF assms(1, 3)] zdiv_mono1 [OF assms(2, 3)] by blast+
  moreover have "lo * n div n = lo" "hi * n div n = hi" using assms(3) by simp_all
  ultimately show ?thesis by simp
qed

section \<open>Read-write mutexes\<close>

text \<open>
  \<^verbatim>\<open>sync.RWMutex\<close> as far as one goroutine can tell: whether a writer holds it, how many readers do, and
  whether a writer waits, which keeps new readers out. Taking a lock that is not free yields
  \<^term>\<open>None\<close>; a goroutine that asks for a lock it blocks itself never goes on.
\<close>

record rw_mutex =
  w_held :: bool
  readers :: nat
  w_waiting :: bool

definition mutex_free :: rw_mutex where
  "mutex_free = \<lparr>w_held = False, readers = 0, w_waiting = False\<rparr>"

definition RLock :: "rw_mutex \<Rightarrow> rw_mutex option" where
  "RLock m = (if w_held m \<or> w_waiting m then None else Some (m\<lparr>readers := readers m + 1\<rparr>))"

definition RUnlock :: "rw_mutex \<Rightarrow> rw_mutex" where
  "RUnlock m = m\<lparr>readers := readers m - 1\<rparr>"

definition Lock :: "rw_mutex \<Rightarrow> rw_mutex option" where
  "Lock m = (if w_held m \<or> 0 < readers m then None else Some (m\<lparr>w_held := True\<rparr>))"

definition Unlock :: "rw_mutex \<Rightarrow> rw_mutex" where
  "Unlock m = m\<lparr>w_held := False\<rparr>"

lemma lock_free [simp]:
  "Lock mutex_free = Some (mutex_free\<lparr>w_held := True\<rparr>)" "Unlock (mutex_free\<lparr>w_held := True\<rparr>) = mutex_free"
  "RLock mutex_free = Some (mutex_free\<lparr>readers := 1\<rparr>)" "RUnlock (mutex_free\<lparr>readers := 1\<rparr>) = mutex_free"
  by (simp_all add: Lock_def Unlock_def RLock_def RUnlock_def mutex_free_def)

lemma lock_not_reentrant: "Lock m = Some m' \<Longrightarrow> RLock m' = None \<and> Lock m' = None"
  by (auto simp: Lock_def RLock_def split: if_splits)

section \<open>Bounded histories\<close>

text \<open>
  Several components append to a slice and then cut it to its newest \<open>n\<close> elements.
\<close>

definition last_n :: "nat \<Rightarrow> 'a list \<Rightarrow> 'a list" where
  "last_n n xs = drop (length xs - n) xs"

lemma length_last_n [simp]: "length (last_n n xs) = min n (length xs)"
  by (auto simp: last_n_def)

lemma last_n_short [simp]: "length xs \<le> n \<Longrightarrow> last_n n xs = xs"
  by (simp add: last_n_def)

lemma last_n_take_rev: "last_n n xs = rev (take n (rev xs))"
  by (simp add: last_n_def rev_take)

lemma last_n_append: "last_n n (last_n n xs @ ys) = last_n n (xs @ ys)"
  by (simp add: last_n_take_rev min_def)

lemma last_last_n: "0 < n \<Longrightarrow> last_n n (xs @ [x]) = last_n (n - 1) xs @ [x]"
  by (cases n) (auto simp: last_n_def)

locale bounded_history =
  fixes push :: "'a \<Rightarrow> 's \<Rightarrow> 's"
    and hist :: "'s \<Rightarrow> 'a list"
    and cap :: "'s \<Rightarrow> nat"
    and inv :: "'s \<Rightarrow> bool"
  assumes push_hist: "inv s \<Longrightarrow> hist (push x s) = last_n (cap s) (hist s @ [x])"
    and push_inv: "inv s \<Longrightarrow> inv (push x s)"
    and push_cap: "inv s \<Longrightarrow> cap (push x s) = cap s"
    and cap_pos: "inv s \<Longrightarrow> 0 < cap s"
    and hist_bounded: "inv s \<Longrightarrow> length (hist s) \<le> cap s"
begin

lemma fold_push_inv: "inv s \<Longrightarrow> inv (fold push xs s) \<and> cap (fold push xs s) = cap s"
  by (induction xs arbitrary: s) (simp_all add: push_inv push_cap)

lemma fold_push_bounded: "inv s \<Longrightarrow> length (hist (fold push xs s)) \<le> cap s"
  using fold_push_inv hist_bounded by metis

lemma fold_push_hist: "inv s \<Longrightarrow> hist (fold push xs s) = last_n (cap s) (hist s @ xs)"
proof (induction xs arbitrary: s)
  case Nil
  then show ?case using hist_bounded by simp
next
  case (Cons x xs)
  then have "hist (fold push (x # xs) s) = last_n (cap s) (last_n (cap s) (hist s @ [x]) @ xs)"
    by (simp add: push_hist push_inv push_cap)
  also have "\<dots> = last_n (cap s) (hist s @ x # xs)"
    by (simp add: last_n_append)
  finally show ?case .
qed

lemma push_keeps_newest: "inv s \<Longrightarrow> last (hist (push x s)) = x"
  using cap_pos by (simp add: push_hist last_last_n)

lemma push_nonempty: "inv s \<Longrightarrow> hist (push x s) \<noteq> []"
  using cap_pos by (simp add: push_hist last_last_n)

end

section \<open>Substring tests\<close>

text \<open>\<open>slice s i j\<close> is \<^verbatim>\<open>s[i:j]\<close>.\<close>

definition slice :: "'a list \<Rightarrow> nat \<Rightarrow> nat \<Rightarrow> 'a list" where
  "slice s i j = take (j - i) (drop i s)"

lemma slice_sublist: "slice s i j = t \<Longrightarrow> sublist t s"
  unfolding slice_def using sublist_order.order_trans by (metis sublist_drop sublist_take)

text \<open>
  \<^verbatim>\<open>strings.Contains(s, t)\<close> is \<^term>\<open>sublist t s\<close>. Two files carry their own
  substring test; each is an implementation of the same contract.
\<close>

definition strings_Contains :: "string \<Rightarrow> string \<Rightarrow> bool" where
  "strings_Contains s t \<longleftrightarrow> sublist t s"

definition any_pattern :: "(string \<Rightarrow> string \<Rightarrow> bool) \<Rightarrow> string list \<Rightarrow> string \<Rightarrow> bool" where
  "any_pattern contains pats s \<longleftrightarrow> list_ex (contains s) pats"

locale substring_test =
  fixes contains :: "string \<Rightarrow> string \<Rightarrow> bool"
  assumes contains_iff: "contains s t \<longleftrightarrow> sublist t s"
begin

lemma any_pattern_iff: "any_pattern contains pats s \<longleftrightarrow> (\<exists>p \<in> set pats. sublist p s)"
  by (simp add: any_pattern_def list_ex_iff contains_iff)

lemma any_pattern_mono:
  "sublist s s' \<Longrightarrow> any_pattern contains pats s \<Longrightarrow> any_pattern contains pats s'"
  using sublist_order.order_trans by (force simp: any_pattern_iff)

lemma contains_append: "contains s t \<Longrightarrow> contains (pre @ s @ post) t"
  using contains_iff sublist_appendI sublist_order.order_trans by blast

end

interpretation std: substring_test strings_Contains
  by unfold_locales (simp add: strings_Contains_def)

end
