(* ===== verification/Go_Float.thy ===== *)
theory Go_Float
  imports Go_Prelude "HOL-Library.Log_Nat"
begin

text \<open>
  Go's \<^verbatim>\<open>float64\<close>: the finite values are rationals with a 53-bit significand, every
  operation computes the exact rational result and rounds it to nearest, ties to even,
  with gradual underflow at \<open>2 ^ (- 1074)\<close> and overflow to an infinity. The sign of zero is
  not represented: no source of this development divides by a negative zero or prints one.
  The lemmas are the ones the components need: rounding is monotone, fixes the values that
  are representable, and keeps ratios of counters between 0 and 1.
\<close>

datatype f64 = Fin rat | PInf | NInf | NaN

section \<open>Rounding\<close>

definition pow2 :: "int \<Rightarrow> rat" where
  "pow2 e = (if 0 \<le> e then 2 ^ nat e else 1 / 2 ^ nat (- e))"

lemma pow2_pos [simp]: "0 < pow2 e"
  by (simp add: pow2_def)

lemma pow2_nonneg [simp]: "0 \<le> pow2 e"
  by (simp add: less_imp_le)

lemma pow2_neq0 [simp]: "pow2 e \<noteq> 0"
  by (metis pow2_pos less_irrefl)

lemma pow2_0 [simp]: "pow2 0 = 1"
  by (simp add: pow2_def)

lemma pow2_powi: "pow2 e = 2 powi e"
  unfolding pow2_def power_int_def by (simp add: power_one_over inverse_eq_divide)

lemma pow2_add: "pow2 (a + b) = pow2 a * pow2 b"
  by (simp add: pow2_powi power_int_add)

lemma pow2_Suc: "pow2 (e + 1) = 2 * pow2 e"
  by (simp add: pow2_powi power_int_add)

lemma pow2_mono: "a \<le> b \<Longrightarrow> pow2 a \<le> pow2 b"
  by (simp add: pow2_powi power_int_increasing)

lemma pow2_less_iff: "pow2 a < pow2 b \<longleftrightarrow> a < b"
proof
  assume "pow2 a < pow2 b"
  then show "a < b" using pow2_mono [of b a] by (meson leD not_less)
next
  assume "a < b"
  then show "pow2 a < pow2 b" by (simp add: pow2_powi power_int_strict_increasing)
qed

lemma pow2_diff_int: "b \<le> a \<Longrightarrow> pow2 a / pow2 b = of_int (2 ^ nat (a - b))"
proof -
  assume "b \<le> a"
  have "pow2 a = pow2 (a - b) * pow2 b"
    by (simp add: pow2_add [symmetric])
  with \<open>b \<le> a\<close> show ?thesis
    by (simp add: pow2_def [of "a - b"])
qed

text \<open>The binary exponent of a positive rational.\<close>

definition expo :: "rat \<Rightarrow> int" where
  "expo x = (let (p, q) = quotient_of x; e = bitlen p - bitlen q
             in if pow2 e \<le> x then e else e - 1)"

lemma bitlen_pow2_bounds:
  assumes "0 < (n :: int)"
  shows "pow2 (bitlen n - 1) \<le> of_int n" "of_int n < pow2 (bitlen n)"
proof -
  have b: "0 < bitlen n"
    using assms bitlen_eq_zero_iff [of n] bitlen_nonneg [of n] by linarith
  have n: "2 ^ nat (bitlen n - 1) \<le> n \<and> n < 2 ^ nat (bitlen n)"
    using assms by (rule bitlen_bounds)
  then have "(of_int (2 ^ nat (bitlen n - 1)) :: rat) \<le> of_int n"
    "(of_int n :: rat) < of_int (2 ^ nat (bitlen n))"
    by (simp_all only: of_int_le_iff of_int_less_iff)
  with b show "pow2 (bitlen n - 1) \<le> of_int n" "of_int n < pow2 (bitlen n)"
    by (simp_all add: pow2_def)
qed

lemma expo_bounds:
  assumes "0 < x"
  shows "pow2 (expo x) \<le> x" "x < pow2 (expo x + 1)"
proof -
  obtain p q where pq: "quotient_of x = (p, q)" by fastforce
  have q: "0 < q" using pq by (rule quotient_of_denom_pos)
  have x: "x = of_int p / of_int q" using pq by (rule quotient_of_div)
  have p: "0 < p" using assms q x by (simp add: zero_less_divide_iff)
  define a b where "a = bitlen p" and "b = bitlen q"
  note bp = bitlen_pow2_bounds [OF p, folded a_def] and bq = bitlen_pow2_bounds [OF q, folded b_def]
  have up: "x < pow2 (a - b + 1)"
  proof -
    have "of_int p < pow2 (a - b + 1) * pow2 (b - 1)"
      using bp(2) by (simp add: pow2_add [symmetric])
    also have "\<dots> \<le> pow2 (a - b + 1) * of_int q"
      using bq(1) by (intro mult_left_mono) simp_all
    finally show ?thesis using q by (simp add: x pos_divide_less_eq)
  qed
  have lo: "pow2 (a - b - 1) \<le> x"
  proof -
    have "pow2 (a - b - 1) * of_int q \<le> pow2 (a - b - 1) * pow2 b"
      using bq(2) by (intro mult_left_mono) simp_all
    also have "\<dots> = pow2 (a - 1)" by (simp add: pow2_add [symmetric])
    also have "\<dots> \<le> of_int p" by (rule bp(1))
    finally show ?thesis using q by (simp add: x pos_le_divide_eq)
  qed
  show "pow2 (expo x) \<le> x" "x < pow2 (expo x + 1)"
    using up lo by (auto simp: expo_def pq a_def [symmetric] b_def [symmetric] Let_def)
qed

lemma expo_mono: "0 < x \<Longrightarrow> x \<le> y \<Longrightarrow> expo x \<le> expo y"
proof -
  assume "0 < x" "x \<le> y"
  then have "pow2 (expo x) < pow2 (expo y + 1)"
    using expo_bounds(1) [of x] expo_bounds(2) [of y] by simp
  then show ?thesis by (simp add: pow2_less_iff)
qed

lemma expo_unique: "pow2 e \<le> x \<Longrightarrow> x < pow2 (e + 1) \<Longrightarrow> expo x = e"
proof -
  assume e: "pow2 e \<le> x" "x < pow2 (e + 1)"
  then have "0 < x" using pow2_pos [of e] by (blast intro: less_le_trans)
  note b = expo_bounds [OF this]
  have "pow2 e < pow2 (expo x + 1)" "pow2 (expo x) < pow2 (e + 1)" using e b by simp_all
  then show ?thesis by (simp add: pow2_less_iff)
qed

definition half_even :: "rat \<Rightarrow> int" where
  "half_even y = (let f = \<lfloor>y\<rfloor>; d = y - of_int f
     in if d < 1 / 2 then f else if 1 / 2 < d then f + 1 else if even f then f else f + 1)"

lemma half_even_bounds: "\<lfloor>y\<rfloor> \<le> half_even y" "half_even y \<le> \<lfloor>y\<rfloor> + 1"
  by (auto simp: half_even_def Let_def)

lemma half_even_of_int [simp]: "half_even (of_int n) = n"
  by (simp add: half_even_def)

lemma half_even_ge: "of_int n \<le> y \<Longrightarrow> n \<le> half_even y"
  using half_even_bounds(1) [of y] by (simp add: le_floor_iff [symmetric])

lemma half_even_le: "y \<le> of_int n \<Longrightarrow> half_even y \<le> n"
proof (cases "y = of_int n")
  case False
  assume "y \<le> of_int n"
  with False have "\<lfloor>y\<rfloor> < n" by (simp add: floor_less_iff)
  with half_even_bounds(2) [of y] show ?thesis by simp
qed simp

lemma half_even_mono: "y \<le> z \<Longrightarrow> half_even y \<le> half_even z"
proof (cases "\<lfloor>y\<rfloor> = \<lfloor>z\<rfloor>")
  case True
  assume "y \<le> z"
  with True show ?thesis by (auto simp: half_even_def Let_def)
next
  case False
  assume "y \<le> z"
  then have "\<lfloor>y\<rfloor> \<le> \<lfloor>z\<rfloor>" by (rule floor_mono)
  with False half_even_bounds(2) [of y] half_even_bounds(1) [of z] show ?thesis by linarith
qed

definition ulp_exp :: "rat \<Rightarrow> int" where
  "ulp_exp x = max (expo x - 52) (- 1074)"

text \<open>Rounding a positive rational to the nearest multiple of its unit in the last place.\<close>

definition rnd_pos :: "rat \<Rightarrow> rat" where
  "rnd_pos x = of_int (half_even (x / pow2 (ulp_exp x))) * pow2 (ulp_exp x)"

definition rnd :: "rat \<Rightarrow> f64" where
  "rnd x =
     (if x = 0 then Fin 0
      else if 0 < x then (if pow2 1024 \<le> rnd_pos x then PInf else Fin (rnd_pos x))
      else (if pow2 1024 \<le> rnd_pos (- x) then NInf else Fin (- rnd_pos (- x))))"

lemma ulp_exp_mono: "0 < x \<Longrightarrow> x \<le> y \<Longrightarrow> ulp_exp x \<le> ulp_exp y"
  using expo_mono by (fastforce simp: ulp_exp_def)

lemma rnd_pos_nonneg: "0 < x \<Longrightarrow> 0 \<le> rnd_pos x"
  unfolding rnd_pos_def
  by (intro mult_nonneg_nonneg) (simp_all add: half_even_ge)

lemma rnd_pos_ge_mult:
  assumes "0 < x" "of_int n * pow2 e \<le> x" "ulp_exp x \<le> e"
  shows "of_int n * pow2 e \<le> rnd_pos x"
proof -
  define u where "u = ulp_exp x"
  define k where "k = n * 2 ^ nat (e - u)"
  have k: "of_int n * pow2 e = of_int k * pow2 u"
    using pow2_diff_int [of u e] assms(3) by (simp add: k_def u_def field_simps)
  then have "of_int k \<le> x / pow2 u"
    using assms(2) by (simp add: pos_le_divide_eq)
  then have "k \<le> half_even (x / pow2 u)" by (rule half_even_ge)
  then show ?thesis
    unfolding rnd_pos_def u_def [symmetric] k by (intro mult_right_mono) simp_all
qed

lemma rnd_pos_le_mult:
  assumes "0 < x" "x \<le> of_int n * pow2 e" "ulp_exp x \<le> e"
  shows "rnd_pos x \<le> of_int n * pow2 e"
proof -
  define u where "u = ulp_exp x"
  define k where "k = n * 2 ^ nat (e - u)"
  have k: "of_int n * pow2 e = of_int k * pow2 u"
    using pow2_diff_int [of u e] assms(3) by (simp add: k_def u_def field_simps)
  then have "x / pow2 u \<le> of_int k"
    using assms(2) by (simp add: pos_divide_le_eq)
  then have "half_even (x / pow2 u) \<le> k" by (rule half_even_le)
  then show ?thesis
    unfolding rnd_pos_def u_def [symmetric] k by (intro mult_right_mono) simp_all
qed

lemma rnd_pos_ge_binade: "0 < x \<Longrightarrow> - 1074 \<le> expo x \<Longrightarrow> pow2 (expo x) \<le> rnd_pos x"
  using rnd_pos_ge_mult [of x 1 "expo x"] expo_bounds(1) [of x] by (simp add: ulp_exp_def)

lemma rnd_pos_le_binade: "0 < x \<Longrightarrow> - 1074 \<le> expo x + 1 \<Longrightarrow> rnd_pos x \<le> pow2 (expo x + 1)"
  using rnd_pos_le_mult [of x 1 "expo x + 1"] expo_bounds(2) [of x] by (simp add: ulp_exp_def)

lemma rnd_pos_mono:
  assumes "0 < x" "x \<le> y"
  shows "rnd_pos x \<le> rnd_pos y"
proof (cases "ulp_exp x = ulp_exp y")
  case True
  have "half_even (x / pow2 (ulp_exp y)) \<le> half_even (y / pow2 (ulp_exp y))"
    using assms by (intro half_even_mono divide_right_mono) simp_all
  then show ?thesis
    unfolding rnd_pos_def True by (intro mult_right_mono) simp_all
next
  case False
  then have lt: "ulp_exp x < ulp_exp y" using ulp_exp_mono [OF assms] by simp
  then have e: "expo x < expo y" and y: "- 1074 \<le> expo y - 52" by (auto simp: ulp_exp_def)
  have "rnd_pos x \<le> pow2 (expo y)"
    using rnd_pos_le_mult [of x 1 "expo y"] expo_bounds(2) [OF assms(1)]
      pow2_mono [of "expo x + 1" "expo y"] e y assms(1)
    by (simp add: ulp_exp_def)
  also have "\<dots> \<le> rnd_pos y"
    using rnd_pos_ge_binade [of y] assms y by simp
  finally show ?thesis .
qed


definition representable :: "rat \<Rightarrow> bool" where
  "representable c \<longleftrightarrow> (\<exists>n e. c = of_int n * pow2 e \<and> \<bar>n\<bar> \<le> 2 ^ 53 \<and> - 1074 \<le> e)"

lemma representable_ulp:
  assumes "0 < c" "representable c"
  shows "\<exists>k. c = of_int k * pow2 (ulp_exp c)"
proof -
  obtain n e where c: "c = of_int n * pow2 e" "\<bar>n\<bar> \<le> 2 ^ 53" "- 1074 \<le> e"
    using assms(2) by (auto simp: representable_def)
  have n: "0 < n" using assms(1) c(1) zero_less_mult_pos2 [of "of_int n" "pow2 e"] by simp
  show ?thesis
  proof (cases "n = 2 ^ 53")
    case True
    then have c': "c = pow2 (e + 53)"
      using c(1) by (simp add: pow2_add pow2_def [of 53] mult.commute)
    then have "expo c = e + 53"
      by (intro expo_unique) (simp_all add: pow2_less_iff)
    then have "ulp_exp c \<le> e + 53" using c(3) by (simp add: ulp_exp_def)
    then have "c = of_int (2 ^ nat (e + 53 - ulp_exp c)) * pow2 (ulp_exp c)"
      using pow2_diff_int [of "ulp_exp c" "e + 53"] c' by (simp add: field_simps)
    then show ?thesis by blast
  next
    case False
    then have "n < 2 ^ 53" using c(2) n by simp
    then have "(of_int n :: rat) < of_int (2 ^ 53)" by (simp only: of_int_less_iff)
    then have "(of_int n :: rat) < pow2 53" by (simp add: pow2_def)
    then have "c < pow2 53 * pow2 e"
      unfolding c(1) by (rule mult_strict_right_mono) simp
    then have "pow2 (expo c) < pow2 (53 + e)"
      using expo_bounds(1) [OF assms(1)] by (simp add: pow2_add)
    then have u: "ulp_exp c \<le> e" using c(3) by (simp add: pow2_less_iff ulp_exp_def)
    then have "c = of_int (n * 2 ^ nat (e - ulp_exp c)) * pow2 (ulp_exp c)"
      using pow2_diff_int [of "ulp_exp c" e] c(1) by (simp add: field_simps)
    then show ?thesis by blast
  qed
qed

lemma rnd_pos_representable: "0 < c \<Longrightarrow> representable c \<Longrightarrow> rnd_pos c = c"
proof -
  assume "0 < c" "representable c"
  then obtain k where "c / pow2 (ulp_exp c) = of_int k"
    using representable_ulp [of c] by (auto simp: divide_eq_eq)
  moreover from this have "c = of_int k * pow2 (ulp_exp c)" by (simp add: divide_eq_eq)
  ultimately show ?thesis unfolding rnd_pos_def by simp
qed

text \<open>Rounding never crosses a representable value.\<close>

lemma rnd_pos_ge: "0 < c \<Longrightarrow> representable c \<Longrightarrow> c \<le> x \<Longrightarrow> c \<le> rnd_pos x"
  using rnd_pos_mono [of c x] rnd_pos_representable [of c] by simp

lemma rnd_pos_le: "0 < x \<Longrightarrow> representable c \<Longrightarrow> x \<le> c \<Longrightarrow> rnd_pos x \<le> c"
  using rnd_pos_mono [of x c] rnd_pos_representable [of c] by simp

lemma representable_int: "\<bar>n\<bar> \<le> 2 ^ 53 \<Longrightarrow> representable (of_int n)"
  unfolding representable_def by (intro exI [of _ n] exI [of _ 0]) simp

lemma representable_pow2: "- 1074 \<le> e \<Longrightarrow> representable (pow2 e)"
  unfolding representable_def by (intro exI [of _ 1] exI [of _ e]) simp

section \<open>Operations\<close>

definition float64 :: "int \<Rightarrow> f64" where
  "float64 n = rnd (of_int n)"

text \<open>
  A literal of the source: the decimal value rounded once, at compile time.
\<close>

definition flit :: "rat \<Rightarrow> f64" where
  "flit x = rnd x"

fun f_neg :: "f64 \<Rightarrow> f64" where
  "f_neg (Fin x) = Fin (- x)"
| "f_neg PInf = NInf"
| "f_neg NInf = PInf"
| "f_neg NaN = NaN"

fun f_add :: "f64 \<Rightarrow> f64 \<Rightarrow> f64" where
  "f_add (Fin x) (Fin y) = rnd (x + y)"
| "f_add NaN y = NaN"
| "f_add x NaN = NaN"
| "f_add PInf NInf = NaN"
| "f_add NInf PInf = NaN"
| "f_add PInf y = PInf"
| "f_add NInf y = NInf"
| "f_add x PInf = PInf"
| "f_add x NInf = NInf"

definition f_sub :: "f64 \<Rightarrow> f64 \<Rightarrow> f64" where
  "f_sub x y = f_add x (f_neg y)"

definition inf_of_sign :: "rat \<Rightarrow> f64" where
  "inf_of_sign x = (if x = 0 then NaN else if 0 < x then PInf else NInf)"

fun f_mul :: "f64 \<Rightarrow> f64 \<Rightarrow> f64" where
  "f_mul (Fin x) (Fin y) = rnd (x * y)"
| "f_mul NaN y = NaN"
| "f_mul x NaN = NaN"
| "f_mul PInf (Fin y) = inf_of_sign y"
| "f_mul NInf (Fin y) = inf_of_sign (- y)"
| "f_mul (Fin x) PInf = inf_of_sign x"
| "f_mul (Fin x) NInf = inf_of_sign (- x)"
| "f_mul PInf PInf = PInf"
| "f_mul NInf NInf = PInf"
| "f_mul PInf NInf = NInf"
| "f_mul NInf PInf = NInf"

text \<open>Dividing by a (positive) zero gives an infinity, zero by zero is not a number.\<close>

fun f_div :: "f64 \<Rightarrow> f64 \<Rightarrow> f64" where
  "f_div (Fin x) (Fin y) = (if y = 0 then inf_of_sign x else rnd (x / y))"
| "f_div NaN y = NaN"
| "f_div x NaN = NaN"
| "f_div PInf (Fin y) = (if 0 \<le> y then PInf else NInf)"
| "f_div NInf (Fin y) = (if 0 \<le> y then NInf else PInf)"
| "f_div (Fin x) y = Fin 0"
| "f_div x y = NaN"

text \<open>Every comparison with NaN is false.\<close>

fun f_lt :: "f64 \<Rightarrow> f64 \<Rightarrow> bool" where
  "f_lt (Fin x) (Fin y) \<longleftrightarrow> x < y"
| "f_lt NaN y \<longleftrightarrow> False"
| "f_lt x NaN \<longleftrightarrow> False"
| "f_lt NInf y \<longleftrightarrow> y \<noteq> NInf"
| "f_lt x PInf \<longleftrightarrow> x \<noteq> PInf"
| "f_lt PInf y \<longleftrightarrow> False"
| "f_lt x NInf \<longleftrightarrow> False"

definition f_le :: "f64 \<Rightarrow> f64 \<Rightarrow> bool" where
  "f_le x y \<longleftrightarrow> f_lt x y \<or> (x = y \<and> x \<noteq> NaN)"

abbreviation f_gt :: "f64 \<Rightarrow> f64 \<Rightarrow> bool" where
  "f_gt x y \<equiv> f_lt y x"

abbreviation f_ge :: "f64 \<Rightarrow> f64 \<Rightarrow> bool" where
  "f_ge x y \<equiv> f_le y x"

lemma f_le_Fin [simp]: "f_le (Fin x) (Fin y) \<longleftrightarrow> x \<le> y"
  by (auto simp: f_le_def)

text \<open>
  Conversion to \<^verbatim>\<open>int64\<close> truncates. Go leaves the result open when the value does not
  fit; \<open>oor\<close> is that implementation-specific result.
\<close>

definition trunc :: "rat \<Rightarrow> int" where
  "trunc x = (if 0 \<le> x then \<lfloor>x\<rfloor> else - \<lfloor>- x\<rfloor>)"

definition to_int64 :: "(f64 \<Rightarrow> int) \<Rightarrow> f64 \<Rightarrow> int" where
  "to_int64 oor x =
     (case x of Fin r \<Rightarrow> (if in_int64 (trunc r) then trunc r else wrap64 (oor x))
      | _ \<Rightarrow> wrap64 (oor x))"

lemma to_int64_in_int64 [simp]: "in_int64 (to_int64 oor x)"
  by (simp add: to_int64_def split: f64.splits)

text \<open>\<^verbatim>\<open>Duration.Seconds\<close>: the whole seconds plus the fraction, each converted.\<close>

definition Seconds :: "Duration \<Rightarrow> f64" where
  "Seconds d = f_add (float64 (go_quot d Second))
                     (f_div (float64 (d - Second * go_quot d Second)) (float64 1000000000))"

section \<open>Rounded results\<close>

lemma rnd_0 [simp]: "rnd 0 = Fin 0"
  by (simp add: rnd_def)

lemma rnd_neg: "rnd (- x) = f_neg (rnd x)"
  by (auto simp: rnd_def)

lemma rnd_representable:
  assumes "representable c" "\<bar>c\<bar> < pow2 1024"
  shows "rnd c = Fin c"
proof -
  have neg: "representable (- c)"
  proof -
    obtain n e where "c = of_int n * pow2 e" "\<bar>n\<bar> \<le> 2 ^ 53" "- 1074 \<le> e"
      using assms(1) by (auto simp: representable_def)
    then show ?thesis
      unfolding representable_def by (intro exI [of _ "- n"] exI [of _ e]) simp
  qed
  consider "c = 0" | "0 < c" | "c < 0" by linarith
  then show ?thesis
  proof cases
    case 2
    then show ?thesis
      using assms rnd_pos_representable [of c] by (simp add: rnd_def)
  next
    case 3
    then show ?thesis
      using assms neg rnd_pos_representable [of "- c"] by (simp add: rnd_def)
  qed simp
qed

lemma pow2_53_less: "n \<le> 2 ^ 53 \<Longrightarrow> (of_int n :: rat) < pow2 1024"
proof -
  assume "n \<le> 2 ^ 53"
  then have "(of_int n :: rat) \<le> of_int (2 ^ 53)" by (simp only: of_int_le_iff)
  also have "\<dots> = pow2 53" by (simp add: pow2_def)
  also have "\<dots> < pow2 1024" by (simp add: pow2_less_iff)
  finally show ?thesis .
qed

lemma float64_exact: "\<bar>n\<bar> \<le> 2 ^ 53 \<Longrightarrow> float64 n = Fin (of_int n)"
proof -
  assume n: "\<bar>n\<bar> \<le> 2 ^ 53"
  then have "\<bar>of_int n :: rat\<bar> < pow2 1024"
    using pow2_53_less [of "\<bar>n\<bar>"] by simp
  then show ?thesis
    unfolding float64_def using n by (intro rnd_representable representable_int)
qed

lemma rnd_unit_interval:
  assumes "0 \<le> x" "x \<le> 1"
  shows "\<exists>r. rnd x = Fin r \<and> 0 \<le> r \<and> r \<le> 1"
proof (cases "x = 0")
  case False
  with assms have x: "0 < x" by simp
  have one: "representable 1" using representable_pow2 [of 0] by simp
  have le: "rnd_pos x \<le> 1" using x one assms(2) by (rule rnd_pos_le)
  moreover have "(1 :: rat) < pow2 1024"
    using pow2_less_iff [of 0 1024] by simp
  ultimately have "rnd x = Fin (rnd_pos x)" using x by (simp add: rnd_def)
  with le rnd_pos_nonneg [OF x] show ?thesis by blast
qed simp

lemma float64_int64:
  assumes "0 \<le> n" "n < 2 ^ 63"
  shows "float64 n = Fin (if n = 0 then 0 else rnd_pos (of_int n))"
proof (cases "n = 0")
  case False
  with assms(1) have n: "0 < n" by simp
  have "(of_int n :: rat) \<le> of_int (2 ^ 63)" using assms(2) by (simp only: of_int_le_iff)
  then have "of_int n \<le> pow2 63" by (simp add: pow2_def)
  then have "rnd_pos (of_int n) \<le> pow2 63"
    using n by (intro rnd_pos_le representable_pow2) simp_all
  also have "\<dots> < pow2 1024" by (simp add: pow2_less_iff)
  finally show ?thesis using n by (simp add: float64_def rnd_def)
qed (simp add: float64_def)

text \<open>The rate \<open>float64 (a) / float64 (b)\<close> of a part \<open>a\<close> of \<open>b\<close> lies between 0 and 1.\<close>

lemma rate_unit_interval:
  assumes "0 \<le> a" "a \<le> b" "0 < b" "b < 2 ^ 63"
  shows "\<exists>r. f_div (float64 a) (float64 b) = Fin r \<and> 0 \<le> r \<and> r \<le> 1"
proof -
  define fa where "fa = (if a = 0 then 0 else rnd_pos (of_int a))"
  define fb where "fb = rnd_pos (of_int b)"
  have b: "1 \<le> fb"
    unfolding fb_def using assms(3) representable_pow2 [of 0] by (intro rnd_pos_ge) simp_all
  have a: "0 \<le> fa" using assms(1) rnd_pos_nonneg [of "of_int a"] by (simp add: fa_def)
  have ab: "fa \<le> fb"
    unfolding fa_def fb_def
    using assms b rnd_pos_mono [of "of_int a" "of_int b"] rnd_pos_nonneg [of "of_int b"] by simp
  have "f_div (float64 a) (float64 b) = rnd (fa / fb)"
    using assms b float64_int64 [of a] float64_int64 [of b] by (simp add: fa_def fb_def)
  moreover have "0 \<le> fa / fb" "fa / fb \<le> 1" using a b ab by simp_all
  ultimately show ?thesis using rnd_unit_interval by presburger
qed

text \<open>
  Comparing such a rate with one half decides the exact comparison of the counters as
  long as they are exact in \<^verbatim>\<open>float64\<close>.
\<close>

lemma flit_half [simp]: "flit (1 / 2) = Fin (1 / 2)"
proof -
  have h: "(1 / 2 :: rat) = pow2 (- 1)" by (simp add: pow2_def)
  show ?thesis
    unfolding flit_def h by (intro rnd_representable representable_pow2) (simp_all add: pow2_less_iff)
qed

lemma rate_ge_pow2_iff:
  assumes "0 \<le> a" "0 < b" "a \<le> 2 ^ 53" "b \<le> 2 ^ 53" "k \<le> 1000"
  shows "f_ge (f_div (float64 a) (float64 b)) (Fin (pow2 (- int k))) \<longleftrightarrow> b \<le> 2 ^ k * a"
proof -
  define x :: rat where "x = of_int a / of_int b"
  define h :: rat where "h = pow2 (- int k)"
  have div: "f_div (float64 a) (float64 b) = rnd x"
    using assms by (simp add: float64_exact x_def)
  have h: "0 < h" "h * 2 ^ k = 1" "h \<le> 1" by (simp_all add: h_def pow2_def)
  have rep: "representable h" unfolding h_def using assms(5) by (intro representable_pow2) simp
  have b0: "(0 :: rat) < of_int b" using assms(2) by simp
  show ?thesis
  proof (cases "b \<le> 2 ^ k * a")
    case True
    then have "(of_int b :: rat) \<le> of_int (2 ^ k * a)" by (simp only: of_int_le_iff)
    then have "h * of_int b \<le> h * 2 ^ k * of_int a" using h(1) by (simp add: mult.assoc)
    then have x: "h \<le> x" using b0 h(2) by (simp add: x_def le_divide_eq)
    have "h \<le> rnd_pos x" using x rep h by (intro rnd_pos_ge) simp_all
    with x h have "f_ge (rnd x) (Fin h)" by (auto simp: rnd_def f_le_def)
    with True show ?thesis by (simp add: div h_def)
  next
    case False
    then have "2 ^ k * a \<le> b - 1" by simp
    then have "(of_int (2 ^ k * a) :: rat) \<le> of_int (b - 1)" by (simp only: of_int_le_iff)
    then have "h * (2 ^ k * of_int a) \<le> h * (of_int b - 1)" using h(1) by simp
    then have ab: "of_int a \<le> h * (of_int b - 1)" using h(2) by (simp flip: mult.assoc)
    define c :: rat where "c = h * (1 - 1 / 2 ^ 53)"
    have "x \<le> h * (of_int b - 1) / of_int b" using ab b0 by (simp add: x_def divide_right_mono)
    also have "\<dots> = h * (1 - 1 / of_int b)" using b0 by (simp add: field_simps)
    also have "\<dots> \<le> c"
    proof -
      have "(of_int b :: rat) \<le> of_int (2 ^ 53)" using assms(4) by (simp only: of_int_le_iff)
      then have "1 / (2 ^ 53) \<le> 1 / (of_int b :: rat)" using b0 by (intro divide_left_mono) simp_all
      then show ?thesis unfolding c_def using h(1) by (intro mult_left_mono) simp_all
    qed
    finally have xc: "x \<le> c" .
    have "pow2 (- int k - 53) = h / 2 ^ 53"
      by (simp add: h_def pow2_add [of "- int k" "- 53", simplified]) (simp add: pow2_def)
    then have "c = of_int (2 ^ 53 - 1) * pow2 (- int k - 53)"
      by (simp add: c_def field_simps)
    then have rc: "representable c"
      unfolding representable_def using assms(5)
      by (intro exI [of _ "2 ^ 53 - 1"] exI [of _ "- int k - 53"]) simp
    have c1: "c < h" using h(1) by (simp add: c_def)
    have "\<not> f_ge (rnd x) (Fin h)"
    proof (cases "x = 0")
      case F: False
      have "0 \<le> x" using assms by (simp add: x_def)
      with F have x: "0 < x" by simp
      have r: "rnd_pos x \<le> c" using x rc xc by (rule rnd_pos_le)
      moreover have "c < pow2 1024"
      proof -
        have "(1 :: rat) < pow2 1024" using pow2_less_iff [of 0 1024] by (simp add: pow2_def [of 0])
        with c1 h(3) show ?thesis by linarith
      qed
      ultimately show ?thesis using x c1 by (simp add: rnd_def)
    qed (use h in simp)
    with False show ?thesis by (simp add: div h_def)
  qed
qed

lemma rate_ge_half_iff:
  assumes "0 \<le> a" "0 < b" "a \<le> 2 ^ 53" "b \<le> 2 ^ 53"
  shows "f_ge (f_div (float64 a) (float64 b)) (flit (1 / 2)) \<longleftrightarrow> b \<le> 2 * a"
  using rate_ge_pow2_iff [of a b 1] assms by (simp add: pow2_def)

lemma rate_ge_quarter_iff:
  assumes "0 \<le> a" "0 < b" "a \<le> 2 ^ 53" "b \<le> 2 ^ 53"
  shows "f_ge (f_div (float64 a) (float64 b)) (Fin (1 / 4)) \<longleftrightarrow> b \<le> 4 * a"
  using rate_ge_pow2_iff [of a b 2] assms by (simp add: pow2_def)

lemma flit_tenths:
  assumes "0 < n" "n \<le> (10 :: int)"
  obtains r where "flit (of_int n / 10) = Fin r" "0 < r" "r \<le> of_int n / 10 + 1 / 8"
proof -
  define x :: rat where "x = of_int n / 10"
  have x: "0 < x" "x \<le> 1" using assms by (simp_all add: x_def)
  define k where "k = \<lfloor>8 * x\<rfloor> + 1"
  have "0 \<le> k" "k \<le> 9" using x by (simp_all add: k_def floor_le_iff)
  then have rep: "representable (of_int k * pow2 (- 3))"
    unfolding representable_def by (intro exI [of _ k] exI [of _ "- 3"]) simp
  have p: "pow2 (- 3) = 1 / 8" by (simp add: pow2_def)
  have "x \<le> of_int k * pow2 (- 3)" "of_int k * pow2 (- 3) \<le> x + 1 / 8"
    unfolding p k_def by (simp_all add: field_simps) linarith+
  then have up: "rnd_pos x \<le> x + 1 / 8" using rnd_pos_le [OF x(1) rep] by simp
  have "1 / 16 \<le> x" using assms by (simp add: x_def)
  moreover have q: "pow2 (- 4) = (1 / 16 :: rat)" by (simp add: pow2_def)
  ultimately have lo: "1 / 16 \<le> rnd_pos x"
    using rnd_pos_ge [of "1 / 16" x] representable_pow2 [of "- 4", unfolded q] by simp
  have "x + 1 / 8 < pow2 1024" using x pow2_less_iff [of 1 1024] by (simp add: pow2_def [of 1])
  then have "flit x = Fin (rnd_pos x)" using x up by (simp add: flit_def rnd_def)
  then show ?thesis using that up lo by (simp add: x_def)
qed

lemma rnd_pos_Fin: "0 < x \<Longrightarrow> rnd_pos x \<le> c \<Longrightarrow> c \<le> pow2 1023 \<Longrightarrow> rnd x = Fin (rnd_pos x)"
proof -
  assume "0 < x" "rnd_pos x \<le> c" "c \<le> pow2 1023"
  moreover have "pow2 1023 < pow2 1024" by (simp add: pow2_less_iff)
  ultimately show ?thesis by (simp add: rnd_def)
qed

lemma rnd_bounded_int:
  assumes "0 \<le> x" "x \<le> of_int n" "n \<le> 2 ^ 53"
  shows "\<exists>r. rnd x = Fin r \<and> 0 \<le> r \<and> r \<le> of_int n"
proof (cases "x = 0")
  case False
  then have x: "0 < x" using assms(1) by simp
  have "0 \<le> n" using assms(1, 2) by (metis of_int_0_le_iff order_trans)
  then have "rnd_pos x \<le> of_int n" using x assms(2, 3) representable_int [of n] by (intro rnd_pos_le) simp_all
  moreover have "(of_int n :: rat) < pow2 1024" using assms(3) by (rule pow2_53_less)
  ultimately show ?thesis using x rnd_pos_nonneg [OF x] by (auto simp: rnd_def)
qed (use assms in simp)

lemma rnd_nonneg_cases:
  assumes "0 \<le> x"
  obtains "rnd x = PInf" | r where "rnd x = Fin r" "0 \<le> r"
proof (cases "x = 0")
  case False
  then have "0 < x" using assms by simp
  then show ?thesis using that rnd_pos_nonneg [of x] by (cases "pow2 1024 \<le> rnd_pos x") (auto simp: rnd_def)
qed (use that in simp)

end
