(* ===== verification/Go_Fmt.thy ===== *)
theory Go_Fmt
  imports Go_Float
begin

text \<open>
  The verbs of \<^verbatim>\<open>fmt.Sprintf\<close> and \<^verbatim>\<open>fmt.Errorf\<close> that the modelled sources use: \<open>%d\<close> on
  integers, \<open>%.1f\<close> and \<open>%.2f\<close> on a \<^verbatim>\<open>float64\<close> (correctly rounded) and \<open>%v\<close> on a \<^verbatim>\<open>time.Duration\<close> (\<^verbatim>\<open>Duration.String\<close>). Strings are byte lists,
  as Go's are.
\<close>

definition digit_char :: "nat \<Rightarrow> char" where
  "digit_char d = ''0123456789'' ! (d mod 10)"

fun show_nat :: "nat \<Rightarrow> string" where
  "show_nat n = (if n < 10 then [digit_char n] else show_nat (n div 10) @ [digit_char (n mod 10)])"

declare show_nat.simps [simp del]

definition show_int :: "int \<Rightarrow> string" where
  "show_int n = (if n < 0 then ''-'' @ show_nat (nat (- n)) else show_nat (nat n))"

definition show_bool :: "bool \<Rightarrow> string" where
  "show_bool b = (if b then ''true'' else ''false'')"

text \<open>The \<open>prec\<close> low decimal digits of \<open>v\<close> as a fraction, without trailing zeros.\<close>

fun strip_zeros :: "nat \<Rightarrow> nat \<Rightarrow> nat \<times> nat" where
  "strip_zeros v p =
     (if p = 0 then (v, 0) else if v mod 10 = 0 then strip_zeros (v div 10) (p - 1) else (v, p))"

fun pad_digits :: "nat \<Rightarrow> nat \<Rightarrow> string" where
  "pad_digits v p = (if p = 0 then [] else pad_digits (v div 10) (p - 1) @ [digit_char (v mod 10)])"

declare strip_zeros.simps [simp del] pad_digits.simps [simp del]

definition fmt_frac :: "nat \<Rightarrow> nat \<Rightarrow> string" where
  "fmt_frac v prec =
     (let (w, p) = strip_zeros (v mod 10 ^ prec) prec
      in if p = 0 then [] else ''.'' @ pad_digits w p)"

definition Duration_String :: "Duration \<Rightarrow> string" where
  "Duration_String d =
     (let u = nat \<bar>d\<bar>; sign = (if d < 0 then ''-'' else []) in
      if u = 0 then ''0s''
      else if u < 1000 then sign @ show_nat u @ ''ns''
      else if u < 1000000
        then sign @ show_nat (u div 1000) @ fmt_frac u 3 @ [CHR 0xC2, CHR 0xB5, CHR ''s'']
      else if u < 1000000000 then sign @ show_nat (u div 1000000) @ fmt_frac u 6 @ ''ms''
      else let s = u div 1000000000; m = s div 60; h = m div 60
           in sign @ (if h = 0 then [] else show_nat h @ ''h'') @
              (if m = 0 then [] else show_nat (m mod 60) @ ''m'') @
              show_nat (s mod 60) @ fmt_frac u 9 @ ''s'')"

definition fmt_fixed :: "nat \<Rightarrow> f64 \<Rightarrow> string" where
  "fmt_fixed p x =
     (case x of
        NaN \<Rightarrow> ''NaN'' | PInf \<Rightarrow> ''+Inf'' | NInf \<Rightarrow> ''-Inf''
      | Fin r \<Rightarrow>
          let n = nat (half_even (\<bar>r\<bar> * 10 ^ p))
          in (if r < 0 then ''-'' else []) @ show_nat (n div 10 ^ p) @ ''.'' @ pad_digits (n mod 10 ^ p) p)"

text \<open>\<^verbatim>\<open>%v\<close> of a slice of strings or errors, given the texts of its elements.\<close>

definition show_strings :: "string list \<Rightarrow> string" where
  "show_strings xs = ''['' @ concat (map (\<lambda>(i, x). (if i = 0 then [] else '' '') @ x) (enumerate 0 xs)) @ '']''"

lemmas fmt_simps = Duration_String_def show_int_def show_bool_def fmt_frac_def show_nat.simps
  digit_char_def Let_def strip_zeros.simps pad_digits.simps

lemma Duration_String_500ms: "Duration_String (500 * Millisecond) = ''500ms''"
  by (simp add: fmt_simps)

lemma Duration_String_90s: "Duration_String (90 * Second) = ''1m30s''"
  by (simp add: fmt_simps)

lemma Duration_String_1_5s: "Duration_String (1500 * Millisecond) = ''1.5s''"
  by (simp add: fmt_simps)

end
