(* ===== verification/Error_Types.thy ===== *)
theory Error_Types
  imports Go_Fmt Go_Float
begin

text \<open>
  The structured errors of \<^verbatim>\<open>internal/diagnostics/error_types.go\<close> and the severities of
  \<^verbatim>\<open>engine.go\<close>. A Go \<^verbatim>\<open>error\<close> is a tree: a plain text, a text that wraps another error
  with \<^verbatim>\<open>%w\<close>, one of the two context sentinels, or a \<^verbatim>\<open>*DiagnosticError\<close>.
\<close>

section \<open>Severities, types and codes\<close>

type_synonym Severity = int

definition SeverityInfo :: Severity where "SeverityInfo = 0"
definition SeverityWarning :: Severity where "SeverityWarning = 1"
definition SeverityError :: Severity where "SeverityError = 2"
definition SeverityCritical :: Severity where "SeverityCritical = 3"

lemmas severity_defs = SeverityInfo_def SeverityWarning_def SeverityError_def SeverityCritical_def

datatype ErrorType =
    ErrTypeGeneric | ErrTypeConnection | ErrTypeResource | ErrTypeNetwork | ErrTypeSystem
  | ErrTypeContext | ErrTypeCircuitBreaker

fun ErrorType_num :: "ErrorType \<Rightarrow> int" where
  "ErrorType_num ErrTypeGeneric = 0"
| "ErrorType_num ErrTypeConnection = 1"
| "ErrorType_num ErrTypeResource = 2"
| "ErrorType_num ErrTypeNetwork = 3"
| "ErrorType_num ErrTypeSystem = 4"
| "ErrorType_num ErrTypeContext = 5"
| "ErrorType_num ErrTypeCircuitBreaker = 6"

text \<open>
  The error codes as the constant block computes them: the formula of the first constant of
  each group, with the value of \<^verbatim>\<open>iota\<close> at the constant's line.
\<close>

type_synonym ErrorCode = int

definition code_at :: "int \<Rightarrow> int \<Rightarrow> int \<Rightarrow> ErrorCode" where
  "code_at base offset iota = base + iota - offset"

abbreviation (input) ErrCodeGeneric :: ErrorCode where "ErrCodeGeneric \<equiv> 0"
abbreviation (input) ErrCodeUnknown :: ErrorCode where "ErrCodeUnknown \<equiv> 1"
abbreviation (input) ErrCodeInternal :: ErrorCode where "ErrCodeInternal \<equiv> 2"
abbreviation (input) ErrCodeDockerDaemonUnreachable :: ErrorCode where "ErrCodeDockerDaemonUnreachable \<equiv> code_at 1000 3 3"
abbreviation (input) ErrCodeDockerAPIVersionMismatch :: ErrorCode where "ErrCodeDockerAPIVersionMismatch \<equiv> code_at 1000 3 4"
abbreviation (input) ErrCodeDockerPermissionDenied :: ErrorCode where "ErrCodeDockerPermissionDenied \<equiv> code_at 1000 3 5"
abbreviation (input) ErrCodeDockerSocketNotFound :: ErrorCode where "ErrCodeDockerSocketNotFound \<equiv> code_at 1000 3 6"
abbreviation (input) ErrCodeDockerDaemonNotRunning :: ErrorCode where "ErrCodeDockerDaemonNotRunning \<equiv> code_at 1000 3 7"
abbreviation (input) ErrCodeResourceExhaustion :: ErrorCode where "ErrCodeResourceExhaustion \<equiv> code_at 1100 8 8"
abbreviation (input) ErrCodeOutOfMemory :: ErrorCode where "ErrCodeOutOfMemory \<equiv> code_at 1100 8 9"
abbreviation (input) ErrCodeOutOfDiskSpace :: ErrorCode where "ErrCodeOutOfDiskSpace \<equiv> code_at 1100 8 10"
abbreviation (input) ErrCodeTooManyOpenFiles :: ErrorCode where "ErrCodeTooManyOpenFiles \<equiv> code_at 1100 8 11"
abbreviation (input) ErrCodeResourceConflict :: ErrorCode where "ErrCodeResourceConflict \<equiv> code_at 1100 8 12"
abbreviation (input) ErrCodeContainerLimitReached :: ErrorCode where "ErrCodeContainerLimitReached \<equiv> code_at 1100 8 13"
abbreviation (input) ErrCodeNetworkConfiguration :: ErrorCode where "ErrCodeNetworkConfiguration \<equiv> code_at 1200 14 14"
abbreviation (input) ErrCodeNetworkNotFound :: ErrorCode where "ErrCodeNetworkNotFound \<equiv> code_at 1200 14 15"
abbreviation (input) ErrCodeNetworkConflict :: ErrorCode where "ErrCodeNetworkConflict \<equiv> code_at 1200 14 16"
abbreviation (input) ErrCodeSubnetOverlap :: ErrorCode where "ErrCodeSubnetOverlap \<equiv> code_at 1200 14 17"
abbreviation (input) ErrCodeDNSResolutionFailed :: ErrorCode where "ErrCodeDNSResolutionFailed \<equiv> code_at 1200 14 18"
abbreviation (input) ErrCodePortConflict :: ErrorCode where "ErrCodePortConflict \<equiv> code_at 1200 14 19"
abbreviation (input) ErrCodeBridgeConfigError :: ErrorCode where "ErrCodeBridgeConfigError \<equiv> code_at 1200 14 20"
abbreviation (input) ErrCodeIPForwardingDisabled :: ErrorCode where "ErrCodeIPForwardingDisabled \<equiv> code_at 1200 14 21"
abbreviation (input) ErrCodeIptablesConfigError :: ErrorCode where "ErrCodeIptablesConfigError \<equiv> code_at 1200 14 22"
abbreviation (input) ErrCodeMTUMismatch :: ErrorCode where "ErrCodeMTUMismatch \<equiv> code_at 1200 14 23"
abbreviation (input) ErrCodeSystemConfiguration :: ErrorCode where "ErrCodeSystemConfiguration \<equiv> code_at 1300 24 24"
abbreviation (input) ErrCodePermissionError :: ErrorCode where "ErrCodePermissionError \<equiv> code_at 1300 24 25"
abbreviation (input) ErrCodeServiceNotRunning :: ErrorCode where "ErrCodeServiceNotRunning \<equiv> code_at 1300 24 26"
abbreviation (input) ErrCodeConfigurationMissing :: ErrorCode where "ErrCodeConfigurationMissing \<equiv> code_at 1300 24 27"
abbreviation (input) ErrCodeDependencyMissing :: ErrorCode where "ErrCodeDependencyMissing \<equiv> code_at 1300 24 28"
abbreviation (input) ErrCodeTimeout :: ErrorCode where "ErrCodeTimeout \<equiv> code_at 1400 29 29"
abbreviation (input) ErrCodeCancelled :: ErrorCode where "ErrCodeCancelled \<equiv> code_at 1400 29 30"
abbreviation (input) ErrCodeDeadlineExceeded :: ErrorCode where "ErrCodeDeadlineExceeded \<equiv> code_at 1400 29 31"
abbreviation (input) ErrCodeContextExpired :: ErrorCode where "ErrCodeContextExpired \<equiv> code_at 1400 29 32"
abbreviation (input) ErrCodeCircuitBreakerOpen :: ErrorCode where "ErrCodeCircuitBreakerOpen \<equiv> code_at 1500 33 33"
abbreviation (input) ErrCodeTooManyFailures :: ErrorCode where "ErrCodeTooManyFailures \<equiv> code_at 1500 33 34"
abbreviation (input) ErrCodeServiceUnavailable :: ErrorCode where "ErrCodeServiceUnavailable \<equiv> code_at 1500 33 35"

text \<open>The named codes, each with the text \<^verbatim>\<open>GetCodeString\<close> gives it.\<close>

definition code_table :: "(ErrorCode \<times> string) list" where
  "code_table =
    [(ErrCodeDockerDaemonUnreachable, ''Docker Daemon Unreachable''),
     (ErrCodeDockerAPIVersionMismatch, ''Docker API Version Mismatch''),
     (ErrCodeDockerPermissionDenied, ''Docker Permission Denied''),
     (ErrCodeDockerSocketNotFound, ''Docker Socket Not Found''),
     (ErrCodeDockerDaemonNotRunning, ''Docker Daemon Not Running''),
     (ErrCodeResourceExhaustion, ''Resource Exhaustion''),
     (ErrCodeOutOfMemory, ''Out of Memory''),
     (ErrCodeOutOfDiskSpace, ''Out of Disk Space''),
     (ErrCodeTooManyOpenFiles, ''Too Many Open Files''),
     (ErrCodeResourceConflict, ''Resource Conflict''),
     (ErrCodeContainerLimitReached, ''Container Limit Reached''),
     (ErrCodeNetworkConfiguration, ''Network Configuration Error''),
     (ErrCodeNetworkNotFound, ''Network Not Found''),
     (ErrCodeNetworkConflict, ''Network Conflict''),
     (ErrCodeSubnetOverlap, ''Subnet Overlap''),
     (ErrCodeDNSResolutionFailed, ''DNS Resolution Failed''),
     (ErrCodePortConflict, ''Port Conflict''),
     (ErrCodeBridgeConfigError, ''Bridge Configuration Error''),
     (ErrCodeIPForwardingDisabled, ''IP Forwarding Disabled''),
     (ErrCodeIptablesConfigError, ''Iptables Configuration Error''),
     (ErrCodeMTUMismatch, ''MTU Mismatch''),
     (ErrCodeSystemConfiguration, ''System Configuration Error''),
     (ErrCodePermissionError, ''Permission Error''),
     (ErrCodeServiceNotRunning, ''Service Not Running''),
     (ErrCodeConfigurationMissing, ''Configuration Missing''),
     (ErrCodeDependencyMissing, ''Dependency Missing''),
     (ErrCodeTimeout, ''Timeout''),
     (ErrCodeCancelled, ''Cancelled''),
     (ErrCodeDeadlineExceeded, ''Deadline Exceeded''),
     (ErrCodeContextExpired, ''Context Expired''),
     (ErrCodeCircuitBreakerOpen, ''Circuit Breaker Open''),
     (ErrCodeTooManyFailures, ''Too Many Failures''),
     (ErrCodeServiceUnavailable, ''Service Unavailable'')]"

section \<open>Error values\<close>

record RecoveryStrategy =
  RetryWithBackoff :: bool
  rs_BackoffMultiplier :: f64
  rs_MaxRetries :: int
  CleanupResources :: bool
  GracefulDegrade :: bool
  NetworkRecovery :: bool
  Immediate :: "string list"
  LongTerm :: "string list"
  Commands :: "string list"
  AutoRecovery :: bool
  RequiresUser :: bool

definition empty_strategy :: RecoveryStrategy where
  "empty_strategy =
     \<lparr>RetryWithBackoff = False, rs_BackoffMultiplier = Fin 0, rs_MaxRetries = 0,
      CleanupResources = False, GracefulDegrade = False, NetworkRecovery = False,
      Immediate = [], LongTerm = [], Commands = [], AutoRecovery = False, RequiresUser = False\<rparr>"

text \<open>A value of type \<^verbatim>\<open>interface{}\<close>, as far as the sources store one.\<close>

datatype context_value =
    CtxString string
  | CtxTime Time
  | CtxBool bool
  | CtxInt int
  | CtxStrings "string list"
  | CtxMap "(string \<times> context_value) list"

datatype goerror =
    ErrorString string
  | Errorf string goerror string
  | Canceled
  | DeadlineExceeded
  | Diag DiagnosticError
and DiagnosticError = DiagnosticError
    (Code: ErrorCode)
    (err_Type: ErrorType)
    (Message: string)
    (Original: "goerror option")
    (err_Severity: Severity)
    (Category: string)
    (err_Context: "(string \<times> context_value) list option")
    (Timestamp: Time)
    (err_Source: string)
    (Recovery: "RecoveryStrategy option")
    (RecoveryAttempted: bool)
    (RecoveryError: string)
    (Tags: "string list")
    (UserAction: string)
    (Reference: string)

fun Error :: "goerror \<Rightarrow> string" and DiagnosticError_Error :: "DiagnosticError \<Rightarrow> string" where
  "Error (ErrorString s) = s"
| "Error (Errorf pre e post) = pre @ Error e @ post"
| "Error Canceled = ''context canceled''"
| "Error DeadlineExceeded = ''context deadline exceeded''"
| "Error (Diag d) = DiagnosticError_Error d"
| "DiagnosticError_Error (DiagnosticError c t m orig sev cat ctx ts src rec att rerr tags ua ref) =
     (if m \<noteq> [] then m
      else case orig of Some e \<Rightarrow> Error e
           | None \<Rightarrow> ''diagnostic error (code: '' @ show_int c @ '', type: '' @
                     show_int (ErrorType_num t) @ '')'')"

definition Unwrap :: "goerror \<Rightarrow> goerror option" where
  "Unwrap e = (case e of Errorf _ e' _ \<Rightarrow> Some e' | Diag d \<Rightarrow> Original d | _ \<Rightarrow> None)"

text \<open>\<^verbatim>\<open>errors.Is\<close> with a context sentinel as target.\<close>

fun errors_Is :: "goerror \<Rightarrow> goerror \<Rightarrow> bool" and errors_Is_diag :: "goerror \<Rightarrow> DiagnosticError \<Rightarrow> bool" where
  "errors_Is target (ErrorString s) \<longleftrightarrow> target = ErrorString s"
| "errors_Is target (Errorf pre e post) \<longleftrightarrow> target = Errorf pre e post \<or> errors_Is target e"
| "errors_Is target Canceled \<longleftrightarrow> target = Canceled"
| "errors_Is target DeadlineExceeded \<longleftrightarrow> target = DeadlineExceeded"
| "errors_Is target (Diag d) \<longleftrightarrow> target = Diag d \<or> errors_Is_diag target d"
| "errors_Is_diag target (DiagnosticError c t m orig sev cat ctx ts src rec att rerr tags ua ref) \<longleftrightarrow>
     (case orig of Some e \<Rightarrow> errors_Is target e | None \<Rightarrow> False)"

definition mk_diag :: "ErrorCode \<Rightarrow> ErrorType \<Rightarrow> string \<Rightarrow> goerror option \<Rightarrow> Severity \<Rightarrow>
    (string \<times> context_value) list \<Rightarrow> Time \<Rightarrow> RecoveryStrategy option \<Rightarrow> DiagnosticError" where
  "mk_diag c t m orig sev ctx ts rec =
     DiagnosticError c t m orig sev [] (Some ctx) ts [] rec False [] [] [] []"

section \<open>Methods of DiagnosticError\<close>

definition GetSeverityString :: "DiagnosticError \<Rightarrow> string" where
  "GetSeverityString e =
     (if err_Severity e = SeverityInfo then ''INFO''
      else if err_Severity e = SeverityWarning then ''WARNING''
      else if err_Severity e = SeverityError then ''ERROR''
      else if err_Severity e = SeverityCritical then ''CRITICAL''
      else ''UNKNOWN'')"

definition GetTypeString :: "DiagnosticError \<Rightarrow> string" where
  "GetTypeString e =
     (case err_Type e of
        ErrTypeConnection \<Rightarrow> ''Connection''
      | ErrTypeResource \<Rightarrow> ''Resource''
      | ErrTypeNetwork \<Rightarrow> ''Network''
      | ErrTypeSystem \<Rightarrow> ''System''
      | ErrTypeContext \<Rightarrow> ''Context''
      | ErrTypeCircuitBreaker \<Rightarrow> ''Circuit Breaker''
      | ErrTypeGeneric \<Rightarrow> ''Generic'')"

definition GetCodeString :: "DiagnosticError \<Rightarrow> string" where
  "GetCodeString e =
     (case map_of code_table (Code e) of
        Some s \<Rightarrow> s
      | None \<Rightarrow> ''Unknown Error Code ('' @ show_int (Code e) @ '')'')"

definition IsRecoverable :: "DiagnosticError \<Rightarrow> bool" where
  "IsRecoverable e =
     (case err_Type e of
        ErrTypeConnection \<Rightarrow> True
      | ErrTypeResource \<Rightarrow> True
      | ErrTypeNetwork \<Rightarrow> True
      | ErrTypeContext \<Rightarrow> Code e = ErrCodeTimeout
      | ErrTypeSystem \<Rightarrow> Code e \<noteq> ErrCodePermissionError
      | ErrTypeCircuitBreaker \<Rightarrow> True
      | ErrTypeGeneric \<Rightarrow> False)"

definition RequiresUserIntervention :: "DiagnosticError \<Rightarrow> bool" where
  "RequiresUserIntervention e =
     (if Code e = ErrCodeDockerPermissionDenied \<or> Code e = ErrCodePermissionError then True
      else if Code e = ErrCodeDockerDaemonNotRunning \<or> Code e = ErrCodeServiceNotRunning then True
      else if Code e = ErrCodeConfigurationMissing \<or> Code e = ErrCodeDependencyMissing then True
      else if Code e = ErrCodeSubnetOverlap \<or> Code e = ErrCodePortConflict then True
      else err_Severity e = SeverityCritical)"

definition immediate_defaults :: "ErrorType \<Rightarrow> string list" where
  "immediate_defaults t =
     (case t of
        ErrTypeConnection \<Rightarrow>
          [''Check if Docker daemon is running'',
           ''Verify Docker installation and configuration'',
           ''Test Docker connectivity with '' @ [CHR 39] @ ''docker version'' @ [CHR 39]]
      | ErrTypeResource \<Rightarrow>
          [''Free up system resources'',
           ''Check disk space and memory usage'',
           ''Stop unnecessary containers and services'']
      | ErrTypeNetwork \<Rightarrow>
          [''Check network configuration'',
           ''Verify container network connectivity'',
           ''Review Docker network settings'']
      | ErrTypeSystem \<Rightarrow>
          [''Check system configuration'',
           ''Verify required services are running'',
           ''Review system logs for errors'']
      | _ \<Rightarrow> [''Retry the operation'', ''Check system health and connectivity''])"

definition long_term_defaults :: "ErrorType \<Rightarrow> string list" where
  "long_term_defaults t =
     (case t of
        ErrTypeConnection \<Rightarrow>
          [''Monitor Docker daemon health'',
           ''Set up automatic service recovery'',
           ''Implement health checks for Docker services'']
      | ErrTypeResource \<Rightarrow>
          [''Monitor resource usage trends'',
           ''Implement resource limits and quotas'',
           ''Plan for capacity scaling'']
      | ErrTypeNetwork \<Rightarrow>
          [''Review network architecture'',
           ''Monitor network performance'',
           ''Implement network monitoring'']
      | ErrTypeSystem \<Rightarrow>
          [''Regular system maintenance'',
           ''Monitor system health metrics'',
           ''Keep system and dependencies updated'']
      | _ \<Rightarrow> [''Implement comprehensive monitoring'', ''Regular system health checks''])"

definition GetImmediateActions :: "DiagnosticError \<Rightarrow> string list" where
  "GetImmediateActions e =
     (case Recovery e of
        Some r \<Rightarrow> if Immediate r \<noteq> [] then Immediate r else immediate_defaults (err_Type e)
      | None \<Rightarrow> immediate_defaults (err_Type e))"

definition GetLongTermActions :: "DiagnosticError \<Rightarrow> string list" where
  "GetLongTermActions e =
     (case Recovery e of
        Some r \<Rightarrow> if LongTerm r \<noteq> [] then LongTerm r else long_term_defaults (err_Type e)
      | None \<Rightarrow> long_term_defaults (err_Type e))"

text \<open>The values of the map \<^verbatim>\<open>ToMap\<close> builds.\<close>

datatype map_value =
    MapInt int | MapString string | MapTime Time | MapBool bool | MapStrings "string list"
  | MapContext "(string \<times> context_value) list"

definition ToMap :: "DiagnosticError \<Rightarrow> (string, map_value) gomap" where
  "ToMap e =
     [(''code'', MapInt (Code e)), (''type'', MapString (GetTypeString e)),
      (''message'', MapString (Message e)), (''severity'', MapString (GetSeverityString e)),
      (''timestamp'', MapTime (Timestamp e))] @
     (if Category e \<noteq> [] then [(''category'', MapString (Category e))] else []) @
     (if err_Source e \<noteq> [] then [(''source'', MapString (err_Source e))] else []) @
     (case err_Context e of Some ctx \<Rightarrow> [(''context'', MapContext ctx)] | None \<Rightarrow> []) @
     (if RecoveryAttempted e
      then (''recovery_attempted'', MapBool True) #
           (if RecoveryError e \<noteq> [] then [(''recovery_error'', MapString (RecoveryError e))] else [])
      else []) @
     (if Tags e \<noteq> [] then [(''tags'', MapStrings (Tags e))] else []) @
     (if UserAction e \<noteq> [] then [(''user_action'', MapString (UserAction e))] else []) @
     (if Reference e \<noteq> [] then [(''reference'', MapString (Reference e))] else [])"

definition getErrorTypeFromCode :: "ErrorCode \<Rightarrow> ErrorType" where
  "getErrorTypeFromCode code =
     (if 1000 \<le> code \<and> code < 1100 then ErrTypeConnection
      else if 1100 \<le> code \<and> code < 1200 then ErrTypeResource
      else if 1200 \<le> code \<and> code < 1300 then ErrTypeNetwork
      else if 1300 \<le> code \<and> code < 1400 then ErrTypeSystem
      else if 1400 \<le> code \<and> code < 1500 then ErrTypeContext
      else if 1500 \<le> code \<and> code < 1600 then ErrTypeCircuitBreaker
      else ErrTypeGeneric)"

definition getSeverityFromCode :: "ErrorCode \<Rightarrow> Severity" where
  "getSeverityFromCode code =
     (if code = ErrCodeDockerDaemonUnreachable \<or> code = ErrCodeDockerDaemonNotRunning
      then SeverityCritical
      else if code = ErrCodeResourceExhaustion \<or> code = ErrCodeOutOfMemory \<or> code = ErrCodeOutOfDiskSpace
      then SeverityCritical
      else if code = ErrCodePermissionError \<or> code = ErrCodeDockerPermissionDenied then SeverityError
      else if code = ErrCodeTimeout \<or> code = ErrCodeCancelled then SeverityWarning
      else if code = ErrCodeCircuitBreakerOpen then SeverityError
      else SeverityWarning)"

definition NewDiagnosticError :: "Time \<Rightarrow> ErrorCode \<Rightarrow> string \<Rightarrow> DiagnosticError" where
  "NewDiagnosticError now code message =
     mk_diag code (getErrorTypeFromCode code) message None (getSeverityFromCode code) [] now None"

section \<open>Properties\<close>

lemma errors_Is_Errorf: "errors_Is target e \<Longrightarrow> errors_Is target (Errorf pre e post)"
  by simp

text \<open>
  The code table is consistent: the named codes are pairwise distinct, each lies in the
  hundred of its group, so that the type derived from a code is the type of its group, and
  \<^verbatim>\<open>GetCodeString\<close> gives different codes different descriptions.
\<close>

lemma error_code_table_consistent:
  "distinct (map fst code_table) \<and> distinct (map snd code_table) \<and>
   map (\<lambda>(c, _). getErrorTypeFromCode c) code_table =
     replicate 5 ErrTypeConnection @ replicate 6 ErrTypeResource @ replicate 10 ErrTypeNetwork @
     replicate 5 ErrTypeSystem @ replicate 4 ErrTypeContext @ replicate 3 ErrTypeCircuitBreaker"
  by (simp add: code_table_def code_at_def getErrorTypeFromCode_def numeral_eq_Suc)

end
