(* ===== verification/Security_Validator.thy ===== *)
theory Security_Validator
  imports Error_Types
begin

text \<open>
  The validator of diagnostic checks, \<^verbatim>\<open>internal/diagnostics/security_validator.go\<close>: an allow list,
  a deny list, five rules and a bounded audit log. A check is seen through the three methods the
  validator calls. \<^verbatim>\<open>strings.ToLower\<close> is modelled on ASCII strings; its result on other strings
  depends on the Unicode tables and is the parameter \<open>uni\<close>, about which nothing is assumed. The clock
  of a call is a function of the number of log entries it has made.
\<close>

section \<open>State\<close>

record Check =
  c_Name :: string
  c_Description :: string
  c_Severity :: Severity

datatype RuleSeverity = RuleSeverityInfo | RuleSeverityWarning | RuleSeverityCritical

record CheckAuditLog =
  log_CheckName :: string
  log_Timestamp :: Time
  Allowed :: bool
  Reason :: string
  ValidatorID :: string

record SecurityValidator =
  allowedChecks :: "(string, bool) gomap"
  deniedChecks :: "(string, bool) gomap"
  checkHistory :: "CheckAuditLog list"
  maxHistorySize :: nat
  testMode :: bool

record ValidationStatistics =
  TotalValidations :: int
  TotalAllowed :: int
  TotalDenied :: int
  DenialRate :: f64
  st_AllowedChecks :: int
  st_DeniedChecks :: int

definition allowedCheckNames :: "string list" where
  "allowedCheckNames =
     [''daemon_connectivity'', ''bridge_network'', ''ip_forwarding'', ''iptables'', ''dns_resolution'',
      ''internal_dns'', ''container_connectivity'', ''port_binding'', ''network_isolation'',
      ''mtu_consistency'', ''subnet_overlap'']"

definition initializeAllowedChecks :: "SecurityValidator \<Rightarrow> SecurityValidator" where
  "initializeAllowedChecks v =
     v\<lparr>allowedChecks := fold (\<lambda>name. AList.update name True) allowedCheckNames (allowedChecks v)\<rparr>"

definition NewSecurityValidator :: SecurityValidator where
  "NewSecurityValidator = initializeAllowedChecks
     \<lparr>allowedChecks = [], deniedChecks = [], checkHistory = [], maxHistorySize = 1000, testMode = False\<rparr>"

definition NewSecurityValidatorTestMode :: SecurityValidator where
  "NewSecurityValidatorTestMode = NewSecurityValidator\<lparr>testMode := True\<rparr>"

section \<open>Strings\<close>

definition is_ascii :: "char \<Rightarrow> bool" where
  "is_ascii c \<longleftrightarrow> of_char c < (128 :: nat)"

definition lower_char :: "char \<Rightarrow> char" where
  "lower_char c = (if 65 \<le> (of_char c :: nat) \<and> (of_char c :: nat) \<le> 90 then char_of (of_char c + 32 :: nat) else c)"

definition ToLower :: "(string \<Rightarrow> string) \<Rightarrow> string \<Rightarrow> string" where
  "ToLower uni s = (if list_all is_ascii s then map lower_char s else uni s)"

definition is_digit :: "char \<Rightarrow> bool" where
  "is_digit c \<longleftrightarrow> 48 \<le> (of_char c :: nat) \<and> (of_char c :: nat) \<le> 57"

definition name_char :: "char \<Rightarrow> bool" where
  "name_char c \<longleftrightarrow> (let n = of_char c :: nat in
     97 \<le> n \<and> n \<le> 122 \<or> 65 \<le> n \<and> n \<le> 90 \<or> 48 \<le> n \<and> n \<le> 57 \<or> n = 95 \<or> n = 45)"

text \<open>The two regular expressions: the name pattern, and a test word followed by digits.\<close>

definition validNamePattern :: "string \<Rightarrow> bool" where
  "validNamePattern s \<longleftrightarrow> s \<noteq> [] \<and> list_all name_char s"

definition numbered_test :: "string \<Rightarrow> bool" where
  "numbered_test s \<longleftrightarrow>
     list_ex (\<lambda>p. prefix p s \<and> drop (length p) s \<noteq> [] \<and> list_all is_digit (drop (length p) s))
       [''check'', ''test'', ''mock'', ''quick'']"

definition testPatterns :: "string list" where
  "testPatterns = [''check'', ''test'', ''quick'', ''mock'', ''debug'', ''simple'', ''success'', ''failure'',
     ''fail'', ''panic'', ''error'', ''slow'', ''medium'', ''fast'', ''benchmark'']"

definition isTestCheckName :: "(string \<Rightarrow> string) \<Rightarrow> string \<Rightarrow> bool" where
  "isTestCheckName uni name =
     (let lowerName = ToLower uni name in
      list_ex (\<lambda>pattern.
        (prefix pattern lowerName \<or> strings_Contains lowerName (''_'' @ pattern) \<or>
         strings_Contains lowerName (pattern @ ''_'') \<or> lowerName = pattern) \<and>
        lowerName \<noteq> ''production_check'') testPatterns
      \<or> numbered_test lowerName)"

section \<open>The audit log\<close>

definition push_log :: "CheckAuditLog \<Rightarrow> SecurityValidator \<Rightarrow> SecurityValidator" where
  "push_log l v =
     (let v = v\<lparr>checkHistory := checkHistory v @ [l]\<rparr>
      in if length (checkHistory v) > maxHistorySize v
         then v\<lparr>checkHistory := drop (length (checkHistory v) - maxHistorySize v) (checkHistory v)\<rparr>
         else v)"

definition logValidationLocked :: "Time \<Rightarrow> string \<Rightarrow> bool \<Rightarrow> string \<Rightarrow> SecurityValidator \<Rightarrow> SecurityValidator" where
  "logValidationLocked now checkName allowed reason v =
     push_log \<lparr>log_CheckName = checkName, log_Timestamp = now, Allowed = allowed, Reason = reason,
               ValidatorID = ''default''\<rparr> v"

definition logValidation :: "Time \<Rightarrow> string \<Rightarrow> bool \<Rightarrow> string \<Rightarrow> SecurityValidator \<Rightarrow> SecurityValidator" where
  "logValidation now checkName allowed reason v = logValidationLocked now checkName allowed reason v"

section \<open>The rules\<close>

definition dangerousPatterns :: "string list" where
  "dangerousPatterns = [''..'', ''./'', [CHR 0x5C], ''$('', ''${'', [CHR 0x60], ''|'', '';'', ''&'', ''>'', ''<'']"

definition validateCheckName :: "SecurityValidator \<Rightarrow> Check \<Rightarrow> goerror option" where
  "validateCheckName v check =
     (let name = c_Name check in
      if name = [] then Some (ErrorString ''check name cannot be empty'')
      else if length name > 100 then Some (ErrorString ''check name too long (max 100 characters)'')
      else if \<not> validNamePattern name then Some (ErrorString ''check name contains invalid characters'')
      else case List.find (strings_Contains name) dangerousPatterns of
             Some pattern \<Rightarrow> Some (ErrorString (''check name contains potentially dangerous pattern: '' @ pattern))
           | None \<Rightarrow> None)"

definition validateAllowlist :: "(string \<Rightarrow> string) \<Rightarrow> SecurityValidator \<Rightarrow> Check \<Rightarrow> goerror option" where
  "validateAllowlist uni v check =
     (let name = c_Name check in
      if testMode v \<and> isTestCheckName uni name then None
      else if map_of (allowedChecks v) name \<noteq> Some True
      then Some (ErrorString (''check '' @ [CHR 0x27] @ name @ [CHR 0x27] @ '' is not in the allowed list''))
      else None)"

definition validateDenylist :: "SecurityValidator \<Rightarrow> Check \<Rightarrow> goerror option" where
  "validateDenylist v check =
     (let name = c_Name check in
      if map_of (deniedChecks v) name = Some True
      then Some (ErrorString (''check '' @ [CHR 0x27] @ name @ [CHR 0x27] @ '' is in the denied list''))
      else None)"

definition scriptPatterns :: "string list" where
  "scriptPatterns = [''<script'', ''javascript:'', ''onerror='', ''onclick='', ''onload='']"

definition validateDescription :: "(string \<Rightarrow> string) \<Rightarrow> SecurityValidator \<Rightarrow> Check \<Rightarrow> goerror option" where
  "validateDescription uni v check =
     (let description = c_Description check in
      if length description > 500 then Some (ErrorString ''check description too long (max 500 characters)'')
      else if any_pattern strings_Contains scriptPatterns (ToLower uni description)
      then Some (ErrorString ''check description contains potential script injection'')
      else None)"

definition validateSeverity :: "SecurityValidator \<Rightarrow> Check \<Rightarrow> goerror option" where
  "validateSeverity v check =
     (if c_Severity check < SeverityInfo \<or> c_Severity check > SeverityCritical
      then Some (ErrorString (''check severity '' @ show_int (c_Severity check) @ '' is out of valid range''))
      else None)"

record ValidationRule =
  rule_Name :: string
  rule_Description :: string
  Validate :: "SecurityValidator \<Rightarrow> Check \<Rightarrow> goerror option"
  rule_Severity :: RuleSeverity

definition initializeValidationRules :: "(string \<Rightarrow> string) \<Rightarrow> ValidationRule list" where
  "initializeValidationRules uni =
     [\<lparr>rule_Name = ''check_name_validation'',
       rule_Description = ''Validates check name format and prevents injection'',
       Validate = validateCheckName, rule_Severity = RuleSeverityCritical\<rparr>,
      \<lparr>rule_Name = ''check_allowlist'', rule_Description = ''Ensures check is in the allowed list'',
       Validate = validateAllowlist uni, rule_Severity = RuleSeverityCritical\<rparr>,
      \<lparr>rule_Name = ''check_denylist'', rule_Description = ''Ensures check is not in the denied list'',
       Validate = validateDenylist, rule_Severity = RuleSeverityCritical\<rparr>,
      \<lparr>rule_Name = ''check_description_validation'',
       rule_Description = ''Validates check description for malicious content'',
       Validate = validateDescription uni, rule_Severity = RuleSeverityWarning\<rparr>,
      \<lparr>rule_Name = ''check_severity_validation'',
       rule_Description = ''Validates check severity is within expected range'',
       Validate = validateSeverity, rule_Severity = RuleSeverityInfo\<rparr>]"

fun run_rules ::
    "(nat \<Rightarrow> Time) \<Rightarrow> nat \<Rightarrow> ValidationRule list \<Rightarrow> Check \<Rightarrow> SecurityValidator \<Rightarrow> SecurityValidator \<times> goerror option" where
  "run_rules clock n [] check v =
     (logValidation (clock n) (c_Name check) True ''All validation rules passed'' v, None)"
| "run_rules clock n (rule # rules) check v =
     (case Validate rule v check of
        None \<Rightarrow> run_rules clock n rules check v
      | Some err \<Rightarrow>
          let v = logValidation (clock n) (c_Name check) False
                    (''Rule '' @ [CHR 0x27] @ rule_Name rule @ [CHR 0x27] @ '' failed: '' @ Error err) v
          in if rule_Severity rule = RuleSeverityCritical
             then (v, Some (Errorf (''security validation failed: '' @ rule_Name rule @ '' - '') err []))
             else run_rules clock (n + 1) rules check v)"

definition ValidateCheck ::
    "(string \<Rightarrow> string) \<Rightarrow> (nat \<Rightarrow> Time) \<Rightarrow> Check option \<Rightarrow> SecurityValidator \<Rightarrow> SecurityValidator \<times> goerror option" where
  "ValidateCheck uni clock check v =
     (case check of
        None \<Rightarrow> (v, Some (ErrorString ''check cannot be nil''))
      | Some check \<Rightarrow>
          if testMode v \<and> isTestCheckName uni (c_Name check)
          then (logValidation (clock 0) (c_Name check) True ''Test mode - test check allowed'' v, None)
          else run_rules clock 0 (initializeValidationRules uni) check v)"

section \<open>Configuration and queries\<close>

definition SetTestMode :: "bool \<Rightarrow> SecurityValidator \<Rightarrow> SecurityValidator" where
  "SetTestMode enabled v = v\<lparr>testMode := enabled\<rparr>"

definition validateCheckNameString :: "string \<Rightarrow> goerror option" where
  "validateCheckNameString name =
     (if name = [] then Some (ErrorString ''check name cannot be empty'')
      else if length name > 100 then Some (ErrorString ''check name too long'')
      else if \<not> validNamePattern name then Some (ErrorString ''check name contains invalid characters'')
      else None)"

definition AddToAllowlist :: "Time \<Rightarrow> string \<Rightarrow> SecurityValidator \<Rightarrow> SecurityValidator \<times> goerror option" where
  "AddToAllowlist now checkName v =
     (case validateCheckNameString checkName of
        Some err \<Rightarrow> (v, Some (Errorf ''invalid check name for allowlist: '' err []))
      | None \<Rightarrow>
          (logValidationLocked now checkName True ''Added to allowlist''
             (v\<lparr>allowedChecks := AList.update checkName True (allowedChecks v),
                deniedChecks := AList.delete checkName (deniedChecks v)\<rparr>), None))"

definition AddToDenylist :: "Time \<Rightarrow> string \<Rightarrow> SecurityValidator \<Rightarrow> SecurityValidator \<times> goerror option" where
  "AddToDenylist now checkName v =
     (case validateCheckNameString checkName of
        Some err \<Rightarrow> (v, Some (Errorf ''invalid check name for denylist: '' err []))
      | None \<Rightarrow>
          (logValidationLocked now checkName False ''Added to denylist''
             (v\<lparr>deniedChecks := AList.update checkName True (deniedChecks v),
                allowedChecks := AList.delete checkName (allowedChecks v)\<rparr>), None))"

definition GetAuditLog :: "SecurityValidator \<Rightarrow> CheckAuditLog list" where
  "GetAuditLog v = checkHistory v"

definition GetRecentDenials :: "Time \<Rightarrow> Duration \<Rightarrow> SecurityValidator \<Rightarrow> CheckAuditLog list" where
  "GetRecentDenials now d v =
     (let cutoff = now + wrap64 (- d)
      in filter (\<lambda>l. \<not> Allowed l \<and> log_Timestamp l > cutoff) (checkHistory v))"

definition Validator_GetStatistics :: "SecurityValidator \<Rightarrow> ValidationStatistics" where
  "Validator_GetStatistics v =
     (let total = int (length (checkHistory v));
          allowed = int (length (filter Allowed (checkHistory v)));
          denied = int (length (filter (\<lambda>l. \<not> Allowed l) (checkHistory v)))
      in \<lparr>TotalValidations = total, TotalAllowed = allowed, TotalDenied = denied,
          DenialRate = (if total > 0 then f_div (float64 denied) (float64 total) else Fin 0),
          st_AllowedChecks = int (length (allowedChecks v)), st_DeniedChecks = int (length (deniedChecks v))\<rparr>)"

definition ResetAuditLog :: "SecurityValidator \<Rightarrow> SecurityValidator" where
  "ResetAuditLog v = v\<lparr>checkHistory := []\<rparr>"

definition IsCheckAllowed :: "string \<Rightarrow> SecurityValidator \<Rightarrow> bool" where
  "IsCheckAllowed checkName v \<longleftrightarrow> map_of (allowedChecks v) checkName = Some True"

definition IsCheckDenied :: "string \<Rightarrow> SecurityValidator \<Rightarrow> bool" where
  "IsCheckDenied checkName v \<longleftrightarrow> map_of (deniedChecks v) checkName = Some True"

section \<open>The audit log is a bounded history\<close>

definition log_ok :: "SecurityValidator \<Rightarrow> bool" where
  "log_ok v \<longleftrightarrow> length (checkHistory v) \<le> maxHistorySize v \<and> 0 < maxHistorySize v"

lemma push_log_eq:
  "push_log l v = v\<lparr>checkHistory := last_n (maxHistorySize v) (checkHistory v @ [l])\<rparr>"
  by (simp add: push_log_def last_n_def Let_def)

interpretation audit: bounded_history push_log checkHistory maxHistorySize log_ok
  by unfold_locales (simp_all add: push_log_eq log_ok_def)

lemma push_log_twice:
  assumes "log_ok v" "1 < maxHistorySize v"
  shows "\<exists>h. checkHistory (push_log l2 (push_log l1 v)) = h @ [l1, l2]"
proof -
  have "checkHistory (push_log l2 (push_log l1 v)) = last_n (maxHistorySize v) (checkHistory v @ [l1, l2])"
    using audit.fold_push_hist [OF assms(1), of "[l1, l2]"] by simp
  then show ?thesis using assms(2) by (simp add: last_n_def)
qed

lemma log_fields [simp]:
  "allowedChecks (logValidation now n a r v) = allowedChecks v"
  "deniedChecks (logValidation now n a r v) = deniedChecks v"
  "testMode (logValidation now n a r v) = testMode v"
  "maxHistorySize (logValidation now n a r v) = maxHistorySize v"
  "log_ok v \<Longrightarrow> log_ok (logValidation now n a r v)"
  by (simp_all add: logValidation_def logValidationLocked_def audit.push_inv) (simp_all add: push_log_eq)

lemma run_rules_fields:
  "allowedChecks (fst (run_rules clock n rules c v)) = allowedChecks v \<and>
   deniedChecks (fst (run_rules clock n rules c v)) = deniedChecks v \<and>
   testMode (fst (run_rules clock n rules c v)) = testMode v \<and>
   (log_ok v \<longrightarrow> log_ok (fst (run_rules clock n rules c v)))"
  by (induction rules arbitrary: v n) (auto simp: Let_def split: option.split)

section \<open>What a validation decides\<close>

definition well_formed_name :: "string \<Rightarrow> bool" where
  "well_formed_name s \<longleftrightarrow> s \<noteq> [] \<and> length s \<le> 100 \<and> list_all name_char s"

lemma dangerous_not_name: "list_all (\<lambda>p. list_ex (\<lambda>c. \<not> name_char c) p) dangerousPatterns"
  by (simp add: dangerousPatterns_def name_char_def Let_def)

lemma valid_name_not_dangerous:
  assumes "list_all name_char name"
  shows "List.find (strings_Contains name) dangerousPatterns = None"
proof -
  have "\<not> strings_Contains name p" if "p \<in> set dangerousPatterns" for p
  proof
    assume "strings_Contains name p"
    then have "set p \<subseteq> set name" by (simp add: strings_Contains_def set_mono_sublist)
    moreover have "\<exists>c \<in> set p. \<not> name_char c"
      using dangerous_not_name that by (simp add: list_all_iff list_ex_iff)
    ultimately show False using assms by (auto simp: list_all_iff)
  qed
  then show ?thesis by (auto simp: find_None_iff)
qed

lemma validateCheckName_iff: "validateCheckName v c = None \<longleftrightarrow> well_formed_name (c_Name c)"
  using valid_name_not_dangerous [of "c_Name c"]
  by (auto simp: validateCheckName_def well_formed_name_def validNamePattern_def Let_def)

lemma validateCheckNameString_iff: "validateCheckNameString name = None \<longleftrightarrow> well_formed_name name"
  by (auto simp: validateCheckNameString_def well_formed_name_def validNamePattern_def)

definition critical_failure :: "ValidationRule list \<Rightarrow> Check \<Rightarrow> SecurityValidator \<Rightarrow> bool" where
  "critical_failure rules c v \<longleftrightarrow>
     (\<exists>r \<in> set rules. rule_Severity r = RuleSeverityCritical \<and> Validate r v c \<noteq> None)"

text \<open>Rules that do not look at the audit log.\<close>

definition log_blind :: "ValidationRule list \<Rightarrow> bool" where
  "log_blind rules \<longleftrightarrow> (\<forall>r \<in> set rules. \<forall>v c h. Validate r (v\<lparr>checkHistory := h\<rparr>) c = Validate r v c)"

lemma rules_log_blind: "log_blind (initializeValidationRules uni)"
  by (simp add: log_blind_def initializeValidationRules_def validateCheckName_def validateAllowlist_def
      validateDenylist_def validateDescription_def validateSeverity_def Let_def)

lemma logValidation_history: "\<exists>h. logValidation now n a r v = v\<lparr>checkHistory := h\<rparr>"
  unfolding logValidation_def logValidationLocked_def push_log_eq by (intro exI) (rule refl)

lemma run_rules_result:
  "log_blind rules \<Longrightarrow> (snd (run_rules clock n rules c v) = None) = (\<not> critical_failure rules c v)"
proof (induction rules arbitrary: v n)
  case Nil
  then show ?case by (simp add: critical_failure_def)
next
  case (Cons r rules)
  have blind: "log_blind rules" using Cons.prems by (simp add: log_blind_def)
  show ?case
  proof (cases "Validate r v c")
    case None
    then show ?thesis using Cons.IH [OF blind] by (simp add: critical_failure_def)
  next
    case (Some err)
    define v1 where "v1 = logValidation (clock n) (c_Name c) False
        (''Rule '' @ [CHR 0x27] @ rule_Name r @ [CHR 0x27] @ '' failed: '' @ Error err) v"
    obtain h where "v1 = v\<lparr>checkHistory := h\<rparr>" using logValidation_history v1_def by blast
    then have "critical_failure rules c v1 = critical_failure rules c v"
      using blind by (auto simp: critical_failure_def log_blind_def)
    moreover have "snd (run_rules clock n (r # rules) c v) = None \<longleftrightarrow>
        rule_Severity r \<noteq> RuleSeverityCritical \<and> snd (run_rules clock (n + 1) rules c v1) = None"
      by (simp add: Some Let_def v1_def)
    moreover have "critical_failure (r # rules) c v \<longleftrightarrow>
        rule_Severity r = RuleSeverityCritical \<or> critical_failure rules c v"
      by (auto simp: critical_failure_def Some)
    ultimately show ?thesis using Cons.IH [OF blind, of "n + 1" v1] by blast
  qed
qed

lemma run_rules_decision:
  "snd (run_rules clock n (initializeValidationRules uni) c v) = None \<longleftrightarrow>
     well_formed_name (c_Name c) \<and> \<not> IsCheckDenied (c_Name c) v \<and>
     (testMode v \<and> isTestCheckName uni (c_Name c) \<or> IsCheckAllowed (c_Name c) v)"
  unfolding run_rules_result [OF rules_log_blind] critical_failure_def
  by (simp add: initializeValidationRules_def validateCheckName_iff)
    (auto simp: validateAllowlist_def validateDenylist_def IsCheckAllowed_def IsCheckDenied_def Let_def)

section \<open>Invariants\<close>

datatype validator_op =
    OValidate "nat \<Rightarrow> Time" "Check option" | OSetTestMode bool | OAllow Time string | ODeny Time string | OResetLog

fun validator_exec :: "(string \<Rightarrow> string) \<Rightarrow> validator_op \<Rightarrow> SecurityValidator \<Rightarrow> SecurityValidator" where
  "validator_exec uni (OValidate clock c) v = fst (ValidateCheck uni clock c v)"
| "validator_exec uni (OSetTestMode b) v = SetTestMode b v"
| "validator_exec uni (OAllow now n) v = fst (AddToAllowlist now n v)"
| "validator_exec uni (ODeny now n) v = fst (AddToDenylist now n v)"
| "validator_exec uni OResetLog v = ResetAuditLog v"

definition validator_ok :: "SecurityValidator \<Rightarrow> bool" where
  "validator_ok v \<longleftrightarrow> log_ok v \<and> maxHistorySize v = 1000 \<and>
     (\<forall>n. \<not> (map_of (allowedChecks v) n \<noteq> None \<and> map_of (deniedChecks v) n \<noteq> None)) \<and>
     (\<forall>n \<in> dom (map_of (allowedChecks v)) \<union> dom (map_of (deniedChecks v)). well_formed_name n)"

lemma run_rules_max: "maxHistorySize (fst (run_rules clock n rules c v)) = maxHistorySize v"
  by (induction rules arbitrary: v n) (auto simp: Let_def split: option.split)

lemma ValidateCheck_ok: "validator_ok v \<Longrightarrow> validator_ok (fst (ValidateCheck uni clock c v))"
  using run_rules_fields [of clock 0 "initializeValidationRules uni" "the c" v]
    run_rules_max [of clock 0 "initializeValidationRules uni" "the c" v]
  by (cases c) (simp_all add: ValidateCheck_def validator_ok_def)

lemma logValidationLocked_ok:
  "validator_ok v \<Longrightarrow> validator_ok (logValidationLocked now n a r v)"
  by (simp add: validator_ok_def flip: logValidation_def)

lemma AddToAllowlist_ok: "validator_ok v \<Longrightarrow> validator_ok (fst (AddToAllowlist now n v))"
  using validateCheckNameString_iff [of n]
  by (auto simp: AddToAllowlist_def split: option.split intro!: logValidationLocked_ok)
    (auto simp: validator_ok_def log_ok_def update_conv' delete_conv' split: if_splits)

lemma AddToDenylist_ok: "validator_ok v \<Longrightarrow> validator_ok (fst (AddToDenylist now n v))"
  using validateCheckNameString_iff [of n]
  by (auto simp: AddToDenylist_def split: option.split intro!: logValidationLocked_ok)
    (auto simp: validator_ok_def log_ok_def update_conv' delete_conv' split: if_splits)

lemma validator_exec_ok: "validator_ok v \<Longrightarrow> validator_ok (validator_exec uni op v)"
  by (cases op) (auto simp: ValidateCheck_ok AddToAllowlist_ok AddToDenylist_ok,
      simp_all add: validator_ok_def log_ok_def SetTestMode_def ResetAuditLog_def)

lemma validator_run_ok: "validator_ok v \<Longrightarrow> validator_ok (fold (validator_exec uni) ops v)"
  by (induction ops arbitrary: v) (simp_all add: validator_exec_ok)

lemma allowed_names_well_formed: "list_all well_formed_name allowedCheckNames"
  by (simp add: allowedCheckNames_def well_formed_name_def name_char_def Let_def)

lemma NewSecurityValidator_ok: "validator_ok NewSecurityValidator"
proof -
  have "dom (map_of (fold (\<lambda>name. AList.update name True) ns m)) = set ns \<union> dom (map_of m)" for ns :: "string list" and m
    by (induction ns arbitrary: m) (auto simp: update_conv')
  then have "dom (map_of (allowedChecks NewSecurityValidator)) = set allowedCheckNames"
    by (simp add: NewSecurityValidator_def initializeAllowedChecks_def)
  then show ?thesis using allowed_names_well_formed
    by (simp add: validator_ok_def log_ok_def list_all_iff)
      (simp add: NewSecurityValidator_def initializeAllowedChecks_def)
qed

section \<open>Properties\<close>

text \<open>
  C10: The decision of \<^verbatim>\<open>ValidateCheck\<close> outside test mode: a check is admitted exactly when its name
  is well formed (1 to 100 letters, digits, underscores or hyphens), on the allow list and not on
  the deny list, whatever its description and severity; the lists are not changed; and a name that
  passes the format rule contains none of the injection patterns.
\<close>

theorem validate_check_decision:
  assumes "\<not> testMode v"
  shows "(snd (ValidateCheck uni clock (Some c) v) = None \<longleftrightarrow>
           well_formed_name (c_Name c) \<and> IsCheckAllowed (c_Name c) v \<and> \<not> IsCheckDenied (c_Name c) v) \<and>
         allowedChecks (fst (ValidateCheck uni clock (Some c) v)) = allowedChecks v \<and>
         deniedChecks (fst (ValidateCheck uni clock (Some c) v)) = deniedChecks v \<and>
         (well_formed_name (c_Name c) \<longrightarrow> \<not> any_pattern strings_Contains dangerousPatterns (c_Name c))"
proof -
  have "\<not> any_pattern strings_Contains dangerousPatterns (c_Name c)" if "well_formed_name (c_Name c)"
    using that valid_name_not_dangerous [of "c_Name c"]
    by (auto simp: well_formed_name_def any_pattern_def list_ex_iff find_None_iff)
  then show ?thesis
    using assms run_rules_decision [of clock 0 uni c v]
      run_rules_fields [of clock 0 "initializeValidationRules uni" c v]
    by (auto simp: ValidateCheck_def)
qed

theorem validate_check_decision_witness:
  "snd (ValidateCheck (\<lambda>s. s) (\<lambda>n. int n) (Some \<lparr>c_Name = ''iptables'', c_Description = [], c_Severity = 0\<rparr>)
     NewSecurityValidator) = None"
proof -
  have "well_formed_name ''iptables''" "IsCheckAllowed ''iptables'' NewSecurityValidator"
    "\<not> IsCheckDenied ''iptables'' NewSecurityValidator" "\<not> testMode NewSecurityValidator"
    by (simp_all add: well_formed_name_def name_char_def Let_def IsCheckAllowed_def IsCheckDenied_def
        NewSecurityValidator_def initializeAllowedChecks_def allowedCheckNames_def)
  then show ?thesis
    using validate_check_decision [of NewSecurityValidator "\<lambda>s. s" "\<lambda>n. int n"
        "\<lparr>c_Name = ''iptables'', c_Description = [], c_Severity = 0\<rparr>"] by simp
qed

text \<open>
  After any sequence of validations and configuration calls on a new validator, no name is on
  both lists, every listed name is well formed, the audit log holds at most a thousand entries, and
  the statistics split it into allowed and denied entries with a denial rate between 0 and 1.
\<close>

lemma validator_lists_disjoint:
  assumes "v = fold (validator_exec uni) ops NewSecurityValidator"
  shows "\<not> (IsCheckAllowed n v \<and> IsCheckDenied n v) \<and>
         (IsCheckAllowed n v \<or> IsCheckDenied n v \<longrightarrow> well_formed_name n) \<and>
         length (GetAuditLog v) \<le> 1000 \<and>
         TotalAllowed (Validator_GetStatistics v) + TotalDenied (Validator_GetStatistics v) =
           TotalValidations (Validator_GetStatistics v) \<and>
         (\<exists>r. DenialRate (Validator_GetStatistics v) = Fin r \<and> 0 \<le> r \<and> r \<le> 1)"
proof -
  have ok: "validator_ok v" using assms validator_run_ok NewSecurityValidator_ok by blast
  let ?h = "checkHistory v"
  have len: "length ?h \<le> 1000" using ok by (simp add: validator_ok_def log_ok_def)
  have split: "length (filter Allowed ?h) + length (filter (\<lambda>l. \<not> Allowed l) ?h) = length ?h"
    by (rule sum_length_filter_compl)
  have "\<exists>r. DenialRate (Validator_GetStatistics v) = Fin r \<and> 0 \<le> r \<and> r \<le> 1"
    using rate_unit_interval [of "int (length (filter (\<lambda>l. \<not> Allowed l) ?h))" "int (length ?h)"] len
    by (auto simp: Validator_GetStatistics_def Let_def)
  moreover have "\<not> (IsCheckAllowed n v \<and> IsCheckDenied n v)"
    using ok by (auto simp: validator_ok_def IsCheckAllowed_def IsCheckDenied_def dest!: spec [of _ n])
  moreover have "IsCheckAllowed n v \<or> IsCheckDenied n v \<longrightarrow> well_formed_name n"
    using ok by (auto simp: validator_ok_def IsCheckAllowed_def IsCheckDenied_def)
  moreover have "TotalAllowed (Validator_GetStatistics v) + TotalDenied (Validator_GetStatistics v) =
      TotalValidations (Validator_GetStatistics v)"
    using split by (simp add: Validator_GetStatistics_def Let_def flip: of_nat_add)
  ultimately show ?thesis using len by (simp add: GetAuditLog_def)
qed

text \<open>
  In test mode a name that looks like a test check is admitted without any rule being run, even if
  it is on the deny list or carries an injection pattern.
\<close>

lemma test_mode_bypasses_rules:
  assumes "testMode v" "isTestCheckName uni (c_Name c)"
  shows "snd (ValidateCheck uni clock (Some c) v) = None \<and>
         isTestCheckName uni ''check;rm'' \<and> \<not> well_formed_name ''check;rm''"
proof -
  have "list_all is_ascii ''check;rm''" by (simp add: is_ascii_def)
  then have "isTestCheckName uni ''check;rm''"
    by (simp add: isTestCheckName_def ToLower_def testPatterns_def lower_char_def)
  moreover have "\<not> well_formed_name ''check;rm''" by (simp add: well_formed_name_def name_char_def Let_def)
  ultimately show ?thesis using assms by (simp add: ValidateCheck_def)
qed

text \<open>
  An admitted check whose description or severity breaks a rule leaves a false trail: the
  newest entry of the audit log says that all validation rules passed, although an entry before it
  records the failure, which also counts as a denial of a check that was admitted.
\<close>

lemma audit_log_claims_all_passed:
  assumes "\<not> testMode v" "log_ok v" "1 < maxHistorySize v"
    "snd (ValidateCheck uni clock (Some c) v) = None" "validateSeverity v c \<noteq> None"
  shows "Reason (last (GetAuditLog (fst (ValidateCheck uni clock (Some c) v)))) = ''All validation rules passed'' \<and>
         (\<exists>l \<in> set (GetAuditLog (fst (ValidateCheck uni clock (Some c) v))). \<not> Allowed l \<and> log_CheckName l = c_Name c)"
proof -
  have run: "snd (run_rules clock 0 (initializeValidationRules uni) c v) = None"
    "fst (ValidateCheck uni clock (Some c) v) = fst (run_rules clock 0 (initializeValidationRules uni) c v)"
    using assms(1, 4) by (simp_all add: ValidateCheck_def)
  have crit: "validateCheckName v c = None" "validateAllowlist uni v c = None" "validateDenylist v c = None"
    using run(1) run_rules_result [OF rules_log_blind, of clock 0 uni c v]
    by (simp_all add: critical_failure_def initializeValidationRules_def)
  obtain n v1 err where "validateSeverity v1 c = Some err" "log_ok v1" "maxHistorySize v1 = maxHistorySize v"
    "fst (run_rules clock 0 (initializeValidationRules uni) c v) =
       logValidation (clock (n + 1)) (c_Name c) True ''All validation rules passed''
         (logValidation (clock n) (c_Name c) False
           (''Rule '' @ [CHR 0x27] @ ''check_severity_validation'' @ [CHR 0x27] @ '' failed: '' @ Error err) v1)"
  proof (cases "validateDescription uni v c")
    case None
    with crit assms(2, 5) that [of v _ 0] show ?thesis
      by (auto simp: initializeValidationRules_def Let_def)
  next
    case (Some derr)
    define v1 where "v1 = logValidation (clock 0) (c_Name c) False
      (''Rule '' @ [CHR 0x27] @ ''check_description_validation'' @ [CHR 0x27] @ '' failed: '' @ Error derr) v"
    have "validateSeverity v1 c = validateSeverity v c" by (simp add: validateSeverity_def)
    with crit Some assms(2, 5) that [of v1 _ 1] show ?thesis
      by (auto simp: initializeValidationRules_def Let_def v1_def)
  qed
  then obtain h l1 l2 where
    "checkHistory (fst (run_rules clock 0 (initializeValidationRules uni) c v)) = h @ [l1, l2]"
    "\<not> Allowed l1" "log_CheckName l1 = c_Name c" "Reason l2 = ''All validation rules passed''"
    using push_log_twice [of v1] assms(3) by (fastforce simp: logValidation_def logValidationLocked_def)
  then show ?thesis unfolding run(2) GetAuditLog_def by simp
qed

end
