(* ===== verification/Worker_Pool.thy ===== *)
theory Worker_Pool
  imports Security_Validator "HOL-Library.Word"
begin

text \<open>
  The worker pool of \<^verbatim>\<open>internal/diagnostics/worker_pool.go\<close>. Its sequential parts are functions on
  the pool record. Its concurrent behaviour is the step relation \<open>pool_step\<close>: callers of \<^verbatim>\<open>Submit\<close>
  and workers each have a phase, and one step is one channel operation, one wait, or one group of
  adjacent counter updates of one goroutine. The token bucket of \<^verbatim>\<open>golang.org/x/time/rate\<close> is
  third-party code: \<open>W c e\<close> says that its \<^verbatim>\<open>Wait\<close> may return \<open>e\<close>, where \<open>c\<close> says whether the
  context is done when it is called; a context that ends later may or may not be noticed. What a check's \<^verbatim>\<open>Run\<close> does is not fixed: it returns any result
  and error, or panics. Counters are unbounded integers; memory sizes are 64-bit words.
\<close>

section \<open>Checks and jobs\<close>

record CheckResult =
  cr_CheckName :: string
  cr_Success :: bool
  cr_Message :: string
  Details :: "(string, context_value) gomap option"
  Suggestions :: "string list"
  cr_Timestamp :: Time
  cr_Duration :: Duration

definition failed_result :: "Time \<Rightarrow> string \<Rightarrow> string \<Rightarrow> CheckResult" where
  "failed_result now name msg =
     \<lparr>cr_CheckName = name, cr_Success = False, cr_Message = msg, Details = None, Suggestions = [],
      cr_Timestamp = now, cr_Duration = 0\<rparr>"

datatype run_outcome = Panics string | Returns "CheckResult option" "goerror option"

definition MAX_WORKERS :: nat where "MAX_WORKERS = 10"
definition MAX_QUEUE_SIZE :: nat where "MAX_QUEUE_SIZE = 100"
definition MAX_MEMORY_MB :: "64 word" where "MAX_MEMORY_MB = 500"

record Job =
  job_ID :: int
  job_Check :: Check
  job_ctx :: nat

record JobResult =
  jr_ID :: int
  jr_Result :: "CheckResult option"
  jr_Error :: "goerror option"
  jr_Duration :: Duration

section \<open>Monitors\<close>

record ErrorRateMonitor =
  errorCount :: int
  successCount :: int
  window :: Duration
  threshold :: f64
  lastReset :: Time
  circuitOpen :: bool

definition checkWindow :: "Time \<Rightarrow> Time \<Rightarrow> ErrorRateMonitor \<Rightarrow> ErrorRateMonitor" where
  "checkWindow now now' e =
     (if Sub now (lastReset e) > window e
      then e\<lparr>errorCount := 0, successCount := 0, lastReset := now', circuitOpen := False\<rparr> else e)"

definition updateCircuitState :: "ErrorRateMonitor \<Rightarrow> ErrorRateMonitor" where
  "updateCircuitState e =
     (let total = errorCount e + successCount e
      in if total < 10 then e
         else let rate = f_div (float64 (errorCount e)) (float64 total)
              in if f_ge rate (threshold e) then e\<lparr>circuitOpen := True\<rparr>
                 else if f_lt rate (f_mul (threshold e) (flit (1 / 2))) then e\<lparr>circuitOpen := False\<rparr>
                 else e)"

definition RecordError :: "Time \<Rightarrow> Time \<Rightarrow> ErrorRateMonitor \<Rightarrow> ErrorRateMonitor" where
  "RecordError now now' e =
     (let e = checkWindow now now' e in updateCircuitState (e\<lparr>errorCount := errorCount e + 1\<rparr>))"

definition Monitor_RecordSuccess :: "Time \<Rightarrow> Time \<Rightarrow> ErrorRateMonitor \<Rightarrow> ErrorRateMonitor" where
  "Monitor_RecordSuccess now now' e =
     (let e = checkWindow now now' e in updateCircuitState (e\<lparr>successCount := successCount e + 1\<rparr>))"

definition IsOpen :: "ErrorRateMonitor \<Rightarrow> bool" where
  "IsOpen e = circuitOpen e"

record MemoryMonitor =
  baseline :: "64 word"
  peakUsage :: "64 word"
  checkInterval :: Duration
  stopChan_closed :: bool

definition memory_tick :: "64 word \<Rightarrow> MemoryMonitor \<Rightarrow> MemoryMonitor" where
  "memory_tick current m = (if current > peakUsage m then m\<lparr>peakUsage := current\<rparr> else m)"

definition IsOverLimit :: "64 word \<Rightarrow> MemoryMonitor \<Rightarrow> bool" where
  "IsOverLimit current m =
     (if current \<le> baseline m then False
      else current - baseline m > MAX_MEMORY_MB * 1024 * 1024)"

definition GetPeakUsage :: "MemoryMonitor \<Rightarrow> 64 word" where
  "GetPeakUsage m = (if peakUsage m > baseline m then peakUsage m - baseline m else 0)"

section \<open>The pool\<close>

record PoolMetrics =
  pm_StartTime :: Time
  pm_EndTime :: Time
  TotalJobs :: int
  CompletedJobs :: int
  FailedJobs :: int
  AverageJobTime :: Duration
  MaxJobTime :: Duration
  MinJobTime :: Duration
  TotalAPIcalls :: int
  pm_RateLimitHits :: int
  PeakMemoryMB :: f64
  PeakWorkers :: int
  RecoveredPanics :: int

record SecureWorkerPool =
  workers :: nat
  jobs :: "Job list"
  jobs_closed :: bool
  results :: "JobResult list"
  ctx_done :: bool
  metrics :: PoolMetrics
  validator :: SecurityValidator
  started :: bool
  stopped :: bool
  activeJobs :: int
  completedJobs :: int
  failedJobs :: int
  memoryMonitor :: MemoryMonitor
  errorRate :: ErrorRateMonitor

definition isTestContext :: "string list \<Rightarrow> string \<Rightarrow> bool" where
  "isTestContext args go_test \<longleftrightarrow>
     (case args of arg0 # _ \<Rightarrow> suffix ''.test'' arg0 | [] \<Rightarrow> False) \<or>
     list_ex (\<lambda>arg. strings_Contains arg ''-test.'') args \<or> go_test \<noteq> []"

definition bound_workers :: "int \<Rightarrow> int \<Rightarrow> nat" where
  "bound_workers numCPU workerCount =
     (let workerCount = (if workerCount \<le> 0 then numCPU else workerCount);
          workerCount = (if workerCount > int MAX_WORKERS then int MAX_WORKERS else workerCount)
      in nat workerCount)"

definition NewSecureWorkerPool :: "bool \<Rightarrow> Time \<Rightarrow> int \<Rightarrow> 64 word \<Rightarrow> int \<Rightarrow> SecureWorkerPool" where
  "NewSecureWorkerPool isTestMode now numCPU mem workerCount =
     \<lparr>workers = bound_workers numCPU workerCount, jobs = [], jobs_closed = False, results = [],
      ctx_done = False,
      metrics = \<lparr>pm_StartTime = now, pm_EndTime = zero_time, TotalJobs = 0, CompletedJobs = 0, FailedJobs = 0,
                 AverageJobTime = 0, MaxJobTime = 0, MinJobTime = 0, TotalAPIcalls = 0, pm_RateLimitHits = 0,
                 PeakMemoryMB = Fin 0, PeakWorkers = 0, RecoveredPanics = 0\<rparr>,
      validator = (if isTestMode then NewSecurityValidatorTestMode else NewSecurityValidator),
      started = False, stopped = False, activeJobs = 0, completedJobs = 0, failedJobs = 0,
      memoryMonitor = \<lparr>baseline = mem, peakUsage = 0, checkInterval = Second, stopChan_closed = False\<rparr>,
      errorRate = \<lparr>errorCount = 0, successCount = 0, window = Minute, threshold = flit (1 / 2),
                   lastReset = now, circuitOpen = False\<rparr>\<rparr>"

text \<open>The checks of \<^verbatim>\<open>Submit\<close> before it offers the job to the queue.\<close>

definition submit_guards ::
    "(string \<Rightarrow> string) \<Rightarrow> (nat \<Rightarrow> Time) \<Rightarrow> 64 word \<Rightarrow> Check \<Rightarrow> 'a SecureWorkerPool_scheme \<Rightarrow>
     'a SecureWorkerPool_scheme \<times> goerror option" where
  "submit_guards uni clock mem check p =
     (if \<not> started p \<or> stopped p then (p, Some (ErrorString ''worker pool is not running''))
      else if IsOpen (errorRate p) then (p, Some (ErrorString ''circuit breaker open: too many errors''))
      else case ValidateCheck uni clock (Some check) (validator p) of
             (v, Some err) \<Rightarrow> (p\<lparr>validator := v\<rparr>, Some (Errorf ''security validation failed: '' err []))
           | (v, None) \<Rightarrow>
               (let p = p\<lparr>validator := v\<rparr>
                in if IsOverLimit mem (memoryMonitor p) then (p, Some (ErrorString ''memory limit exceeded''))
                   else (p, None)))"

definition make_job :: "nat \<Rightarrow> Check \<Rightarrow> 'a SecureWorkerPool_scheme \<Rightarrow> Job" where
  "make_job ctx check p = \<lparr>job_ID = completedJobs p + activeJobs p, job_Check = check, job_ctx = ctx\<rparr>"

definition executeJob :: "Time \<Rightarrow> Job \<Rightarrow> run_outcome \<Rightarrow> CheckResult option \<times> goerror option \<times> bool" where
  "executeJob now job outcome =
     (case outcome of
        Panics r \<Rightarrow>
          (Some (failed_result now (c_Name (job_Check job)) (''Check panicked: '' @ r)),
           Some (ErrorString (''job panicked: '' @ r)), True)
      | Returns result (Some err) \<Rightarrow>
          (Some (failed_result now (c_Name (job_Check job)) (''Check failed: '' @ Error err)), Some err, False)
      | Returns result None \<Rightarrow> (result, None, False))"

definition pool_updateMetrics :: "Duration \<Rightarrow> 'a SecureWorkerPool_scheme \<Rightarrow> 'a SecureWorkerPool_scheme" where
  "pool_updateMetrics d p =
     (let m = metrics p;
          m = m\<lparr>TotalAPIcalls := TotalAPIcalls m + 1\<rparr>;
          m = (if MinJobTime m = 0 \<or> d < MinJobTime m then m\<lparr>MinJobTime := d\<rparr> else m);
          m = (if d > MaxJobTime m then m\<lparr>MaxJobTime := d\<rparr> else m);
          totalJobs = completedJobs p + failedJobs p;
          m = (if totalJobs > 0
               then m\<lparr>AverageJobTime :=
                        go_quot (wrap64 (wrap64 (AverageJobTime m * (totalJobs - 1)) + d)) totalJobs\<rparr>
               else m)
      in p\<lparr>metrics := m\<rparr>)"

definition finish_job :: "Time \<Rightarrow> Time \<Rightarrow> goerror option \<Rightarrow> 'a SecureWorkerPool_scheme \<Rightarrow> 'a SecureWorkerPool_scheme" where
  "finish_job now now' err p =
     (let p = p\<lparr>activeJobs := activeJobs p - 1\<rparr>
      in case err of
           Some _ \<Rightarrow> p\<lparr>failedJobs := failedJobs p + 1, errorRate := RecordError now now' (errorRate p)\<rparr>
         | None \<Rightarrow> p\<lparr>completedJobs := completedJobs p + 1,
                     errorRate := Monitor_RecordSuccess now now' (errorRate p)\<rparr>)"

definition count_panic :: "bool \<Rightarrow> 'a SecureWorkerPool_scheme \<Rightarrow> 'a SecureWorkerPool_scheme" where
  "count_panic panicked p =
     (if panicked then p\<lparr>metrics := (metrics p)\<lparr>RecoveredPanics := RecoveredPanics (metrics p) + 1\<rparr>\<rparr> else p)"

definition Pool_GetMetrics :: "'a SecureWorkerPool_scheme \<Rightarrow> PoolMetrics" where
  "Pool_GetMetrics p =
     (metrics p)\<lparr>TotalJobs := completedJobs p + failedJobs p, CompletedJobs := completedJobs p,
                FailedJobs := failedJobs p,
                PeakMemoryMB := f_div (float64 (uint (GetPeakUsage (memoryMonitor p)))) (Fin (1024 * 1024))\<rparr>"

definition Pool_IsHealthy :: "64 word \<Rightarrow> 'a SecureWorkerPool_scheme \<Rightarrow> bool" where
  "Pool_IsHealthy mem p =
     (if \<not> started p \<or> stopped p then False
      else if IsOpen (errorRate p) then False
      else if IsOverLimit mem (memoryMonitor p) then False
      else if activeJobs p > int (workers p) * 2 then False
      else True)"

definition Pool_SetTestMode :: "bool \<Rightarrow> 'a SecureWorkerPool_scheme \<Rightarrow> 'a SecureWorkerPool_scheme" where
  "Pool_SetTestMode enabled p = p\<lparr>validator := SetTestMode enabled (validator p)\<rparr>"

text \<open>The polls of \<^verbatim>\<open>WaitForCompletion\<close>: \<open>states\<close> are the pools seen until the timeout.\<close>

definition WaitForCompletion :: "'a SecureWorkerPool_scheme list \<Rightarrow> goerror option" where
  "WaitForCompletion states =
     (if list_ex (\<lambda>p. activeJobs p = 0) states then None
      else Some (ErrorString ''timeout waiting for completion''))"

section \<open>Concurrency\<close>

datatype submit_phase = Ready | Offered | Counted | Returned

datatype worker_phase =
    Idle
  | Holding Job
  | Waiting Job bool
  | RateFailed Job goerror
  | RateSent Job
  | Running Job
  | Sending Job "CheckResult option" "goerror option" Duration
  | Sent Job "goerror option"
  | Exited

record pool_world = SecureWorkerPool +
  submits :: "(Job \<times> submit_phase) list"
  phases :: "worker_phase list"
  next_ctx :: nat
  crashed :: bool

text \<open>
  \<^verbatim>\<open>Submit\<close> derives the context of the job and cancels it by a deferred call when it returns.
\<close>

definition ctx_live :: "pool_world \<Rightarrow> Job \<Rightarrow> bool" where
  "ctx_live p job \<longleftrightarrow> (\<exists>(j, ph) \<in> set (submits p). job_ctx j = job_ctx job \<and> ph \<noteq> Returned)"

definition job_cancelled :: "pool_world \<Rightarrow> Job \<Rightarrow> bool" where
  "job_cancelled p job \<longleftrightarrow> \<not> ctx_live p job \<or> ctx_done p"

abbreviation set_submit :: "nat \<Rightarrow> submit_phase \<Rightarrow> pool_world \<Rightarrow> pool_world" where
  "set_submit k ph p \<equiv> p\<lparr>submits := (submits p)[k := (fst (submits p ! k), ph)]\<rparr>"

abbreviation set_phase :: "nat \<Rightarrow> worker_phase \<Rightarrow> pool_world \<Rightarrow> pool_world" where
  "set_phase i ph p \<equiv> p\<lparr>phases := (phases p)[i := ph]\<rparr>"

definition Start :: "pool_world \<Rightarrow> pool_world \<times> goerror option" where
  "Start p =
     (if started p then (p, Some (ErrorString ''worker pool already started''))
      else (p\<lparr>started := True, phases := replicate (workers p) Idle,
              metrics := (metrics p)\<lparr>PeakWorkers := int (workers p)\<rparr>\<rparr>, None))"

text \<open>\<^verbatim>\<open>Stop\<close> before and after its wait for the workers.\<close>

definition stop_begin :: "pool_world \<Rightarrow> pool_world \<times> goerror option" where
  "stop_begin p =
     (if stopped p then (p, Some (ErrorString ''worker pool already stopped''))
      else (p\<lparr>stopped := True, jobs_closed := True\<rparr>, None))"

definition stop_finish :: "Time \<Rightarrow> bool \<Rightarrow> pool_world \<Rightarrow> pool_world" where
  "stop_finish now forced p =
     (let p = (if forced then p\<lparr>ctx_done := True\<rparr> else p)
      in p\<lparr>memoryMonitor := (memoryMonitor p)\<lparr>stopChan_closed := True\<rparr>,
           metrics := (metrics p)\<lparr>pm_EndTime := now\<rparr>\<rparr>)"

definition add_submit :: "Check \<Rightarrow> pool_world \<Rightarrow> pool_world" where
  "add_submit check p = p\<lparr>submits := submits p @ [(make_job (next_ctx p) check p, Ready)],
                           next_ctx := next_ctx p + 1\<rparr>"

text \<open>
  The steps. \<open>worker_waits\<close> is the poll of the pool's context and the call of the rate limiter's
  \<^verbatim>\<open>Wait\<close>: the phase keeps whether the context of the job is done then, and what \<^verbatim>\<open>Wait\<close> returns
  depends on that, not on what happens to the context before it returns.
\<close>

inductive pool_step :: "(bool \<Rightarrow> goerror option \<Rightarrow> bool) \<Rightarrow> pool_world \<Rightarrow> pool_world \<Rightarrow> bool"
  for W :: "bool \<Rightarrow> goerror option \<Rightarrow> bool" where
  ctx_expires: "pool_step W p (p\<lparr>ctx_done := True\<rparr>)"
| stop_begins: "stop_begin p = (p', None) \<Longrightarrow> pool_step W p p'"
| stop_finishes: "stopped p \<Longrightarrow> pool_step W p (stop_finish now forced p)"
| memory_ticks: "pool_step W p (p\<lparr>memoryMonitor := memory_tick mem (memoryMonitor p)\<rparr>)"
| result_collected: "results p = r # rs \<Longrightarrow> pool_step W p (p\<lparr>results := rs\<rparr>)"
| submit_rejected: "submit_guards uni clock mem check p = (p', Some err) \<Longrightarrow> pool_step W p p'"
| submit_ready: "submit_guards uni clock mem check p = (p', None) \<Longrightarrow> pool_step W p (add_submit check p')"
| submit_offered: "k < length (submits p) \<Longrightarrow> submits p ! k = (job, Ready) \<Longrightarrow> \<not> jobs_closed p \<Longrightarrow>
    length (jobs p) < MAX_QUEUE_SIZE \<Longrightarrow>
    pool_step W p (set_submit k Offered (p\<lparr>jobs := jobs p @ [job]\<rparr>))"
| submit_panics: "k < length (submits p) \<Longrightarrow> submits p ! k = (job, Ready) \<Longrightarrow> jobs_closed p \<Longrightarrow>
    pool_step W p (p\<lparr>crashed := True\<rparr>)"
| submit_gives_up: "k < length (submits p) \<Longrightarrow> submits p ! k = (job, Ready) \<Longrightarrow>
    pool_step W p (set_submit k Returned p)"
| submit_counts: "k < length (submits p) \<Longrightarrow> submits p ! k = (job, Offered) \<Longrightarrow>
    pool_step W p (set_submit k Counted (p\<lparr>activeJobs := activeJobs p + 1\<rparr>))"
| submit_returns: "k < length (submits p) \<Longrightarrow> submits p ! k = (job, Counted) \<Longrightarrow>
    pool_step W p (set_submit k Returned p)"
| worker_takes: "i < length (phases p) \<Longrightarrow> phases p ! i = Idle \<Longrightarrow> jobs p = job # js \<Longrightarrow>
    pool_step W p (set_phase i (Holding job) (p\<lparr>jobs := js\<rparr>))"
| worker_ends: "i < length (phases p) \<Longrightarrow> phases p ! i = Idle \<Longrightarrow> jobs p = [] \<Longrightarrow> jobs_closed p \<Longrightarrow>
    pool_step W p (set_phase i Exited p)"
| worker_drops: "i < length (phases p) \<Longrightarrow> phases p ! i = Holding job \<Longrightarrow> ctx_done p \<Longrightarrow>
    pool_step W p (set_phase i Exited (p\<lparr>activeJobs := activeJobs p - 1\<rparr>))"
| worker_waits: "i < length (phases p) \<Longrightarrow> phases p ! i = Holding job \<Longrightarrow> \<not> ctx_done p \<Longrightarrow>
    job_cancelled p job \<longrightarrow> c \<Longrightarrow> pool_step W p (set_phase i (Waiting job c) p)"
| worker_limited: "i < length (phases p) \<Longrightarrow> phases p ! i = Waiting job c \<Longrightarrow> W c (Some e) \<Longrightarrow>
    pool_step W p (set_phase i (RateFailed job e) p)"
| worker_admitted: "i < length (phases p) \<Longrightarrow> phases p ! i = Waiting job c \<Longrightarrow> W c None \<Longrightarrow>
    pool_step W p (set_phase i (Running job) p)"
| worker_reports_limit: "i < length (phases p) \<Longrightarrow> phases p ! i = RateFailed job e \<Longrightarrow>
    length (results p) < MAX_QUEUE_SIZE \<Longrightarrow>
    pool_step W p (set_phase i (RateSent job) (p\<lparr>results := results p @
      [\<lparr>jr_ID = job_ID job, jr_Result = None, jr_Error = Some (Errorf ''rate limit error: '' e []),
        jr_Duration = 0\<rparr>]\<rparr>))"
| worker_counts_limit: "i < length (phases p) \<Longrightarrow> phases p ! i = RateSent job \<Longrightarrow>
    pool_step W p (set_phase i Idle (p\<lparr>activeJobs := activeJobs p - 1, failedJobs := failedJobs p + 1\<rparr>))"
| worker_runs: "i < length (phases p) \<Longrightarrow> phases p ! i = Running job \<Longrightarrow>
    executeJob now job outcome = (result, err, panicked) \<Longrightarrow>
    pool_step W p (set_phase i (Sending job result err d) (pool_updateMetrics d (count_panic panicked p)))"
| worker_sends: "i < length (phases p) \<Longrightarrow> phases p ! i = Sending job result err d \<Longrightarrow>
    length (results p) < MAX_QUEUE_SIZE \<Longrightarrow>
    pool_step W p (set_phase i (Sent job err) (p\<lparr>results := results p @
      [\<lparr>jr_ID = job_ID job, jr_Result = result, jr_Error = err, jr_Duration = d\<rparr>]\<rparr>))"
| worker_abandons: "i < length (phases p) \<Longrightarrow> phases p ! i = Sending job result err d \<Longrightarrow> ctx_done p \<Longrightarrow>
    pool_step W p (set_phase i Exited (p\<lparr>activeJobs := activeJobs p - 1\<rparr>))"
| worker_finishes: "i < length (phases p) \<Longrightarrow> phases p ! i = Sent job err \<Longrightarrow>
    pool_step W p (set_phase i Idle (finish_job now now' err p))"

definition pool_world_of :: "SecureWorkerPool \<Rightarrow> pool_world" where
  "pool_world_of p = SecureWorkerPool.extend p
     \<lparr>submits = [], phases = [], next_ctx = 0, crashed = False\<rparr>"

section \<open>Bounds and accounting\<close>

fun holds_job :: "worker_phase \<Rightarrow> bool" where
  "holds_job Idle = False" | "holds_job Exited = False" | "holds_job _ = True"

definition busy_workers :: "pool_world \<Rightarrow> int" where
  "busy_workers p = int (length (filter holds_job (phases p)))"

definition uncounted_submits :: "pool_world \<Rightarrow> int" where
  "uncounted_submits p = int (length (filter (\<lambda>(_, ph). ph = Offered) (submits p)))"

definition pool_inv :: "pool_world \<Rightarrow> bool" where
  "pool_inv p \<longleftrightarrow> length (jobs p) \<le> MAX_QUEUE_SIZE \<and> length (results p) \<le> MAX_QUEUE_SIZE \<and>
     length (phases p) \<le> workers p \<and>
     activeJobs p = int (length (jobs p)) + busy_workers p - uncounted_submits p"

lemma guards_fields:
  assumes "submit_guards uni clock mem check p = (p', r)"
  shows "\<exists>v. p' = p\<lparr>validator := v\<rparr>"
proof -
  have "p = p\<lparr>validator := validator p\<rparr>" by simp
  then show ?thesis using assms
    by (auto simp: submit_guards_def Let_def split: if_splits prod.splits option.splits intro: exI [of _ "validator p"])
qed

lemma finish_job_fields [simp]:
  "jobs (finish_job t t' e p) = jobs p" "results (finish_job t t' e p) = results p"
  "workers (finish_job t t' e p) = workers p" "activeJobs (finish_job t t' e p) = activeJobs p - 1"
  "phases (finish_job t t' e p) = phases p" "submits (finish_job t t' e p) = submits p"
  "next_ctx (finish_job t t' e p) = next_ctx p"
  by (simp_all add: finish_job_def Let_def split: option.split)

lemma metrics_fields [simp]:
  "jobs (pool_updateMetrics d (count_panic b p)) = jobs p" "results (pool_updateMetrics d (count_panic b p)) = results p"
  "workers (pool_updateMetrics d (count_panic b p)) = workers p"
  "activeJobs (pool_updateMetrics d (count_panic b p)) = activeJobs p"
  "phases (pool_updateMetrics d (count_panic b p)) = phases p"
  "submits (pool_updateMetrics d (count_panic b p)) = submits p"
  "next_ctx (pool_updateMetrics d (count_panic b p)) = next_ctx p"
  by (simp_all add: pool_updateMetrics_def count_panic_def Let_def)

lemma stop_fields [simp]:
  "jobs (stop_finish t b p) = jobs p" "results (stop_finish t b p) = results p"
  "workers (stop_finish t b p) = workers p" "activeJobs (stop_finish t b p) = activeJobs p"
  "phases (stop_finish t b p) = phases p" "submits (stop_finish t b p) = submits p"
  "next_ctx (stop_finish t b p) = next_ctx p"
  by (simp_all add: stop_finish_def Let_def)

lemmas pool_count_simps = pool_inv_def busy_workers_def uncounted_submits_def count_list_update

lemma pool_step_inv: "pool_step W p p' \<Longrightarrow> pool_inv p \<Longrightarrow> pool_inv p'"
proof (induction rule: pool_step.induct)
  case (stop_begins p p')
  then show ?case by (auto simp: stop_begin_def pool_count_simps split: if_splits)
next
  case (submit_rejected uni clock mem check p p' err)
  then obtain v where "p' = p\<lparr>validator := v\<rparr>" using guards_fields by blast
  with submit_rejected show ?case by (simp add: pool_count_simps)
next
  case (submit_ready uni clock mem check p p')
  then obtain v where "p' = p\<lparr>validator := v\<rparr>" using guards_fields by blast
  with submit_ready show ?case by (simp add: pool_count_simps add_submit_def)
qed (auto simp: pool_count_simps)

lemma pool_steps_inv: "(pool_step W)\<^sup>*\<^sup>* p p' \<Longrightarrow> pool_inv p \<Longrightarrow> pool_inv p'"
  by (induction rule: rtranclp_induct) (auto dest: pool_step_inv)

lemma workers_const: "(pool_step W)\<^sup>*\<^sup>* p p' \<Longrightarrow> workers p' = workers p"
proof (induction rule: rtranclp_induct)
  case (step p' p'')
  from step.hyps(2) have "workers p'' = workers p'"
    by (cases rule: pool_step.cases) (auto simp: stop_begin_def add_submit_def dest!: guards_fields split: if_splits)
  with step.IH show ?case by simp
qed simp

lemma new_pool_inv:
  "pool_inv (fst (Start (pool_world_of (NewSecureWorkerPool b now cpus mem n))))"
  by (simp add: pool_inv_def Start_def pool_world_of_def NewSecureWorkerPool_def busy_workers_def
      uncounted_submits_def SecureWorkerPool.extend_def)

text \<open>
  Every result stems from a submission: the jobs queued, held by a worker that has not reported yet,
  or waiting as a result never outgrow the submissions that offered one.
\<close>

fun unsent :: "worker_phase \<Rightarrow> bool" where
  "unsent Idle = False" | "unsent Exited = False" | "unsent (RateSent _) = False" | "unsent (Sent _ _) = False"
| "unsent _ = True"

definition in_flight :: "pool_world \<Rightarrow> int" where
  "in_flight p = int (length (jobs p)) + int (length (filter unsent (phases p))) + int (length (results p))"

definition accepted :: "pool_world \<Rightarrow> int" where
  "accepted p = int (length (filter (\<lambda>(_, ph). ph \<noteq> Ready) (submits p)))"

lemmas flight_simps = in_flight_def accepted_def count_list_update

lemma accepted_le: "accepted p \<le> int (length (submits p))"
  by (simp add: accepted_def)

lemma pool_step_flight: "pool_step W p p' \<Longrightarrow> in_flight p' - accepted p' \<le> in_flight p - accepted p"
proof (induction rule: pool_step.induct)
  case (stop_begins p p')
  then show ?case by (auto simp: stop_begin_def flight_simps split: if_splits)
next
  case (submit_rejected uni clock mem check p p' err)
  then obtain v where "p' = p\<lparr>validator := v\<rparr>" using guards_fields by blast
  then show ?case by (simp add: flight_simps)
next
  case (submit_ready uni clock mem check p p')
  then obtain v where "p' = p\<lparr>validator := v\<rparr>" using guards_fields by blast
  then show ?case by (simp add: flight_simps add_submit_def)
qed (auto simp: flight_simps)

section \<open>A returned Submit and an open circuit\<close>

fun executes :: "nat \<Rightarrow> worker_phase \<Rightarrow> bool" where
  "executes c (Running job) \<longleftrightarrow> job_ctx job = c"
| "executes c (Sending job r e d) \<longleftrightarrow> job_ctx job = c"
| "executes c (Sent job e) \<longleftrightarrow> job_ctx job = c"
| "executes c _ \<longleftrightarrow> False"

text \<open>A worker may still execute a job that it had the rate limiter admit on a live context.\<close>

fun underway :: "nat \<Rightarrow> worker_phase \<Rightarrow> bool" where
  "underway c (Waiting job ctx_was_done) \<longleftrightarrow> job_ctx job = c \<and> \<not> ctx_was_done"
| "underway c ph \<longleftrightarrow> executes c ph"

definition submit_over :: "nat \<Rightarrow> pool_world \<Rightarrow> bool" where
  "submit_over c p \<longleftrightarrow> c < next_ctx p \<and>
     (\<forall>(job, ph) \<in> set (submits p). job_ctx job = c \<longrightarrow> ph = Returned) \<and> (\<forall>ph \<in> set (phases p). \<not> underway c ph)"

lemma submit_over_phase:
  assumes "submit_over c p" "phases p' = (phases p)[i := ph]" "\<not> underway c ph"
    "next_ctx p' = next_ctx p" "submits p' = submits p"
  shows "submit_over c p'"
proof -
  have "set ((phases p)[i := ph]) \<subseteq> insert ph (set (phases p))" by (rule set_update_subset_insert)
  with assms show ?thesis by (auto simp: submit_over_def)
qed

lemma submit_over_submit:
  assumes "submit_over c p" "k < length (submits p)" "submits p ! k = (job, ph)" "ph \<noteq> Returned"
    "submits p' = (submits p)[k := (job, ph')]" "next_ctx p' = next_ctx p" "phases p' = phases p"
  shows "submit_over c p'"
proof -
  have "(job, ph) \<in> set (submits p)" using assms(2, 3) by (metis nth_mem)
  then have "job_ctx job \<noteq> c" using assms(1, 4) by (auto simp: submit_over_def)
  moreover have "set ((submits p)[k := (job, ph')]) \<subseteq> insert (job, ph') (set (submits p))"
    by (rule set_update_subset_insert)
  ultimately show ?thesis using assms by (auto simp: submit_over_def)
qed

lemma not_underway: "submit_over c p \<Longrightarrow> i < length (phases p) \<Longrightarrow> \<not> underway c (phases p ! i)"
  by (simp add: submit_over_def)

lemma submit_over_step:
  assumes law: "\<not> W True None" and "pool_step W p p'" "submit_over c p"
  shows "submit_over c p'"
  using assms(2, 3)
proof (induction rule: pool_step.induct)
  case (stop_begins p p')
  then show ?case by (auto simp: stop_begin_def submit_over_def split: if_splits)
next
  case (submit_rejected uni clock mem check p p' err)
  then obtain v where "p' = p\<lparr>validator := v\<rparr>" using guards_fields by blast
  with submit_rejected show ?case by (simp add: submit_over_def)
next
  case (submit_ready uni clock mem check p p')
  then obtain v where "p' = p\<lparr>validator := v\<rparr>" using guards_fields by blast
  with submit_ready show ?case by (auto simp: submit_over_def add_submit_def make_job_def)
next
  case (worker_takes i p job js)
  then show ?case by (elim submit_over_phase [where ph = "Holding job" and i = i]) simp_all
next
  case (worker_waits i p job c')
  have "job_ctx job = c \<Longrightarrow> job_cancelled p job"
    using worker_waits.prems by (auto simp: job_cancelled_def ctx_live_def submit_over_def)
  then have "\<not> underway c (Waiting job c')" using worker_waits.hyps(4) by auto
  then show ?case
    using worker_waits.prems by (elim submit_over_phase [where ph = "Waiting job c'" and i = i]) simp_all
next
  case (worker_admitted i p job c')
  then have "c' = False" using law by (cases c') auto
  then have "job_ctx job \<noteq> c"
    using not_underway [OF worker_admitted.prems worker_admitted.hyps(1)] worker_admitted.hyps(2) by simp
  then show ?case using worker_admitted.prems by (elim submit_over_phase [where ph = "Running job" and i = i]) simp_all
next
  case (worker_runs i p job now outcome result err panicked d)
  then have "job_ctx job \<noteq> c" using not_underway [of c p i] by simp
  then show ?case
    using worker_runs.prems by (elim submit_over_phase [where ph = "Sending job result err d" and i = i]) simp_all
next
  case (worker_sends i p job result err d)
  then have "job_ctx job \<noteq> c" using not_underway [of c p i] by simp
  then show ?case
    using worker_sends.prems by (elim submit_over_phase [where ph = "Sent job err" and i = i]) simp_all
next
  case (worker_finishes i p job err now now')
  then show ?case by (elim submit_over_phase [where ph = Idle and i = i]) simp_all
qed ((erule submit_over_submit, assumption, assumption, simp, simp, simp, simp) |
     (erule submit_over_phase, simp, simp, simp, simp) | (simp add: submit_over_def))+

text \<open>An open circuit in a pool with nothing left to do.\<close>

definition quiet_open :: "pool_world \<Rightarrow> bool" where
  "quiet_open p \<longleftrightarrow> circuitOpen (errorRate p) \<and> jobs p = [] \<and> (\<forall>ph \<in> set (phases p). \<not> holds_job ph) \<and>
     (\<forall>(job, ph) \<in> set (submits p). ph = Returned)"

lemma quiet_no_job: "quiet_open p \<Longrightarrow> i < length (phases p) \<Longrightarrow> \<not> holds_job (phases p ! i)"
  by (simp add: quiet_open_def)

lemma quiet_no_submit: "quiet_open p \<Longrightarrow> k < length (submits p) \<Longrightarrow> submits p ! k = (job, ph) \<Longrightarrow> ph = Returned"
  unfolding quiet_open_def by (metis (mono_tags, lifting) case_prodD nth_mem)

lemma quiet_open_step: "pool_step W p p' \<Longrightarrow> quiet_open p \<Longrightarrow> quiet_open p'"
proof (induction rule: pool_step.induct)
  case (stop_begins p p')
  then show ?case by (auto simp: stop_begin_def quiet_open_def split: if_splits)
next
  case (submit_rejected uni clock mem check p p' err)
  then obtain v where "p' = p\<lparr>validator := v\<rparr>" using guards_fields by blast
  with submit_rejected show ?case by (simp add: quiet_open_def)
next
  case (submit_ready uni clock mem check p p')
  then show ?case by (auto simp: submit_guards_def IsOpen_def quiet_open_def split: if_splits)
next
  case (worker_ends i p)
  have "set ((phases p)[i := Exited]) \<subseteq> insert Exited (set (phases p))" by (rule set_update_subset_insert)
  with worker_ends show ?case by (auto simp: quiet_open_def)
next
  case (worker_takes i p job js)
  then show ?case by (simp add: quiet_open_def)
qed ((drule (1) quiet_no_job, simp; fail) | (drule (2) quiet_no_submit, simp; fail) |
     (simp add: quiet_open_def stop_finish_def Let_def))+

section \<open>Properties\<close>

text \<open>
  C4: The queues stay bounded and the active count is exact up to submissions in flight: in every
  state that a started pool reaches, under every interleaving of submitters, workers, cancellation
  and shutdown, at most 100 jobs and 100 results are queued, there are at most ten workers, and
  \<^verbatim>\<open>activeJobs\<close> is the number of queued jobs plus the number of workers that hold one, minus the
  submissions whose job is already queued but not yet counted.
\<close>

theorem pool_accounting:
  assumes "(pool_step W)\<^sup>*\<^sup>* (fst (Start (pool_world_of (NewSecureWorkerPool b now cpus mem n)))) p"
  shows "length (jobs p) \<le> 100 \<and> length (results p) \<le> 100 \<and> length (phases p) \<le> 10 \<and>
         activeJobs p = int (length (jobs p)) + busy_workers p - uncounted_submits p"
proof -
  let ?p0 = "fst (Start (pool_world_of (NewSecureWorkerPool b now cpus mem n)))"
  have inv: "pool_inv p" using pool_steps_inv [OF assms new_pool_inv] .
  have "workers p = workers ?p0" using workers_const [OF assms] .
  also have "\<dots> = bound_workers cpus n"
    by (simp add: Start_def pool_world_of_def NewSecureWorkerPool_def SecureWorkerPool.extend_def)
  also have "\<dots> \<le> 10" by (auto simp: bound_workers_def MAX_WORKERS_def Let_def)
  finally show ?thesis using inv by (simp add: pool_inv_def MAX_QUEUE_SIZE_def)
qed

theorem pool_accounting_witness:
  "length (jobs (fst (Start (pool_world_of (NewSecureWorkerPool True 0 4 0 99))))) \<le> 100 \<and>
   length (phases (fst (Start (pool_world_of (NewSecureWorkerPool True 0 4 0 99))))) \<le> 10"
  using pool_accounting [of "\<lambda>_ _. True" True 0 4 0 99
      "fst (Start (pool_world_of (NewSecureWorkerPool True 0 4 0 99)))"] by simp

text \<open>
  C23: A job that is still queued when its \<^verbatim>\<open>Submit\<close> returns, or whose worker has not yet asked the
  rate limiter, is never executed: \<^verbatim>\<open>Submit\<close> cancels the job's context on return, the token bucket
  refuses a context that is done when it is called (its documented behaviour), and so in every later
  state no worker runs that job or holds a result of its check; all the worker can report for it is
  a rate-limit error without a result. Only a job that a worker had admitted on the live context, in
  the moment between the send and the return of \<^verbatim>\<open>Submit\<close>, can run.
\<close>

theorem submitted_job_never_runs:
  assumes "\<not> W True None" "\<forall>(j, ph) \<in> set (submits p). job_ctx j = job_ctx job \<longrightarrow> ph = Returned"
    "job_ctx job < next_ctx p" "\<forall>ph \<in> set (phases p). \<not> underway (job_ctx job) ph" "(pool_step W)\<^sup>*\<^sup>* p p'"
  shows "\<forall>ph \<in> set (phases p'). \<not> executes (job_ctx job) ph"
proof -
  have "submit_over (job_ctx job) p" using assms(2-4) by (simp add: submit_over_def)
  with assms(5) have "submit_over (job_ctx job) p'"
    using assms(1) by (induction rule: rtranclp_induct) (auto intro: submit_over_step)
  moreover have "executes c ph \<Longrightarrow> underway c ph" for c ph by (cases ph) simp_all
  ultimately show ?thesis by (auto simp: submit_over_def)
qed

definition sample_job :: Job where
  "sample_job = \<lparr>job_ID = 0, job_Check = \<lparr>c_Name = ''iptables'', c_Description = [], c_Severity = 1\<rparr>, job_ctx = 0\<rparr>"

definition queued_world :: pool_world where
  "queued_world = (pool_world_of (NewSecureWorkerPool False 0 4 0 2))
     \<lparr>started := True, jobs := [sample_job], submits := [(sample_job, Returned)], phases := [Idle, Idle],
      next_ctx := 1, activeJobs := 1\<rparr>"

theorem submitted_job_never_runs_witness:
  "list_all (\<lambda>ph. \<not> executes (job_ctx sample_job) ph)
     (phases (set_phase 1 (Waiting sample_job True) (set_phase 1 (Holding sample_job) (queued_world\<lparr>jobs := []\<rparr>))))"
  unfolding list_all_iff
proof (rule submitted_job_never_runs [where W = "\<lambda>c e. c \<longrightarrow> e \<noteq> None" and p = queued_world])
  let ?W = "\<lambda>c e. c \<longrightarrow> e \<noteq> None" and ?p = "set_phase 1 (Holding sample_job) (queued_world\<lparr>jobs := []\<rparr>)"
  have "pool_step ?W queued_world ?p" by (rule worker_takes) (simp_all add: queued_world_def)
  moreover have "pool_step ?W ?p (set_phase 1 (Waiting sample_job True) ?p)"
    by (rule worker_waits)
      (simp_all add: queued_world_def pool_world_of_def NewSecureWorkerPool_def SecureWorkerPool.extend_def)
  ultimately show "(pool_step ?W)\<^sup>*\<^sup>* queued_world (set_phase 1 (Waiting sample_job True) ?p)"
    by (rule converse_rtranclp_into_rtranclp [OF _ r_into_rtranclp])
qed (simp_all add: queued_world_def sample_job_def)

text \<open>
  The error-rate circuit: with the pool's threshold, a recorded outcome inside the window opens
  the circuit when at least half of at least ten outcomes are errors, closes it when fewer than a
  quarter are, and keeps it otherwise; the float64 divisions decide exactly these ratios.
\<close>

lemma error_rate_circuit:
  assumes "threshold e = flit (1 / 2)" "0 \<le> errorCount e" "0 \<le> successCount e"
    "errorCount e + successCount e < 2 ^ 53" "Sub now (lastReset e) \<le> window e"
  shows "errorCount e + successCount e + 1 \<ge> 10 \<longrightarrow>
     circuitOpen (RecordError now now' e) =
       (errorCount e + successCount e + 1 \<le> 2 * (errorCount e + 1) \<or>
        circuitOpen e \<and> errorCount e + successCount e + 1 \<le> 4 * (errorCount e + 1)) \<and>
     circuitOpen (Monitor_RecordSuccess now now' e) =
       (errorCount e + successCount e + 1 \<le> 2 * errorCount e \<or>
        circuitOpen e \<and> errorCount e + successCount e + 1 \<le> 4 * errorCount e)"
proof -
  have q: "f_mul (flit (1 / 2)) (flit (1 / 2)) = Fin (1 / 4)"
  proof -
    have "representable (1 / 4)" using representable_pow2 [of "- 2"] by (simp add: pow2_def)
    moreover have "\<bar>1 / 4 :: rat\<bar> < pow2 1024" using pow2_less_iff [of "- 2" 1024] by (simp add: pow2_def [of "- 2"])
    ultimately have "rnd (1 / 4) = Fin (1 / 4)" by (intro rnd_representable)
    then show ?thesis by simp
  qed
  have upd: "circuitOpen (updateCircuitState e') =
      (a + s \<le> 2 * a \<or> circuitOpen e' \<and> a + s \<le> 4 * a)"
    if e': "errorCount e' = a" "successCount e' = s" "threshold e' = flit (1 / 2)" "0 \<le> a" "0 \<le> s" "10 \<le> a + s"
      "a + s \<le> 2 ^ 53" for e' :: ErrorRateMonitor and a s
  proof -
    have h: "f_ge (f_div (float64 a) (float64 (a + s))) (flit (1 / 2)) \<longleftrightarrow> a + s \<le> 2 * a"
      "f_ge (f_div (float64 a) (float64 (a + s))) (Fin (1 / 4)) \<longleftrightarrow> a + s \<le> 4 * a"
      using e' by (intro rate_ge_half_iff rate_ge_quarter_iff; simp)+
    obtain r where r: "f_div (float64 a) (float64 (a + s)) = Fin r"
      using rate_unit_interval [of a "a + s"] e' by auto
    have "f_lt (Fin r) (Fin (1 / 4)) \<longleftrightarrow> \<not> f_ge (Fin r) (Fin (1 / 4))" by (auto simp: f_le_def)
    with h r e' q show ?thesis
      by (auto simp: updateCircuitState_def Let_def)
  qed
  have w: "checkWindow now now' e = e" using assms(5) by (simp add: checkWindow_def)
  show ?thesis
    using assms(1-4) w upd [of "e\<lparr>errorCount := errorCount e + 1\<rparr>" "errorCount e + 1" "successCount e"]
      upd [of "e\<lparr>successCount := successCount e + 1\<rparr>" "errorCount e" "successCount e + 1"]
    by (simp add: RecordError_def Monitor_RecordSuccess_def add.assoc)
qed

text \<open>
  An open circuit is never closed again once the pool has run dry: the window is examined only
  when an outcome is recorded, and with the circuit open \<^verbatim>\<open>Submit\<close> admits no job that could produce
  one. From a state with an open circuit, no queued job, no busy worker and no submission in flight,
  every later state is such a state, at whatever time, and every \<^verbatim>\<open>Submit\<close> is rejected.
\<close>

lemma open_circuit_stays_open:
  assumes "quiet_open p" "(pool_step W)\<^sup>*\<^sup>* p p'"
  shows "quiet_open p' \<and> (\<exists>err. submit_guards uni clock mem check p' = (p', Some err))"
proof -
  from assms(2, 1) have "quiet_open p'"
    by (induction rule: rtranclp_induct) (auto intro: quiet_open_step)
  then show ?thesis by (auto simp: submit_guards_def IsOpen_def quiet_open_def)
qed

end
