(* ===== verification/Rate_Limiter.thy ===== *)
theory Rate_Limiter
  imports Error_Types
begin

text \<open>
  The rate limiter of \<^verbatim>\<open>internal/diagnostics/rate_limiter.go\<close>. The token bucket itself,
  \<^verbatim>\<open>golang.org/x/time/rate.Limiter\<close>, is third-party code: its operations are the record
  \<open>token_bucket\<close>, an argument of the definitions that use it, about which nothing is assumed. The
  metrics have a mutex of their own, and \<^verbatim>\<open>Wait\<close> and \<^verbatim>\<open>TryAcquire\<close> update them in two locked
  sections; the sections are separate definitions, so that steps of other callers can fall between.
\<close>

section \<open>State\<close>

definition DOCKER_API_RATE_LIMIT :: int where "DOCKER_API_RATE_LIMIT = 5"
definition DOCKER_API_BURST :: int where "DOCKER_API_BURST = 10"

record RateLimiterConfig =
  RequestsPerSecond :: f64
  BurstSize :: int
  WaitTimeout :: Duration
  Enabled :: bool

record RateLimiterMetrics =
  TotalRequests :: int
  AllowedRequests :: int
  ThrottledRequests :: int
  TimeoutRequests :: int
  TotalWaitTime :: Duration
  MaxWaitTime :: Duration
  LastRequest :: Time

record 'l RateLimiter =
  limiter :: "'l option"
  rl_metrics :: RateLimiterMetrics
  rl_config :: RateLimiterConfig

text \<open>The context of a wait: the caller's, or one derived from it with a timeout.\<close>

datatype 'c wait_ctx = CallerCtx 'c | WithTimeout 'c Duration

record ('l, 'c) token_bucket =
  NewLimiter :: "f64 \<Rightarrow> int \<Rightarrow> 'l"
  bucket_Wait :: "'c wait_ctx \<Rightarrow> 'l \<Rightarrow> 'l \<times> goerror option"
  bucket_Allow :: "'l \<Rightarrow> 'l \<times> bool"

definition DefaultRateLimiterConfig :: RateLimiterConfig where
  "DefaultRateLimiterConfig =
     \<lparr>RequestsPerSecond = float64 DOCKER_API_RATE_LIMIT, BurstSize = DOCKER_API_BURST,
      WaitTimeout = 5 * Second, Enabled = True\<rparr>"

definition empty_metrics :: RateLimiterMetrics where
  "empty_metrics = \<lparr>TotalRequests = 0, AllowedRequests = 0, ThrottledRequests = 0, TimeoutRequests = 0,
     TotalWaitTime = 0, MaxWaitTime = 0, LastRequest = zero_time\<rparr>"

definition make_limiter :: "('l, 'c) token_bucket \<Rightarrow> RateLimiterConfig \<Rightarrow> 'l option" where
  "make_limiter tb config =
     (if Enabled config then Some (NewLimiter tb (RequestsPerSecond config) (BurstSize config)) else None)"

definition NewRateLimiter :: "('l, 'c) token_bucket \<Rightarrow> RateLimiterConfig option \<Rightarrow> 'l RateLimiter" where
  "NewRateLimiter tb config =
     (let config = (case config of None \<Rightarrow> DefaultRateLimiterConfig | Some c \<Rightarrow> c)
      in \<lparr>limiter = make_limiter tb config, rl_metrics = empty_metrics, rl_config = config\<rparr>)"

section \<open>Requests\<close>

definition record_request :: "'l RateLimiter \<Rightarrow> 'l RateLimiter" where
  "record_request rl = rl\<lparr>rl_metrics := (rl_metrics rl)\<lparr>TotalRequests := TotalRequests (rl_metrics rl) + 1\<rparr>\<rparr>"

definition allow_now :: "Time \<Rightarrow> 'l RateLimiter \<Rightarrow> 'l RateLimiter" where
  "allow_now now rl = rl\<lparr>rl_metrics := (rl_metrics rl)\<lparr>
     AllowedRequests := AllowedRequests (rl_metrics rl) + 1, LastRequest := now\<rparr>\<rparr>"

definition updateMetrics :: "Time \<Rightarrow> goerror option \<Rightarrow> Duration \<Rightarrow> 'l RateLimiter \<Rightarrow> 'l RateLimiter" where
  "updateMetrics now err waitTime rl =
     (let m = rl_metrics rl in
      case err of
        Some e \<Rightarrow>
          if e = DeadlineExceeded then rl\<lparr>rl_metrics := m\<lparr>TimeoutRequests := TimeoutRequests m + 1\<rparr>\<rparr>
          else rl\<lparr>rl_metrics := m\<lparr>ThrottledRequests := ThrottledRequests m + 1\<rparr>\<rparr>
      | None \<Rightarrow>
          let m = m\<lparr>AllowedRequests := AllowedRequests m + 1, LastRequest := now,
                    TotalWaitTime := wrap64 (TotalWaitTime m + waitTime)\<rparr>;
              m = (if waitTime > MaxWaitTime m then m\<lparr>MaxWaitTime := waitTime\<rparr> else m)
          in rl\<lparr>rl_metrics := m\<rparr>)"

text \<open>
  The part of \<^verbatim>\<open>Wait\<close> after the request is counted; \<open>waitTime\<close> is the time that passes in the
  wait and \<open>now\<close> the clock at the update.
\<close>

definition wait_token ::
    "('l, 'c) token_bucket \<Rightarrow> 'c \<Rightarrow> Duration \<Rightarrow> Time \<Rightarrow> 'l RateLimiter \<Rightarrow> 'l RateLimiter \<times> goerror option" where
  "wait_token tb ctx waitTime now rl =
     (case (if Enabled (rl_config rl) then limiter rl else None) of
        None \<Rightarrow> (allow_now now rl, None)
      | Some l \<Rightarrow>
          let waitCtx = (if WaitTimeout (rl_config rl) > 0 then WithTimeout ctx (WaitTimeout (rl_config rl))
                         else CallerCtx ctx)
          in case bucket_Wait tb waitCtx l of
               (l, err) \<Rightarrow>
                 (updateMetrics now err waitTime (rl\<lparr>limiter := Some l\<rparr>),
                  case err of
                    None \<Rightarrow> None
                  | Some e \<Rightarrow>
                      if e = DeadlineExceeded
                      then Some (ErrorString (''rate limiter timeout after '' @ Duration_String waitTime))
                      else Some (Errorf ''rate limiter error: '' e [])))"

definition Wait ::
    "('l, 'c) token_bucket \<Rightarrow> 'c \<Rightarrow> Duration \<Rightarrow> Time \<Rightarrow> 'l RateLimiter \<Rightarrow> 'l RateLimiter \<times> goerror option" where
  "Wait tb ctx waitTime now rl = wait_token tb ctx waitTime now (record_request rl)"

definition try_token :: "('l, 'c) token_bucket \<Rightarrow> Time \<Rightarrow> 'l RateLimiter \<Rightarrow> 'l RateLimiter \<times> bool" where
  "try_token tb now rl =
     (case (if Enabled (rl_config rl) then limiter rl else None) of
        None \<Rightarrow> (allow_now now rl, True)
      | Some l \<Rightarrow>
          (case bucket_Allow tb l of
             (l, allowed) \<Rightarrow>
               (let rl = rl\<lparr>limiter := Some l\<rparr>; m = rl_metrics rl
                in if allowed then allow_now now rl
                   else rl\<lparr>rl_metrics := m\<lparr>ThrottledRequests := ThrottledRequests m + 1\<rparr>\<rparr>,
                allowed)))"

definition TryAcquire :: "('l, 'c) token_bucket \<Rightarrow> Time \<Rightarrow> 'l RateLimiter \<Rightarrow> 'l RateLimiter \<times> bool" where
  "TryAcquire tb now rl = try_token tb now (record_request rl)"

text \<open>
  \<^verbatim>\<open>Reserve\<close> hands out a reservation of the token bucket; \<open>reserve\<close> is the bucket's operation.
  The metrics do not see the request.
\<close>

definition Reserve :: "('l \<Rightarrow> 'l \<times> 'r) \<Rightarrow> 'l RateLimiter \<Rightarrow> 'l RateLimiter \<times> 'r option" where
  "Reserve reserve rl =
     (case (if Enabled (rl_config rl) then limiter rl else None) of
        None \<Rightarrow> (rl, None)
      | Some l \<Rightarrow> (case reserve l of (l, r) \<Rightarrow> (rl\<lparr>limiter := Some l\<rparr>, Some r)))"

section \<open>Metrics and configuration\<close>

definition RateLimiter_GetMetrics :: "'l RateLimiter \<Rightarrow> RateLimiterMetrics" where
  "RateLimiter_GetMetrics rl = rl_metrics rl"

definition ResetMetrics :: "'l RateLimiter \<Rightarrow> 'l RateLimiter" where
  "ResetMetrics rl = rl\<lparr>rl_metrics := empty_metrics\<rparr>"

definition RateLimiter_UpdateConfig ::
    "('l, 'c) token_bucket \<Rightarrow> RateLimiterConfig \<Rightarrow> 'l RateLimiter \<Rightarrow> 'l RateLimiter" where
  "RateLimiter_UpdateConfig tb config rl = rl\<lparr>rl_config := config, limiter := make_limiter tb config\<rparr>"

definition IsEnabled :: "'l RateLimiter \<Rightarrow> bool" where
  "IsEnabled rl = Enabled (rl_config rl)"

definition GetConfig :: "'l RateLimiter \<Rightarrow> RateLimiterConfig" where
  "GetConfig rl = rl_config rl"

definition GetEffectiveRate :: "'l RateLimiter \<Rightarrow> f64" where
  "GetEffectiveRate rl =
     (if \<not> Enabled (rl_config rl) \<or> limiter rl = None then Fin 0 else RequestsPerSecond (rl_config rl))"

definition GetBurstSize :: "'l RateLimiter \<Rightarrow> int" where
  "GetBurstSize rl = (if \<not> Enabled (rl_config rl) then 0 else BurstSize (rl_config rl))"

definition GetAverageWaitTime :: "'l RateLimiter \<Rightarrow> Duration" where
  "GetAverageWaitTime rl =
     (if AllowedRequests (rl_metrics rl) = 0 then 0
      else go_quot (TotalWaitTime (rl_metrics rl)) (AllowedRequests (rl_metrics rl)))"

definition GetThrottleRate :: "'l RateLimiter \<Rightarrow> f64" where
  "GetThrottleRate rl =
     (if TotalRequests (rl_metrics rl) = 0 then Fin 0
      else let throttled = ThrottledRequests (rl_metrics rl) + TimeoutRequests (rl_metrics rl)
           in f_mul (f_div (float64 throttled) (float64 (TotalRequests (rl_metrics rl)))) (Fin 100))"

definition GetStatus :: "'l RateLimiter \<Rightarrow> string" where
  "GetStatus rl =
     (if \<not> IsEnabled rl then ''Rate limiting disabled''
      else let m = RateLimiter_GetMetrics rl
           in ''Rate Limiter Status: '' @ fmt_fixed 1 (GetEffectiveRate rl) @ '' req/s (burst: '' @
              show_int (GetBurstSize rl) @ '') | Total: '' @ show_int (TotalRequests m) @ '' | Allowed: '' @
              show_int (AllowedRequests m) @ '' | Throttled: '' @
              show_int (ThrottledRequests m + TimeoutRequests m) @ '' ('' @
              fmt_fixed 1 (GetThrottleRate rl) @ ''%) | Avg Wait: '' @
              Duration_String (GetAverageWaitTime rl) @ '' | Max Wait: '' @ Duration_String (MaxWaitTime m))"

section \<open>Conservation\<close>

definition metrics_balanced :: "'l RateLimiter \<Rightarrow> bool" where
  "metrics_balanced rl \<longleftrightarrow> (let m = rl_metrics rl in
     TotalRequests m = AllowedRequests m + ThrottledRequests m + TimeoutRequests m \<and>
     0 \<le> AllowedRequests m \<and> 0 \<le> ThrottledRequests m \<and> 0 \<le> TimeoutRequests m)"

datatype ('l, 'c, 'r) limiter_op =
    OWait 'c Duration Time
  | OTryAcquire Time
  | OReserve "'l \<Rightarrow> 'l \<times> 'r"
  | OResetMetrics
  | OUpdateConfig RateLimiterConfig

fun limiter_exec :: "('l, 'c) token_bucket \<Rightarrow> ('l, 'c, 'r) limiter_op \<Rightarrow> 'l RateLimiter \<Rightarrow> 'l RateLimiter" where
  "limiter_exec tb (OWait ctx d now) rl = fst (Wait tb ctx d now rl)"
| "limiter_exec tb (OTryAcquire now) rl = fst (TryAcquire tb now rl)"
| "limiter_exec tb (OReserve reserve) rl = fst (Reserve reserve rl)"
| "limiter_exec tb OResetMetrics rl = ResetMetrics rl"
| "limiter_exec tb (OUpdateConfig c) rl = RateLimiter_UpdateConfig tb c rl"

lemma limiter_exec_balanced: "metrics_balanced rl \<Longrightarrow> metrics_balanced (limiter_exec tb op rl)"
  by (cases op)
    (auto simp: metrics_balanced_def Wait_def wait_token_def TryAcquire_def try_token_def record_request_def
      allow_now_def updateMetrics_def Reserve_def ResetMetrics_def empty_metrics_def RateLimiter_UpdateConfig_def Let_def
      split: option.split prod.split)

lemma limiter_run_balanced:
  "metrics_balanced rl \<Longrightarrow> metrics_balanced (fold (limiter_exec tb) ops rl)"
  by (induction ops arbitrary: rl) (simp_all add: limiter_exec_balanced)

section \<open>Properties\<close>

text \<open>
  C16: Every request is accounted for once: whatever the token bucket answers, after any sequence
  of waits, tries, reservations, metric resets and configuration changes, the total number of requests is the sum
  of the allowed, throttled and timed out ones, and \<^verbatim>\<open>GetThrottleRate\<close> is a number between 0 and 100.
\<close>

theorem rate_limiter_conservation:
  assumes "rl = fold (limiter_exec tb) ops (NewRateLimiter tb config)"
    "TotalRequests (rl_metrics rl) < 2 ^ 63"
  shows "TotalRequests (rl_metrics rl) =
           AllowedRequests (rl_metrics rl) + ThrottledRequests (rl_metrics rl) + TimeoutRequests (rl_metrics rl) \<and>
         (\<exists>r. GetThrottleRate rl = Fin r \<and> 0 \<le> r \<and> r \<le> 100)"
proof -
  have ok: "metrics_balanced rl"
    unfolding assms(1) by (rule limiter_run_balanced)
      (simp add: metrics_balanced_def NewRateLimiter_def empty_metrics_def Let_def)
  let ?t = "ThrottledRequests (rl_metrics rl) + TimeoutRequests (rl_metrics rl)" and ?n = "TotalRequests (rl_metrics rl)"
  have "\<exists>r. GetThrottleRate rl = Fin r \<and> 0 \<le> r \<and> r \<le> 100" if n: "0 < ?n"
  proof -
    have "0 \<le> ?t" "?t \<le> ?n" using ok by (simp_all add: metrics_balanced_def Let_def)
    then obtain q where q: "f_div (float64 ?t) (float64 ?n) = Fin q" "0 \<le> q" "q \<le> 1"
      using rate_unit_interval [of ?t ?n] assms(2) n by blast
    have "\<exists>r. rnd (q * 100) = Fin r \<and> 0 \<le> r \<and> r \<le> 100"
    proof (cases "q = 0")
      case False
      then have "0 < q * 100" using q by simp
      moreover have "rnd_pos (q * 100) \<le> 100"
        using q False representable_int [of 100] by (intro rnd_pos_le) simp_all
      moreover have "(100 :: rat) \<le> pow2 1023"
        using pow2_less_iff [of 7 1023] by (simp add: pow2_def [of 7])
      ultimately show ?thesis using rnd_pos_Fin [of "q * 100" 100] rnd_pos_nonneg [of "q * 100"] by simp
    qed (simp add: rnd_def)
    then show ?thesis using q n by (simp add: GetThrottleRate_def Let_def)
  qed
  moreover have "\<exists>r. GetThrottleRate rl = Fin r \<and> 0 \<le> r \<and> r \<le> 100" if "\<not> 0 < ?n"
    using that ok by (simp add: GetThrottleRate_def metrics_balanced_def Let_def)
  ultimately show ?thesis using ok by (auto simp: metrics_balanced_def Let_def)
qed

text \<open>A bucket that grants its first tokens and then times out, for concrete runs.\<close>

definition counting_bucket :: "(nat, unit) token_bucket" where
  "counting_bucket = \<lparr>NewLimiter = (\<lambda>r b. nat b),
     bucket_Wait = (\<lambda>c n. if n = 0 then (0, Some DeadlineExceeded) else (n - 1, None)),
     bucket_Allow = (\<lambda>n. (n - 1, 0 < n))\<rparr>"

theorem rate_limiter_conservation_witness:
  "\<exists>r. GetThrottleRate (fold (limiter_exec counting_bucket) [OTryAcquire 1, OReserve (\<lambda>l. (l - 1, ())), OResetMetrics]
         (NewRateLimiter counting_bucket None)) = Fin r \<and> 0 \<le> r \<and> r \<le> 100"
  by (rule rate_limiter_conservation [OF refl, THEN conjunct2]) (simp add: ResetMetrics_def empty_metrics_def)

text \<open>
  \<^verbatim>\<open>Wait\<close> follows the token bucket: it returns without error exactly when limiting is off or the
  bucket grants the token, it asks the bucket with the configured timeout, and it reports a timeout
  exactly when the bucket's error is the context's deadline error; any other error is wrapped.
\<close>

lemma wait_follows_bucket:
  assumes "Enabled (rl_config rl)" "limiter rl = Some l" "0 < WaitTimeout (rl_config rl)"
    "bucket_Wait tb (WithTimeout ctx (WaitTimeout (rl_config rl))) l = (l', err)"
  shows "(snd (Wait tb ctx d now rl) = None \<longleftrightarrow> err = None) \<and>
         limiter (fst (Wait tb ctx d now rl)) = Some l' \<and>
         TimeoutRequests (rl_metrics (fst (Wait tb ctx d now rl))) =
           TimeoutRequests (rl_metrics rl) + (if err = Some DeadlineExceeded then 1 else 0) \<and>
         (\<forall>e. err = Some e \<and> e \<noteq> DeadlineExceeded \<longrightarrow>
            (\<exists>w. snd (Wait tb ctx d now rl) = Some w \<and> errors_Is e w)) \<and>
         snd (Wait tb ctx d now (RateLimiter_UpdateConfig tb ((rl_config rl)\<lparr>Enabled := False\<rparr>) rl)) = None"
proof -
  have refl: "errors_Is e e" for e by (cases e) simp_all
  show ?thesis
    using assms
    by (auto simp: Wait_def wait_token_def record_request_def updateMetrics_def RateLimiter_UpdateConfig_def
        make_limiter_def Let_def refl split: option.split)
qed

text \<open>
  A reservation is handed out exactly when limiting is on and a bucket exists, and it escapes the
  accounting: the bucket hands out a token that the request counters never see.
\<close>

lemma Reserve_uncounted:
  "(snd (Reserve reserve rl) \<noteq> None \<longleftrightarrow> IsEnabled rl \<and> limiter rl \<noteq> None) \<and>
   limiter (fst (Reserve reserve rl)) =
     (if IsEnabled rl then map_option (\<lambda>l. fst (reserve l)) (limiter rl) else limiter rl) \<and>
   rl_metrics (fst (Reserve reserve rl)) = rl_metrics rl"
  by (auto simp: Reserve_def IsEnabled_def split: option.split prod.split)

end
