(* ===== verification/Engine.thy ===== *)
theory Engine
  imports Worker_Pool Rate_Limiter
begin

text \<open>
  The diagnostic engine of \<^verbatim>\<open>internal/diagnostics/engine.go\<close>: it runs the registered checks one
  after the other, or through the worker pool, and summarises their results. What a check does, how
  long it takes, and in which order the pool delivers results is the environment of a run. Pointers
  to results may be nil, and a nil dereference, which panics and ends the program, is the value
  \<^term>\<open>None\<close> of an operation.
\<close>

section \<open>State\<close>

record Config =
  Parallel :: bool
  Timeout :: Duration
  Verbose :: bool
  TargetFilter :: string
  WorkerCount :: int
  RateLimit :: f64

record Summary =
  TotalChecks :: int
  PassedChecks :: int
  FailedChecks :: int
  WarningChecks :: int
  CriticalIssues :: "string list"

record ExecutionMetrics =
  ParallelExecution :: bool
  em_WorkerCount :: int
  TotalDuration :: Duration
  AverageCheckTime :: Duration
  MaxCheckTime :: Duration
  MinCheckTime :: Duration
  MemoryUsageMB :: f64
  APICallsCount :: int
  em_RateLimitHits :: int
  ErrorRate :: f64

record Results =
  Checks :: "CheckResult option list"
  res_Summary :: Summary
  res_Duration :: Duration
  Metrics :: ExecutionMetrics

record 'l DiagnosticEngine =
  checks :: "Check list"
  eng_results :: Results
  eng_config :: Config
  rateLimiter :: "'l RateLimiter"

definition check_of :: "string \<Rightarrow> string \<Rightarrow> Severity \<Rightarrow> Check" where
  "check_of name description severity = \<lparr>c_Name = name, c_Description = description, c_Severity = severity\<rparr>"

definition registerDefaultChecks :: "Check list" where
  "registerDefaultChecks =
     [check_of ''daemon_connectivity'' ''Checking Docker daemon connectivity and API accessibility'' SeverityCritical,
      check_of ''bridge_network'' ''Checking Docker bridge network configuration and health'' SeverityCritical,
      check_of ''ip_forwarding'' ''Checking if IP forwarding is enabled on the host'' SeverityCritical,
      check_of ''iptables'' ''Checking iptables rules for Docker networking'' SeverityCritical,
      check_of ''dns_resolution'' ''Testing DNS resolution capabilities in containers'' SeverityWarning,
      check_of ''internal_dns'' ''Checking container-to-container DNS resolution'' SeverityWarning,
      check_of ''container_connectivity'' ''Checking connectivity between containers on the same network'' SeverityWarning,
      check_of ''port_binding'' ''Checking container port bindings and accessibility'' SeverityWarning,
      check_of ''network_isolation'' ''Checking Docker network isolation and security configuration'' SeverityWarning,
      check_of ''mtu_consistency'' ''Checking MTU consistency across networks and host interfaces'' SeverityWarning,
      check_of ''subnet_overlap'' ''Checking for overlapping subnets between Docker networks'' SeverityWarning]"

definition empty_execution_metrics :: ExecutionMetrics where
  "empty_execution_metrics =
     \<lparr>ParallelExecution = False, em_WorkerCount = 0, TotalDuration = 0, AverageCheckTime = 0, MaxCheckTime = 0,
      MinCheckTime = 0, MemoryUsageMB = Fin 0, APICallsCount = 0, em_RateLimitHits = 0, ErrorRate = Fin 0\<rparr>"

definition empty_summary :: Summary where
  "empty_summary = \<lparr>TotalChecks = 0, PassedChecks = 0, FailedChecks = 0, WarningChecks = 0, CriticalIssues = []\<rparr>"

definition NewEngine :: "('l, 'c) token_bucket \<Rightarrow> int \<Rightarrow> Config option \<Rightarrow> 'l DiagnosticEngine" where
  "NewEngine tb numCPU config =
     (let config = (case config of
            None \<Rightarrow> \<lparr>Parallel = True, Timeout = 30 * Second, Verbose = False, TargetFilter = [],
                     WorkerCount = numCPU, RateLimit = float64 DOCKER_API_RATE_LIMIT\<rparr>
          | Some c \<Rightarrow> c);
          config = (if WorkerCount config \<le> 0 then config\<lparr>WorkerCount := numCPU\<rparr> else config);
          config = (if WorkerCount config > int MAX_WORKERS then config\<lparr>WorkerCount := int MAX_WORKERS\<rparr> else config)
      in \<lparr>checks = registerDefaultChecks,
          eng_results = \<lparr>Checks = [], res_Summary = empty_summary, res_Duration = 0, Metrics = empty_execution_metrics\<rparr>,
          eng_config = config,
          rateLimiter = NewRateLimiter tb (Some \<lparr>RequestsPerSecond = RateLimit config, BurstSize = DOCKER_API_BURST,
                                               WaitTimeout = 5 * Second, Enabled = True\<rparr>)\<rparr>)"

section \<open>Running one check\<close>

definition runCheckSafely :: "Time \<Rightarrow> Duration \<Rightarrow> Check \<Rightarrow> run_outcome \<Rightarrow> CheckResult option" where
  "runCheckSafely now d check outcome =
     (case outcome of
        Panics r \<Rightarrow> None
      | Returns result (Some err) \<Rightarrow>
          Some ((failed_result now (c_Name check) (''Check failed with error: '' @ Error err))\<lparr>cr_Duration := d\<rparr>)
      | Returns None None \<Rightarrow> Some ((failed_result now (c_Name check) ''Check returned no result'')\<lparr>cr_Duration := d\<rparr>)
      | Returns (Some result) None \<Rightarrow> Some (result\<lparr>cr_Duration := d\<rparr>))"

definition shouldStopOnFailure :: "Check \<Rightarrow> bool" where
  "shouldStopOnFailure check \<longleftrightarrow> c_Severity check = SeverityCritical \<and> c_Name check = ''daemon_connectivity''"

definition add_result :: "CheckResult option \<Rightarrow> 'l DiagnosticEngine \<Rightarrow> 'l DiagnosticEngine" where
  "add_result r e = e\<lparr>eng_results := (eng_results e)\<lparr>Checks := Checks (eng_results e) @ [r]\<rparr>\<rparr>"

text \<open>What the environment supplies for the check at each position.\<close>

record 'c check_env =
  ce_ctx :: 'c
  ce_wait :: "nat \<Rightarrow> Duration"
  ce_now :: "nat \<Rightarrow> Time"
  ce_outcome :: "nat \<Rightarrow> run_outcome"
  ce_duration :: "nat \<Rightarrow> Duration"

fun seq_loop ::
    "('l, 'c) token_bucket \<Rightarrow> 'c check_env \<Rightarrow> nat \<Rightarrow> Check list \<Rightarrow> 'l DiagnosticEngine \<Rightarrow> 'l DiagnosticEngine option" where
  "seq_loop tb env i [] e = Some e"
| "seq_loop tb env i (check # cs) e =
     (case Wait tb (ce_ctx env) (ce_wait env i) (ce_now env i) (rateLimiter e) of
        (rl, Some err) \<Rightarrow>
          seq_loop tb env (i + 1) cs (add_result
            (Some (failed_result (ce_now env i) (c_Name check) (''Rate limit error: '' @ Error err)))
            (e\<lparr>rateLimiter := rl\<rparr>))
      | (rl, None) \<Rightarrow>
          (case runCheckSafely (ce_now env i) (ce_duration env i) check (ce_outcome env i) of
             None \<Rightarrow> None
           | Some result \<Rightarrow>
               let result = result\<lparr>cr_Duration := ce_duration env i\<rparr>;
                   e = add_result (Some result) (e\<lparr>rateLimiter := rl\<rparr>)
               in if \<not> cr_Success result \<and> shouldStopOnFailure check then Some e
                  else seq_loop tb env (i + 1) cs e))"

definition runSequential ::
    "('l, 'c) token_bucket \<Rightarrow> 'c check_env \<Rightarrow> 'l DiagnosticEngine \<Rightarrow> 'l DiagnosticEngine option" where
  "runSequential tb env e = seq_loop tb env 0 (checks e) e"

text \<open>
  The legacy parallel run: \<open>order\<close> is the order in which the goroutines pass the rate limiter,
  \<open>arrival\<close> the order in which their results arrive, both permutations of the positions.
\<close>

fun pass_limiter ::
    "('l, 'c) token_bucket \<Rightarrow> 'c check_env \<Rightarrow> Check list \<Rightarrow> nat list \<Rightarrow> 'l RateLimiter \<Rightarrow>
     'l RateLimiter \<times> (nat \<times> CheckResult option) list" where
  "pass_limiter tb env cs [] rl = (rl, [])"
| "pass_limiter tb env cs (i # order) rl =
     (case Wait tb (ce_ctx env) (ce_wait env i) (ce_now env i) rl of
        (rl, err) \<Rightarrow>
          let r = (case err of
                     Some er \<Rightarrow> Some (failed_result (ce_now env i) (c_Name (cs ! i)) (''Rate limit error: '' @ Error er))
                   | None \<Rightarrow> runCheckSafely (ce_now env i) (ce_duration env i) (cs ! i) (ce_outcome env i))
          in case pass_limiter tb env cs order rl of (rl, rs) \<Rightarrow> (rl, (i, r) # rs))"

definition runParallel ::
    "('l, 'c) token_bucket \<Rightarrow> 'c check_env \<Rightarrow> nat list \<Rightarrow> nat list \<Rightarrow> 'l DiagnosticEngine \<Rightarrow> 'l DiagnosticEngine" where
  "runParallel tb env order arrival e =
     (case pass_limiter tb env (checks e) order (rateLimiter e) of
        (rl, rs) \<Rightarrow> fold (\<lambda>i. add_result (the (map_of rs i))) arrival (e\<lparr>rateLimiter := rl\<rparr>))"

section \<open>Running through the pool\<close>

definition set_metrics :: "(ExecutionMetrics \<Rightarrow> ExecutionMetrics) \<Rightarrow> 'l DiagnosticEngine \<Rightarrow> 'l DiagnosticEngine" where
  "set_metrics f e = e\<lparr>eng_results := (eng_results e)\<lparr>Metrics := f (Metrics (eng_results e))\<rparr>\<rparr>"

definition collect_result :: "JobResult \<Rightarrow> 'l DiagnosticEngine \<Rightarrow> 'l DiagnosticEngine" where
  "collect_result r e =
     (case jr_Result r of
        Some cr \<Rightarrow> add_result (Some (cr\<lparr>cr_Duration := jr_Duration r\<rparr>)) e
      | None \<Rightarrow> e)"

definition take_pool_metrics :: "PoolMetrics \<Rightarrow> 'l DiagnosticEngine \<Rightarrow> 'l DiagnosticEngine" where
  "take_pool_metrics pm =
     set_metrics (\<lambda>m. m\<lparr>APICallsCount := TotalAPIcalls pm, em_RateLimitHits := pm_RateLimitHits pm,
                         MemoryUsageMB := PeakMemoryMB pm\<rparr>)"

text \<open>
  Where \<^verbatim>\<open>runWithWorkerPool\<close> is: before submitting a check, inside the call of \<^verbatim>\<open>Submit\<close> for it (the
  second number is the place of the call in \<^term>\<open>submits\<close>), collecting with a number of collected
  results, returning with the deferred \<^verbatim>\<open>Stop\<close> still to run or in its wait, or over. The result
  channel is never closed, so the \<^verbatim>\<open>!ok\<close> branch of the collection is never taken.
\<close>

datatype run_phase =
    Submitting nat
  | InSubmit nat nat
  | Collecting nat
  | Stopping "goerror option"
  | StopWaits "goerror option"
  | Ended "goerror option"

record 'l pool_run =
  run_engine :: "'l DiagnosticEngine"
  run_pool :: pool_world
  run_at :: run_phase

text \<open>Steps of the workers, of the calls of \<^verbatim>\<open>Submit\<close> in progress and of the clock.\<close>

definition background :: "pool_world \<Rightarrow> pool_world \<Rightarrow> bool" where
  "background p p' \<longleftrightarrow> stopped p' = stopped p \<and> length (submits p') = length (submits p) \<and>
     length (results p) \<le> length (results p')"

inductive run_step :: "(bool \<Rightarrow> goerror option \<Rightarrow> bool) \<Rightarrow> 'l pool_run \<Rightarrow> 'l pool_run \<Rightarrow> bool"
  for W :: "bool \<Rightarrow> goerror option \<Rightarrow> bool" where
  pool_moves: "pool_step W p p' \<Longrightarrow> background p p' \<Longrightarrow>
    run_step W \<lparr>run_engine = e, run_pool = p, run_at = ph\<rparr> \<lparr>run_engine = e, run_pool = p', run_at = ph\<rparr>"
| check_refused: "k < length (checks e) \<Longrightarrow> submit_guards uni clock mem (checks e ! k) p = (p', Some err) \<Longrightarrow>
    run_step W \<lparr>run_engine = e, run_pool = p, run_at = Submitting k\<rparr>
               \<lparr>run_engine = e, run_pool = p', run_at = Submitting (k + 1)\<rparr>"
| check_offered: "k < length (checks e) \<Longrightarrow> submit_guards uni clock mem (checks e ! k) p = (p', None) \<Longrightarrow>
    run_step W \<lparr>run_engine = e, run_pool = p, run_at = Submitting k\<rparr>
               \<lparr>run_engine = e, run_pool = add_submit (checks e ! k) p', run_at = InSubmit k (length (submits p))\<rparr>"
| submit_over: "s < length (submits p) \<Longrightarrow> snd (submits p ! s) = Returned \<Longrightarrow>
    run_step W \<lparr>run_engine = e, run_pool = p, run_at = InSubmit k s\<rparr>
               \<lparr>run_engine = e, run_pool = p, run_at = Submitting (k + 1)\<rparr>"
| all_submitted: "\<not> k < length (checks e) \<Longrightarrow>
    run_step W \<lparr>run_engine = e, run_pool = p, run_at = Submitting k\<rparr>
               \<lparr>run_engine = e, run_pool = p, run_at = Collecting 0\<rparr>"
| collects: "n < length (checks e) \<Longrightarrow> results p = r # rs \<Longrightarrow>
    run_step W \<lparr>run_engine = e, run_pool = p, run_at = Collecting n\<rparr>
               \<lparr>run_engine = collect_result r e, run_pool = p\<lparr>results := rs\<rparr>, run_at = Collecting (n + 1)\<rparr>"
| times_out: "n < length (checks e) \<Longrightarrow>
    run_step W \<lparr>run_engine = e, run_pool = p, run_at = Collecting n\<rparr>
               \<lparr>run_engine = e, run_pool = p, run_at = Stopping None\<rparr>"
| run_cancelled: "n < length (checks e) \<Longrightarrow> ctx_done p \<Longrightarrow> err = Canceled \<or> err = DeadlineExceeded \<Longrightarrow>
    run_step W \<lparr>run_engine = e, run_pool = p, run_at = Collecting n\<rparr>
               \<lparr>run_engine = e, run_pool = p, run_at = Stopping (Some err)\<rparr>"
| all_collected: "\<not> n < length (checks e) \<Longrightarrow>
    run_step W \<lparr>run_engine = e, run_pool = p, run_at = Collecting n\<rparr>
               \<lparr>run_engine = take_pool_metrics (Pool_GetMetrics p) e, run_pool = p, run_at = Stopping None\<rparr>"
| stop_closes: "stop_begin p = (p', None) \<Longrightarrow>
    run_step W \<lparr>run_engine = e, run_pool = p, run_at = Stopping res\<rparr>
               \<lparr>run_engine = e, run_pool = p', run_at = StopWaits res\<rparr>"
| stop_returns: "forced \<or> list_all (\<lambda>ph. ph = Exited) (phases p) \<Longrightarrow>
    run_step W \<lparr>run_engine = e, run_pool = p, run_at = StopWaits res\<rparr>
               \<lparr>run_engine = e, run_pool = stop_finish now forced p, run_at = Ended res\<rparr>"

text \<open>
  \<^verbatim>\<open>NewSecureWorkerPool\<close> never returns an error and \<^verbatim>\<open>Start\<close> of a new pool neither
  (\<open>fresh_pool_starts\<close> below), so the run starts with the submission of the first check.
\<close>

definition run_start :: "bool \<Rightarrow> Time \<Rightarrow> int \<Rightarrow> 64 word \<Rightarrow> 'l DiagnosticEngine \<Rightarrow> 'l pool_run" where
  "run_start isTestMode now numCPU mem e =
     \<lparr>run_engine = e,
      run_pool = fst (Start (pool_world_of (NewSecureWorkerPool isTestMode now numCPU mem (WorkerCount (eng_config e))))),
      run_at = Submitting 0\<rparr>"

definition runWithWorkerPool ::
    "(bool \<Rightarrow> goerror option \<Rightarrow> bool) \<Rightarrow> 'l pool_run \<Rightarrow> 'l DiagnosticEngine \<Rightarrow> goerror option \<Rightarrow> bool" where
  "runWithWorkerPool W start e' err \<longleftrightarrow>
     (\<exists>p'. (run_step W)\<^sup>*\<^sup>* start \<lparr>run_engine = e', run_pool = p', run_at = Ended err\<rparr>)"

section \<open>Summary and metrics\<close>

definition is_critical_check :: "Check list \<Rightarrow> string \<Rightarrow> bool" where
  "is_critical_check cs name \<longleftrightarrow> list_ex (\<lambda>c. c_Name c = name \<and> c_Severity c = SeverityCritical) cs"

definition count_result :: "Check list \<Rightarrow> CheckResult \<Rightarrow> Summary \<Rightarrow> Summary" where
  "count_result cs r s =
     (if cr_Success r then s\<lparr>PassedChecks := PassedChecks s + 1\<rparr>
      else let s = s\<lparr>FailedChecks := FailedChecks s + 1\<rparr>
           in if is_critical_check cs (cr_CheckName r) then s\<lparr>CriticalIssues := CriticalIssues s @ [cr_Message r]\<rparr> else s)"

text \<open>All results behind the pointers, \<^term>\<open>None\<close> when one is nil.\<close>

fun deref :: "'a option list \<Rightarrow> 'a list option" where
  "deref [] = Some []"
| "deref (None # xs) = None"
| "deref (Some x # xs) = map_option (Cons x) (deref xs)"

definition calculateSummary :: "'l DiagnosticEngine \<Rightarrow> 'l DiagnosticEngine option" where
  "calculateSummary e =
     map_option (\<lambda>rs. e\<lparr>eng_results := (eng_results e)\<lparr>res_Summary :=
         fold (count_result (checks e)) rs (empty_summary\<lparr>TotalChecks := int (length rs)\<rparr>)\<rparr>\<rparr>)
       (deref (Checks (eng_results e)))"

record metric_acc =
  acc_total :: Duration
  acc_max :: Duration
  acc_min :: Duration
  acc_failed :: int

definition accumulate :: "CheckResult \<Rightarrow> metric_acc \<Rightarrow> metric_acc" where
  "accumulate r a =
     (let a = (if cr_Duration r > 0
               then let a = a\<lparr>acc_total := wrap64 (acc_total a + cr_Duration r)\<rparr>;
                        a = (if cr_Duration r > acc_max a then a\<lparr>acc_max := cr_Duration r\<rparr> else a)
                    in if cr_Duration r < acc_min a then a\<lparr>acc_min := cr_Duration r\<rparr> else a
               else a)
      in if \<not> cr_Success r then a\<lparr>acc_failed := acc_failed a + 1\<rparr> else a)"

definition calculateMetrics :: "'l DiagnosticEngine \<Rightarrow> 'l DiagnosticEngine option" where
  "calculateMetrics e =
     (if Checks (eng_results e) = [] then Some e
      else map_option (\<lambda>rs.
        let a = fold accumulate rs \<lparr>acc_total = 0, acc_max = 0, acc_min = 2 ^ 63 - 1, acc_failed = 0\<rparr>;
            n = int (length rs);
            rl = RateLimiter_GetMetrics (rateLimiter e)
        in set_metrics (\<lambda>m. m\<lparr>AverageCheckTime := go_quot (acc_total a) n, MaxCheckTime := acc_max a,
                               MinCheckTime := acc_min a, ErrorRate := f_div (float64 (acc_failed a)) (float64 n),
                               APICallsCount := TotalRequests rl, em_RateLimitHits := ThrottledRequests rl\<rparr>) e)
        (deref (Checks (eng_results e))))"

text \<open>
  \<^verbatim>\<open>Run\<close>: \<open>elapsed\<close> is the duration of the run, \<open>Inl\<close> the returned error. A parallel run may end in
  several ways, so \<^verbatim>\<open>Run\<close> relates the engine to its possible outcomes.
\<close>

definition begin_run :: "'l DiagnosticEngine \<Rightarrow> 'l DiagnosticEngine" where
  "begin_run e = set_metrics (\<lambda>m. m\<lparr>ParallelExecution := Parallel (eng_config e),
                                    em_WorkerCount := WorkerCount (eng_config e)\<rparr>) e"

definition finish_run :: "Duration \<Rightarrow> 'l DiagnosticEngine \<Rightarrow> ('l DiagnosticEngine \<times> (goerror + Results)) option" where
  "finish_run elapsed e =
     (let e = set_metrics (\<lambda>m. m\<lparr>TotalDuration := elapsed\<rparr>)
                (e\<lparr>eng_results := (eng_results e)\<lparr>res_Duration := elapsed\<rparr>\<rparr>)
      in case calculateSummary e of
           None \<Rightarrow> None
         | Some e \<Rightarrow> map_option (\<lambda>e. (e, Inr (eng_results e))) (calculateMetrics e))"

definition Run ::
    "('l, 'c) token_bucket \<Rightarrow> 'c check_env \<Rightarrow> (bool \<Rightarrow> goerror option \<Rightarrow> bool) \<Rightarrow>
     ('l DiagnosticEngine \<Rightarrow> 'l pool_run) \<Rightarrow> Duration \<Rightarrow> 'l DiagnosticEngine \<Rightarrow>
     ('l DiagnosticEngine \<times> (goerror + Results)) option \<Rightarrow> bool" where
  "Run tb env W start elapsed e res \<longleftrightarrow>
     (if Parallel (eng_config e)
      then \<exists>e1 err. runWithWorkerPool W (start (begin_run e)) e1 err \<and>
             res = (case err of
                      Some er \<Rightarrow> Some (e1, Inl (Errorf ''worker pool execution failed: '' er []))
                    | None \<Rightarrow> finish_run elapsed e1)
      else res = Option.bind (runSequential tb env (begin_run e)) (finish_run elapsed))"

section \<open>Recommendations and report\<close>

datatype Priority = PriorityLow | PriorityMedium | PriorityHigh

fun Priority_num :: "Priority \<Rightarrow> nat" where
  "Priority_num PriorityLow = 0" | "Priority_num PriorityMedium = 1" | "Priority_num PriorityHigh = 2"

instantiation Priority :: linorder
begin

definition less_eq_Priority :: "Priority \<Rightarrow> Priority \<Rightarrow> bool" where
  "less_eq_Priority p q \<longleftrightarrow> Priority_num p \<le> Priority_num q"

definition less_Priority :: "Priority \<Rightarrow> Priority \<Rightarrow> bool" where
  "less_Priority p q \<longleftrightarrow> Priority_num p < Priority_num q"

instance
proof
  fix p q :: Priority
  assume "p \<le> q" "q \<le> p"
  then show "p = q" by (cases p; cases q) (simp_all add: less_eq_Priority_def)
qed (auto simp: less_eq_Priority_def less_Priority_def)

end

record Recommendation =
  rec_Priority :: Priority
  rec_Category :: string
  rec_Title :: string
  rec_Action :: string
  rec_Commands :: "string list"

definition network_recommendation :: Recommendation where
  "network_recommendation =
     \<lparr>rec_Priority = PriorityHigh, rec_Category = ''Network Configuration'',
      rec_Title = ''Multiple network configuration issues detected'',
      rec_Action = ''Review Docker network settings and consider resetting network configuration'',
      rec_Commands = [''docker network prune'', ''docker system prune'', ''systemctl restart docker'']\<rparr>"

definition dns_recommendation :: Recommendation where
  "dns_recommendation =
     \<lparr>rec_Priority = PriorityMedium, rec_Category = ''DNS Resolution'',
      rec_Title = ''DNS resolution problems detected'',
      rec_Action = ''Check DNS configuration in containers and Docker daemon'',
      rec_Commands = [''docker exec <container> cat /etc/resolv.conf'',
                      ''docker network inspect bridge | grep -A 5 IPAM'']\<rparr>"

definition performance_recommendation :: "ExecutionMetrics \<Rightarrow> Recommendation" where
  "performance_recommendation m =
     \<lparr>rec_Priority = PriorityLow, rec_Category = ''Performance'',
      rec_Title = ''Excellent diagnostic performance'',
      rec_Action = ''Diagnostics completed in '' @ Duration_String (TotalDuration m) @ '' using '' @
        show_int (em_WorkerCount m) @ '' workers'',
      rec_Commands = []\<rparr>"

definition failures_in :: "string list \<Rightarrow> CheckResult list \<Rightarrow> nat" where
  "failures_in names rs = length (filter (\<lambda>r. \<not> cr_Success r \<and> cr_CheckName r \<in> set names) rs)"

definition GetRecommendations :: "'l DiagnosticEngine \<Rightarrow> Recommendation list option" where
  "GetRecommendations e =
     map_option (\<lambda>rs.
       let networkIssues = failures_in [''bridge_network'', ''subnet_overlap'', ''mtu_consistency''] rs;
           dnsIssues = failures_in [''dns_resolution'', ''internal_dns''] rs;
           m = Metrics (eng_results e)
       in (if networkIssues > 1 then [network_recommendation] else []) @
          (if dnsIssues > 0 then [dns_recommendation] else []) @
          (if ParallelExecution m \<and> TotalDuration m < 500 * Millisecond
           then [performance_recommendation m] else []))
       (deref (Checks (eng_results e)))"

definition newline :: string where "newline = [CHR 0x0A]"

definition GetExecutionReport :: "'l DiagnosticEngine \<Rightarrow> string" where
  "GetExecutionReport e =
     (let m = Metrics (eng_results e)
      in ''Execution Report:'' @ newline @ ''================'' @ newline @
         ''Mode: '' @ (if ParallelExecution m then ''Parallel'' else ''Sequential'') @ newline @
         ''Workers: '' @ show_int (em_WorkerCount m) @ newline @
         ''Total Duration: '' @ Duration_String (TotalDuration m) @ newline @
         ''Average Check Time: '' @ Duration_String (AverageCheckTime m) @ newline @
         ''Max Check Time: '' @ Duration_String (MaxCheckTime m) @ newline @
         ''Min Check Time: '' @ Duration_String (MinCheckTime m) @ newline @
         ''Memory Usage: '' @ fmt_fixed 2 (MemoryUsageMB m) @ '' MB'' @ newline @
         ''API Calls: '' @ show_int (APICallsCount m) @ newline @
         ''Rate Limit Hits: '' @ show_int (em_RateLimitHits m) @ newline @
         ''Error Rate: '' @ fmt_fixed 2 (f_mul (ErrorRate m) (Fin 100)) @ ''%'' @ newline)"

section \<open>The sequential loop\<close>

lemma add_result_fields [simp]:
  "Checks (eng_results (add_result r e)) = Checks (eng_results e) @ [r]" "checks (add_result r e) = checks e"
  "rateLimiter (add_result r e) = rateLimiter e" "Metrics (eng_results (add_result r e)) = Metrics (eng_results e)"
  "add_result r (e\<lparr>rateLimiter := rl\<rparr>) = (add_result r e)\<lparr>rateLimiter := rl\<rparr>"
  by (simp_all add: add_result_def)

lemma Wait_counts: "Wait tb ctx d now rl = (rl', err) \<Longrightarrow>
    TotalRequests (rl_metrics rl') = TotalRequests (rl_metrics rl) + 1 \<and> rl_config rl' = rl_config rl"
  by (auto simp: Wait_def wait_token_def record_request_def allow_now_def updateMetrics_def Let_def
      split: option.splits prod.splits if_splits)

lemma runCheckSafely_total: "(\<forall>m. outcome \<noteq> Panics m) \<Longrightarrow> \<exists>r. runCheckSafely now d c outcome = Some r"
  by (auto simp: runCheckSafely_def split: run_outcome.split option.split)

definition stopped_early :: "Check list \<Rightarrow> CheckResult list \<Rightarrow> bool" where
  "stopped_early cs rs \<longleftrightarrow> rs \<noteq> [] \<and> \<not> cr_Success (last rs) \<and> shouldStopOnFailure (cs ! (length rs - 1))"

definition seq_outcome ::
    "Check list \<Rightarrow> 'l DiagnosticEngine \<Rightarrow> 'l DiagnosticEngine \<Rightarrow> CheckResult list \<Rightarrow> bool" where
  "seq_outcome cs e e' rs \<longleftrightarrow>
     Checks (eng_results e') = Checks (eng_results e) @ map Some rs \<and> length rs \<le> length cs \<and>
     (length rs < length cs \<longrightarrow> stopped_early cs rs) \<and> checks e' = checks e \<and>
     TotalRequests (rl_metrics (rateLimiter e')) = TotalRequests (rl_metrics (rateLimiter e)) + int (length rs)"

text \<open>
  What a sequential run has to report for each position: the state of the rate limiter before it, the
  result of its check, and whether the run ends there.
\<close>

fun limiter_before :: "('l, 'c) token_bucket \<Rightarrow> 'c check_env \<Rightarrow> 'l RateLimiter \<Rightarrow> nat \<Rightarrow> 'l RateLimiter" where
  "limiter_before tb env rl 0 = rl"
| "limiter_before tb env rl (Suc j) =
     fst (Wait tb (ce_ctx env) (ce_wait env j) (ce_now env j) (limiter_before tb env rl j))"

definition limiter_error :: "('l, 'c) token_bucket \<Rightarrow> 'c check_env \<Rightarrow> 'l RateLimiter \<Rightarrow> nat \<Rightarrow> goerror option" where
  "limiter_error tb env rl j =
     snd (Wait tb (ce_ctx env) (ce_wait env j) (ce_now env j) (limiter_before tb env rl j))"

definition expected_result ::
    "('l, 'c) token_bucket \<Rightarrow> 'c check_env \<Rightarrow> 'l RateLimiter \<Rightarrow> Check \<Rightarrow> nat \<Rightarrow> CheckResult" where
  "expected_result tb env rl check j =
     (let failed = failed_result (ce_now env j) (c_Name check) in
      case limiter_error tb env rl j of
        Some err \<Rightarrow> failed (''Rate limit error: '' @ Error err)
      | None \<Rightarrow>
          (case ce_outcome env j of
             Returns (Some r) None \<Rightarrow> r
           | Returns _ (Some err) \<Rightarrow> failed (''Check failed with error: '' @ Error err)
           | _ \<Rightarrow> failed ''Check returned no result'')\<lparr>cr_Duration := ce_duration env j\<rparr>)"

definition ends_run :: "('l, 'c) token_bucket \<Rightarrow> 'c check_env \<Rightarrow> 'l RateLimiter \<Rightarrow> Check \<Rightarrow> nat \<Rightarrow> bool" where
  "ends_run tb env rl check j \<longleftrightarrow>
     c_Name check = ''daemon_connectivity'' \<and> c_Severity check = SeverityCritical \<and>
     limiter_error tb env rl j = None \<and> \<not> cr_Success (expected_result tb env rl check j)"

lemma runCheckSafely_expected:
  assumes "\<forall>m. ce_outcome env j \<noteq> Panics m" "limiter_error tb env rl j = None"
  shows "\<exists>r. runCheckSafely (ce_now env j) (ce_duration env j) check (ce_outcome env j) = Some r \<and>
             r\<lparr>cr_Duration := ce_duration env j\<rparr> = expected_result tb env rl check j"
  using assms
  by (auto simp: runCheckSafely_def expected_result_def Let_def split: run_outcome.split option.split)

definition seq_exact ::
    "('l, 'c) token_bucket \<Rightarrow> 'c check_env \<Rightarrow> 'l RateLimiter \<Rightarrow> nat \<Rightarrow> Check list \<Rightarrow> nat \<Rightarrow>
     'l DiagnosticEngine \<Rightarrow> 'l DiagnosticEngine \<Rightarrow> bool" where
  "seq_exact tb env rl i cs n e e' \<longleftrightarrow>
     n \<le> length cs \<and> checks e' = checks e \<and> rateLimiter e' = limiter_before tb env rl (i + n) \<and>
     Checks (eng_results e') =
       Checks (eng_results e) @ map (\<lambda>j. Some (expected_result tb env rl (cs ! j) (i + j))) [0..<n] \<and>
     (\<forall>j. Suc j < n \<longrightarrow> \<not> ends_run tb env rl (cs ! j) (i + j)) \<and>
     (n < length cs \<longrightarrow> 0 < n \<and> ends_run tb env rl (cs ! (n - 1)) (i + (n - 1)))"

lemma seq_exact_Cons:
  assumes "seq_exact tb env rl (Suc i) cs n (add_result (Some (expected_result tb env rl c i)) (e\<lparr>rateLimiter := rl'\<rparr>)) e'"
    "\<not> ends_run tb env rl c i"
  shows "seq_exact tb env rl i (c # cs) (Suc n) e e'"
proof -
  have "map (\<lambda>j. Some (expected_result tb env rl ((c # cs) ! j) (i + j))) [0..<Suc n] =
      Some (expected_result tb env rl c i) # map (\<lambda>j. Some (expected_result tb env rl (cs ! j) (Suc i + j))) [0..<n]"
    by (simp add: upt_conv_Cons map_Suc_upt [symmetric] comp_def del: upt_Suc)
  then show ?thesis
    using assms by (auto simp: seq_exact_def nth_Cons gr0_conv_Suc split: nat.split)
qed

lemma seq_loop_exact:
  assumes "\<forall>j m. ce_outcome env j \<noteq> Panics m" "rateLimiter e = limiter_before tb env rl i"
  shows "\<exists>e' n. seq_loop tb env i cs e = Some e' \<and> seq_exact tb env rl i cs n e e'"
  using assms(2)
proof (induction cs arbitrary: i e)
  case Nil
  then show ?case by (intro exI [of _ e] exI [of _ 0]) (simp add: seq_exact_def)
next
  case (Cons c cs)
  let ?r = "expected_result tb env rl c i"
  obtain rl' err where w: "Wait tb (ce_ctx env) (ce_wait env i) (ce_now env i) (rateLimiter e) = (rl', err)" by fastforce
  let ?e1 = "add_result (Some ?r) (e\<lparr>rateLimiter := rl'\<rparr>)"
  have l: "limiter_error tb env rl i = err" "rl' = limiter_before tb env rl (Suc i)"
    using w Cons.prems by (simp_all add: limiter_error_def)
  have next_check: "\<exists>e' n. seq_loop tb env (i + 1) cs ?e1 = Some e' \<and> seq_exact tb env rl (Suc i) cs n ?e1 e'"
    using Cons.IH [of ?e1 "Suc i"] l by simp
  show ?case
  proof (cases "ends_run tb env rl c i")
    case True
    then have "seq_loop tb env i (c # cs) e = Some ?e1"
      using w l runCheckSafely_expected [of env i tb rl c] assms(1)
      by (auto simp: ends_run_def shouldStopOnFailure_def Let_def)
    moreover have "seq_exact tb env rl i (c # cs) 1 e ?e1" using True l by (simp add: seq_exact_def)
    ultimately show ?thesis by blast
  next
    case False
    have "seq_loop tb env i (c # cs) e = seq_loop tb env (i + 1) cs ?e1"
    proof (cases err)
      case None
      then show ?thesis
        using w l False runCheckSafely_expected [of env i tb rl c] assms(1)
        by (auto simp: ends_run_def shouldStopOnFailure_def Let_def)
    next
      case (Some er)
      then show ?thesis using w l by (simp add: expected_result_def Let_def)
    qed
    with next_check seq_exact_Cons [OF _ False] show ?thesis by metis
  qed
qed

lemma limiter_before_requests:
  "TotalRequests (rl_metrics (limiter_before tb env rl n)) = TotalRequests (rl_metrics rl) + int n"
proof (induction n)
  case (Suc n)
  obtain rl' err where "Wait tb (ce_ctx env) (ce_wait env n) (ce_now env n) (limiter_before tb env rl n) = (rl', err)" by fastforce
  then show ?case using Wait_counts Suc by fastforce
qed simp

lemma seq_loop_outcome:
  assumes "\<forall>j m. ce_outcome env j \<noteq> Panics m"
  shows "\<exists>e' rs. seq_loop tb env 0 cs e = Some e' \<and> seq_outcome cs e e' rs"
proof -
  obtain e' n where e: "seq_loop tb env 0 cs e = Some e'" "seq_exact tb env (rateLimiter e) 0 cs n e e'"
    using seq_loop_exact [OF assms, of e tb "rateLimiter e" 0 cs] by auto
  define rs where "rs = map (\<lambda>j. expected_result tb env (rateLimiter e) (cs ! j) j) [0..<n]"
  have "seq_outcome cs e e' rs"
    using e(2)
    by (auto simp: seq_exact_def seq_outcome_def rs_def stopped_early_def ends_run_def shouldStopOnFailure_def
        limiter_before_requests last_map comp_def)
  with e(1) show ?thesis by blast
qed

lemma Wait_disabled: "\<not> Enabled (rl_config rl) \<Longrightarrow> snd (Wait tb ctx d now rl) = None"
  by (simp add: Wait_def wait_token_def record_request_def)

lemma seq_loop_panics:
  "\<not> Enabled (rl_config (rateLimiter e)) \<Longrightarrow> k < length cs \<Longrightarrow> ce_outcome env (i + k) = Panics m \<Longrightarrow>
   \<forall>j < k. \<exists>r. ce_outcome env (i + j) = Returns (Some r) None \<and> cr_Success r \<Longrightarrow> seq_loop tb env i cs e = None"
proof (induction cs arbitrary: i k e)
  case (Cons c cs)
  obtain rl err where w: "Wait tb (ce_ctx env) (ce_wait env i) (ce_now env i) (rateLimiter e) = (rl, err)" by fastforce
  have err: "err = None" using Wait_disabled [OF Cons.prems(1), of tb] w by (metis snd_conv)
  show ?case
  proof (cases k)
    case 0
    then show ?thesis using Cons.prems(3) w err by (simp add: runCheckSafely_def)
  next
    case (Suc k')
    obtain r where r: "ce_outcome env i = Returns (Some r) None" "cr_Success r" using Cons.prems(4) Suc by auto
    have "\<forall>j < k'. \<exists>r. ce_outcome env (i + 1 + j) = Returns (Some r) None \<and> cr_Success r"
    proof (intro allI impI)
      fix j assume "j < k'"
      then show "\<exists>r. ce_outcome env (i + 1 + j) = Returns (Some r) None \<and> cr_Success r"
        using Cons.prems(4) [rule_format, of "Suc j"] Suc by simp
    qed
    then have "seq_loop tb env (i + 1) cs (add_result (Some (r\<lparr>cr_Duration := ce_duration env i\<rparr>)) (e\<lparr>rateLimiter := rl\<rparr>)) = None"
      using Cons.prems Wait_counts [OF w] Suc by (intro Cons.IH [of _ k']) simp_all
    then show ?thesis using w err r by (simp add: runCheckSafely_def)
  qed
qed simp

section \<open>Summary and collection\<close>

lemma deref_iff: "deref xs = Some ys \<longleftrightarrow> xs = map Some ys"
  by (induction xs arbitrary: ys rule: deref.induct) (auto simp: Cons_eq_map_conv)

lemma fold_count_result:
  "PassedChecks (fold (count_result cs) rs s) = PassedChecks s + int (length (filter cr_Success rs)) \<and>
   FailedChecks (fold (count_result cs) rs s) = FailedChecks s + int (length (filter (\<lambda>r. \<not> cr_Success r) rs)) \<and>
   TotalChecks (fold (count_result cs) rs s) = TotalChecks s \<and>
   CriticalIssues (fold (count_result cs) rs s) = CriticalIssues s @
     map cr_Message (filter (\<lambda>r. \<not> cr_Success r \<and> is_critical_check cs (cr_CheckName r)) rs)"
  by (induction rs arbitrary: s) (auto simp: count_result_def Let_def)

lemma fold_accumulate_failed:
  "acc_failed (fold accumulate rs a) = acc_failed a + int (length (filter (\<lambda>r. \<not> cr_Success r) rs))"
proof (induction rs arbitrary: a)
  case (Cons r rs)
  have "acc_failed (accumulate r a) = acc_failed a + (if cr_Success r then 0 else 1)"
    by (simp add: accumulate_def Let_def)
  with Cons show ?case by simp
qed simp

lemma finish_run_total:
  assumes "Checks (eng_results e) = map Some rs"
  shows "\<exists>e'. finish_run elapsed e = Some (e', Inr (eng_results e')) \<and> Checks (eng_results e') = map Some rs \<and>
    res_Duration (eng_results e') = elapsed \<and> checks e' = checks e \<and>
    res_Summary (eng_results e') = fold (count_result (checks e)) rs (empty_summary\<lparr>TotalChecks := int (length rs)\<rparr>) \<and>
    (rs \<noteq> [] \<longrightarrow> ErrorRate (Metrics (eng_results e')) =
       f_div (float64 (int (length (filter (\<lambda>r. \<not> cr_Success r) rs)))) (float64 (int (length rs))))"
proof -
  have "deref (map Some rs) = Some rs" by (simp add: deref_iff)
  then show ?thesis
    using assms by (simp add: finish_run_def calculateSummary_def calculateMetrics_def set_metrics_def Let_def
        fold_accumulate_failed)
qed

lemma finish_run_Some:
  assumes "finish_run elapsed e = Some (e', Inr res)"
  shows "\<exists>rs. Checks (eng_results e) = map Some rs \<and> res = eng_results e' \<and> Checks res = map Some rs \<and>
    res_Duration res = elapsed \<and> checks e' = checks e \<and>
    res_Summary res = fold (count_result (checks e)) rs (empty_summary\<lparr>TotalChecks := int (length rs)\<rparr>) \<and>
    (rs \<noteq> [] \<longrightarrow> ErrorRate (Metrics res) =
       f_div (float64 (int (length (filter (\<lambda>r. \<not> cr_Success r) rs)))) (float64 (int (length rs))))"
proof -
  obtain rs where rs: "Checks (eng_results e) = map Some rs"
    using assms by (cases "deref (Checks (eng_results e))")
      (auto simp: finish_run_def calculateSummary_def set_metrics_def deref_iff)
  from finish_run_total [OF this, of elapsed] assms have
    "Checks res = map Some rs \<and> res = eng_results e' \<and> res_Duration res = elapsed \<and> checks e' = checks e \<and>
     res_Summary res = fold (count_result (checks e)) rs (empty_summary\<lparr>TotalChecks := int (length rs)\<rparr>) \<and>
     (rs \<noteq> [] \<longrightarrow> ErrorRate (Metrics res) =
       f_div (float64 (int (length (filter (\<lambda>r. \<not> cr_Success r) rs)))) (float64 (int (length rs))))"
    by auto
  with rs show ?thesis by blast
qed

section \<open>The run through the pool\<close>

lemma fresh_pool_starts:
  "snd (Start (pool_world_of (NewSecureWorkerPool b now cpus mem n))) = None"
  by (simp add: Start_def pool_world_of_def NewSecureWorkerPool_def SecureWorkerPool.extend_def)

lemma engine_fields [simp]:
  "checks (add_result r e) = checks e" "checks (collect_result jr e) = checks e"
  "checks (take_pool_metrics pm e) = checks e"
  "Checks (eng_results (take_pool_metrics pm e)) = Checks (eng_results e)"
  by (simp_all add: add_result_def collect_result_def take_pool_metrics_def set_metrics_def split: option.split)

fun submit_bound :: "nat \<Rightarrow> run_phase \<Rightarrow> nat" where
  "submit_bound N (Submitting k) = k" | "submit_bound N (InSubmit k s) = k + 1" | "submit_bound N _ = N"

fun collected :: "run_phase \<Rightarrow> nat \<Rightarrow> bool" where
  "collected (Submitting k) n \<longleftrightarrow> n = 0" | "collected (InSubmit k s) n \<longleftrightarrow> n = 0"
| "collected (Collecting m) n \<longleftrightarrow> n = m" | "collected _ n \<longleftrightarrow> True"

definition run_inv :: "'l DiagnosticEngine \<Rightarrow> 'l pool_run \<Rightarrow> bool" where
  "run_inv e0 r \<longleftrightarrow> checks (run_engine r) = checks e0 \<and>
     length (submits (run_pool r)) \<le> submit_bound (length (checks e0)) (run_at r) \<and>
     submit_bound (length (checks e0)) (run_at r) \<le> length (checks e0) \<and>
     (\<exists>rs n. Checks (eng_results (run_engine r)) = Checks (eng_results e0) @ map Some rs \<and> length rs \<le> n \<and>
        collected (run_at r) n \<and> int n + in_flight (run_pool r) \<le> accepted (run_pool r))"

lemma guards_flight:
  "submit_guards uni clock mem check p = (p', r) \<Longrightarrow>
   submits p' = submits p \<and> in_flight p' = in_flight p \<and> accepted p' = accepted p"
  by (drule guards_fields) (auto simp: flight_simps)

lemma add_submit_flight:
  "length (submits (add_submit c p)) = Suc (length (submits p))" "in_flight (add_submit c p) = in_flight p"
  "accepted (add_submit c p) = accepted p"
  by (simp_all add: add_submit_def flight_simps)

lemma collect_result_checks:
  "\<exists>rs. Checks (eng_results (collect_result r e)) = Checks (eng_results e) @ map Some rs \<and> length rs \<le> 1"
  by (cases "jr_Result r") (auto simp: collect_result_def add_result_def intro: exI [of _ "[]"] exI [of _ "[_]"])

lemma run_step_inv: "run_step W r r' \<Longrightarrow> run_inv e0 r \<Longrightarrow> run_inv e0 r'"
proof (induction rule: run_step.induct)
  case (pool_moves p p' e ph)
  then show ?case using pool_step_flight [of W p p'] by (fastforce simp: run_inv_def background_def)
next
  case (check_refused k e uni clock mem p p' err)
  then show ?case using guards_flight [of uni clock mem "checks e ! k" p] by (auto simp: run_inv_def)
next
  case (check_offered k e uni clock mem p p')
  then show ?case using guards_flight [of uni clock mem "checks e ! k" p]
    by (auto simp: run_inv_def add_submit_flight)
next
  case (collects n e p r rs)
  obtain new where "Checks (eng_results (collect_result r e)) = Checks (eng_results e) @ map Some new" "length new \<le> 1"
    using collect_result_checks by blast
  moreover obtain old where "Checks (eng_results e) = Checks (eng_results e0) @ map Some old" "length old \<le> n"
    "int n + in_flight p \<le> accepted p" using collects by (auto simp: run_inv_def)
  ultimately have "Checks (eng_results (collect_result r e)) = Checks (eng_results e0) @ map Some (old @ new)"
    "length (old @ new) \<le> n + 1" by auto
  moreover have "int (n + 1) + in_flight (p\<lparr>results := rs\<rparr>) \<le> accepted (p\<lparr>results := rs\<rparr>)"
    using collects \<open>int n + in_flight p \<le> accepted p\<close> by (simp add: flight_simps)
  ultimately show ?case using collects by (auto simp: run_inv_def intro!: exI [of _ "old @ new"])
next
  case (stop_closes p p' e res)
  then show ?case by (auto simp: run_inv_def stop_begin_def flight_simps split: if_splits)
next
  case (stop_returns forced p e res now)
  then show ?case by (auto simp: run_inv_def flight_simps)
qed (auto simp: run_inv_def)

lemma run_start_inv: "run_inv e (run_start b now cpus mem e)"
  by (auto simp: run_inv_def run_start_def Start_def pool_world_of_def NewSecureWorkerPool_def
      SecureWorkerPool.extend_def flight_simps)

lemma run_steps_inv: "(run_step W)\<^sup>*\<^sup>* r r' \<Longrightarrow> run_inv e0 r \<Longrightarrow> run_inv e0 r'"
  by (induction rule: rtranclp_induct) (auto dest: run_step_inv)

text \<open>
  A schedule in which every call of \<^verbatim>\<open>Submit\<close> returns before a worker asks the token bucket: between
  two checks the pool is idle again and holds one more result without a check result.
\<close>

definition idle_pool :: "nat \<Rightarrow> pool_world \<Rightarrow> bool" where
  "idle_pool k p \<longleftrightarrow> started p \<and> \<not> stopped p \<and> \<not> jobs_closed p \<and> \<not> ctx_done p \<and> jobs p = [] \<and>
     (\<exists>phs. phases p = Idle # phs) \<and> length (submits p) = k \<and> (\<forall>sb \<in> set (submits p). snd sb = Returned) \<and>
     length (results p) = k \<and> (\<forall>r \<in> set (results p). jr_Result r = None) \<and>
     \<not> circuitOpen (errorRate p) \<and> \<not> testMode (validator p) \<and>
     allowedChecks (validator p) = allowedChecks NewSecurityValidator \<and> deniedChecks (validator p) = []"

definition admitted :: "Check \<Rightarrow> bool" where
  "admitted c \<longleftrightarrow> well_formed_name (c_Name c) \<and> IsCheckAllowed (c_Name c) NewSecurityValidator"

lemma guards_admit:
  assumes "idle_pool k p" "admitted c"
  shows "\<exists>v. submit_guards uni clock (baseline (memoryMonitor p)) c p = (p\<lparr>validator := v\<rparr>, None) \<and>
    idle_pool k (p\<lparr>validator := v\<rparr>)"
proof -
  obtain v r where V: "ValidateCheck uni clock (Some c) (validator p) = (v, r)" by fastforce
  have "r = None"
    using V assms run_rules_decision [of clock 0 uni c "validator p"]
    by (auto simp: ValidateCheck_def idle_pool_def admitted_def IsCheckAllowed_def IsCheckDenied_def)
  moreover have "testMode v = testMode (validator p)" "allowedChecks v = allowedChecks (validator p)"
    "deniedChecks v = deniedChecks (validator p)"
    using V assms(1) run_rules_fields [of clock 0 "initializeValidationRules uni" c "validator p"]
    by (auto simp: ValidateCheck_def idle_pool_def)
  moreover have "\<not> IsOverLimit (baseline (memoryMonitor p)) (memoryMonitor p)"
    by (simp add: IsOverLimit_def MAX_MEMORY_MB_def Let_def)
  ultimately show ?thesis
    using V assms(1) by (auto simp: submit_guards_def idle_pool_def IsOpen_def)
qed

definition quiet_step :: "(bool \<Rightarrow> goerror option \<Rightarrow> bool) \<Rightarrow> pool_world \<Rightarrow> pool_world \<Rightarrow> bool" where
  "quiet_step W p p' \<longleftrightarrow> pool_step W p p' \<and> background p p'"

lemma pool_moves_to:
  assumes "(quiet_step W)\<^sup>*\<^sup>* p p'"
  shows "(run_step W)\<^sup>*\<^sup>* \<lparr>run_engine = e, run_pool = p, run_at = ph\<rparr> \<lparr>run_engine = e, run_pool = p', run_at = ph\<rparr>"
  using assms by (induction rule: rtranclp_induct) (auto simp: quiet_step_def intro: rtranclp.rtrancl_into_rtrancl pool_moves)

lemma submit_returns_unserved:
  assumes "idle_pool k p" "p1 = add_submit c p"
  shows "\<exists>p2 job. (quiet_step W)\<^sup>*\<^sup>* p1 p2 \<and>
    idle_pool k (p2\<lparr>jobs := [], submits := butlast (submits p2)\<rparr>) \<and>
    submits p2 = submits p @ [(job, Returned)] \<and> jobs p2 = [job]"
proof -
  define job where "job = make_job (next_ctx p) c p"
  define p2 where "p2 = p1\<lparr>jobs := [job], submits := submits p @ [(job, Offered)]\<rparr>"
  define p3 where "p3 = p2\<lparr>activeJobs := activeJobs p2 + 1, submits := submits p @ [(job, Counted)]\<rparr>"
  define p4 where "p4 = p3\<lparr>submits := submits p @ [(job, Returned)]\<rparr>"
  have p1: "submits p1 = submits p @ [(job, Ready)]" "length (submits p) = k" "jobs p1 = []" "\<not> jobs_closed p1"
    using assms by (simp_all add: add_submit_def job_def idle_pool_def)
  have "quiet_step W p1 p2"
    using submit_offered [of k p1 job W] p1 by (simp add: p2_def MAX_QUEUE_SIZE_def background_def quiet_step_def nth_append list_update_append)
  moreover have "quiet_step W p2 p3"
    using submit_counts [of k p2 job W] p1 by (simp add: p3_def p2_def background_def quiet_step_def nth_append list_update_append)
  moreover have "quiet_step W p3 p4"
    using submit_returns [of k p3 job W] p1 by (simp add: p4_def p3_def p2_def background_def quiet_step_def nth_append list_update_append)
  ultimately have "(quiet_step W)\<^sup>*\<^sup>* p1 p4" by (meson rtranclp.rtrancl_into_rtrancl rtranclp.rtrancl_refl)
  then show ?thesis using assms
    by (intro exI [of _ p4] exI [of _ job]) (simp add: p4_def p3_def p2_def idle_pool_def add_submit_def)
qed

lemma worker_refuses_job:
  assumes "idle_pool k (p\<lparr>jobs := [], submits := butlast (submits p)\<rparr>)" "submits p = ss @ [(job, Returned)]"
    "jobs p = [job]" "k < 100" "W True (Some err)"
  shows "\<exists>p'. (quiet_step W)\<^sup>*\<^sup>* p p' \<and> idle_pool (k + 1) p' \<and> submits p' = submits p"
proof -
  obtain phs where phs: "phases p = Idle # phs" using assms(1) by (auto simp: idle_pool_def)
  have live: "\<not> ctx_done p" "length (results p) = k" using assms(1) by (simp_all add: idle_pool_def)
  have over: "\<forall>sb \<in> set (submits p). snd sb = Returned" using assms(1, 2) by (auto simp: idle_pool_def)
  define p1 where "p1 = p\<lparr>jobs := [], phases := Holding job # phs\<rparr>"
  define p2 where "p2 = p1\<lparr>phases := Waiting job True # phs\<rparr>"
  define p3 where "p3 = p2\<lparr>phases := RateFailed job err # phs\<rparr>"
  define p4 where "p4 = p3\<lparr>results := results p @
      [\<lparr>jr_ID = job_ID job, jr_Result = None, jr_Error = Some (Errorf ''rate limit error: '' err []), jr_Duration = 0\<rparr>],
      phases := RateSent job # phs\<rparr>"
  define p5 where "p5 = p4\<lparr>activeJobs := activeJobs p - 1, failedJobs := failedJobs p + 1, phases := Idle # phs\<rparr>"
  have "quiet_step W p p1" using worker_takes [of 0 p job "[]" W] phs assms(3) by (simp add: p1_def background_def quiet_step_def)
  moreover have "quiet_step W p1 p2" using worker_waits [of 0 p1 job True W] live by (simp add: p2_def p1_def background_def quiet_step_def)
  moreover have "quiet_step W p2 p3" using worker_limited [of 0 p2 job True W err] assms(5) by (simp add: p3_def p2_def background_def quiet_step_def)
  moreover have "quiet_step W p3 p4"
    using worker_reports_limit [of 0 p3 job err W] assms(4) live
    by (simp add: p4_def p3_def p2_def p1_def background_def quiet_step_def MAX_QUEUE_SIZE_def)
  moreover have "quiet_step W p4 p5" using worker_counts_limit [of 0 p4 job W]
    by (simp add: p5_def p4_def p3_def p2_def p1_def background_def quiet_step_def)
  ultimately have "(quiet_step W)\<^sup>*\<^sup>* p p5" by (meson rtranclp.rtrancl_into_rtrancl rtranclp.rtrancl_refl)
  moreover have "idle_pool (k + 1) p5" "submits p5 = submits p"
    using assms(1, 2) over by (auto simp: p5_def p4_def p3_def p2_def p1_def idle_pool_def)
  ultimately show ?thesis by blast
qed

lemma check_lost:
  assumes "idle_pool k p" "k < length (checks e)" "k < 100" "admitted (checks e ! k)" "W True (Some err)"
  shows "\<exists>p'. (run_step W)\<^sup>*\<^sup>* \<lparr>run_engine = e, run_pool = p, run_at = Submitting k\<rparr>
      \<lparr>run_engine = e, run_pool = p', run_at = Submitting (k + 1)\<rparr> \<and> idle_pool (k + 1) p'"
proof -
  let ?r = "\<lambda>p ph. \<lparr>run_engine = e, run_pool = p, run_at = ph\<rparr>" and ?c = "checks e ! k"
  obtain v where g: "submit_guards id (\<lambda>_. 0) (baseline (memoryMonitor p)) ?c p = (p\<lparr>validator := v\<rparr>, None)"
    "idle_pool k (p\<lparr>validator := v\<rparr>)" using guards_admit [OF assms(1, 4)] by blast
  let ?q = "p\<lparr>validator := v\<rparr>"
  have k: "length (submits p) = k" "length (submits ?q) = k" using assms(1) by (simp_all add: idle_pool_def)
  obtain p2 job where p2: "(quiet_step W)\<^sup>*\<^sup>* (add_submit ?c ?q) p2"
    "idle_pool k (p2\<lparr>jobs := [], submits := butlast (submits p2)\<rparr>)" "submits p2 = submits ?q @ [(job, Returned)]"
    "jobs p2 = [job]" using submit_returns_unserved [OF g(2) refl, of W ?c] by blast
  obtain p3 where p3: "(quiet_step W)\<^sup>*\<^sup>* p2 p3" "idle_pool (k + 1) p3"
    using worker_refuses_job [where W = W and err = err and k = k and p = p2 and job = job] p2(2-4) assms(3, 5) by blast
  have "run_step W (?r p (Submitting k)) (?r (add_submit ?c ?q) (InSubmit k k))"
    using check_offered [OF assms(2) g(1), where W = W] k by simp
  also have "(run_step W)\<^sup>*\<^sup>* (?r (add_submit ?c ?q) (InSubmit k k)) (?r p2 (InSubmit k k))"
    by (rule pool_moves_to [OF p2(1)])
  also have "run_step W (?r p2 (InSubmit k k)) (?r p2 (Submitting (k + 1)))"
    using p2(3) k by (intro submit_over) (simp_all add: nth_append)
  also have "(run_step W)\<^sup>*\<^sup>* (?r p2 (Submitting (k + 1))) (?r p3 (Submitting (k + 1)))"
    by (rule pool_moves_to [OF p3(1)])
  finally show ?thesis using p3(2) by blast
qed

lemma all_checks_lost:
  assumes "idle_pool 0 p" "length (checks e) \<le> 100" "list_all admitted (checks e)" "W True (Some err)" "k \<le> length (checks e)"
  shows "\<exists>p'. (run_step W)\<^sup>*\<^sup>* \<lparr>run_engine = e, run_pool = p, run_at = Submitting 0\<rparr>
      \<lparr>run_engine = e, run_pool = p', run_at = Submitting k\<rparr> \<and> idle_pool k p'"
  using assms(5)
proof (induction k)
  case (Suc k)
  then obtain p' where p': "(run_step W)\<^sup>*\<^sup>* \<lparr>run_engine = e, run_pool = p, run_at = Submitting 0\<rparr>
      \<lparr>run_engine = e, run_pool = p', run_at = Submitting k\<rparr>" "idle_pool k p'" by auto
  moreover have "admitted (checks e ! k)" "k < length (checks e)" "k < 100"
    using assms(2, 3) Suc.prems by (simp_all add: list_all_length)
  ultimately show ?case
    using check_lost [of k p' e W err] assms(4) by (metis rtranclp_trans Suc_eq_plus1)
qed (use assms(1) in blast)

lemma nothing_collected:
  assumes "n + length (results p) = length (checks e)" "\<forall>r \<in> set (results p). jr_Result r = None"
  shows "(run_step W)\<^sup>*\<^sup>* \<lparr>run_engine = e, run_pool = p, run_at = Collecting n\<rparr>
      \<lparr>run_engine = e, run_pool = p\<lparr>results := []\<rparr>, run_at = Collecting (length (checks e))\<rparr>"
  using assms
proof (induction "results p" arbitrary: n p)
  case Nil
  then have "p\<lparr>results := []\<rparr> = p" by simp
  moreover have "n = length (checks e)" using Nil by simp
  ultimately show ?case by (simp only: rtranclp.rtrancl_refl)
next
  case (Cons r rs)
  then have "run_step W \<lparr>run_engine = e, run_pool = p, run_at = Collecting n\<rparr>
      \<lparr>run_engine = e, run_pool = p\<lparr>results := rs\<rparr>, run_at = Collecting (n + 1)\<rparr>"
    using collects [of n e p r rs W] by (auto simp: collect_result_def simp flip: Cons.hyps(2))
  moreover have "(run_step W)\<^sup>*\<^sup>* \<lparr>run_engine = e, run_pool = p\<lparr>results := rs\<rparr>, run_at = Collecting (n + 1)\<rparr>
      \<lparr>run_engine = e, run_pool = p\<lparr>results := []\<rparr>, run_at = Collecting (length (checks e))\<rparr>"
    using Cons.hyps(1) [of "p\<lparr>results := rs\<rparr>" "n + 1"] Cons.prems by (simp flip: Cons.hyps(2))
  ultimately show ?case by (rule converse_rtranclp_into_rtranclp)
qed

lemma run_ends:
  assumes "\<not> stopped p"
  shows "\<exists>p'. (run_step W)\<^sup>*\<^sup>* \<lparr>run_engine = e, run_pool = p, run_at = Collecting (length (checks e))\<rparr>
      \<lparr>run_engine = take_pool_metrics (Pool_GetMetrics p) e, run_pool = p', run_at = Ended None\<rparr>"
proof -
  let ?e = "take_pool_metrics (Pool_GetMetrics p) e" and ?q = "p\<lparr>stopped := True, jobs_closed := True\<rparr>"
  have "(run_step W)\<^sup>*\<^sup>* \<lparr>run_engine = e, run_pool = p, run_at = Collecting (length (checks e))\<rparr>
      \<lparr>run_engine = ?e, run_pool = p, run_at = Stopping None\<rparr>" by (intro r_into_rtranclp all_collected) simp
  also have "run_step W \<lparr>run_engine = ?e, run_pool = p, run_at = Stopping None\<rparr>
      \<lparr>run_engine = ?e, run_pool = ?q, run_at = StopWaits None\<rparr>"
    by (rule stop_closes) (simp add: stop_begin_def assms)
  also have "run_step W \<lparr>run_engine = ?e, run_pool = ?q, run_at = StopWaits None\<rparr>
      \<lparr>run_engine = ?e, run_pool = stop_finish 0 True ?q, run_at = Ended None\<rparr>" by (rule stop_returns) simp
  finally show ?thesis by blast
qed

lemma default_checks_ok: "list_all admitted registerDefaultChecks" "length registerDefaultChecks = 11"
  by (simp_all add: registerDefaultChecks_def check_of_def admitted_def well_formed_name_def name_char_def Let_def
      IsCheckAllowed_def NewSecurityValidator_def initializeAllowedChecks_def allowedCheckNames_def)

section \<open>Properties\<close>

text \<open>
  C13: A sequential run in which no check panics returns with one result per check run, in the order
  of the checks: the result at each position is that of the check registered there, with its duration
  set, or, when the rate limiter refuses, the check fails or returns nothing, a failed result under
  the name of that check with the error. The limiter is asked once per result, each time in the
  state the previous request left. The run goes through all checks unless the critical daemon check
  was admitted and failed; then, and only then, it ends with that result.
\<close>

theorem sequential_run_complete:
  assumes "\<forall>j m. ce_outcome env j \<noteq> Panics m"
  shows "\<exists>e' n. runSequential tb env e = Some e' \<and> n \<le> length (checks e) \<and>
     Checks (eng_results e') = Checks (eng_results e) @
       map (\<lambda>j. Some (expected_result tb env (rateLimiter e) (checks e ! j) j)) [0..<n] \<and>
     rateLimiter e' = limiter_before tb env (rateLimiter e) n \<and>
     TotalRequests (rl_metrics (rateLimiter e')) = TotalRequests (rl_metrics (rateLimiter e)) + int n \<and>
     (\<forall>j. Suc j < n \<longrightarrow> \<not> ends_run tb env (rateLimiter e) (checks e ! j) j) \<and>
     (n < length (checks e) \<longrightarrow> 0 < n \<and> ends_run tb env (rateLimiter e) (checks e ! (n - 1)) (n - 1))"
  using seq_loop_exact [OF assms, of e tb "rateLimiter e" 0 "checks e"]
  by (auto simp: runSequential_def seq_exact_def limiter_before_requests)

definition quick_env :: "unit check_env" where
  "quick_env = \<lparr>ce_ctx = (), ce_wait = (\<lambda>_. 1), ce_now = (\<lambda>n. int n),
     ce_outcome = (\<lambda>_. Returns None None), ce_duration = (\<lambda>_. 7)\<rparr>"

definition seq_config :: Config where
  "seq_config = \<lparr>Parallel = False, Timeout = 30 * Second, Verbose = False, TargetFilter = [], WorkerCount = 1,
     RateLimit = float64 5\<rparr>"

theorem sequential_run_complete_witness:
  "\<exists>e'. runSequential counting_bucket quick_env (NewEngine counting_bucket 4 None) = Some e'"
  using sequential_run_complete [of quick_env counting_bucket "NewEngine counting_bucket 4 None"]
  by (auto simp: quick_env_def)

text \<open>
  One panicking check ends a sequential run: \<^verbatim>\<open>runCheckSafely\<close> recovers from the panic but then
  returns nil, contrary to its documentation, and \<^verbatim>\<open>runSequential\<close> dereferences it. With rate
  limiting off, a panic of the check at any position brings the run down when the checks before it
  succeed.
\<close>

lemma panicking_check_crashes_run:
  assumes "\<not> Enabled (rl_config (rateLimiter e))" "k < length (checks e)" "ce_outcome env k = Panics m"
    "\<forall>j < k. \<exists>r. ce_outcome env j = Returns (Some r) None \<and> cr_Success r"
  shows "runCheckSafely now d c (ce_outcome env k) = None \<and> runSequential tb env e = None"
  using seq_loop_panics [of e k "checks e" env 0 m tb] assms
  by (simp add: runSequential_def runCheckSafely_def)

text \<open>
  The summary adds up: whenever a run, sequential or through the pool, returns results, none of
  them is nil, the total is the number of results and the sum of passed and failed ones, the critical
  issues are the messages of exactly the failed results of critical checks, in order, the recorded
  duration is that of the run, and the error rate is a float64 between 0 and 1.
\<close>

lemma summary_adds_up:
  assumes "Run tb env W start elapsed e (Some (e', Inr res))" "length (Checks res) < 2 ^ 63"
  shows "\<exists>rs. res = eng_results e' \<and> Checks res = map Some rs \<and> res_Duration res = elapsed \<and>
     TotalChecks (res_Summary res) = int (length rs) \<and>
     PassedChecks (res_Summary res) + FailedChecks (res_Summary res) = TotalChecks (res_Summary res) \<and>
     PassedChecks (res_Summary res) = int (length (filter cr_Success rs)) \<and>
     CriticalIssues (res_Summary res) =
       map cr_Message (filter (\<lambda>r. \<not> cr_Success r \<and> is_critical_check (checks e') (cr_CheckName r)) rs) \<and>
     (rs \<noteq> [] \<longrightarrow> (\<exists>q. ErrorRate (Metrics res) = Fin q \<and> 0 \<le> q \<and> q \<le> 1))"
proof -
  obtain e1 where "finish_run elapsed e1 = Some (e', Inr res)"
    using assms(1) by (auto simp: Run_def bind_eq_Some_conv dest!: sym [of "Some _"] split: if_splits option.splits)
  then obtain rs where "Checks (eng_results e1) = map Some rs" "res = eng_results e'"
    "Checks res = map Some rs" "res_Duration res = elapsed" "checks e' = checks e1"
    "res_Summary res = fold (count_result (checks e1)) rs (empty_summary\<lparr>TotalChecks := int (length rs)\<rparr>)"
    "rs \<noteq> [] \<Longrightarrow> ErrorRate (Metrics res) =
       f_div (float64 (int (length (filter (\<lambda>r. \<not> cr_Success r) rs)))) (float64 (int (length rs)))"
    using finish_run_Some by blast
  moreover have "int (length (filter cr_Success rs)) + int (length (filter (\<lambda>r. \<not> cr_Success r) rs)) = int (length rs)"
    using sum_length_filter_compl [of cr_Success rs] by linarith
  moreover have "\<exists>q. f_div (float64 (int (length (filter (\<lambda>r. \<not> cr_Success r) rs)))) (float64 (int (length rs))) = Fin q
      \<and> 0 \<le> q \<and> q \<le> 1" if "rs \<noteq> []"
    using assms(2) that \<open>Checks res = map Some rs\<close> by (intro rate_unit_interval) (simp_all add: length_filter_le)
  ultimately show ?thesis
    using fold_count_result [of "checks e1" rs "empty_summary\<lparr>TotalChecks := int (length rs)\<rparr>"]
    by (intro exI [of _ rs]) (simp add: empty_summary_def)
qed



text \<open>
  The parallel run can lose every check: when the token bucket refuses a done context, as it is
  documented to, the engine with its default checks has a run in which each call of \<^verbatim>\<open>Submit\<close>
  returns, and so cancels its job's context, before a worker reaches the bucket; that run ends
  without an error and without a single recorded result.
\<close>

lemma parallel_run_loses_jobs:
  assumes "W True (Some err)" "0 < cpus"
  shows "\<exists>e'. runWithWorkerPool W (run_start False now cpus mem (NewEngine tb cpus config)) e' None \<and>
     Checks (eng_results e') = []"
proof -
  let ?e = "NewEngine tb cpus config"
  let ?r = "\<lambda>e p ph. \<lparr>run_engine = e, run_pool = p, run_at = ph\<rparr>"
  define p where "p = run_pool (run_start False now cpus mem ?e)"
  have start: "run_start False now cpus mem ?e = ?r ?e p (Submitting 0)" by (simp add: p_def run_start_def)
  have e: "checks ?e = registerDefaultChecks" "Checks (eng_results ?e) = []" by (simp_all add: NewEngine_def Let_def)
  have "0 < bound_workers cpus (WorkerCount (eng_config ?e))"
    using assms(2) by (simp add: bound_workers_def MAX_WORKERS_def Let_def)
  then obtain m where "bound_workers cpus (WorkerCount (eng_config ?e)) = Suc m" by (auto simp: gr0_conv_Suc)
  then have "idle_pool 0 p"
    by (simp add: p_def run_start_def idle_pool_def Start_def pool_world_of_def NewSecureWorkerPool_def
        SecureWorkerPool.extend_def NewSecurityValidator_def initializeAllowedChecks_def)
  then obtain p1 where p1: "(run_step W)\<^sup>*\<^sup>* (?r ?e p (Submitting 0)) (?r ?e p1 (Submitting 11))" "idle_pool 11 p1"
    using all_checks_lost [of p ?e W err 11] assms(1) default_checks_ok e(1) by auto
  note p1(1)
  also have "run_step W (?r ?e p1 (Submitting 11)) (?r ?e p1 (Collecting 0))"
    using default_checks_ok e(1) by (intro all_submitted) simp
  also have "(run_step W)\<^sup>*\<^sup>* (?r ?e p1 (Collecting 0)) (?r ?e (p1\<lparr>results := []\<rparr>) (Collecting (length (checks ?e))))"
    using p1(2) default_checks_ok e(1) by (intro nothing_collected) (simp_all add: idle_pool_def)
  finally have run: "(run_step W)\<^sup>*\<^sup>* (?r ?e p (Submitting 0)) (?r ?e (p1\<lparr>results := []\<rparr>) (Collecting (length (checks ?e))))" .
  have "\<not> stopped (p1\<lparr>results := []\<rparr>)" using p1(2) by (simp add: idle_pool_def)
  then obtain p2 where "(run_step W)\<^sup>*\<^sup>* (?r ?e (p1\<lparr>results := []\<rparr>) (Collecting (length (checks ?e))))
      (?r (take_pool_metrics (Pool_GetMetrics (p1\<lparr>results := []\<rparr>)) ?e) p2 (Ended None))"
    using run_ends by blast
  with run show ?thesis unfolding runWithWorkerPool_def start using e(2)
    by (intro exI [of _ "take_pool_metrics (Pool_GetMetrics (p1\<lparr>results := []\<rparr>)) ?e"]) (auto intro: rtranclp_trans)
qed

text \<open>
  Recommendations come in order of priority, highest first, at most one per category; a high
  one is given exactly when more than one network check failed and a medium one exactly when a DNS
  check failed.
\<close>

lemma recommendations_prioritized:
  assumes "GetRecommendations e = Some recs" "Checks (eng_results e) = map Some rs"
  shows "sorted (rev (map rec_Priority recs)) \<and> distinct (map rec_Category recs) \<and>
         (PriorityHigh \<in> set (map rec_Priority recs) \<longleftrightarrow>
            2 \<le> length (filter (\<lambda>r. \<not> cr_Success r \<and>
              cr_CheckName r \<in> {''bridge_network'', ''subnet_overlap'', ''mtu_consistency''}) rs)) \<and>
         (PriorityMedium \<in> set (map rec_Priority recs) \<longleftrightarrow>
            (\<exists>r \<in> set rs. \<not> cr_Success r \<and> cr_CheckName r \<in> {''dns_resolution'', ''internal_dns''}))"
proof -
  have d: "deref (Checks (eng_results e)) = Some rs" using assms(2) by (simp add: deref_iff)
  define A B C where "A \<longleftrightarrow> 1 < failures_in [''bridge_network'', ''subnet_overlap'', ''mtu_consistency''] rs"
    and "B \<longleftrightarrow> 0 < failures_in [''dns_resolution'', ''internal_dns''] rs"
    and "C \<longleftrightarrow> ParallelExecution (Metrics (eng_results e)) \<and> TotalDuration (Metrics (eng_results e)) < 500 * Millisecond"
  have recs: "recs = (if A then [network_recommendation] else []) @ (if B then [dns_recommendation] else []) @
      (if C then [performance_recommendation (Metrics (eng_results e))] else [])"
    using assms(1) d by (simp add: GetRecommendations_def Let_def A_def B_def C_def)
  have "sorted (rev (map rec_Priority recs)) \<and> distinct (map rec_Category recs) \<and>
      (PriorityHigh \<in> set (map rec_Priority recs) \<longleftrightarrow> A) \<and> (PriorityMedium \<in> set (map rec_Priority recs) \<longleftrightarrow> B)"
    unfolding recs by (simp add: network_recommendation_def dns_recommendation_def
        performance_recommendation_def less_eq_Priority_def)
  then show ?thesis unfolding A_def B_def failures_in_def by (auto simp: filter_empty_conv)
qed

text \<open>
  The engine and the validator agree on the checks: all eleven default checks have distinct
  names and are admitted by the pool's validator outside test mode.
\<close>

lemma default_checks_admitted:
  "distinct (map c_Name registerDefaultChecks) \<and>
   list_all (\<lambda>c. snd (ValidateCheck uni clock (Some c) NewSecurityValidator) = None) registerDefaultChecks"
proof -
  have v: "\<not> testMode NewSecurityValidator" "deniedChecks NewSecurityValidator = []"
    by (simp_all add: NewSecurityValidator_def initializeAllowedChecks_def)
  have "snd (ValidateCheck uni clock (Some c) NewSecurityValidator) = None \<longleftrightarrow>
      well_formed_name (c_Name c) \<and> IsCheckAllowed (c_Name c) NewSecurityValidator" for c
    using v by (simp add: ValidateCheck_def run_rules_decision IsCheckDenied_def)
  moreover have "list_all (\<lambda>c. well_formed_name (c_Name c)) registerDefaultChecks"
    by (simp add: registerDefaultChecks_def check_of_def well_formed_name_def name_char_def Let_def)
  moreover have "list_all (\<lambda>c. IsCheckAllowed (c_Name c) NewSecurityValidator) registerDefaultChecks"
    by (simp add: registerDefaultChecks_def check_of_def IsCheckAllowed_def NewSecurityValidator_def
        initializeAllowedChecks_def allowedCheckNames_def)
  ultimately show ?thesis by (simp add: list_all_iff) (simp add: registerDefaultChecks_def check_of_def)
qed

end
