(* ===== verification/Response_Cache.thy ===== *)
theory Response_Cache
  imports Error_Types
begin

text \<open>
  The response cache of the Docker client, \<^verbatim>\<open>internal/docker/response_cache.go\<close>. The cached
  values are values of types of the Docker API, which the cache only stores and hands back: they
  are type parameters. Each method is atomic under the mutex; \<^verbatim>\<open>GetOrCompute\<close>, which gives up the
  lock while it computes, is the composition of its two locked phases around the computation, and
  the computation may change the cache. \<open>ord\<close> is the iteration order that Go picks for the loops
  over the map.
\<close>

section \<open>State\<close>

datatype ('c, 's, 'n, 'j, 'x) cache_data =
    Containers "'c list"
  | Networks "'s list"
  | NetworkInspect 'n
  | ContainerJSON 'j
  | OtherData 'x

record ('c, 's, 'n, 'j, 'x) CacheEntry =
  Data :: "('c, 's, 'n, 'j, 'x) cache_data"
  ce_Timestamp :: Time
  TTL :: Duration

record ('c, 's, 'n, 'j, 'x) ResponseCache =
  entries :: "(string, ('c, 's, 'n, 'j, 'x) CacheEntry) gomap"
  defaultTTL :: Duration
  maxEntries :: int
  hits :: int
  misses :: int
  evictions :: int
  cleanupInterval :: Duration
  stopCleanup_closed :: bool

record CacheStats =
  Hits :: int
  Misses :: int
  Evictions :: int
  Entries :: int
  HitRate :: f64

definition NewResponseCache :: "Duration \<Rightarrow> int \<Rightarrow> ('c, 's, 'n, 'j, 'x) ResponseCache" where
  "NewResponseCache ttl limit =
     \<lparr>entries = [], defaultTTL = ttl, maxEntries = limit, hits = 0, misses = 0, evictions = 0,
      cleanupInterval = 30 * Second, stopCleanup_closed = False\<rparr>"

section \<open>Eviction and storing\<close>

definition older_entry ::
    "string \<times> ('c, 's, 'n, 'j, 'x) CacheEntry \<Rightarrow> string \<times> Time \<Rightarrow> string \<times> Time" where
  "older_entry p oldest =
     (case p of (key, entry) \<Rightarrow> case oldest of (oldestKey, oldestTime) \<Rightarrow>
        if oldestKey = [] \<or> ce_Timestamp entry < oldestTime then (key, ce_Timestamp entry)
        else (oldestKey, oldestTime))"

definition oldest_of :: "(string \<times> ('c, 's, 'n, 'j, 'x) CacheEntry) list \<Rightarrow> string" where
  "oldest_of ps = fst (fold older_entry ps ([], zero_time))"

definition evictOldest ::
    "string list \<Rightarrow> ('c, 's, 'n, 'j, 'x) ResponseCache \<Rightarrow> ('c, 's, 'n, 'j, 'x) ResponseCache" where
  "evictOldest ord c =
     (let oldestKey = oldest_of (range_over ord (entries c))
      in if oldestKey \<noteq> []
         then c\<lparr>entries := AList.delete oldestKey (entries c), evictions := evictions c + 1\<rparr>
         else c)"

definition store_entry ::
    "string list \<Rightarrow> Time \<Rightarrow> string \<Rightarrow> ('c, 's, 'n, 'j, 'x) cache_data \<Rightarrow> Duration \<Rightarrow>
     ('c, 's, 'n, 'j, 'x) ResponseCache \<Rightarrow> ('c, 's, 'n, 'j, 'x) ResponseCache" where
  "store_entry ord now key data ttl c =
     (let c = (if int (length (entries c)) \<ge> maxEntries c then evictOldest ord c else c);
          ttl = (if ttl = 0 then defaultTTL c else ttl)
      in c\<lparr>entries := AList.update key \<lparr>Data = data, ce_Timestamp = now, TTL = ttl\<rparr> (entries c)\<rparr>)"

section \<open>Lookups\<close>

definition typed_get ::
    "(('c, 's, 'n, 'j, 'x) cache_data \<Rightarrow> 'a option) \<Rightarrow> Time \<Rightarrow> string \<Rightarrow>
     ('c, 's, 'n, 'j, 'x) ResponseCache \<Rightarrow> ('c, 's, 'n, 'j, 'x) ResponseCache \<times> 'a option" where
  "typed_get assert_type now key c =
     (case map_of (entries c) key of
        None \<Rightarrow> (c\<lparr>misses := misses c + 1\<rparr>, None)
      | Some entry \<Rightarrow>
          if Sub now (ce_Timestamp entry) > TTL entry then (c\<lparr>misses := misses c + 1\<rparr>, None)
          else case assert_type (Data entry) of
                 None \<Rightarrow> (c\<lparr>misses := misses c + 1\<rparr>, None)
               | Some v \<Rightarrow> (c\<lparr>hits := hits c + 1\<rparr>, Some v))"

fun as_containers where
  "as_containers (Containers v) = Some v" | "as_containers _ = None"

fun as_networks where
  "as_networks (Networks v) = Some v" | "as_networks _ = None"

fun as_network_inspect where
  "as_network_inspect (NetworkInspect v) = Some v" | "as_network_inspect _ = None"

fun as_container_json where
  "as_container_json (ContainerJSON v) = Some v" | "as_container_json _ = None"

definition GetContainerList where
  "GetContainerList now key c = typed_get as_containers now key c"

definition SetContainerList where
  "SetContainerList ord now key containers ttl c = store_entry ord now key (Containers containers) ttl c"

definition GetNetworkList where
  "GetNetworkList now key c = typed_get as_networks now key c"

definition SetNetworkList where
  "SetNetworkList ord now key networks ttl c = store_entry ord now key (Networks networks) ttl c"

definition GetNetworkInspect where
  "GetNetworkInspect now networkID c = typed_get as_network_inspect now (''network_inspect:'' @ networkID) c"

definition SetNetworkInspect where
  "SetNetworkInspect ord now networkID net ttl c =
     store_entry ord now (''network_inspect:'' @ networkID) (NetworkInspect net) ttl c"

definition GetContainerInspect where
  "GetContainerInspect now containerID c =
     typed_get as_container_json now (''container_inspect:'' @ containerID) c"

definition SetContainerInspect where
  "SetContainerInspect ord now containerID container ttl c =
     store_entry ord now (''container_inspect:'' @ containerID) (ContainerJSON container) ttl c"

section \<open>Invalidation, cleanup, statistics\<close>

definition Invalidate ::
    "string \<Rightarrow> ('c, 's, 'n, 'j, 'x) ResponseCache \<Rightarrow> ('c, 's, 'n, 'j, 'x) ResponseCache" where
  "Invalidate key c = c\<lparr>entries := AList.delete key (entries c)\<rparr>"

definition InvalidateAll :: "('c, 's, 'n, 'j, 'x) ResponseCache \<Rightarrow> ('c, 's, 'n, 'j, 'x) ResponseCache" where
  "InvalidateAll c = c\<lparr>entries := []\<rparr>"

definition calculateHitRate :: "('c, 's, 'n, 'j, 'x) ResponseCache \<Rightarrow> f64" where
  "calculateHitRate c =
     (let total = hits c + misses c
      in if total = 0 then Fin 0 else f_div (float64 (hits c)) (float64 total))"

definition GetStats :: "('c, 's, 'n, 'j, 'x) ResponseCache \<Rightarrow> CacheStats" where
  "GetStats c =
     \<lparr>Hits = hits c, Misses = misses c, Evictions = evictions c,
      Entries = int (length (entries c)), HitRate = calculateHitRate c\<rparr>"

text \<open>Closing a closed channel panics: \<^term>\<open>None\<close>.\<close>

definition Close :: "('c, 's, 'n, 'j, 'x) ResponseCache \<Rightarrow> ('c, 's, 'n, 'j, 'x) ResponseCache option" where
  "Close c = (if stopCleanup_closed c then None else Some (c\<lparr>stopCleanup_closed := True\<rparr>))"

definition cleanupExpired ::
    "string list \<Rightarrow> Time \<Rightarrow> ('c, 's, 'n, 'j, 'x) ResponseCache \<Rightarrow> ('c, 's, 'n, 'j, 'x) ResponseCache" where
  "cleanupExpired ord now c =
     (let keysToDelete = map fst (filter (\<lambda>(key, entry). Sub now (ce_Timestamp entry) > TTL entry)
                                    (range_over ord (entries c)))
      in c\<lparr>entries := fold AList.delete keysToDelete (entries c)\<rparr>)"

datatype cleanup_event = Tick "string list" Time | Stopped

fun cleanupRoutine ::
    "cleanup_event list \<Rightarrow> ('c, 's, 'n, 'j, 'x) ResponseCache \<Rightarrow> ('c, 's, 'n, 'j, 'x) ResponseCache" where
  "cleanupRoutine [] c = c"
| "cleanupRoutine (Tick ord now # evs) c = cleanupRoutine evs (cleanupExpired ord now c)"
| "cleanupRoutine (Stopped # evs) c = c"

section \<open>GetOrCompute\<close>

definition compute_lookup ::
    "Time \<Rightarrow> string \<Rightarrow> ('c, 's, 'n, 'j, 'x) ResponseCache \<Rightarrow>
     ('c, 's, 'n, 'j, 'x) ResponseCache \<times> ('c, 's, 'n, 'j, 'x) cache_data option" where
  "compute_lookup now key c =
     (case map_of (entries c) key of
        Some entry \<Rightarrow>
          if Sub now (ce_Timestamp entry) \<le> TTL entry then (c\<lparr>hits := hits c + 1\<rparr>, Some (Data entry))
          else (c\<lparr>misses := misses c + 1\<rparr>, None)
      | None \<Rightarrow> (c\<lparr>misses := misses c + 1\<rparr>, None))"

definition GetOrCompute where
  "GetOrCompute ord now1 now2 key compute ttl c =
     (case compute_lookup now1 key c of
        (c, Some d) \<Rightarrow> (c, Inr d)
      | (c, None) \<Rightarrow>
          (case compute c of
             (c, Inl err) \<Rightarrow> (c, Inl err)
           | (c, Inr v) \<Rightarrow> (store_entry ord now2 key v ttl c, Inr v)))"

section \<open>Lookup after store\<close>

definition effective_ttl :: "Duration \<Rightarrow> ('c, 's, 'n, 'j, 'x) ResponseCache \<Rightarrow> Duration" where
  "effective_ttl ttl c = (if ttl = 0 then defaultTTL c else ttl)"

lemma evictOldest_fields [simp]:
  "defaultTTL (evictOldest ord c) = defaultTTL c" "maxEntries (evictOldest ord c) = maxEntries c"
  "hits (evictOldest ord c) = hits c" "misses (evictOldest ord c) = misses c"
  by (simp_all add: evictOldest_def Let_def)

lemma store_entry_fields [simp]:
  "defaultTTL (store_entry ord now k d ttl c) = defaultTTL c"
  "maxEntries (store_entry ord now k d ttl c) = maxEntries c"
  "hits (store_entry ord now k d ttl c) = hits c" "misses (store_entry ord now k d ttl c) = misses c"
  by (simp_all add: store_entry_def Let_def)

lemma evictOldest_lookup:
  "map_of (entries (evictOldest ord c)) k \<in> {None, map_of (entries c) k}"
  by (simp add: evictOldest_def Let_def delete_conv')

lemma store_entry_lookup:
  "map_of (entries (store_entry ord now k d ttl c)) k =
     Some \<lparr>Data = d, ce_Timestamp = now, TTL = effective_ttl ttl c\<rparr>"
  by (simp add: store_entry_def Let_def update_conv effective_ttl_def)

lemma store_entry_lookup_other:
  "k' \<noteq> k \<Longrightarrow> map_of (entries (store_entry ord now k d ttl c)) k' \<in> {None, map_of (entries c) k'}"
  using evictOldest_lookup [of ord c k'] by (simp add: store_entry_def Let_def update_conv)

text \<open>
  The contract of a typed accessor pair: \<open>key\<close> is the map key of an identifier. A fresh value is
  returned as it was stored, a stale one is a miss, storing one identifier never makes another one
  appear or change, and a lookup changes nothing but the counters.
\<close>

locale typed_accessors =
  fixes getter :: "Time \<Rightarrow> string \<Rightarrow> ('c, 's, 'n, 'j, 'x) ResponseCache \<Rightarrow>
            ('c, 's, 'n, 'j, 'x) ResponseCache \<times> 'a option"
    and setter :: "string list \<Rightarrow> Time \<Rightarrow> string \<Rightarrow> 'a \<Rightarrow> Duration \<Rightarrow>
            ('c, 's, 'n, 'j, 'x) ResponseCache \<Rightarrow> ('c, 's, 'n, 'j, 'x) ResponseCache"
  assumes get_set: "snd (getter t k (setter ord now k v ttl c)) =
            (if Sub t now \<le> effective_ttl ttl c then Some v else None)"
    and get_set_other: "k' \<noteq> k \<Longrightarrow>
            snd (getter t k' (setter ord now k v ttl c)) \<in> {None, snd (getter t k' c)}"
    and get_counts: "hits (fst (getter t k c)) + misses (fst (getter t k c)) = hits c + misses c + 1"
    and get_hit: "hits (fst (getter t k c)) = hits c + (if snd (getter t k c) = None then 0 else 1)"
    and get_keeps: "entries (fst (getter t k c)) = entries c"
    and get_entries: "entries c = entries c' \<Longrightarrow> snd (getter t k c) = snd (getter t k c')"
    and set_keeps: "defaultTTL (setter ord now k v ttl c) = defaultTTL c"
begin

lemma get_twice: "snd (getter t k (fst (getter t' k' c))) = snd (getter t k c)"
  by (rule get_entries) (rule get_keeps)

lemma newest_value_wins:
  "snd (getter t k (setter ord2 t2 k v2 ttl (setter ord1 t1 k v1 ttl c))) =
     (if Sub t t2 \<le> effective_ttl ttl c then Some v2 else None)"
  by (simp add: get_set effective_ttl_def set_keeps)

lemma stale_forever:
  assumes "t \<le> t'" "snd (getter t k (setter ord now k v ttl c)) = None"
  shows "snd (getter t' k (setter ord now k v ttl c)) = None"
  using assms Sub_mono [of t t' now] by (auto simp: get_set split: if_splits)

lemma hits_nonneg_misses:
  "0 \<le> hits c \<Longrightarrow> 0 \<le> misses c \<Longrightarrow> 0 \<le> hits (fst (getter t k c)) \<and> 0 \<le> misses (fst (getter t k c))"
  using get_counts [of t k c] get_hit [of t k c] by (auto split: if_splits)

end

lemma typed_get_keeps: "entries (fst (typed_get f t k c)) = entries c"
  by (simp add: typed_get_def split: option.split)

lemma typed_get_counts:
  "misses (fst (typed_get f t k c)) = misses c + (if snd (typed_get f t k c) = None then 1 else 0)"
  "hits (fst (typed_get f t k c)) = hits c + (if snd (typed_get f t k c) = None then 0 else 1)"
  by (simp_all add: typed_get_def split: option.split)

lemma typed_get_entries: "entries c = entries c' \<Longrightarrow> snd (typed_get f t k c) = snd (typed_get f t k c')"
  by (simp add: typed_get_def split: option.split)

lemma typed_get_store:
  "f d = Some v \<Longrightarrow> snd (typed_get f t k (store_entry ord now k d ttl c)) =
     (if Sub t now \<le> effective_ttl ttl c then Some v else None)"
  by (simp add: typed_get_def store_entry_lookup)

lemma typed_get_store_other:
  "k' \<noteq> k \<Longrightarrow> snd (typed_get f t k' (store_entry ord now k d ttl c)) \<in> {None, snd (typed_get f t k' c)}"
  using store_entry_lookup_other [of k' k ord now d ttl c]
  by (auto simp: typed_get_def split: option.split)

lemma typed_accessors_store:
  assumes "\<And>v. f (mk v) = Some v" "inj key"
  shows "typed_accessors (\<lambda>t k. typed_get f t (key k)) (\<lambda>ord now k v. store_entry ord now (key k) (mk v))"
proof unfold_locales
  fix k' k :: string and t ord now v ttl c
  assume "k' \<noteq> k"
  with assms(2) have "key k' \<noteq> key k" by (simp add: inj_eq)
  then show "snd (typed_get f t (key k') (store_entry ord now (key k) (mk v) ttl c)) \<in>
      {None, snd (typed_get f t (key k') c)}" by (rule typed_get_store_other)
qed (use assms in \<open>simp_all add: typed_get_store typed_get_keeps typed_get_counts, auto intro: typed_get_entries\<close>)

interpretation container_list: typed_accessors GetContainerList SetContainerList
  using typed_accessors_store [of as_containers Containers "\<lambda>k. k"]
  by (simp add: GetContainerList_def [abs_def] SetContainerList_def [abs_def] inj_def)

interpretation network_list: typed_accessors GetNetworkList SetNetworkList
  using typed_accessors_store [of as_networks Networks "\<lambda>k. k"]
  by (simp add: GetNetworkList_def [abs_def] SetNetworkList_def [abs_def] inj_def)

interpretation network_inspect: typed_accessors GetNetworkInspect SetNetworkInspect
  using typed_accessors_store [of as_network_inspect NetworkInspect "\<lambda>k. ''network_inspect:'' @ k"]
  by (simp add: GetNetworkInspect_def [abs_def] SetNetworkInspect_def [abs_def] inj_def)

interpretation container_inspect: typed_accessors GetContainerInspect SetContainerInspect
  using typed_accessors_store [of as_container_json ContainerJSON "\<lambda>k. ''container_inspect:'' @ k"]
  by (simp add: GetContainerInspect_def [abs_def] SetContainerInspect_def [abs_def] inj_def)

section \<open>Eviction removes the oldest entry\<close>

lemma older_entry_Pair:
  "older_entry (q, e) (k, t) =
     (if k = [] \<or> ce_Timestamp e < t then (q, ce_Timestamp e) else (k, t))"
  by (simp add: older_entry_def)

lemma fold_older_entry:
  assumes "k \<noteq> []" "\<forall>(q, e) \<in> set ps. q \<noteq> []" "fold older_entry ps (k, t) = (k', t')"
  shows "k' \<noteq> [] \<and> t' \<le> t \<and> (\<forall>(q, e) \<in> set ps. t' \<le> ce_Timestamp e) \<and>
         ((k', t') = (k, t) \<or> (\<exists>e. (k', e) \<in> set ps \<and> ce_Timestamp e = t'))"
  using assms
proof (induction ps arbitrary: k t)
  case (Cons p ps)
  obtain q e where p: "p = (q, e)" by fastforce
  let ?n = "if ce_Timestamp e < t then (q, ce_Timestamp e) else (k, t)"
  have "fold older_entry ps ?n = (k', t')"
    using Cons.prems by (simp add: p older_entry_Pair)
  then show ?case
    using Cons.IH [of "fst ?n" "snd ?n"] Cons.prems(1, 2) by (auto simp: p split: if_splits)
qed simp

lemma oldest_of_spec:
  assumes "ps \<noteq> []" "\<forall>(q, e) \<in> set ps. q \<noteq> []"
  shows "oldest_of ps \<noteq> [] \<and>
         (\<exists>e. (oldest_of ps, e) \<in> set ps \<and> (\<forall>(q, e') \<in> set ps. ce_Timestamp e \<le> ce_Timestamp e'))"
proof -
  obtain q e qs where ps: "ps = (q, e) # qs" using assms(1) by (cases ps) auto
  obtain k' t' where r: "fold older_entry qs (q, ce_Timestamp e) = (k', t')" by fastforce
  have "oldest_of ps = k'" by (simp add: ps oldest_of_def older_entry_def r)
  with fold_older_entry [OF _ _ r] assms(2) show ?thesis by (auto simp: ps)
qed

definition keys_nonempty :: "('c, 's, 'n, 'j, 'x) ResponseCache \<Rightarrow> bool" where
  "keys_nonempty c \<longleftrightarrow> [] \<notin> fst ` set (entries c)"

lemma evictOldest_spec:
  assumes "gomap_ok (entries c)" "keys_nonempty c" "entries c \<noteq> []"
  shows "\<exists>k e. (k, e) \<in> set (entries c) \<and> (\<forall>(q, e') \<in> set (entries c). ce_Timestamp e \<le> ce_Timestamp e') \<and>
     entries (evictOldest ord c) = AList.delete k (entries c) \<and> evictions (evictOldest ord c) = evictions c + 1"
proof -
  let ?ps = "range_over ord (entries c)"
  have "?ps \<noteq> []" using length_range_over [OF assms(1), of ord] assms(3) by auto
  moreover have "\<forall>(q, e) \<in> set ?ps. q \<noteq> []"
    using assms(1, 2) by (force simp: keys_nonempty_def)
  ultimately show ?thesis
    using oldest_of_spec [of ?ps] assms(1) by (auto simp: evictOldest_def Let_def)
qed

section \<open>The size limit\<close>

text \<open>
  Every locked section of the cache as a step, with any key. A run of steps never stores the empty
  key when the keys of every cache it passes are non-empty; those of the inspection accessors always are.
\<close>

inductive cache_step ::
    "('c, 's, 'n, 'j, 'x) ResponseCache \<Rightarrow> ('c, 's, 'n, 'j, 'x) ResponseCache \<Rightarrow> bool" where
  step_get_containers: "cache_step c (fst (GetContainerList now key c))"
| step_set_containers: "cache_step c (SetContainerList ord now key v ttl c)"
| step_get_networks: "cache_step c (fst (GetNetworkList now key c))"
| step_set_networks: "cache_step c (SetNetworkList ord now key w ttl c)"
| step_get_network: "cache_step c (fst (GetNetworkInspect now key c))"
| step_set_network: "cache_step c (SetNetworkInspect ord now key n ttl c)"
| step_get_container: "cache_step c (fst (GetContainerInspect now key c))"
| step_set_container: "cache_step c (SetContainerInspect ord now key j ttl c)"
| step_compute_lookup: "cache_step c (fst (compute_lookup now key c))"
| step_compute_store: "cache_step c (store_entry ord now key d ttl c)"
| step_invalidate: "cache_step c (Invalidate key c)"
| step_invalidate_all: "cache_step c (InvalidateAll c)"
| step_cleanup: "cache_step c (cleanupExpired ord now c)"
| step_close: "Close c = Some c' \<Longrightarrow> cache_step c c'"

definition named_step :: "('c, 's, 'n, 'j, 'x) ResponseCache \<Rightarrow> ('c, 's, 'n, 'j, 'x) ResponseCache \<Rightarrow> bool" where
  "named_step c c' \<longleftrightarrow> cache_step c c' \<and> keys_nonempty c'"

definition cache_ok :: "('c, 's, 'n, 'j, 'x) ResponseCache \<Rightarrow> bool" where
  "cache_ok c \<longleftrightarrow> gomap_ok (entries c) \<and> keys_nonempty c \<and>
     int (length (entries c)) \<le> max 1 (maxEntries c) \<and> 0 \<le> hits c \<and> 0 \<le> misses c"

lemma cache_okD:
  assumes "cache_ok c"
  shows "gomap_ok (entries c)" "keys_nonempty c" "int (length (entries c)) \<le> max 1 (maxEntries c)"
    "0 \<le> hits c" "0 \<le> misses c"
  using assms by (simp_all add: cache_ok_def)

lemma length_delete_le: "length (AList.delete k m) \<le> length m"
  by (simp add: AList.delete_eq)

lemma store_entry_ok:
  assumes "cache_ok c" "key \<noteq> []"
  shows "cache_ok (store_entry ord now key d ttl c)"
proof -
  define c1 where "c1 = (if int (length (entries c)) \<ge> maxEntries c then evictOldest ord c else c)"
  have c1: "gomap_ok (entries c1) \<and> keys_nonempty c1 \<and> int (length (entries c1)) < max 1 (maxEntries c)"
  proof (cases "int (length (entries c)) \<ge> maxEntries c \<and> entries c \<noteq> []")
    case True
    then obtain k where k: "k \<in> fst ` set (entries c)" "entries c1 = AList.delete k (entries c)"
      using evictOldest_spec [OF cache_okD(1, 2) [OF assms(1)], of ord] by (force simp: c1_def)
    then have "length (entries c1) < length (entries c)" by (simp add: length_delete_less)
    moreover have "fst ` set (AList.delete k (entries c)) \<subseteq> fst ` set (entries c)"
      by (auto simp: AList.delete_eq)
    ultimately show ?thesis using k cache_okD [OF assms(1)] by (auto simp: keys_nonempty_def)
  next
    case False
    then have "entries c1 = entries c"
      by (auto simp: c1_def evictOldest_def oldest_of_def range_over_def range_keys_def)
    with False cache_okD [OF assms(1)] show ?thesis by (auto simp: keys_nonempty_def)
  qed
  obtain e where e: "entries (store_entry ord now key d ttl c) = AList.update key e (entries c1)"
    by (simp add: store_entry_def Let_def c1_def)
  have "length (AList.update key e (entries c1)) \<le> Suc (length (entries c1))"
    by (rule length_update_le)
  with e c1 cache_okD [OF assms(1)] assms(2) show ?thesis
    by (simp add: cache_ok_def keys_nonempty_def dom_update)
qed

lemma cache_ok_shrink:
  "cache_ok c \<Longrightarrow> gomap_ok (entries c') \<Longrightarrow> set (entries c') \<subseteq> set (entries c) \<Longrightarrow>
   maxEntries c' = maxEntries c \<Longrightarrow> 0 \<le> hits c' \<Longrightarrow> 0 \<le> misses c' \<Longrightarrow> cache_ok c'"
proof -
  assume a: "cache_ok c" "gomap_ok (entries c')" "set (entries c') \<subseteq> set (entries c)"
    "maxEntries c' = maxEntries c" "0 \<le> hits c'" "0 \<le> misses c'"
  have d: "gomap_ok m \<Longrightarrow> card (set m) = length m" for m :: "('k \<times> 'v) list"
    by (simp add: gomap_ok_def distinct_map distinct_card)
  have "length (entries c') \<le> length (entries c)"
    using card_mono [OF _ a(3)] d [OF a(2)] d [OF cache_okD(1) [OF a(1)]] by simp
  with a show "cache_ok c'" by (auto simp: cache_ok_def keys_nonempty_def)
qed

lemma typed_get_ok: "cache_ok c \<Longrightarrow> cache_ok (fst (typed_get f t k c))"
  by (auto simp: typed_get_def cache_ok_def keys_nonempty_def split: option.split)

lemma fold_delete_subset: "set (fold AList.delete ks m) \<subseteq> set m"
proof (induction ks arbitrary: m)
  case (Cons k ks)
  have "set (AList.delete k m) \<subseteq> set m" by (auto simp: AList.delete_eq)
  with Cons [of "AList.delete k m"] show ?case by simp
qed simp

lemma fold_delete_ok: "gomap_ok m \<Longrightarrow> gomap_ok (fold AList.delete ks m)"
  by (induction ks arbitrary: m) simp_all

lemma compute_lookup_ok: "cache_ok c \<Longrightarrow> cache_ok (fst (compute_lookup now k c))"
  by (auto simp: compute_lookup_def cache_ok_def keys_nonempty_def split: option.split)

lemma Invalidate_ok: "cache_ok c \<Longrightarrow> cache_ok (Invalidate k c)"
  by (rule cache_ok_shrink [of c]) (auto simp: Invalidate_def cache_ok_def AList.delete_eq gomap_ok_def
      intro: distinct_map_filter)

lemma InvalidateAll_ok: "cache_ok c \<Longrightarrow> cache_ok (InvalidateAll c)"
  by (rule cache_ok_shrink [of c]) (simp_all add: InvalidateAll_def cache_ok_def)

lemma cleanupExpired_ok: "cache_ok c \<Longrightarrow> cache_ok (cleanupExpired ord now c)"
  by (rule cache_ok_shrink [of c])
    (simp_all add: cleanupExpired_def Let_def fold_delete_subset fold_delete_ok cache_ok_def)

lemma Close_ok: "cache_ok c \<Longrightarrow> Close c = Some c' \<Longrightarrow> cache_ok c'"
  by (auto simp: Close_def cache_ok_def keys_nonempty_def split: if_splits)

lemmas accessor_defs = GetContainerList_def SetContainerList_def GetNetworkList_def SetNetworkList_def
  GetNetworkInspect_def SetNetworkInspect_def GetContainerInspect_def SetContainerInspect_def

lemmas cache_ops_ok = typed_get_ok store_entry_ok compute_lookup_ok Invalidate_ok InvalidateAll_ok
  cleanupExpired_ok Close_ok

lemma stored_key_nonempty: "keys_nonempty (store_entry ord now key d ttl c) \<Longrightarrow> key \<noteq> []"
  using map_of_SomeD [OF store_entry_lookup [of ord now key d ttl c]] by (force simp: keys_nonempty_def)

lemma named_store_ok:
  "cache_ok c \<Longrightarrow> keys_nonempty (store_entry ord now key d ttl c) \<Longrightarrow> cache_ok (store_entry ord now key d ttl c)"
  using stored_key_nonempty store_entry_ok by blast

lemma named_step_ok:
  assumes "named_step c c'" "cache_ok c"
  shows "cache_ok c'"
proof -
  have "cache_step c c'" "keys_nonempty c'" using assms(1) by (simp_all add: named_step_def)
  then show ?thesis using assms(2)
    by (induction rule: cache_step.induct) (simp_all add: accessor_defs cache_ops_ok named_store_ok)
qed

lemma reachable_ok: "named_step\<^sup>*\<^sup>* c c' \<Longrightarrow> cache_ok c \<Longrightarrow> cache_ok c'"
  by (induction rule: rtranclp_induct) (auto dest: named_step_ok)

lemma NewResponseCache_ok: "cache_ok (NewResponseCache ttl limit)"
  by (simp add: cache_ok_def NewResponseCache_def keys_nonempty_def)

lemma distinct_singleton: "distinct xs \<Longrightarrow> set xs = {x} \<Longrightarrow> xs = [x]"
  by (cases xs; cases "tl xs") auto

section \<open>Properties\<close>

text \<open>
  C22: Round trip of the typed accessors: a value stored under an identifier is returned by the
  matching getter exactly while its age does not exceed its time to live (the default one when zero
  was given), whatever the state of the cache and whichever entry was evicted to make room; once it
  is stale it stays so; and storing one identifier never changes what another one holds, apart from
  evicting it.
\<close>

theorem cache_roundtrip:
  "snd (GetContainerList t k (SetContainerList ord now k cs ttl c)) =
     (if Sub t now \<le> effective_ttl ttl c then Some cs else None) \<and>
   snd (GetNetworkList t k (SetNetworkList ord now k ns ttl c)) =
     (if Sub t now \<le> effective_ttl ttl c then Some ns else None) \<and>
   snd (GetNetworkInspect t k (SetNetworkInspect ord now k n ttl c)) =
     (if Sub t now \<le> effective_ttl ttl c then Some n else None) \<and>
   snd (GetContainerInspect t k (SetContainerInspect ord now k j ttl c)) =
     (if Sub t now \<le> effective_ttl ttl c then Some j else None) \<and>
   (t \<le> t' \<and> snd (GetNetworkInspect t k (SetNetworkInspect ord now k n ttl c)) = None \<longrightarrow>
     snd (GetNetworkInspect t' k (SetNetworkInspect ord now k n ttl c)) = None) \<and>
   (k' \<noteq> k \<longrightarrow> snd (GetNetworkInspect t k' (SetNetworkInspect ord now k n ttl c)) \<in>
     {None, snd (GetNetworkInspect t k' c)})"
proof (intro conjI impI)
  assume "t \<le> t' \<and> snd (GetNetworkInspect t k (SetNetworkInspect ord now k n ttl c)) = None"
  then show "snd (GetNetworkInspect t' k (SetNetworkInspect ord now k n ttl c)) = None"
    by (elim conjE) (rule network_inspect.stale_forever)
qed (rule container_list.get_set network_list.get_set network_inspect.get_set container_inspect.get_set
      network_inspect.get_set_other, assumption?)+

theorem cache_roundtrip_witness:
  "snd (GetNetworkInspect 5 ''b'' (SetNetworkInspect [] 3 ''a'' (7::int) 4
     (NewResponseCache Second 9 :: (int, int, int, int, int) ResponseCache))) = None"
proof -
  let ?c = "NewResponseCache Second 9 :: (int, int, int, int, int) ResponseCache"
  have "snd (GetNetworkInspect 5 ''b'' ?c) = None"
    by (simp add: GetNetworkInspect_def typed_get_def NewResponseCache_def)
  with cache_roundtrip [of 5 "''a''" "[]" 3 "[]" 4 ?c "[]" 7 0 6 "''b''"] show ?thesis by simp
qed


definition full_cache :: "(int, int, int, int, int) ResponseCache" where
  "full_cache = SetContainerInspect [] 1 ''a'' 7 0 (NewResponseCache Second 1)"


text \<open>
  \<^verbatim>\<open>evictOldest\<close> removes an entry no newer than every other one, counts the eviction, and
  keeps all other entries, for every iteration order of the map, provided no key is empty.
\<close>

lemma evicts_oldest:
  assumes "gomap_ok (entries c)" "keys_nonempty c" "entries c \<noteq> []"
  shows "\<exists>k e. (k, e) \<in> set (entries c) \<and>
     (\<forall>(q, e') \<in> set (entries c). ce_Timestamp e \<le> ce_Timestamp e') \<and>
     (\<forall>q. map_of (entries (evictOldest ord c)) q = (if q = k then None else map_of (entries c) q)) \<and>
     evictions (evictOldest ord c) = evictions c + 1"
  using evictOldest_spec [OF assms, of ord] by (force simp: delete_conv')

definition two_entries :: "(int, int, int, int, int) ResponseCache" where
  "two_entries = (NewResponseCache Second 2)\<lparr>entries :=
     [(''a'', \<lparr>Data = OtherData 1, ce_Timestamp = 8, TTL = 1\<rparr>), (''b'', \<lparr>Data = OtherData 2, ce_Timestamp = 5, TTL = 1\<rparr>)]\<rparr>"

text \<open>
  The empty key defeats the limit: \<^verbatim>\<open>evictOldest\<close> marks \<^emph>\<open>no candidate yet\<close> by the empty
  string, so a cache whose only key is empty is never evicted from, and storing a second entry
  leaves two entries in a cache limited to one.
\<close>

lemma empty_key_exceeds_limit:
  assumes "entries c = [([], e)]" "maxEntries c = 1" "k \<noteq> []"
  shows "evictOldest ord c = c \<and>
         int (length (entries (SetContainerList ord' now k v ttl c))) = 2 \<and>
         \<not> int (length (entries (SetContainerList ord' now k v ttl c))) \<le> maxEntries c"
proof -
  have "range_keys ord (entries c) = [[]]" for ord
    using distinct_range_keys [of "entries c" ord] set_range_keys [of ord "entries c"] assms(1)
    by (intro distinct_singleton) (simp_all add: gomap_ok_def)
  then have "evictOldest ord c = c" for ord
    by (simp add: evictOldest_def range_over_def oldest_of_def older_entry_def assms(1))
  then show ?thesis
    using assms by (simp add: SetContainerList_def store_entry_def Let_def)
qed

end
