(* ===== verification/Swap_Sort.thy ===== *)
theory Swap_Sort
  imports Go_Prelude
begin

text \<open>
  The sort that \<^verbatim>\<open>docker/client_metrics.go\<close> and \<^verbatim>\<open>diagnostics/performance_profiler.go\<close> both write
  out by hand: two nested loops that swap an element with every smaller one behind it.
\<close>

section \<open>The loops\<close>

text \<open>The two nested loops of the sort, on the copied slice.\<close>

definition swap_if_greater :: "nat \<Rightarrow> nat \<Rightarrow> int list \<Rightarrow> int list" where
  "swap_if_greater i j xs = (if xs ! i > xs ! j then xs[i := xs ! j, j := xs ! i] else xs)"

definition sort_inner :: "nat \<Rightarrow> int list \<Rightarrow> int list" where
  "sort_inner i xs = fold (swap_if_greater i) [i + 1..<length xs] xs"

definition sort_samples :: "int list \<Rightarrow> int list" where
  "sort_samples xs = fold sort_inner [0..<length xs] xs"

section \<open>It sorts\<close>

lemma swap_if_greater_props:
  assumes "i < length xs" "j < length xs" "i \<noteq> j"
  shows "length (swap_if_greater i j xs) = length xs" "mset (swap_if_greater i j xs) = mset xs"
    "k \<noteq> i \<Longrightarrow> k \<noteq> j \<Longrightarrow> swap_if_greater i j xs ! k = xs ! k"
    "swap_if_greater i j xs ! i = min (xs ! i) (xs ! j)" "swap_if_greater i j xs ! j = max (xs ! i) (xs ! j)"
  using assms by (auto simp: swap_if_greater_def mset_swap nth_list_update min_def max_def)

lemma fold_swap:
  assumes "i < a" "b \<le> length xs" "a \<le> b"
  defines "ys \<equiv> fold (swap_if_greater i) [a..<b] xs"
  shows "length ys = length xs \<and> mset ys = mset xs \<and> (\<forall>k < i. ys ! k = xs ! k) \<and>
         ys ! i \<le> xs ! i \<and> (\<forall>k. a \<le> k \<and> k < b \<longrightarrow> ys ! i \<le> ys ! k) \<and>
         (\<forall>k. i < k \<and> (k < a \<or> b \<le> k) \<longrightarrow> ys ! k = xs ! k)"
  using assms(2, 3) unfolding ys_def
proof (induction b)
  case (Suc b)
  show ?case
  proof (cases "a \<le> b")
    case True
    let ?zs = "fold (swap_if_greater i) [a..<b] xs"
    have IH: "length ?zs = length xs" "mset ?zs = mset xs" "\<forall>k < i. ?zs ! k = xs ! k" "?zs ! i \<le> xs ! i"
      "\<forall>k. a \<le> k \<and> k < b \<longrightarrow> ?zs ! i \<le> ?zs ! k" "\<forall>k. i < k \<and> (k < a \<or> b \<le> k) \<longrightarrow> ?zs ! k = xs ! k"
      using Suc True by simp_all
    have "i < length ?zs" "b < length ?zs" "i \<noteq> b" using IH(1) Suc.prems True assms(1) by simp_all
    note S = swap_if_greater_props [OF this]
    have f: "fold (swap_if_greater i) [a..<Suc b] xs = swap_if_greater i b ?zs" using True by simp
    have "swap_if_greater i b ?zs ! i \<le> swap_if_greater i b ?zs ! k" if k: "a \<le> k" "k < Suc b" for k
    proof (cases "k = b")
      case False
      then have "swap_if_greater i b ?zs ! k = ?zs ! k" using S(3) [of k] k assms(1) by simp
      then show ?thesis using IH(5) S(4) k False by (simp add: min.coboundedI1)
    qed (use S in simp)
    then show ?thesis unfolding f using IH S assms(1) True by (auto simp: min.coboundedI1)
  next
    case False
    then have "a = Suc b" using Suc.prems by simp
    then show ?thesis by simp
  qed
qed simp

definition sorted_prefix :: "nat \<Rightarrow> int list \<Rightarrow> bool" where
  "sorted_prefix i xs \<longleftrightarrow> (\<forall>k l. k < i \<and> k < l \<and> l < length xs \<longrightarrow> xs ! k \<le> xs ! l)"

lemma sort_inner_props:
  assumes "i < length xs" "sorted_prefix i xs"
  shows "length (sort_inner i xs) = length xs \<and> mset (sort_inner i xs) = mset xs \<and>
         sorted_prefix (Suc i) (sort_inner i xs)"
proof -
  let ?ys = "sort_inner i xs"
  have F: "length ?ys = length xs" "mset ?ys = mset xs" "\<forall>k < i. ?ys ! k = xs ! k"
    "\<forall>k. i + 1 \<le> k \<and> k < length xs \<longrightarrow> ?ys ! i \<le> ?ys ! k"
    using fold_swap [of i "i + 1" "length xs" xs] assms(1) by (simp_all add: sort_inner_def)
  have low: "xs ! k \<le> y" if "k < i" "y \<in> set (drop i ?ys)" for k y
  proof -
    have "take i ?ys = take i xs"
      using F(1, 3) assms(1) by (intro nth_equalityI) simp_all
    then have "mset (drop i ?ys) = mset (drop i xs)"
      using F(2) by (metis append_take_drop_id add_left_cancel mset_append)
    then have "y \<in> set (drop i xs)" using that(2) by (metis mset_eq_setD)
    then obtain l where "i \<le> l" "l < length xs" "y = xs ! l"
      by (auto simp: set_conv_nth) (metis add_diff_inverse_nat le_add1 less_diff_conv not_less add.commute)
    then show ?thesis using assms(2) that(1) by (simp add: sorted_prefix_def)
  qed
  have "?ys ! k \<le> ?ys ! l" if kl: "k < Suc i" "k < l" "l < length xs" for k l
  proof (cases "k = i")
    case True
    then show ?thesis using F(4) kl by simp
  next
    case False
    then have k: "k < i" "?ys ! k = xs ! k" using kl F(3) by simp_all
    show ?thesis
    proof (cases "l < i")
      case True
      then show ?thesis using k kl F(3) assms(2) by (simp add: sorted_prefix_def)
    next
      case False
      then have "?ys ! l \<in> set (drop i ?ys)"
        using kl(3) F(1) nth_mem [of "l - i" "drop i ?ys"] by simp
      then show ?thesis using low k by simp
    qed
  qed
  then show ?thesis using F by (auto simp: sorted_prefix_def)
qed

lemma fold_sort_inner:
  "n \<le> length xs \<Longrightarrow> length (fold sort_inner [0..<n] xs) = length xs \<and>
     mset (fold sort_inner [0..<n] xs) = mset xs \<and> sorted_prefix n (fold sort_inner [0..<n] xs)"
proof (induction n)
  case 0
  then show ?case by (simp add: sorted_prefix_def)
next
  case (Suc n)
  then show ?case using sort_inner_props [of n "fold sort_inner [0..<n] xs"] by simp
qed

lemma sort_samples_sort: "sort_samples xs = sort xs"
proof (rule properties_for_sort [symmetric])
  show "mset (sort_samples xs) = mset xs" using fold_sort_inner [of "length xs" xs] by (simp add: sort_samples_def)
  show "sorted (sort_samples xs)"
    using fold_sort_inner [of "length xs" xs]
    by (auto simp: sort_samples_def sorted_prefix_def sorted_iff_nth_mono_less)
qed

end
