(* ===== verification/Retry_Policy.thy ===== *)
theory Retry_Policy
  imports Error_Types
begin

text \<open>
  The retry policy of \<^verbatim>\<open>internal/diagnostics/retry_policy.go\<close> and the backoff strategies of
  \<^verbatim>\<open>error_recovery.go\<close>. The retried operation, the clock, the context and the random
  source are the environment of a call of \<^verbatim>\<open>Execute\<close>: a record that gives, for the
  \<open>n\<close>-th use, what the operation returns, how much time has passed, whether the context ends
  the wait, and the random number drawn.
\<close>

section \<open>Configuration and metrics\<close>

datatype BackoffStrategy = LinearBackoff | ExponentialBackoff | JitteredBackoff | OtherBackoff

record RetryPolicyConfig =
  MaxRetries :: int
  MaxDelay :: Duration
  BaseDelay :: Duration
  rp_BackoffStrategy :: BackoffStrategy
  BackoffMultiplier :: f64
  JitterFactor :: f64
  RetryableErrors :: "ErrorCode list"
  NonRetryableErrors :: "ErrorCode list"
  MaxRetryBudget :: Duration
  RespectContext :: bool

record RetryMetrics =
  TotalRetries :: int
  SuccessfulRetries :: int
  FailedRetries :: int
  TotalRetryTime :: Duration
  AverageRetryTime :: Duration
  MaxRetryTime :: Duration
  TotalBackoffTime :: Duration
  AverageBackoffTime :: Duration
  MaxBackoffTime :: Duration
  RetriesByErrorType :: "(ErrorType, int) gomap"
  RetriesByErrorCode :: "(ErrorCode, int) gomap"
  FirstAttemptSuccess :: int
  RetrySuccessRate :: f64

record RetryPolicy =
  rp_config :: RetryPolicyConfig
  rp_metrics :: RetryMetrics

definition default_retry_config :: RetryPolicyConfig where
  "default_retry_config =
     \<lparr>MaxRetries = 3, MaxDelay = 10 * Second, BaseDelay = 100 * Millisecond,
      rp_BackoffStrategy = ExponentialBackoff, BackoffMultiplier = flit 2,
      JitterFactor = flit (1 / 10), RetryableErrors = [], NonRetryableErrors = [],
      MaxRetryBudget = 30 * Second, RespectContext = True\<rparr>"

definition retry_defaults :: "RetryPolicyConfig \<Rightarrow> RetryPolicyConfig" where
  "retry_defaults c =
     (let c = (if BackoffMultiplier c = Fin 0 then c\<lparr>BackoffMultiplier := flit 2\<rparr> else c);
          c = (if JitterFactor c = Fin 0 then c\<lparr>JitterFactor := flit (1 / 10)\<rparr> else c)
      in c)"

definition new_retry_metrics :: RetryMetrics where
  "new_retry_metrics =
     \<lparr>TotalRetries = 0, SuccessfulRetries = 0, FailedRetries = 0, TotalRetryTime = 0,
      AverageRetryTime = 0, MaxRetryTime = 0, TotalBackoffTime = 0, AverageBackoffTime = 0,
      MaxBackoffTime = 0, RetriesByErrorType = [], RetriesByErrorCode = [],
      FirstAttemptSuccess = 0, RetrySuccessRate = Fin 0\<rparr>"

definition NewRetryPolicy :: "RetryPolicyConfig option \<Rightarrow> RetryPolicy" where
  "NewRetryPolicy config =
     \<lparr>rp_config = retry_defaults (case config of None \<Rightarrow> default_retry_config | Some c \<Rightarrow> c),
      rp_metrics = new_retry_metrics\<rparr>"

section \<open>Retry decisions\<close>

definition isRetryableDiagnosticError :: "RetryPolicyConfig \<Rightarrow> DiagnosticError \<Rightarrow> bool" where
  "isRetryableDiagnosticError cfg d =
     (if Code d \<in> set (NonRetryableErrors cfg) then False
      else if RetryableErrors cfg \<noteq> [] then Code d \<in> set (RetryableErrors cfg)
      else case err_Type d of
             ErrTypeConnection \<Rightarrow> Code d \<noteq> ErrCodeDockerPermissionDenied
           | ErrTypeResource \<Rightarrow>
               \<not> (Code d = ErrCodeOutOfMemory \<or> Code d = ErrCodeOutOfDiskSpace \<or> Code d = ErrCodeTooManyOpenFiles)
           | ErrTypeNetwork \<Rightarrow> \<not> (Code d = ErrCodeNetworkNotFound \<or> Code d = ErrCodeSubnetOverlap)
           | ErrTypeContext \<Rightarrow> Code d = ErrCodeTimeout
           | ErrTypeSystem \<Rightarrow> \<not> (Code d = ErrCodePermissionError \<or> Code d = ErrCodeConfigurationMissing)
           | ErrTypeCircuitBreaker \<Rightarrow> False
           | ErrTypeGeneric \<Rightarrow> err_Severity d \<noteq> SeverityCritical)"

definition retryablePatterns :: "string list" where
  "retryablePatterns =
     [''connection refused'', ''timeout'', ''temporary failure'', ''service unavailable'', ''try again'']"

definition nonRetryablePatterns :: "string list" where
  "nonRetryablePatterns =
     [''permission denied'', ''not found'', ''invalid'', ''malformed'', ''unauthorized'', ''forbidden'']"

definition isRetryableGenericError :: "goerror \<Rightarrow> bool" where
  "isRetryableGenericError err =
     (if any_pattern strings_Contains retryablePatterns (Error err) then True
      else if any_pattern strings_Contains nonRetryablePatterns (Error err) then False
      else True)"

definition isRetryable :: "RetryPolicyConfig \<Rightarrow> goerror \<Rightarrow> bool" where
  "isRetryable cfg err =
     (case err of Diag d \<Rightarrow> isRetryableDiagnosticError cfg d | _ \<Rightarrow> isRetryableGenericError err)"

section \<open>math.Pow on an integral exponent\<close>

text \<open>
  The loop of Go's \<^verbatim>\<open>math.Pow\<close> for a finite base and a non-negative integral exponent:
  repeated squaring of the fraction of the base with the binary exponents kept apart.
\<close>

definition frexp_exp :: "rat \<Rightarrow> int" where
  "frexp_exp x = expo \<bar>x\<bar> + 1"

function pow_loop :: "int \<Rightarrow> f64 \<Rightarrow> int \<Rightarrow> f64 \<Rightarrow> int \<Rightarrow> f64 \<times> int" where
  "pow_loop i a1 ae x1 xe =
     (if i \<le> 0 then (a1, ae)
      else if xe < - (2 ^ 12) \<or> 2 ^ 12 < xe then (a1, ae + xe)
      else let (a1, ae) = (if i mod 2 = 1 then (f_mul a1 x1, ae + xe) else (a1, ae));
               x1 = f_mul x1 x1;
               xe = 2 * xe
           in if f_lt x1 (flit (1 / 2)) then pow_loop (i div 2) a1 ae (f_add x1 x1) (xe - 1)
              else pow_loop (i div 2) a1 ae x1 xe)"
  by pat_completeness auto
termination
  by (relation "measure (\<lambda>(i, _). nat i)") auto

declare pow_loop.simps [simp del]

fun f_ldexp :: "f64 \<Rightarrow> int \<Rightarrow> f64" where
  "f_ldexp (Fin a) e = rnd (a * pow2 e)"
| "f_ldexp x e = x"

definition math_Pow :: "f64 \<Rightarrow> int \<Rightarrow> f64" where
  "math_Pow x n =
     (if n = 0 \<or> x = Fin 1 then Fin 1
      else if n = 1 then x
      else case x of
             NaN \<Rightarrow> NaN
           | PInf \<Rightarrow> PInf
           | NInf \<Rightarrow> (if n mod 2 = 1 then NInf else PInf)
           | Fin r \<Rightarrow>
               (if r = 0 then Fin 0
                else case pow_loop n (Fin 1) 0 (Fin (r / pow2 (frexp_exp r))) (frexp_exp r) of
                       (a1, ae) \<Rightarrow> f_ldexp a1 ae))"

section \<open>Backoff delays\<close>

definition calculateBackoffDelay ::
    "(f64 \<Rightarrow> int) \<Rightarrow> RetryPolicyConfig \<Rightarrow> f64 \<Rightarrow> int \<Rightarrow> Duration" where
  "calculateBackoffDelay oor cfg r attempt =
     (let raw =
        (case rp_BackoffStrategy cfg of
           LinearBackoff \<Rightarrow> wrap64 (BaseDelay cfg * attempt)
         | ExponentialBackoff \<Rightarrow>
             to_int64 oor (f_mul (float64 (BaseDelay cfg)) (math_Pow (BackoffMultiplier cfg) (attempt - 1)))
         | JitteredBackoff \<Rightarrow>
             (let baseDelay = to_int64 oor
                    (f_mul (float64 (BaseDelay cfg)) (math_Pow (BackoffMultiplier cfg) (attempt - 1)));
                  jitterRange = f_mul (float64 baseDelay) (JitterFactor cfg);
                  jitter = to_int64 oor (f_mul (f_mul (f_sub r (flit (1 / 2))) (Fin 2)) jitterRange)
              in wrap64 (baseDelay + jitter))
         | OtherBackoff \<Rightarrow>
             to_int64 oor (f_mul (float64 (BaseDelay cfg)) (math_Pow (flit 2) (attempt - 1))));
        delay = (if raw > MaxDelay cfg then MaxDelay cfg else raw)
      in if delay < 0 then BaseDelay cfg else delay)"

section \<open>Execute\<close>

record 'a retry_env =
  op :: "nat \<Rightarrow> goerror + 'a"
  budget_elapsed :: "nat \<Rightarrow> Duration"
  ctx_done :: "nat \<Rightarrow> goerror option"
  op_duration :: "nat \<Rightarrow> Duration"
  total_elapsed :: Duration
  random :: "nat \<Rightarrow> f64"
  out_of_range :: "f64 \<Rightarrow> int"

definition updateSuccessRate :: "RetryMetrics \<Rightarrow> RetryMetrics" where
  "updateSuccessRate m =
     (let total = SuccessfulRetries m + FailedRetries m;
          m = (if total > 0
               then m\<lparr>RetrySuccessRate := f_div (float64 (SuccessfulRetries m)) (float64 total)\<rparr> else m)
      in if TotalRetries m > 0
         then m\<lparr>AverageRetryTime := go_quot (TotalRetryTime m) (TotalRetries m),
                AverageBackoffTime := go_quot (TotalBackoffTime m) (TotalRetries m)\<rparr>
         else m)"

definition count_backoff :: "Duration \<Rightarrow> RetryMetrics \<Rightarrow> RetryMetrics" where
  "count_backoff delay m =
     (let m = m\<lparr>TotalBackoffTime := wrap64 (TotalBackoffTime m + delay)\<rparr>
      in if delay > MaxBackoffTime m then m\<lparr>MaxBackoffTime := delay\<rparr> else m)"

definition count_retry :: "Duration \<Rightarrow> goerror \<Rightarrow> RetryMetrics \<Rightarrow> RetryMetrics" where
  "count_retry d lastError m =
     (let m = m\<lparr>TotalRetries := TotalRetries m + 1, TotalRetryTime := wrap64 (TotalRetryTime m + d)\<rparr>;
          m = (if d > MaxRetryTime m then m\<lparr>MaxRetryTime := d\<rparr> else m)
      in case lastError of
           Diag e \<Rightarrow> m\<lparr>RetriesByErrorType := incr_key (err_Type e) (RetriesByErrorType m),
                       RetriesByErrorCode := incr_key (Code e) (RetriesByErrorCode m)\<rparr>
         | _ \<Rightarrow> m)"

definition retries_exhausted ::
    "RetryPolicyConfig \<Rightarrow> 'a retry_env \<Rightarrow> RetryMetrics \<Rightarrow> goerror \<Rightarrow> RetryMetrics \<times> (goerror + 'a)" where
  "retries_exhausted cfg env m lastError =
     (updateSuccessRate (m\<lparr>FailedRetries := FailedRetries m + 1\<rparr>),
      Inl (Errorf (''operation failed after '' @ show_int (MaxRetries cfg) @ '' retries in '' @
                   Duration_String (total_elapsed env) @ '': '') lastError []))"

function retry_loop ::
    "RetryPolicyConfig \<Rightarrow> 'a retry_env \<Rightarrow> int \<Rightarrow> RetryMetrics \<Rightarrow> goerror \<Rightarrow> RetryMetrics \<times> (goerror + 'a)" where
  "retry_loop cfg env attempt m lastError =
     (if attempt > MaxRetries cfg then retries_exhausted cfg env m lastError
      else if MaxRetryBudget cfg > 0 \<and> budget_elapsed env (nat attempt) \<ge> MaxRetryBudget cfg
      then (m\<lparr>FailedRetries := FailedRetries m + 1\<rparr>,
            Inl (Errorf (''retry budget exhausted after '' @
                         Duration_String (budget_elapsed env (nat attempt)) @ '': '') lastError []))
      else
        let delay = calculateBackoffDelay (out_of_range env) cfg (random env (nat attempt)) attempt
        in case (if RespectContext cfg then ctx_done env (nat attempt) else None) of
             Some cerr \<Rightarrow> (m\<lparr>FailedRetries := FailedRetries m + 1\<rparr>, Inl cerr)
           | None \<Rightarrow>
               let m = count_retry (op_duration env (nat attempt)) lastError (count_backoff delay m)
               in case op env (nat attempt) of
                    Inr v \<Rightarrow> (updateSuccessRate (m\<lparr>SuccessfulRetries := SuccessfulRetries m + 1\<rparr>), Inr v)
                  | Inl err \<Rightarrow>
                      if \<not> isRetryable cfg err then retries_exhausted cfg env m err
                      else retry_loop cfg env (attempt + 1) m err)"
  by pat_completeness auto
termination
  by (relation "measure (\<lambda>(cfg, env, attempt, m, e). nat (MaxRetries cfg + 1 - attempt))") auto

declare retry_loop.simps [simp del]

definition Execute :: "'a retry_env \<Rightarrow> RetryPolicy \<Rightarrow> RetryPolicy \<times> (goerror + 'a)" where
  "Execute env rp =
     (case op env 0 of
        Inr v \<Rightarrow> (rp\<lparr>rp_metrics := (rp_metrics rp)\<lparr>FirstAttemptSuccess := FirstAttemptSuccess (rp_metrics rp) + 1\<rparr>\<rparr>, Inr v)
      | Inl err \<Rightarrow>
          if \<not> isRetryable (rp_config rp) err
          then (rp, Inl (Errorf ''error is not retryable: '' err []))
          else case retry_loop (rp_config rp) env 1 (rp_metrics rp) err of
                 (m, res) \<Rightarrow> (rp\<lparr>rp_metrics := m\<rparr>, res))"

definition ExecuteWithCustomRetries ::
    "'a retry_env \<Rightarrow> int \<Rightarrow> RetryPolicy \<Rightarrow> RetryPolicy \<times> (goerror + 'a)" where
  "ExecuteWithCustomRetries env maxRetries rp =
     (let originalMaxRetries = MaxRetries (rp_config rp);
          rp = rp\<lparr>rp_config := (rp_config rp)\<lparr>MaxRetries := maxRetries\<rparr>\<rparr>
      in case Execute env rp of
           (rp, res) \<Rightarrow> (rp\<lparr>rp_config := (rp_config rp)\<lparr>MaxRetries := originalMaxRetries\<rparr>\<rparr>, res))"

definition RetryPolicy_GetMetrics :: "RetryPolicy \<Rightarrow> RetryPolicy \<times> RetryMetrics" where
  "RetryPolicy_GetMetrics rp =
     (let m = updateSuccessRate (rp_metrics rp) in (rp\<lparr>rp_metrics := m\<rparr>, m))"

definition RetryPolicy_Reset :: "RetryPolicy \<Rightarrow> RetryPolicy" where
  "RetryPolicy_Reset rp = rp\<lparr>rp_metrics := new_retry_metrics\<rparr>"

definition RetryPolicy_UpdateConfig :: "RetryPolicyConfig option \<Rightarrow> RetryPolicy \<Rightarrow> RetryPolicy" where
  "RetryPolicy_UpdateConfig config rp =
     (case config of None \<Rightarrow> rp | Some c \<Rightarrow> rp\<lparr>rp_config := retry_defaults c\<rparr>)"

definition RetryPolicy_IsHealthy :: "RetryPolicy \<Rightarrow> bool" where
  "RetryPolicy_IsHealthy rp =
     (let m = rp_metrics rp; cfg = rp_config rp in
      if SuccessfulRetries m + FailedRetries m < 10 then True
      else if f_lt (RetrySuccessRate m) (flit (1 / 10)) then False
      else if AverageRetryTime m > wrap64 (MaxDelay cfg * MaxRetries cfg) then False
      else True)"

definition RetryPolicy_GetRecommendations :: "RetryPolicy \<Rightarrow> string list" where
  "RetryPolicy_GetRecommendations rp =
     (let m = rp_metrics rp; cfg = rp_config rp in
      (if f_lt (RetrySuccessRate m) (flit (3 / 10)) \<and> TotalRetries m > 20
       then [''Low retry success rate detected. Consider increasing MaxRetries or investigating root causes.''] else []) @
      (if AverageBackoffTime m < go_quot (BaseDelay cfg) 2
       then [''Backoff delays are very short. Consider increasing BaseDelay to reduce system load.''] else []) @
      (if count_of (RetriesByErrorType m) ErrTypeConnection > go_quot (TotalRetries m) 2
       then [''High number of connection-related retries. Consider investigating Docker daemon stability.''] else []) @
      (if count_of (RetriesByErrorType m) ErrTypeResource > go_quot (TotalRetries m) 4
       then [''Frequent resource-related retries. Consider monitoring system resources and scaling if needed.''] else []))"

section \<open>Powers of two are exact\<close>

lemma rnd_pow2: "- 1074 \<le> e \<Longrightarrow> e < 1024 \<Longrightarrow> rnd (pow2 e) = Fin (pow2 e)"
  by (intro rnd_representable representable_pow2) (simp_all add: pow2_less_iff)

lemma half_pow2: "(1 / 2 :: rat) = pow2 (- 1)"
  by (simp add: pow2_def)

lemma f_mul_half: "c + 1 \<le> 1074 \<Longrightarrow> 0 \<le> c \<Longrightarrow> f_mul (Fin (pow2 (- c))) (Fin (1 / 2)) = Fin (pow2 (- c - 1))"
  by (simp add: half_pow2 pow2_add [symmetric] rnd_pow2)

lemma rnd_quarter: "rnd (1 / 4) = Fin (1 / 4)"
  using rnd_pow2 [of "- 2"] by (simp add: pow2_def)

lemma rnd_half: "rnd (1 / 2) = Fin (1 / 2)"
  using rnd_pow2 [of "- 1"] by (simp add: pow2_def)

lemma pow_loop_two:
  assumes "0 \<le> i" "0 \<le> c" "c + i \<le> 1074" "1 \<le> k" "k * i \<le> 1023"
  shows "\<exists>c' ae'. pow_loop i (Fin (pow2 (- c))) ae (Fin (1 / 2)) (k + 1) = (Fin (pow2 (- c')), ae') \<and>
           ae' - c' = ae - c + k * i"
  using assms
proof (induction "nat i" arbitrary: i c ae k rule: less_induct)
  case less
  show ?case
  proof (cases "i = 0")
    case True
    then show ?thesis by (subst pow_loop.simps) auto
  next
    case False
    with less.prems have i: "1 \<le> i" by simp
    have "k * 1 \<le> k * i" using i less.prems(4) by (intro mult_left_mono) simp_all
    then have k: "k \<le> 1023" using less.prems(5) by simp
    define b where "b = i mod 2"
    have ib: "i = 2 * (i div 2) + b" "b = 0 \<or> b = 1" by (auto simp: b_def)
    have IH: "\<exists>c' ae'. pow_loop (i div 2) (Fin (pow2 (- (c + b)))) ae2 (Fin (1 / 2)) (2 * k + 1) =
           (Fin (pow2 (- c')), ae') \<and> ae' - c' = ae2 - (c + b) + 2 * k * (i div 2)" for ae2
    proof (rule less.hyps)
      show "nat (i div 2) < nat i" using i by simp
      show "2 * k * (i div 2) \<le> 1023"
      proof -
        have "k * (2 * (i div 2)) \<le> k * i" using less.prems(4) by (intro mult_left_mono) simp_all
        with less.prems(5) show ?thesis by (simp add: ac_simps)
      qed
      show "c + b + i div 2 \<le> 1074" using ib i less.prems(3) by linarith
    qed (use i ib less.prems in auto)
    have step: "pow_loop i (Fin (pow2 (- c))) ae (Fin (1 / 2)) (k + 1) =
        pow_loop (i div 2) (Fin (pow2 (- (c + b)))) (ae + b * (k + 1)) (Fin (1 / 2)) (2 * k + 1)"
      using i k less.prems ib f_mul_half [of c]
      by (subst pow_loop.simps) (auto simp: rnd_quarter rnd_half flit_def b_def Let_def add.commute [of 1 "2 * k"])
    obtain c' ae' where "pow_loop i (Fin (pow2 (- c))) ae (Fin (1 / 2)) (k + 1) = (Fin (pow2 (- c')), ae')"
      and "ae' - c' = ae + b * (k + 1) - (c + b) + 2 * k * (i div 2)"
      using IH [of "ae + b * (k + 1)"] step by auto
    moreover have "b * (k + 1) - b + 2 * k * (i div 2) = k * i"
      by (subst (2) ib(1)) (simp add: algebra_simps)
    ultimately show ?thesis by (intro exI [of _ c'] exI [of _ ae']) simp
  qed
qed

lemma flit_2 [simp]: "flit 2 = Fin 2"
  using rnd_pow2 [of 1] by (simp add: flit_def pow2_def)

lemma math_Pow_two:
  assumes "0 \<le> n" "n \<le> 1023"
  shows "math_Pow (Fin 2) n = Fin (2 ^ nat n)"
proof -
  have e: "frexp_exp 2 = 2"
    using expo_unique [of 1 2] by (simp add: frexp_exp_def pow2_def)
  obtain c' ae' where l: "pow_loop n (Fin (pow2 (- 0))) 0 (Fin (1 / 2)) (1 + 1) = (Fin (pow2 (- c')), ae')"
    and d: "ae' - c' = n"
    using pow_loop_two [of n 0 1 0] assms by auto
  have "f_ldexp (Fin (pow2 (- c'))) ae' = Fin (pow2 n)"
    using assms rnd_pow2 [of n] d by (simp add: pow2_add [symmetric])
  moreover have "pow2 n = 2 ^ nat n" using assms by (simp add: pow2_def)
  ultimately show ?thesis
    using l assms e by (auto simp: math_Pow_def pow2_def [of 2])
qed

section \<open>The retry loop\<close>

text \<open>Attempt \<open>j\<close> is made: the budget is not used up and the context does not end the wait.\<close>

definition attempt_made :: "RetryPolicyConfig \<Rightarrow> 'a retry_env \<Rightarrow> nat \<Rightarrow> bool" where
  "attempt_made cfg env j \<longleftrightarrow>
     \<not> (MaxRetryBudget cfg > 0 \<and> budget_elapsed env j \<ge> MaxRetryBudget cfg) \<and>
     (RespectContext cfg \<longrightarrow> ctx_done env j = None)"

definition retryable_failure :: "RetryPolicyConfig \<Rightarrow> 'a retry_env \<Rightarrow> nat \<Rightarrow> bool" where
  "retryable_failure cfg env j \<longleftrightarrow> (\<exists>e. op env j = Inl e \<and> isRetryable cfg e)"

definition count_attempt ::
    "RetryPolicyConfig \<Rightarrow> 'a retry_env \<Rightarrow> int \<Rightarrow> goerror \<Rightarrow> RetryMetrics \<Rightarrow> RetryMetrics" where
  "count_attempt cfg env attempt e m = count_retry (op_duration env (nat attempt)) e
     (count_backoff (calculateBackoffDelay (out_of_range env) cfg (random env (nat attempt)) attempt) m)"

lemma retry_loop_end: "MaxRetries cfg < a \<Longrightarrow> retry_loop cfg env a m e = retries_exhausted cfg env m e"
  by (simp add: retry_loop.simps)

lemma retry_loop_stop:
  "a \<le> MaxRetries cfg \<Longrightarrow> \<not> attempt_made cfg env (nat a) \<Longrightarrow>
   \<exists>err. retry_loop cfg env a m e = (m\<lparr>FailedRetries := FailedRetries m + 1\<rparr>, Inl err)"
  by (subst retry_loop.simps) (auto simp: attempt_made_def)

lemma retry_loop_value:
  assumes "a \<le> MaxRetries cfg" "attempt_made cfg env (nat a)" "op env (nat a) = Inr v"
  shows "retry_loop cfg env a m e =
   (let m = count_attempt cfg env a e m
    in (updateSuccessRate (m\<lparr>SuccessfulRetries := SuccessfulRetries m + 1\<rparr>), Inr v))"
  using assms by (subst retry_loop.simps) (auto simp: attempt_made_def count_attempt_def Let_def)

lemma retry_loop_failure:
  assumes "a \<le> MaxRetries cfg" "attempt_made cfg env (nat a)" "op env (nat a) = Inl err"
  shows "retry_loop cfg env a m e =
   (if isRetryable cfg err then retry_loop cfg env (a + 1) (count_attempt cfg env a e m) err
    else retries_exhausted cfg env (count_attempt cfg env a e m) err)"
  using assms by (subst retry_loop.simps) (auto simp: attempt_made_def count_attempt_def Let_def)

lemma retry_loop_induct [case_names exhausted stop succeed fatal again]:
  assumes "\<And>a m e. MaxRetries cfg < a \<Longrightarrow> P a m e"
    and "\<And>a m e. a \<le> MaxRetries cfg \<Longrightarrow> \<not> attempt_made cfg env (nat a) \<Longrightarrow> P a m e"
    and "\<And>a m e v. a \<le> MaxRetries cfg \<Longrightarrow> attempt_made cfg env (nat a) \<Longrightarrow> op env (nat a) = Inr v \<Longrightarrow> P a m e"
    and "\<And>a m e err. a \<le> MaxRetries cfg \<Longrightarrow> attempt_made cfg env (nat a) \<Longrightarrow> op env (nat a) = Inl err \<Longrightarrow>
           \<not> isRetryable cfg err \<Longrightarrow> P a m e"
    and "\<And>a m e err. a \<le> MaxRetries cfg \<Longrightarrow> attempt_made cfg env (nat a) \<Longrightarrow> op env (nat a) = Inl err \<Longrightarrow>
           isRetryable cfg err \<Longrightarrow> P (a + 1) (count_attempt cfg env a e m) err \<Longrightarrow> P a m e"
  shows "P a m e"
proof (induction "nat (MaxRetries cfg + 1 - a)" arbitrary: a m e rule: less_induct)
  case (less a m e)
  show ?case
  proof (cases "a \<le> MaxRetries cfg \<and> attempt_made cfg env (nat a)")
    case True
    then show ?thesis
      using assms(3-5) [of a] less [of "a + 1"]
      by (cases "op env (nat a)"; cases "isRetryable cfg (projl (op env (nat a)))") auto
  next
    case False
    then show ?thesis using assms(1, 2) [of a m e] by fastforce
  qed
qed

definition reaches_success :: "RetryPolicyConfig \<Rightarrow> 'a retry_env \<Rightarrow> 'a \<Rightarrow> nat \<Rightarrow> bool" where
  "reaches_success cfg env v a \<longleftrightarrow>
     (\<exists>k. a \<le> k \<and> int k \<le> MaxRetries cfg \<and>
        (\<forall>j. a \<le> j \<and> j < k \<longrightarrow> retryable_failure cfg env j) \<and>
        (\<forall>j. a \<le> j \<and> j \<le> k \<longrightarrow> attempt_made cfg env j) \<and> op env k = Inr v)"

lemma reaches_success_step:
  assumes "attempt_made cfg env a" "int a \<le> MaxRetries cfg"
  shows "reaches_success cfg env v a \<longleftrightarrow>
    op env a = Inr v \<or> retryable_failure cfg env a \<and> reaches_success cfg env v (Suc a)"
proof
  assume "reaches_success cfg env v a"
  then obtain k where k: "a \<le> k" "int k \<le> MaxRetries cfg" "op env k = Inr v"
    "\<forall>j. a \<le> j \<and> j < k \<longrightarrow> retryable_failure cfg env j"
    "\<forall>j. a \<le> j \<and> j \<le> k \<longrightarrow> attempt_made cfg env j" by (auto simp: reaches_success_def)
  then show "op env a = Inr v \<or> retryable_failure cfg env a \<and> reaches_success cfg env v (Suc a)"
    by (cases "a = k") (auto simp: reaches_success_def intro: exI [of _ k])
next
  assume "op env a = Inr v \<or> retryable_failure cfg env a \<and> reaches_success cfg env v (Suc a)"
  then show "reaches_success cfg env v a"
  proof
    assume "op env a = Inr v"
    then show ?thesis using assms by (auto simp: reaches_success_def le_less intro!: exI [of _ a])
  next
    assume R: "retryable_failure cfg env a \<and> reaches_success cfg env v (Suc a)"
    then obtain k where k: "Suc a \<le> k" "int k \<le> MaxRetries cfg" "op env k = Inr v"
      "\<forall>j. Suc a \<le> j \<and> j < k \<longrightarrow> retryable_failure cfg env j"
      "\<forall>j. Suc a \<le> j \<and> j \<le> k \<longrightarrow> attempt_made cfg env j" by (auto simp: reaches_success_def)
    then show ?thesis
      unfolding reaches_success_def using assms R
      by (intro exI [of _ k]) (metis Suc_leD Suc_leI le_eq_less_or_eq)
  qed
qed

lemma retry_loop_success:
  "1 \<le> a \<Longrightarrow> snd (retry_loop cfg env a m e) = Inr v \<longleftrightarrow> reaches_success cfg env v (nat a)"
proof (induction a m e rule: retry_loop_induct [where cfg = cfg and env = env])
  case (exhausted a m e)
  then show ?case by (auto simp: retry_loop_end retries_exhausted_def reaches_success_def)
next
  case (stop a m e)
  then show ?case using retry_loop_stop [of a cfg env m e] by (auto simp: reaches_success_def)
next
  case (succeed a m e w)
  then show ?case
    by (simp add: retry_loop_value Let_def reaches_success_step retryable_failure_def)
next
  case (fatal a m e err)
  then show ?case
    by (simp add: retry_loop_failure reaches_success_step retries_exhausted_def retryable_failure_def)
next
  case (again a m e err)
  moreover have "nat (a + 1) = Suc (nat a)" using again.prems by simp
  ultimately show ?case
    by (simp add: retry_loop_failure reaches_success_step retryable_failure_def)
qed

lemma updateSuccessRate_counts [simp]:
  "TotalRetries (updateSuccessRate m) = TotalRetries m"
  "SuccessfulRetries (updateSuccessRate m) = SuccessfulRetries m"
  "FailedRetries (updateSuccessRate m) = FailedRetries m"
  "FirstAttemptSuccess (updateSuccessRate m) = FirstAttemptSuccess m"
  "TotalBackoffTime (updateSuccessRate m) = TotalBackoffTime m"
  by (simp_all add: updateSuccessRate_def Let_def)

lemma count_backoff_counts [simp]:
  "TotalRetries (count_backoff d m) = TotalRetries m"
  "SuccessfulRetries (count_backoff d m) = SuccessfulRetries m"
  "FailedRetries (count_backoff d m) = FailedRetries m"
  "FirstAttemptSuccess (count_backoff d m) = FirstAttemptSuccess m"
  "TotalBackoffTime (count_backoff d m) = wrap64 (TotalBackoffTime m + d)"
  by (simp_all add: count_backoff_def Let_def)

lemma count_retry_counts [simp]:
  "TotalRetries (count_retry d e m) = TotalRetries m + 1"
  "SuccessfulRetries (count_retry d e m) = SuccessfulRetries m"
  "FailedRetries (count_retry d e m) = FailedRetries m"
  "FirstAttemptSuccess (count_retry d e m) = FirstAttemptSuccess m"
  "TotalBackoffTime (count_retry d e m) = TotalBackoffTime m"
  by (cases e; simp add: count_retry_def Let_def)+

lemma retry_loop_accounting:
  "retry_loop cfg env a m e = (m', r) \<Longrightarrow> a \<le> MaxRetries cfg + 1 \<Longrightarrow>
   TotalRetries m \<le> TotalRetries m' \<and> TotalRetries m' + a \<le> TotalRetries m + MaxRetries cfg + 1 \<and>
   SuccessfulRetries m' = SuccessfulRetries m + (if isl r then 0 else 1) \<and>
   FailedRetries m' = FailedRetries m + (if isl r then 1 else 0) \<and>
   FirstAttemptSuccess m' = FirstAttemptSuccess m"
proof (induction a m e rule: retry_loop_induct [where cfg = cfg and env = env])
  case (exhausted a m e)
  then show ?case by (auto simp: retry_loop_end retries_exhausted_def)
next
  case (stop a m e)
  then show ?case using retry_loop_stop [of a cfg env m e] by auto
next
  case (succeed a m e w)
  then have "r = Inr w" by (simp add: retry_loop_value Let_def)
  with succeed show ?case by (simp add: retry_loop_value Let_def count_attempt_def) auto
next
  case (fatal a m e err)
  then show ?case by (auto simp: retry_loop_failure retries_exhausted_def count_attempt_def)
next
  case (again a m e err)
  then show ?case by (auto simp: retry_loop_failure count_attempt_def)
qed

section \<open>Properties\<close>

lemma backoff_le_max:
  assumes "0 \<le> BaseDelay cfg" "BaseDelay cfg \<le> MaxDelay cfg"
  shows "0 \<le> calculateBackoffDelay oor cfg r attempt \<and> calculateBackoffDelay oor cfg r attempt \<le> MaxDelay cfg"
  using assms by (simp add: calculateBackoffDelay_def Let_def)

text \<open>While the product fits, the float64 arithmetic of exponential backoff with multiplier 2 is exact.\<close>

lemma exponential_exact:
  assumes "0 \<le> d" "d \<le> 2 ^ 53" "d * 2 ^ k < 2 ^ 63" "k \<le> 970"
  shows "to_int64 oor (f_mul (float64 d) (math_Pow (Fin 2) (int k))) = d * 2 ^ k"
proof -
  have rep: "representable (of_int d * 2 ^ k)"
    unfolding representable_def using assms by (intro exI [of _ d] exI [of _ "int k"]) (simp add: pow2_def)
  have "of_int (d * 2 ^ k) \<le> (of_int (2 ^ 63) :: rat)" using assms(3) by (simp only: of_int_le_iff less_imp_le)
  also have "(of_int (2 ^ 63) :: rat) = pow2 63" by (simp add: pow2_def)
  also have "pow2 63 < pow2 1024" by (simp add: pow2_less_iff)
  finally have "rnd (of_int d * 2 ^ k) = Fin (of_int d * 2 ^ k)"
    using rep assms(1) by (intro rnd_representable) (simp_all add: abs_mult)
  moreover have "trunc (of_int d * 2 ^ k) = d * 2 ^ k"
  proof -
    have "(of_int d * 2 ^ k :: rat) = of_int (d * 2 ^ k)" by simp
    then show ?thesis by (simp only: trunc_def floor_of_int of_int_minus [symmetric]) simp
  qed
  ultimately show ?thesis
    using assms math_Pow_two [of "int k"] float64_exact [of d]
    by (simp add: to_int64_def in_int64_def order_trans [of "- _" 0])
qed

text \<open>
  C21: The backoff delay lies between zero and \<^verbatim>\<open>MaxDelay\<close> for every strategy, multiplier
  (infinite and NaN ones included), attempt and random draw, whatever the conversion of an
  out-of-range float gives, when the base delay itself is in that range; and while the product fits
  in an \<^verbatim>\<open>int64\<close>, exponential backoff with multiplier 2 waits exactly
  \<open>BaseDelay * 2 ^ (attempt - 1)\<close> capped at \<^verbatim>\<open>MaxDelay\<close>, the float64 arithmetic of
  \<^verbatim>\<open>math.Pow\<close> notwithstanding.
\<close>

theorem backoff_exact_and_bounded:
  assumes "0 \<le> BaseDelay cfg" "BaseDelay cfg \<le> MaxDelay cfg" "BaseDelay cfg \<le> 2 ^ 53"
  shows "0 \<le> calculateBackoffDelay oor cfg r attempt \<and>
         calculateBackoffDelay oor cfg r attempt \<le> MaxDelay cfg \<and>
         (rp_BackoffStrategy cfg = ExponentialBackoff \<and> BackoffMultiplier cfg = Fin 2 \<and>
          BaseDelay cfg * 2 ^ k < 2 ^ 63 \<and> k \<le> 970 \<longrightarrow>
          calculateBackoffDelay oor cfg r (int k + 1) = min (MaxDelay cfg) (BaseDelay cfg * 2 ^ k))"
proof (intro conjI impI; (elim conjE)?)
  assume st: "rp_BackoffStrategy cfg = ExponentialBackoff" and mu: "BackoffMultiplier cfg = Fin 2"
    and fits: "BaseDelay cfg * 2 ^ k < 2 ^ 63" and k: "k \<le> 970"
  have "\<not> BaseDelay cfg * 2 ^ k < 0" using assms(1) by (simp add: not_less)
  then show "calculateBackoffDelay oor cfg r (int k + 1) = min (MaxDelay cfg) (BaseDelay cfg * 2 ^ k)"
    using st mu assms exponential_exact [OF assms(1, 3) fits k] by (simp add: calculateBackoffDelay_def Let_def min_def)
qed (use backoff_le_max [of cfg oor r attempt] assms in simp_all)

theorem backoff_exact_and_bounded_witness:
  "calculateBackoffDelay (\<lambda>_. 0) default_retry_config NaN (int 3 + 1) = 800 * Millisecond"
  using backoff_exact_and_bounded [of default_retry_config "\<lambda>_. 0" NaN 0 3]
  by (simp add: default_retry_config_def)

text \<open>
  C2: \<^verbatim>\<open>Execute\<close> returns a value exactly when the operation gives it on the first attempt, or
  when the first error is retryable and some retry within \<^verbatim>\<open>MaxRetries\<close> is reached (every earlier
  one failed with a retryable error, and neither the retry budget nor the context ended the loop
  before it) and gives it. In every other case it returns an error: it never gives up early and
  never retries past the limit.
\<close>

theorem Execute_success_iff:
  "snd (Execute env rp) = Inr v \<longleftrightarrow>
     op env 0 = Inr v \<or>
     retryable_failure (rp_config rp) env 0 \<and>
     (\<exists>k\<ge>1. int k \<le> MaxRetries (rp_config rp) \<and> op env k = Inr v \<and>
        (\<forall>j. 1 \<le> j \<and> j < k \<longrightarrow> retryable_failure (rp_config rp) env j) \<and>
        (\<forall>j. 1 \<le> j \<and> j \<le> k \<longrightarrow> attempt_made (rp_config rp) env j))"
  using retry_loop_success [of 1 "rp_config rp" env "rp_metrics rp" "projl (op env 0)" v]
  by (cases "op env 0") (auto simp: Execute_def retryable_failure_def reaches_success_def split: prod.split)

definition flaky_env :: "int retry_env" where
  "flaky_env =
     \<lparr>op = (\<lambda>n. if n < 2 then Inl (ErrorString ''i/o timeout'') else Inr 7),
      budget_elapsed = (\<lambda>n. int n * Second), ctx_done = (\<lambda>_. None), op_duration = (\<lambda>_. 5),
      total_elapsed = 9, random = (\<lambda>_. Fin 0), out_of_range = (\<lambda>_. 0)\<rparr>"

lemma flaky_retryable: "isRetryable cfg (ErrorString ''i/o timeout'')"
  by (simp add: isRetryable_def isRetryableGenericError_def retryablePatterns_def any_pattern_def
      strings_Contains_def sublist_code)

lemma NewRetryPolicy_default: "rp_config (NewRetryPolicy None) = default_retry_config"
  by (simp add: NewRetryPolicy_def retry_defaults_def default_retry_config_def Let_def)

theorem Execute_success_iff_witness: "snd (Execute flaky_env (NewRetryPolicy None)) = Inr 7"
proof (subst Execute_success_iff, intro disjI2 conjI exI [of _ 2])
  show "retryable_failure (rp_config (NewRetryPolicy None)) flaky_env 0"
    by (simp add: retryable_failure_def flaky_env_def flaky_retryable)
qed (auto simp: NewRetryPolicy_default retryable_failure_def attempt_made_def flaky_env_def
      flaky_retryable default_retry_config_def)

text \<open>
  One call of \<^verbatim>\<open>Execute\<close> counts at most \<^verbatim>\<open>MaxRetries\<close> retries and exactly one outcome: a
  first-attempt success, a successful or a failed retry sequence according to its result, and
  nothing when the first error is not retryable. The configuration is never changed, also by
  \<^verbatim>\<open>ExecuteWithCustomRetries\<close>, which restores the retry limit it overrides.
\<close>

lemma Execute_accounting:
  assumes "0 \<le> MaxRetries (rp_config rp)" "Execute env rp = (rp', r)"
  shows "rp_config rp' = rp_config rp \<and> rp_config (fst (ExecuteWithCustomRetries env n rp)) = rp_config rp \<and>
     TotalRetries (rp_metrics rp) \<le> TotalRetries (rp_metrics rp') \<and>
     TotalRetries (rp_metrics rp') \<le> TotalRetries (rp_metrics rp) + MaxRetries (rp_config rp) \<and>
     FirstAttemptSuccess (rp_metrics rp') =
       FirstAttemptSuccess (rp_metrics rp) + (if isl (op env 0) then 0 else 1) \<and>
     SuccessfulRetries (rp_metrics rp') =
       SuccessfulRetries (rp_metrics rp) + (if isl (op env 0) \<and> \<not> isl r then 1 else 0) \<and>
     FailedRetries (rp_metrics rp') = FailedRetries (rp_metrics rp) +
       (if retryable_failure (rp_config rp) env 0 \<and> isl r then 1 else 0)"
proof -
  have cfg: "rp_config (fst (Execute env p)) = rp_config p" for p
    by (auto simp: Execute_def split: sum.split prod.split)
  have custom: "rp_config (fst (ExecuteWithCustomRetries env n rp)) = rp_config rp"
    using cfg [of "rp\<lparr>rp_config := (rp_config rp)\<lparr>MaxRetries := n\<rparr>\<rparr>"]
    by (auto simp: ExecuteWithCustomRetries_def Let_def split: prod.split)
  moreover have "rp_config rp' = rp_config rp" using cfg [of rp] assms(2) by simp
  ultimately have "?thesis" if "op env 0 = Inl err" "isRetryable (rp_config rp) err" for err
    using retry_loop_accounting [of "rp_config rp" env 1 "rp_metrics rp" err "rp_metrics rp'" r] assms that
    by (auto simp: Execute_def retryable_failure_def split: prod.splits)
  moreover have "?thesis" if "\<not> (\<exists>err. op env 0 = Inl err \<and> isRetryable (rp_config rp) err)"
    using cfg [of rp] custom assms that
    by (cases "op env 0") (auto simp: Execute_def retryable_failure_def dest: sym [of "Inr _"])
  ultimately show ?thesis by blast
qed

text \<open>
  The two error classifications agree: under a policy without an explicit list of
  retryable codes, every error built by \<^verbatim>\<open>NewDiagnosticError\<close> from a code of the
  table that the policy retries is one that \<^verbatim>\<open>IsRecoverable\<close> calls recoverable, and it never
  retries a permission error or an open circuit.
\<close>

lemma retryable_codes_recoverable:
  assumes "RetryableErrors cfg = []" "c \<in> set (map fst code_table)"
    "isRetryable cfg (Diag (NewDiagnosticError now c msg))"
  shows "IsRecoverable (NewDiagnosticError now c msg) \<and>
         c \<noteq> ErrCodeDockerPermissionDenied \<and> c \<noteq> ErrCodePermissionError \<and> c \<noteq> ErrCodeCircuitBreakerOpen"
proof -
  have "list_all (\<lambda>(c, _). getErrorTypeFromCode c \<noteq> ErrTypeGeneric) code_table"
    by (simp add: code_table_def code_at_def getErrorTypeFromCode_def)
  then have typed: "getErrorTypeFromCode c \<noteq> ErrTypeGeneric"
    using assms(2) by (auto simp: list_all_iff)
  have r: "isRetryableDiagnosticError cfg (NewDiagnosticError now c msg)"
    using assms(3) by (simp add: isRetryable_def)
  have "IsRecoverable (NewDiagnosticError now c msg)"
    using r typed assms(1)
    by (simp add: isRetryableDiagnosticError_def IsRecoverable_def NewDiagnosticError_def mk_diag_def
        split: if_splits ErrorType.splits)
  moreover have "c \<noteq> ErrCodeDockerPermissionDenied" "c \<noteq> ErrCodePermissionError" "c \<noteq> ErrCodeCircuitBreakerOpen"
    using r assms(1)
    by (auto simp: isRetryableDiagnosticError_def NewDiagnosticError_def mk_diag_def code_at_def
        getErrorTypeFromCode_def split: if_splits)
  ultimately show ?thesis by blast
qed

end
