(* ===== verification/Docker_Retry.thy ===== *)
theory Docker_Retry
  imports Retry_Policy
begin

text \<open>
  The retry policy of the Docker client, \<^verbatim>\<open>internal/docker/retry_policy.go\<close>, with its own
  substring test. \<^verbatim>\<open>Execute\<close> and \<^verbatim>\<open>ExecuteWithValue\<close> return, beside their result,
  the number of times they called the operation. The operation, the context and the clock that
  \<^verbatim>\<open>randomFloat\<close> reads are indexed by the attempt.
\<close>

section \<open>The substring test\<close>

definition findSubstring :: "string \<Rightarrow> string \<Rightarrow> bool" where
  "findSubstring s substr =
     list_ex (\<lambda>i. slice s (nat i) (nat i + length substr) = substr) [0..int (length s) - int (length substr)]"

definition docker_contains :: "string \<Rightarrow> string \<Rightarrow> bool" where
  "docker_contains s substr =
     (length s \<ge> length substr \<and>
      (s = substr \<or>
       length s > length substr \<and>
       (slice s 0 (length substr) = substr \<or>
        slice s (length s - length substr) (length s) = substr \<or>
        findSubstring s substr)))"

section \<open>The policy\<close>

record DockerRetryPolicy =
  drp_MaxRetries :: int
  InitialBackoff :: Duration
  MaxBackoff :: Duration
  BackoffFactor :: f64
  drp_RetryableErrors :: "(string, bool) gomap"

definition NewDefaultRetryPolicy :: DockerRetryPolicy where
  "NewDefaultRetryPolicy =
     \<lparr>drp_MaxRetries = 3, InitialBackoff = 100 * Millisecond, MaxBackoff = 5 * Second,
      BackoffFactor = flit 2,
      drp_RetryableErrors =
        [(''connection refused'', True), (''connection reset'', True), (''timeout'', True),
         (''EOF'', True), (''broken pipe'', True), (''service unavailable'', True),
         (''too many requests'', True), (''resource temporarily unavailable'', True)]\<rparr>"

definition docker_isRetryable :: "string list \<Rightarrow> DockerRetryPolicy \<Rightarrow> goerror \<Rightarrow> bool" where
  "docker_isRetryable ord r err =
     any_pattern docker_contains (range_keys ord (drp_RetryableErrors r)) (Error err)"

definition randomFloat :: "Time \<Rightarrow> f64" where
  "randomFloat now = f_div (float64 (now - 1000 * go_quot now 1000)) (flit 1000)"

definition calculateBackoff :: "(f64 \<Rightarrow> int) \<Rightarrow> Time \<Rightarrow> DockerRetryPolicy \<Rightarrow> int \<Rightarrow> Duration" where
  "calculateBackoff oor now r attempt =
     (let backoff = f_mul (float64 (InitialBackoff r)) (math_Pow (BackoffFactor r) attempt);
          backoff = (if f_lt (float64 (MaxBackoff r)) backoff then float64 (MaxBackoff r) else backoff);
          jitter = f_mul backoff (flit (1 / 10));
          backoff = f_add backoff (f_mul jitter (f_sub (f_mul (Fin 2) (randomFloat now)) (Fin 1)))
      in to_int64 oor backoff)"

text \<open>
  The environment of a call: what the operation returns at each attempt, the error of the context
  when it ends the wait after an attempt (\<open>timer\<close> receives the wait that is made), and the
  iteration order of the pattern map at each attempt.
\<close>

record 'a docker_env =
  d_op :: "nat \<Rightarrow> goerror + 'a"
  timer :: "nat \<Rightarrow> Duration \<Rightarrow> goerror option"
  d_now :: "nat \<Rightarrow> Time"
  d_ord :: "nat \<Rightarrow> string list"
  d_oor :: "f64 \<Rightarrow> int"

definition failed_after :: "DockerRetryPolicy \<Rightarrow> goerror option \<Rightarrow> goerror" where
  "failed_after r lastErr =
     (let pre = ''operation failed after '' @ show_int (drp_MaxRetries r) @ '' retries: ''
      in case lastErr of Some e \<Rightarrow> Errorf pre e [] | None \<Rightarrow> ErrorString (pre @ ''%!w(<nil>)''))"

function value_loop ::
    "DockerRetryPolicy \<Rightarrow> 'a docker_env \<Rightarrow> nat \<Rightarrow> goerror option \<Rightarrow> nat \<times> (goerror + 'a)" where
  "value_loop r env attempt lastErr =
     (if int attempt > drp_MaxRetries r then (attempt, Inl (failed_after r lastErr))
      else case d_op env attempt of
             Inr v \<Rightarrow> (attempt + 1, Inr v)
           | Inl err \<Rightarrow>
               if \<not> docker_isRetryable (d_ord env attempt) r err then (attempt + 1, Inl err)
               else if int attempt = drp_MaxRetries r then (attempt + 1, Inl (failed_after r (Some err)))
               else case timer env attempt (calculateBackoff (d_oor env) (d_now env attempt) r (int attempt)) of
                      Some cerr \<Rightarrow> (attempt + 1, Inl (Errorf ''retry cancelled: '' cerr []))
                    | None \<Rightarrow> value_loop r env (attempt + 1) (Some err))"
  by pat_completeness auto
termination
  by (relation "measure (\<lambda>(r, env, attempt, e). nat (drp_MaxRetries r + 1 - int attempt))") auto

declare value_loop.simps [simp del]

definition ExecuteWithValue :: "DockerRetryPolicy \<Rightarrow> 'a docker_env \<Rightarrow> nat \<times> (goerror + 'a)" where
  "ExecuteWithValue r env = value_loop r env 0 None"

text \<open>
  \<^verbatim>\<open>Execute\<close> has the same loop around an operation that returns only an error; \<^verbatim>\<open>Some e\<close>
  is a non-nil error.
\<close>

function error_loop ::
    "DockerRetryPolicy \<Rightarrow> unit docker_env \<Rightarrow> nat \<Rightarrow> goerror option \<Rightarrow> nat \<times> goerror option" where
  "error_loop r env attempt lastErr =
     (if int attempt > drp_MaxRetries r then (attempt, Some (failed_after r lastErr))
      else case d_op env attempt of
             Inr _ \<Rightarrow> (attempt + 1, None)
           | Inl err \<Rightarrow>
               if \<not> docker_isRetryable (d_ord env attempt) r err then (attempt + 1, Some err)
               else if int attempt = drp_MaxRetries r then (attempt + 1, Some (failed_after r (Some err)))
               else case timer env attempt (calculateBackoff (d_oor env) (d_now env attempt) r (int attempt)) of
                      Some cerr \<Rightarrow> (attempt + 1, Some (Errorf ''retry cancelled: '' cerr []))
                    | None \<Rightarrow> error_loop r env (attempt + 1) (Some err))"
  by pat_completeness auto
termination
  by (relation "measure (\<lambda>(r, env, attempt, e). nat (drp_MaxRetries r + 1 - int attempt))") auto

declare error_loop.simps [simp del]

definition docker_Execute :: "DockerRetryPolicy \<Rightarrow> unit docker_env \<Rightarrow> nat \<times> goerror option" where
  "docker_Execute r env = error_loop r env 0 None"

section \<open>The substring test meets the contract\<close>

lemma findSubstring_iff: "findSubstring s t \<longleftrightarrow> sublist t s"
proof
  assume "findSubstring s t"
  then show "sublist t s" by (auto simp: findSubstring_def list_ex_iff intro: slice_sublist)
next
  assume "sublist t s"
  then obtain ps ss where s: "s = ps @ t @ ss" by (auto simp: sublist_def)
  then have "slice s (nat (int (length ps))) (nat (int (length ps)) + length t) = t"
    by (simp add: slice_def)
  moreover have "int (length ps) \<in> set [0..int (length s) - int (length t)]" by (simp add: s)
  ultimately show "findSubstring s t" unfolding findSubstring_def list_ex_iff by blast
qed

lemma docker_contains_iff: "docker_contains s t \<longleftrightarrow> sublist t s"
proof -
  have "sublist t s \<Longrightarrow> length t \<le> length s \<and> (s = t \<or> length t < length s)"
    by (auto simp: sublist_def)
  then show ?thesis
    unfolding docker_contains_def findSubstring_iff
    using slice_sublist [of s _ _ t] by auto
qed

interpretation docker: substring_test docker_contains
  by unfold_locales (rule docker_contains_iff)

lemma docker_isRetryable_iff:
  "docker_isRetryable ord r err \<longleftrightarrow> (\<exists>p \<in> set (map fst (drp_RetryableErrors r)). sublist p (Error err))"
  unfolding docker_isRetryable_def docker.any_pattern_iff by simp

lemma docker_isRetryable_wrapped:
  "docker_isRetryable ord r err \<Longrightarrow> docker_isRetryable ord r (Errorf pre err post)"
  unfolding docker_isRetryable_def by (auto intro: docker.any_pattern_mono [rotated] simp: sublist_appendI)

section \<open>Properties\<close>

lemma error_loop_value_loop:
  "error_loop r env n e = (case value_loop r env n e of
     (k, Inl err) \<Rightarrow> (k, Some err) | (k, Inr _) \<Rightarrow> (k, None))"
proof (induction r env n e rule: error_loop.induct)
  case (1 r env n e)
  show ?case
    by (subst error_loop.simps, subst value_loop.simps)
      (auto simp: 1 [simplified] split: sum.split option.split)
qed

definition docker_retries :: "DockerRetryPolicy \<Rightarrow> 'a docker_env \<Rightarrow> nat \<Rightarrow> bool" where
  "docker_retries r env j \<longleftrightarrow>
     (\<exists>err. d_op env j = Inl err \<and> docker_isRetryable (d_ord env j) r err) \<and> int j < drp_MaxRetries r \<and>
     timer env j (calculateBackoff (d_oor env) (d_now env j) r (int j)) = None"

lemma errors_Is_refl: "errors_Is e e"
  by (cases e) simp_all

fun accounts_for :: "'a docker_env \<Rightarrow> goerror + 'a \<Rightarrow> nat \<Rightarrow> bool" where
  "accounts_for env (Inr v) j \<longleftrightarrow> d_op env j = Inr v"
| "accounts_for env (Inl err) j \<longleftrightarrow>
     (\<exists>e. d_op env j = Inl e \<and> (errors_Is e err \<or> (\<exists>d c. timer env j d = Some c \<and> errors_Is c err)))"

lemma value_loop_last:
  assumes "int n \<le> drp_MaxRetries r" "\<not> docker_retries r env n"
  shows "\<exists>res. value_loop r env n e = (Suc n, res) \<and> accounts_for env res n"
proof (cases "d_op env n")
  case (Inr v)
  with assms(1) show ?thesis by (subst value_loop.simps) simp
next
  case (Inl err)
  note step = value_loop.simps [of r env n e]
  show ?thesis
  proof (cases "docker_isRetryable (d_ord env n) r err \<and> int n \<noteq> drp_MaxRetries r")
    case True
    then obtain c where "timer env n (calculateBackoff (d_oor env) (d_now env n) r (int n)) = Some c"
      using assms Inl by (auto simp: docker_retries_def)
    with True Inl assms(1) step show ?thesis using errors_Is_refl [of c] by auto
  next
    case False
    with Inl assms(1) step show ?thesis by (auto simp: failed_after_def errors_Is_refl)
  qed
qed

lemma value_loop_calls:
  "int n \<le> drp_MaxRetries r \<Longrightarrow> value_loop r env n e = (k, res) \<Longrightarrow>
   n < k \<and> int k \<le> drp_MaxRetries r + 1 \<and>
   (\<forall>j. n \<le> j \<and> j < k - 1 \<longrightarrow> docker_retries r env j) \<and> \<not> docker_retries r env (k - 1) \<and>
   accounts_for env res (k - 1)"
proof (induction r env n e rule: value_loop.induct)
  case (1 r env n e)
  show ?case
  proof (cases "docker_retries r env n")
    case True
    then obtain err where err: "d_op env n = Inl err" "docker_isRetryable (d_ord env n) r err"
      "timer env n (calculateBackoff (d_oor env) (d_now env n) r (int n)) = None"
      "int n < drp_MaxRetries r" by (auto simp: docker_retries_def)
    then have "value_loop r env (Suc n) (Some err) = (k, res)"
      using "1.prems"(2) by (subst (asm) value_loop.simps) simp
    then have "Suc n < k \<and> int k \<le> drp_MaxRetries r + 1 \<and>
        (\<forall>j. Suc n \<le> j \<and> j < k - 1 \<longrightarrow> docker_retries r env j) \<and> \<not> docker_retries r env (k - 1) \<and>
        accounts_for env res (k - 1)"
      using "1.IH" [of err] err by simp
    then show ?thesis using True by (metis Suc_leI Suc_lessD le_eq_less_or_eq)
  next
    case False
    then have "k = Suc n \<and> accounts_for env res n"
      using "1.prems" value_loop_last [of n r env e] by simp
    with False "1.prems"(1) show ?thesis by auto
  qed
qed

text \<open>
  A call of \<^verbatim>\<open>ExecuteWithValue\<close> makes between one and \<open>MaxRetries + 1\<close> calls of the
  operation. It calls again exactly after a failure that is retryable, with the limit not reached
  and the wait not cancelled, so its last call is the first one for which this fails. The value it
  returns is that of the last call, and an error it returns wraps the error of the last call or the
  error of the context. \<^verbatim>\<open>Execute\<close> behaves the same way on an operation without a value.
\<close>

lemma docker_retry_calls:
  assumes "0 \<le> drp_MaxRetries r" "ExecuteWithValue r env = (k, res)"
  shows "1 \<le> k \<and> int k \<le> drp_MaxRetries r + 1 \<and> (\<forall>j < k - 1. docker_retries r env j) \<and>
         \<not> docker_retries r env (k - 1) \<and> accounts_for env res (k - 1) \<and>
         docker_Execute r uenv = (case ExecuteWithValue r uenv of
           (n, Inl err) \<Rightarrow> (n, Some err) | (n, Inr _) \<Rightarrow> (n, None))"
  using value_loop_calls [of 0 r env None k res] assms error_loop_value_loop [of r uenv 0 None]
  by (auto simp: ExecuteWithValue_def docker_Execute_def)

definition eof_env :: "int docker_env" where
  "eof_env = \<lparr>d_op = (\<lambda>n. if n = 0 then Inl (ErrorString ''EOF'') else Inr 5), timer = (\<lambda>_ _. None),
              d_now = (\<lambda>_. 0), d_ord = (\<lambda>_. []), d_oor = (\<lambda>_. 0)\<rparr>"

lemma eof_retryable: "docker_isRetryable ord NewDefaultRetryPolicy (ErrorString ''EOF'')"
  by (simp add: docker_isRetryable_iff NewDefaultRetryPolicy_def)

lemma eof_run: "ExecuteWithValue NewDefaultRetryPolicy eof_env = (2, Inr 5)"
proof -
  have "value_loop NewDefaultRetryPolicy eof_env 0 None =
      value_loop NewDefaultRetryPolicy eof_env 1 (Some (ErrorString ''EOF''))"
    by (subst value_loop.simps) (simp add: eof_env_def eof_retryable, simp add: NewDefaultRetryPolicy_def)
  also have "\<dots> = (2, Inr 5)"
    by (subst value_loop.simps) (simp add: eof_env_def NewDefaultRetryPolicy_def)
  finally show ?thesis by (simp add: ExecuteWithValue_def)
qed

text \<open>
  The client's own substring search is the standard one: \<^verbatim>\<open>contains\<close> and its helper
  \<^verbatim>\<open>findSubstring\<close> hold exactly when the second string occurs in the first, so the retry
  decision does not depend on the iteration order of the pattern map and is kept under wrapping.
\<close>

lemma docker_contains_correct:
  "docker_contains s t = strings_Contains s t \<and> findSubstring s t = strings_Contains s t \<and>
   docker_isRetryable ord r err = docker_isRetryable ord' r err \<and>
   docker_isRetryable ord r err \<le> docker_isRetryable ord r (Errorf pre err post)"
  using docker_isRetryable_wrapped [of ord r err pre post]
  by (auto simp: docker_contains_iff findSubstring_iff strings_Contains_def docker_isRetryable_iff)

end
