(* ===== verification/Client_Metrics.thy ===== *)
theory Client_Metrics
  imports Swap_Sort Docker_Retry "HOL-Library.Word" "HOL-Library.Multiset"
begin

text \<open>
  The metrics of the Docker client, \<^verbatim>\<open>internal/docker/client_metrics.go\<close>: atomic counters, a
  duration tracker per operation with percentiles from a hand-written sort, and the last hundred
  errors. Connection counts are 32-bit words read as signed integers.
\<close>

section \<open>Duration trackers\<close>

record DurationTracker =
  dt_Count :: int
  dt_Total :: Duration
  dt_Min :: Duration
  dt_Max :: Duration
  dt_Average :: Duration
  P50 :: Duration
  P95 :: Duration
  P99 :: Duration
  samples :: "Duration list"

record OperationStats =
  os_Count :: int
  os_Total :: Duration
  os_Min :: Duration
  os_Max :: Duration
  os_Average :: Duration
  os_P50 :: Duration
  os_P95 :: Duration
  os_P99 :: Duration

definition NewDurationTracker :: DurationTracker where
  "NewDurationTracker =
     \<lparr>dt_Count = 0, dt_Total = 0, dt_Min = 0, dt_Max = 0, dt_Average = 0,
      P50 = 0, P95 = 0, P99 = 0, samples = []\<rparr>"

definition updatePercentiles :: "DurationTracker \<Rightarrow> DurationTracker" where
  "updatePercentiles dt =
     (if samples dt = [] then dt
      else let sorted = sort_samples (samples dt);
               p50Index = length sorted * 50 div 100;
               p95Index = length sorted * 95 div 100;
               p99Index = length sorted * 99 div 100;
               dt = (if p50Index < length sorted then dt\<lparr>P50 := sorted ! p50Index\<rparr> else dt);
               dt = (if p95Index < length sorted then dt\<lparr>P95 := sorted ! p95Index\<rparr> else dt)
           in if p99Index < length sorted then dt\<lparr>P99 := sorted ! p99Index\<rparr> else dt)"

definition Record :: "Duration \<Rightarrow> DurationTracker \<Rightarrow> DurationTracker" where
  "Record d dt =
     (let dt = dt\<lparr>dt_Count := dt_Count dt + 1, dt_Total := wrap64 (dt_Total dt + d)\<rparr>;
          dt = (if dt_Min dt = 0 \<or> d < dt_Min dt then dt\<lparr>dt_Min := d\<rparr> else dt);
          dt = (if d > dt_Max dt then dt\<lparr>dt_Max := d\<rparr> else dt);
          dt = dt\<lparr>dt_Average := go_quot (dt_Total dt) (dt_Count dt)\<rparr>;
          dt = (if length (samples dt) \<ge> 1000 then dt\<lparr>samples := tl (samples dt)\<rparr> else dt);
          dt = dt\<lparr>samples := samples dt @ [d]\<rparr>
      in updatePercentiles dt)"

definition DurationTracker_GetStats :: "DurationTracker \<Rightarrow> OperationStats" where
  "DurationTracker_GetStats dt =
     \<lparr>os_Count = dt_Count dt, os_Total = dt_Total dt, os_Min = dt_Min dt, os_Max = dt_Max dt,
      os_Average = dt_Average dt, os_P50 = P50 dt, os_P95 = P95 dt, os_P99 = P99 dt\<rparr>"

definition DurationTracker_Reset :: "DurationTracker \<Rightarrow> DurationTracker" where
  "DurationTracker_Reset dt = NewDurationTracker"

section \<open>Client metrics\<close>

record ErrorRecord =
  er_Timestamp :: Time
  er_Operation :: string
  er_Error :: string
  er_Retryable :: bool

record ClientMetrics =
  TotalAPICalls :: int
  SuccessfulCalls :: int
  FailedCalls :: int
  RetryCount :: int
  RateLimitHits :: int
  ContainerListCalls :: int
  NetworkListCalls :: int
  ContainerInspectCalls :: int
  NetworkInspectCalls :: int
  ExecCalls :: int
  PingCalls :: int
  operationDurations :: "(string, DurationTracker) gomap"
  ActiveConnections :: "32 word"
  PeakConnections :: "32 word"
  CacheHits :: int
  CacheMisses :: int
  lastErrors :: "ErrorRecord list"
  cm_StartTime :: Time

definition NewClientMetrics :: "Time \<Rightarrow> ClientMetrics" where
  "NewClientMetrics now =
     \<lparr>TotalAPICalls = 0, SuccessfulCalls = 0, FailedCalls = 0, RetryCount = 0, RateLimitHits = 0,
      ContainerListCalls = 0, NetworkListCalls = 0, ContainerInspectCalls = 0, NetworkInspectCalls = 0,
      ExecCalls = 0, PingCalls = 0,
      operationDurations =
        [(''container_list'', NewDurationTracker), (''network_list'', NewDurationTracker),
         (''container_inspect'', NewDurationTracker), (''network_inspect'', NewDurationTracker),
         (''container_exec'', NewDurationTracker), (''ping'', NewDurationTracker)],
      ActiveConnections = 0, PeakConnections = 0, CacheHits = 0, CacheMisses = 0,
      lastErrors = [], cm_StartTime = now\<rparr>"

definition client_retryablePatterns :: "string list" where
  "client_retryablePatterns =
     [''connection refused'', ''connection reset'', ''timeout'', ''EOF'', ''broken pipe'',
      ''service unavailable'', ''too many requests'']"

definition isRetryableError :: "goerror option \<Rightarrow> bool" where
  "isRetryableError err =
     (case err of None \<Rightarrow> False
      | Some e \<Rightarrow> any_pattern docker_contains client_retryablePatterns (Error e))"

definition recordDuration :: "string \<Rightarrow> Duration \<Rightarrow> ClientMetrics \<Rightarrow> ClientMetrics" where
  "recordDuration operation d m =
     (case map_of (operationDurations m) operation of
        Some tracker \<Rightarrow> m\<lparr>operationDurations := AList.update operation (Record d tracker) (operationDurations m)\<rparr>
      | None \<Rightarrow> m)"

definition push_error :: "ErrorRecord \<Rightarrow> ClientMetrics \<Rightarrow> ClientMetrics" where
  "push_error r m =
     (let m = (if length (lastErrors m) \<ge> 100 then m\<lparr>lastErrors := tl (lastErrors m)\<rparr> else m)
      in m\<lparr>lastErrors := lastErrors m @ [r]\<rparr>)"

definition recordError :: "Time \<Rightarrow> string \<Rightarrow> goerror \<Rightarrow> ClientMetrics \<Rightarrow> ClientMetrics" where
  "recordError now operation err m =
     push_error \<lparr>er_Timestamp = now, er_Operation = operation, er_Error = Error err,
                 er_Retryable = isRetryableError (Some err)\<rparr> m"

definition count_operation :: "string \<Rightarrow> ClientMetrics \<Rightarrow> ClientMetrics" where
  "count_operation operation m =
     (if operation = ''container_list'' then m\<lparr>ContainerListCalls := ContainerListCalls m + 1\<rparr>
      else if operation = ''network_list'' then m\<lparr>NetworkListCalls := NetworkListCalls m + 1\<rparr>
      else if operation = ''container_inspect'' then m\<lparr>ContainerInspectCalls := ContainerInspectCalls m + 1\<rparr>
      else if operation = ''network_inspect'' then m\<lparr>NetworkInspectCalls := NetworkInspectCalls m + 1\<rparr>
      else if operation = ''container_exec'' then m\<lparr>ExecCalls := ExecCalls m + 1\<rparr>
      else if operation = ''ping'' then m\<lparr>PingCalls := PingCalls m + 1\<rparr>
      else m)"

definition RecordAPICall :: "Time \<Rightarrow> string \<Rightarrow> Duration \<Rightarrow> goerror option \<Rightarrow> ClientMetrics \<Rightarrow> ClientMetrics" where
  "RecordAPICall now operation d err m =
     (let m = m\<lparr>TotalAPICalls := TotalAPICalls m + 1\<rparr>;
          m = (case err of
                 Some e \<Rightarrow> recordError now operation e (m\<lparr>FailedCalls := FailedCalls m + 1\<rparr>)
               | None \<Rightarrow> m\<lparr>SuccessfulCalls := SuccessfulCalls m + 1\<rparr>)
      in count_operation operation (recordDuration operation d m))"

definition RecordRetry :: "ClientMetrics \<Rightarrow> ClientMetrics" where
  "RecordRetry m = m\<lparr>RetryCount := RetryCount m + 1\<rparr>"

definition RecordRateLimitHit :: "ClientMetrics \<Rightarrow> ClientMetrics" where
  "RecordRateLimitHit m = m\<lparr>RateLimitHits := RateLimitHits m + 1\<rparr>"

definition RecordCacheHit :: "ClientMetrics \<Rightarrow> ClientMetrics" where
  "RecordCacheHit m = m\<lparr>CacheHits := CacheHits m + 1\<rparr>"

definition RecordCacheMiss :: "ClientMetrics \<Rightarrow> ClientMetrics" where
  "RecordCacheMiss m = m\<lparr>CacheMisses := CacheMisses m + 1\<rparr>"

text \<open>
  \<^verbatim>\<open>UpdateActiveConnections\<close> is two actions: the atomic addition, and the update of the peak with the
  value it returned, under the mutex. Other goroutines can act between the two.
\<close>

definition add_active :: "32 word \<Rightarrow> ClientMetrics \<Rightarrow> ClientMetrics \<times> 32 word" where
  "add_active delta m =
     (let newValue = ActiveConnections m + delta in (m\<lparr>ActiveConnections := newValue\<rparr>, newValue))"

definition raise_peak :: "32 word \<Rightarrow> ClientMetrics \<Rightarrow> ClientMetrics" where
  "raise_peak newValue m =
     (if sint newValue > sint (PeakConnections m) then m\<lparr>PeakConnections := newValue\<rparr> else m)"

definition UpdateActiveConnections :: "32 word \<Rightarrow> ClientMetrics \<Rightarrow> ClientMetrics" where
  "UpdateActiveConnections delta m = (case add_active delta m of (m, newValue) \<Rightarrow> raise_peak newValue m)"

lemmas update_active_defs = UpdateActiveConnections_def add_active_def raise_peak_def Let_def

definition ClientMetrics_Reset :: "Time \<Rightarrow> ClientMetrics \<Rightarrow> ClientMetrics" where
  "ClientMetrics_Reset now m =
     m\<lparr>TotalAPICalls := 0, SuccessfulCalls := 0, FailedCalls := 0, RetryCount := 0, RateLimitHits := 0,
       ContainerListCalls := 0, NetworkListCalls := 0, ContainerInspectCalls := 0, NetworkInspectCalls := 0,
       ExecCalls := 0, PingCalls := 0, ActiveConnections := 0, PeakConnections := 0,
       CacheHits := 0, CacheMisses := 0,
       operationDurations := map (\<lambda>(op, tracker). (op, DurationTracker_Reset tracker)) (operationDurations m),
       lastErrors := [], cm_StartTime := now\<rparr>"

record MetricsSnapshot =
  ms_counters :: ClientMetrics
  ms_Timestamp :: Time
  Uptime :: Duration
  ms_TotalAPICalls :: int
  ms_SuccessRate :: f64
  CacheHitRate :: f64
  OperationDurations :: "(string, OperationStats) gomap"
  RecentErrors :: "ErrorRecord list"

text \<open>
  \<^verbatim>\<open>GetSnapshot\<close> reads atomic counters one after the other, and calls in progress change them
  between the reads: \<open>m1\<close> is the state when \<^verbatim>\<open>TotalAPICalls\<close> is read, \<open>m2\<close> the one when the
  other fields are (they are copied from it as \<open>ms_counters\<close>).
\<close>

definition GetSnapshot :: "Time \<Rightarrow> ClientMetrics \<Rightarrow> ClientMetrics \<Rightarrow> MetricsSnapshot" where
  "GetSnapshot now m1 m2 =
     (let total = TotalAPICalls m1;
          successful = SuccessfulCalls m2;
          cacheTotal = CacheHits m2 + CacheMisses m2
      in \<lparr>ms_counters = m2, ms_Timestamp = now, Uptime = Sub now (cm_StartTime m2),
          ms_TotalAPICalls = total,
          ms_SuccessRate = (if total > 0 then f_div (float64 successful) (float64 total) else Fin 0),
          CacheHitRate = (if cacheTotal > 0 then f_div (float64 (CacheHits m2)) (float64 cacheTotal) else Fin 0),
          OperationDurations = map (\<lambda>(op, tracker). (op, DurationTracker_GetStats tracker)) (operationDurations m2),
          RecentErrors = lastErrors m2\<rparr>)"

section \<open>Trackers and error lists are bounded histories\<close>

lemma updatePercentiles_fields [simp]:
  "dt_Count (updatePercentiles dt) = dt_Count dt" "dt_Total (updatePercentiles dt) = dt_Total dt"
  "dt_Min (updatePercentiles dt) = dt_Min dt" "dt_Max (updatePercentiles dt) = dt_Max dt"
  "dt_Average (updatePercentiles dt) = dt_Average dt" "samples (updatePercentiles dt) = samples dt"
  by (simp_all add: updatePercentiles_def Let_def)

lemma Record_fields:
  "dt_Count (Record d dt) = dt_Count dt + 1" "dt_Total (Record d dt) = wrap64 (dt_Total dt + d)"
  "dt_Min (Record d dt) = (if dt_Min dt = 0 \<or> d < dt_Min dt then d else dt_Min dt)"
  "dt_Max (Record d dt) = max (dt_Max dt) d"
  "dt_Average (Record d dt) = go_quot (wrap64 (dt_Total dt + d)) (dt_Count dt + 1)"
  "samples (Record d dt) = (if length (samples dt) \<ge> 1000 then tl (samples dt) else samples dt) @ [d]"
  by (simp_all add: Record_def Let_def)

lemma append_cut: "length xs \<le> n \<Longrightarrow> 0 < n \<Longrightarrow> (if length xs \<ge> n then tl xs else xs) @ [x] = last_n n (xs @ [x])"
  by (cases xs) (auto simp: last_n_def)

interpretation sample_history: bounded_history Record samples "\<lambda>_. 1000" "\<lambda>dt. length (samples dt) \<le> 1000"
  by unfold_locales (simp_all only: Record_fields(6) append_cut, simp_all)

interpretation error_history: bounded_history push_error lastErrors "\<lambda>_. 100" "\<lambda>m. length (lastErrors m) \<le> 100"
proof -
  have "lastErrors (push_error r m) = (if length (lastErrors m) \<ge> 100 then tl (lastErrors m) else lastErrors m) @ [r]" for r m
    by (simp add: push_error_def Let_def)
  then show "bounded_history push_error lastErrors (\<lambda>_. 100) (\<lambda>m. length (lastErrors m) \<le> 100)"
    by unfold_locales (simp_all only: append_cut, simp_all)
qed

lemma percentile_index: "(n :: nat) * p div 100 < n" if "0 < n" "p < 100"
  using that by (simp add: div_less_iff_less_mult)

lemma updatePercentiles_values:
  assumes "samples dt \<noteq> []"
  shows "P50 (updatePercentiles dt) = sort (samples dt) ! (length (samples dt) * 50 div 100)"
    "P95 (updatePercentiles dt) = sort (samples dt) ! (length (samples dt) * 95 div 100)"
    "P99 (updatePercentiles dt) = sort (samples dt) ! (length (samples dt) * 99 div 100)"
  using assms percentile_index [of "length (samples dt)" 50] percentile_index [of "length (samples dt)" 95]
    percentile_index [of "length (samples dt)" 99]
  by (simp_all add: updatePercentiles_def Let_def sort_samples_sort)

lemma Record_percentiles:
  fixes d dt defines "dt' \<equiv> Record d dt"
  shows "P50 dt' = sort (samples dt') ! (length (samples dt') * 50 div 100)"
    "P95 dt' = sort (samples dt') ! (length (samples dt') * 95 div 100)"
    "P99 dt' = sort (samples dt') ! (length (samples dt') * 99 div 100)"
proof -
  obtain dt0 where e: "dt' = updatePercentiles dt0" unfolding dt'_def Record_def Let_def by blast
  then have "samples dt0 = samples dt'" by simp
  moreover have "samples dt' \<noteq> []" by (simp add: dt'_def Record_fields)
  ultimately show
    "P50 dt' = sort (samples dt') ! (length (samples dt') * 50 div 100)"
    "P95 dt' = sort (samples dt') ! (length (samples dt') * 95 div 100)"
    "P99 dt' = sort (samples dt') ! (length (samples dt') * 99 div 100)"
    using updatePercentiles_values [of dt0] e by simp_all
qed

definition tracker_of :: "Duration list \<Rightarrow> DurationTracker" where
  "tracker_of ds = fold Record ds NewDurationTracker"

lemma tracker_summary:
  assumes "\<forall>d \<in> set ds. 0 < d" "sum_list ds < 2 ^ 63" "ds \<noteq> []"
  shows "dt_Count (tracker_of ds) = int (length ds) \<and> dt_Total (tracker_of ds) = sum_list ds \<and>
         dt_Min (tracker_of ds) = Min (set ds) \<and> dt_Max (tracker_of ds) = Max (set ds) \<and>
         dt_Average (tracker_of ds) = sum_list ds div int (length ds)"
  using assms
proof (induction ds rule: rev_induct)
  case (snoc d ds)
  have pos: "\<forall>x \<in> set ds. 0 < x" "0 < d" using snoc.prems by simp_all
  have nn: "0 \<le> sum_list ds" using pos by (intro sum_list_nonneg) auto
  then have w: "wrap64 (sum_list ds + d) = sum_list ds + d"
    using snoc.prems pos by (intro wrap64_nonneg_id) simp_all
  have q: "go_quot (sum_list ds + d) (int (length ds) + 1) = (sum_list ds + d) div (int (length ds) + 1)"
    using nn pos by (intro go_quot_nonneg) simp_all
  show ?case
  proof (cases "ds = []")
    case True
    then show ?thesis using w q pos
      by (simp add: tracker_of_def Record_fields NewDurationTracker_def max_def)
  next
    case False
    have IH: "dt_Count (tracker_of ds) = int (length ds)" "dt_Total (tracker_of ds) = sum_list ds"
      "dt_Min (tracker_of ds) = Min (set ds)" "dt_Max (tracker_of ds) = Max (set ds)"
      using snoc.IH snoc.prems False pos by simp_all
    have "Min (set (ds @ [d])) = min d (Min (set ds))" "Max (set (ds @ [d])) = max d (Max (set ds))"
      using False by simp_all
    moreover have "0 < Min (set ds)" using pos False by simp
    moreover have "tracker_of (ds @ [d]) = Record d (tracker_of ds)" by (simp add: tracker_of_def)
    ultimately show ?thesis using IH w q
      by (simp add: Record_fields max.commute add.commute)
  qed
qed simp

lemma sorted_percentiles:
  assumes "xs \<noteq> []"
  shows "sort xs ! (length xs * 50 div 100) \<le> sort xs ! (length xs * 95 div 100) \<and>
         sort xs ! (length xs * 95 div 100) \<le> sort xs ! (length xs * 99 div (100 :: nat)) \<and>
         (\<forall>p < 100. sort xs ! (length xs * p div 100) \<in> set (xs :: int list))"
proof (intro conjI allI impI)
  have n: "length xs * 95 div 100 < length xs" "length xs * 99 div 100 < length xs"
    using assms percentile_index [of "length xs" 95] percentile_index [of "length xs" 99] by simp_all
  show "sort xs ! (length xs * 50 div 100) \<le> sort xs ! (length xs * 95 div 100)"
    using n by (intro sorted_nth_mono div_le_mono) (simp_all only: sorted_sort length_sort mult_le_mono2 numeral_le_iff le_num_simps)
  show "sort xs ! (length xs * 95 div 100) \<le> sort xs ! (length xs * 99 div 100)"
    using n by (intro sorted_nth_mono div_le_mono) (simp_all only: sorted_sort length_sort mult_le_mono2 numeral_le_iff le_num_simps)
  fix p :: nat
  assume "p < 100"
  then have "sort xs ! (length xs * p div 100) \<in> set (sort xs)"
    using assms percentile_index [of "length xs" p] by (intro nth_mem) simp
  then show "sort xs ! (length xs * p div 100) \<in> set xs" by simp
qed

lemma last_n_subset: "set (last_n n xs) \<subseteq> set xs"
  by (simp add: last_n_def set_drop_subset)

section \<open>Counter conservation\<close>

definition metrics_ok :: "ClientMetrics \<Rightarrow> bool" where
  "metrics_ok m \<longleftrightarrow> TotalAPICalls m = SuccessfulCalls m + FailedCalls m \<and> 0 \<le> SuccessfulCalls m \<and> 0 \<le> FailedCalls m \<and>
     ContainerListCalls m + NetworkListCalls m + ContainerInspectCalls m + NetworkInspectCalls m +
       ExecCalls m + PingCalls m \<le> TotalAPICalls m \<and>
     0 \<le> CacheHits m \<and> 0 \<le> CacheMisses m \<and>
     length (lastErrors m) \<le> 100 \<and> int (length (lastErrors m)) \<le> FailedCalls m \<and>
     sint (ActiveConnections m) \<le> sint (PeakConnections m) \<and>
     map fst (operationDurations m) =
       [''container_list'', ''network_list'', ''container_inspect'', ''network_inspect'', ''container_exec'', ''ping'']"

inductive metrics_step :: "ClientMetrics \<Rightarrow> ClientMetrics \<Rightarrow> bool" where
  "metrics_step m (RecordAPICall now operation d err m)"
| "metrics_step m (RecordRetry m)"
| "metrics_step m (RecordRateLimitHit m)"
| "metrics_step m (RecordCacheHit m)"
| "metrics_step m (RecordCacheMiss m)"
| "metrics_step m (UpdateActiveConnections delta m)"
| "metrics_step m (ClientMetrics_Reset now m)"

lemma map_fst_update: "k \<in> set (map fst m) \<Longrightarrow> map fst (AList.update k v m) = map fst m"
  by (induction m) auto

definition operation_calls :: "ClientMetrics \<Rightarrow> int" where
  "operation_calls m = ContainerListCalls m + NetworkListCalls m + ContainerInspectCalls m +
     NetworkInspectCalls m + ExecCalls m + PingCalls m"

lemma recordDuration_keys: "map fst (operationDurations (recordDuration operation d m)) = map fst (operationDurations m)"
proof (cases "map_of (operationDurations m) operation")
  case (Some tracker)
  then have "operation \<in> set (map fst (operationDurations m))" by (force dest: map_of_SomeD)
  then show ?thesis using Some by (simp add: recordDuration_def map_fst_update del: set_map)
qed (simp add: recordDuration_def)

lemma recordDuration_fields [simp]:
  "TotalAPICalls (recordDuration operation d m) = TotalAPICalls m"
  "SuccessfulCalls (recordDuration operation d m) = SuccessfulCalls m"
  "FailedCalls (recordDuration operation d m) = FailedCalls m"
  "operation_calls (recordDuration operation d m) = operation_calls m"
  "CacheHits (recordDuration operation d m) = CacheHits m" "CacheMisses (recordDuration operation d m) = CacheMisses m"
  "ActiveConnections (recordDuration operation d m) = ActiveConnections m"
  "PeakConnections (recordDuration operation d m) = PeakConnections m"
  "lastErrors (recordDuration operation d m) = lastErrors m"
  by (simp_all add: recordDuration_def operation_calls_def split: option.split)

lemma recordError_fields [simp]:
  "TotalAPICalls (recordError now operation e m) = TotalAPICalls m"
  "SuccessfulCalls (recordError now operation e m) = SuccessfulCalls m"
  "FailedCalls (recordError now operation e m) = FailedCalls m"
  "operation_calls (recordError now operation e m) = operation_calls m"
  "CacheHits (recordError now operation e m) = CacheHits m" "CacheMisses (recordError now operation e m) = CacheMisses m"
  "ActiveConnections (recordError now operation e m) = ActiveConnections m"
  "PeakConnections (recordError now operation e m) = PeakConnections m"
  "operationDurations (recordError now operation e m) = operationDurations m"
  by (simp_all add: recordError_def push_error_def Let_def operation_calls_def)

lemma recordError_length:
  "length (lastErrors (recordError now operation e m)) \<le> Suc (length (lastErrors m))"
  "length (lastErrors m) \<le> 100 \<Longrightarrow> length (lastErrors (recordError now operation e m)) \<le> 100"
  by (auto simp: recordError_def push_error_def Let_def)

lemma count_operation_fields [simp]:
  "TotalAPICalls (count_operation operation m) = TotalAPICalls m"
  "SuccessfulCalls (count_operation operation m) = SuccessfulCalls m"
  "FailedCalls (count_operation operation m) = FailedCalls m"
  "CacheHits (count_operation operation m) = CacheHits m" "CacheMisses (count_operation operation m) = CacheMisses m"
  "ActiveConnections (count_operation operation m) = ActiveConnections m"
  "PeakConnections (count_operation operation m) = PeakConnections m"
  "operationDurations (count_operation operation m) = operationDurations m"
  "lastErrors (count_operation operation m) = lastErrors m"
  by (simp_all add: count_operation_def)

lemma count_operation_calls: "operation_calls (count_operation operation m) \<le> operation_calls m + 1"
  by (simp add: count_operation_def operation_calls_def)

lemma operation_calls_update [simp]:
  "operation_calls (m\<lparr>TotalAPICalls := n\<rparr>) = operation_calls m"
  "operation_calls (m\<lparr>SuccessfulCalls := n\<rparr>) = operation_calls m"
  "operation_calls (m\<lparr>FailedCalls := n\<rparr>) = operation_calls m"
  by (simp_all add: operation_calls_def)

lemma RecordAPICall_ok:
  assumes "metrics_ok m"
  shows "metrics_ok (RecordAPICall now operation d err m)"
proof -
  define m1 where "m1 = (case err of
      Some e \<Rightarrow> recordError now operation e (m\<lparr>TotalAPICalls := TotalAPICalls m + 1, FailedCalls := FailedCalls m + 1\<rparr>)
    | None \<Rightarrow> m\<lparr>TotalAPICalls := TotalAPICalls m + 1, SuccessfulCalls := SuccessfulCalls m + 1\<rparr>)"
  have "RecordAPICall now operation d err m = count_operation operation (recordDuration operation d m1)"
    by (simp add: RecordAPICall_def m1_def Let_def split: option.split)
  moreover have "length (lastErrors m1) \<le> length (lastErrors m) + (if err = None then 0 else 1)"
    "length (lastErrors m) \<le> 100 \<Longrightarrow> length (lastErrors m1) \<le> 100"
    using recordError_length [where now = now and operation = operation and e = "the err" and
        m = "m\<lparr>TotalAPICalls := TotalAPICalls m + 1, FailedCalls := FailedCalls m + 1\<rparr>"]
    by (cases err; simp add: m1_def)+
  moreover have "TotalAPICalls m1 = TotalAPICalls m + 1" "operation_calls m1 = operation_calls m"
    "SuccessfulCalls m1 = SuccessfulCalls m + (if err = None then 1 else 0)"
    "FailedCalls m1 = FailedCalls m + (if err = None then 0 else 1)" "CacheHits m1 = CacheHits m"
    "CacheMisses m1 = CacheMisses m" "ActiveConnections m1 = ActiveConnections m"
    "PeakConnections m1 = PeakConnections m" "operationDurations m1 = operationDurations m"
    by (cases err; simp add: m1_def)+
  ultimately show ?thesis
    using assms count_operation_calls [of operation "recordDuration operation d m1"]
    unfolding metrics_ok_def operation_calls_def [symmetric]
    by (cases err) (simp_all add: recordDuration_keys)
qed

lemma metrics_step_ok: "metrics_step m m' \<Longrightarrow> metrics_ok m \<Longrightarrow> metrics_ok m'"
proof (induction rule: metrics_step.induct)
  case (1 m now operation d err)
  then show ?case by (rule RecordAPICall_ok)
next
  case (7 m now)
  then show ?case by (simp add: metrics_ok_def ClientMetrics_Reset_def comp_def case_prod_beta)
qed (auto simp: metrics_ok_def RecordRetry_def RecordRateLimitHit_def RecordCacheHit_def
      RecordCacheMiss_def update_active_defs)

lemma NewClientMetrics_ok: "metrics_ok (NewClientMetrics now)"
  by (simp add: metrics_ok_def NewClientMetrics_def)

lemma metrics_reachable_ok: "metrics_step\<^sup>*\<^sup>* (NewClientMetrics now) m \<Longrightarrow> metrics_ok m"
  by (induction rule: rtranclp_induct) (auto intro: metrics_step_ok NewClientMetrics_ok)

section \<open>Properties\<close>

text \<open>
  The percentiles are those of the sorted window: after recording any non-empty sequence of
  positive durations (whose sum fits in an \<^verbatim>\<open>int64\<close>), the nested swap loops have sorted the last
  thousand samples, \<^verbatim>\<open>P50\<close>, \<^verbatim>\<open>P95\<close> and \<^verbatim>\<open>P99\<close> are its entries at 50, 95 and 99 percent, the
  indexes are never out of range, \<open>Min \<le> P50 \<le> P95 \<le> P99 \<le> Max\<close>, and count, total, minimum,
  maximum and average are those of the whole sequence.
\<close>

lemma tracker_percentiles:
  assumes "\<forall>d \<in> set ds. 0 < d" "sum_list ds < 2 ^ 63" "ds \<noteq> []"
  shows "P50 (tracker_of ds) = sort (last_n 1000 ds) ! (min 1000 (length ds) * 50 div 100) \<and>
     P95 (tracker_of ds) = sort (last_n 1000 ds) ! (min 1000 (length ds) * 95 div 100) \<and>
     P99 (tracker_of ds) = sort (last_n 1000 ds) ! (min 1000 (length ds) * 99 div 100) \<and>
     dt_Min (tracker_of ds) \<le> P50 (tracker_of ds) \<and> P50 (tracker_of ds) \<le> P95 (tracker_of ds) \<and>
     P95 (tracker_of ds) \<le> P99 (tracker_of ds) \<and> P99 (tracker_of ds) \<le> dt_Max (tracker_of ds) \<and>
     dt_Count (tracker_of ds) = int (length ds) \<and> dt_Total (tracker_of ds) = sum_list ds \<and>
     dt_Min (tracker_of ds) = Min (set ds) \<and> dt_Max (tracker_of ds) = Max (set ds) \<and>
     dt_Average (tracker_of ds) = sum_list ds div int (length ds)"
proof -
  let ?w = "last_n 1000 ds" and ?t = "tracker_of ds"
  have w: "samples ?t = ?w"
    using sample_history.fold_push_hist [of NewDurationTracker ds]
    by (simp add: tracker_of_def NewDurationTracker_def)
  obtain d ds' where "ds = ds' @ [d]" using assms(3) by (cases ds rule: rev_cases) auto
  then have "?t = Record d (tracker_of ds')" by (simp add: tracker_of_def)
  note P = Record_percentiles [of d "tracker_of ds'", folded this, unfolded w]
  have ne: "?w \<noteq> []" using assms(3) by (simp flip: length_greater_0_conv)
  note S = sorted_percentiles [OF ne]
  have mem: "P50 ?t \<in> set ds" "P99 ?t \<in> set ds" unfolding P
    using S [THEN conjunct2, THEN conjunct2, rule_format, of 50] S [THEN conjunct2, THEN conjunct2, rule_format, of 99]
      last_n_subset [of 1000 ds] by (blast | simp)+
  have "P50 ?t \<le> P95 ?t" "P95 ?t \<le> P99 ?t" unfolding P using S by blast+
  moreover have "Min (set ds) \<le> P50 ?t" "P99 ?t \<le> Max (set ds)" using mem by simp_all
  ultimately show ?thesis
    using P tracker_summary [OF assms] unfolding length_last_n by presburger
qed

text \<open>
  A zero duration is lost from the minimum: \<^verbatim>\<open>Min == 0\<close> means \<^emph>\<open>not set yet\<close>, so the next
  duration replaces it however large it is.
\<close>

lemma zero_duration_lost:
  "0 < d \<Longrightarrow> dt_Min (tracker_of [0, d]) = d \<and> dt_Min (tracker_of [0, d]) \<noteq> Min (set [0, d])"
  by (simp add: tracker_of_def Record_fields NewDurationTracker_def)

text \<open>
  C17: The counters are conserved when the updates come one after the other: after any sequence of
  complete updates and resets, with no update in progress, every API call is counted once as successful
  or failed, the counters of the single operations never exceed the total, at most the last hundred
  errors (and no more than there were failures) are kept, the peak of the connections is at least their
  current number, as signed 32-bit integers, and the success and cache rates of a snapshot taken then lie
  between 0 and 1. A snapshot taken while calls are being recorded has no such bound: see
  \<open>snapshot_rate_above_one\<close>.
\<close>

theorem client_metrics_conserved:
  assumes "metrics_step\<^sup>*\<^sup>* (NewClientMetrics start) m" "TotalAPICalls m < 2 ^ 63" "CacheHits m + CacheMisses m < 2 ^ 63"
  shows "TotalAPICalls m = SuccessfulCalls m + FailedCalls m \<and>
     ContainerListCalls m + NetworkListCalls m + ContainerInspectCalls m + NetworkInspectCalls m +
       ExecCalls m + PingCalls m \<le> TotalAPICalls m \<and>
     length (lastErrors m) \<le> 100 \<and> int (length (lastErrors m)) \<le> FailedCalls m \<and>
     sint (ActiveConnections m) \<le> sint (PeakConnections m) \<and>
     (\<exists>r. ms_SuccessRate (GetSnapshot now m m) = Fin r \<and> 0 \<le> r \<and> r \<le> 1) \<and>
     (\<exists>r. CacheHitRate (GetSnapshot now m m) = Fin r \<and> 0 \<le> r \<and> r \<le> 1)"
proof -
  have ok: "metrics_ok m" using metrics_reachable_ok [OF assms(1)] .
  have "\<exists>r. ms_SuccessRate (GetSnapshot now m m) = Fin r \<and> 0 \<le> r \<and> r \<le> 1"
    using rate_unit_interval [of "SuccessfulCalls m" "TotalAPICalls m"] ok assms(2)
    by (auto simp: GetSnapshot_def Let_def metrics_ok_def)
  moreover have "\<exists>r. CacheHitRate (GetSnapshot now m m) = Fin r \<and> 0 \<le> r \<and> r \<le> 1"
    using rate_unit_interval [of "CacheHits m" "CacheHits m + CacheMisses m"] ok assms(3)
    by (auto simp: GetSnapshot_def Let_def metrics_ok_def)
  ultimately show ?thesis using ok by (simp add: metrics_ok_def)
qed

theorem client_metrics_conserved_witness:
  "sint (ActiveConnections (UpdateActiveConnections 3 (NewClientMetrics 0))) \<le>
   sint (PeakConnections (UpdateActiveConnections 3 (NewClientMetrics 0)))"
  using client_metrics_conserved [of 0 "UpdateActiveConnections 3 (NewClientMetrics 0)" 0]
    metrics_step.intros(6) [of "NewClientMetrics 0" 3]
  by (simp add: r_into_rtranclp) (simp add: update_active_defs NewClientMetrics_def)

lemma pow2_52: "pow2 (- 52) = 1 / 2 ^ 52"
  by (simp add: pow2_def)

text \<open>
  A snapshot can report a success rate above 1: \<^verbatim>\<open>GetSnapshot\<close> reads the total before the
  successes, and a call that completes in between is counted only in the second. When every call so
  far was successful, one such call is enough.
\<close>

lemma snapshot_rate_above_one:
  assumes "0 < TotalAPICalls m" "SuccessfulCalls m = TotalAPICalls m" "TotalAPICalls m \<le> 2 ^ 52"
  shows "\<exists>r. ms_SuccessRate (GetSnapshot now m (RecordAPICall t operation d None m)) = Fin r \<and> 1 < r"
proof -
  let ?n = "TotalAPICalls m"
  have s: "SuccessfulCalls (RecordAPICall t operation d None m) = ?n + 1"
    using assms(2) by (simp add: RecordAPICall_def Let_def)
  have fl: "float64 (?n + 1) = Fin (of_int (?n + 1))" "float64 ?n = Fin (of_int ?n)"
    using assms by (intro float64_exact; simp)+
  define q :: rat where "q = of_int (?n + 1) / of_int ?n"
  define c :: rat where "c = 1 + pow2 (- 52)"
  have "(of_int ?n :: rat) \<le> of_int (2 ^ 52)" using assms(3) by (simp only: of_int_le_iff)
  then have "1 / (2 ^ 52) \<le> 1 / (of_int ?n :: rat)" using assms(1) by (intro divide_left_mono) simp_all
  moreover have qe: "q = 1 + 1 / of_int ?n" using assms(1) by (simp add: q_def add_divide_distrib)
  moreover have "0 < 1 / (of_int ?n :: rat)" "1 / (of_int ?n :: rat) \<le> 1" using assms(1) by simp_all
  moreover note pow2_52
  ultimately have q: "c \<le> q" "1 \<le> q" "q \<le> 2" unfolding c_def by linarith+
  have "c = of_int (2 ^ 52 + 1) * pow2 (- 52)"
    unfolding c_def pow2_52 by (simp add: field_simps)
  then have "representable c"
    unfolding representable_def by (intro exI [of _ "2 ^ 52 + 1"] exI [of _ "- 52"]) simp
  then have "c \<le> rnd_pos q" using q by (intro rnd_pos_ge) (simp_all add: c_def pow2_def)
  moreover have "rnd_pos q \<le> 2" using q representable_int [of 2] by (intro rnd_pos_le) simp_all
  moreover have "(2 :: rat) \<le> pow2 1023" using pow2_less_iff [of 1 1023] by (simp add: pow2_def [of 1])
  ultimately have "rnd q = Fin (rnd_pos q)" "1 < rnd_pos q"
    using q rnd_pos_Fin [of q 2] by (simp_all add: c_def pow2_def)
  moreover have "ms_SuccessRate (GetSnapshot now m (RecordAPICall t operation d None m)) = rnd q"
    using assms(1) s fl by (simp add: GetSnapshot_def Let_def q_def)
  ultimately show ?thesis by simp
qed

end
