(* ===== verification/Docker_Client.thy ===== *)
theory Docker_Client
  imports Response_Cache Client_Metrics
begin

text \<open>
  The Docker clients: the rate-limited and caching one of \<^verbatim>\<open>internal/docker/client_enhanced.go\<close> and the
  standard one of \<^verbatim>\<open>internal/docker/client.go\<close>, which delegates to it when it has one. They compose
  the response cache, the retry policy and the client metrics. The Docker SDK, the token bucket and
  the contexts are the environment: what they answer is an argument of every operation, and of the
  SDK's types only the fields the clients read are kept.

  An operation finishes with a value, crashes with a Go panic, or hangs: blocks for ever on a channel.
\<close>

section \<open>Outcomes\<close>

datatype 'a outcome = Finishes 'a | Crashes | Hangs

fun and_then :: "'a outcome \<Rightarrow> ('a \<Rightarrow> 'b outcome) \<Rightarrow> 'b outcome" where
  "and_then (Finishes x) f = f x"
| "and_then Crashes f = Crashes"
| "and_then Hangs f = Hangs"

fun nil_panics :: "'a option \<Rightarrow> 'a outcome" where
  "nil_panics (Some x) = Finishes x"
| "nil_panics None = Crashes"

section \<open>Values of the Docker API\<close>

record Summary =
  su_Name :: string
  su_ID :: string

record IPAMConfigItem =
  item_Subnet :: string
  item_Gateway :: string

record IPAM =
  ipam_Driver :: string
  ipam_Config :: "IPAMConfigItem list"

record EndpointResource =
  res_Name :: string
  res_IPv4Address :: string
  res_IPv6Address :: string
  res_MacAddress :: string

record Inspect =
  ni_Name :: string
  ni_ID :: string
  ni_Driver :: string
  ni_Scope :: string
  ni_Internal :: bool
  ni_IPAM :: IPAM
  ni_Containers :: "(string, EndpointResource) gomap"

text \<open>A container: the pointers that the client follows may be nil.\<close>

record EndpointSettings =
  es_IPAddress :: string
  es_Gateway :: string
  es_MacAddress :: string

record HostConfig =
  hc_DNS :: "string list"
  hc_DNSSearch :: "string list"
  hc_DNSOptions :: "string list"

record container_json =
  cj_Config :: "(string \<times> string) option"
  cj_HostConfig :: "HostConfig option"
  cj_Networks :: "(string, EndpointSettings option) gomap option"

section \<open>Values of the clients\<close>

record IPAMConfigBlock =
  Subnet :: string
  Gateway :: string

record IPAMConfig =
  ic_Driver :: string
  Configs :: "IPAMConfigBlock list"

record ContainerEndpoint =
  ep_Name :: string
  IPv4Address :: string
  IPv6Address :: string
  ep_MacAddress :: string

record NetworkDiagnostic =
  nd_Name :: string
  nd_ID :: string
  Driver :: string
  Scope :: string
  Internal :: bool
  nd_IPAM :: IPAMConfig
  nd_Containers :: "(string, ContainerEndpoint) gomap"
  nd_Error :: string

record NetworkEndpoint =
  ne_IPAddress :: string
  ne_Gateway :: string
  ne_MacAddress :: string

record ContainerNetworkInfo =
  Hostname :: string
  Domainname :: string
  DNS :: "string list"
  DNSSearch :: "string list"
  DNSOptions :: "string list"
  cni_Networks :: "(string, NetworkEndpoint) gomap"

definition convertIPAM :: "IPAM \<Rightarrow> IPAMConfig" where
  "convertIPAM ipam =
     \<lparr>ic_Driver = ipam_Driver ipam,
      Configs = map (\<lambda>cfg. \<lparr>Subnet = item_Subnet cfg, Gateway = item_Gateway cfg\<rparr>) (ipam_Config ipam)\<rparr>"

definition convert_endpoint :: "EndpointResource \<Rightarrow> ContainerEndpoint" where
  "convert_endpoint endpoint =
     \<lparr>ep_Name = res_Name endpoint, IPv4Address = res_IPv4Address endpoint,
      IPv6Address = res_IPv6Address endpoint, ep_MacAddress = res_MacAddress endpoint\<rparr>"

text \<open>\<open>ord\<close> is the order in which Go visits the endpoints of the network.\<close>

definition network_diagnostic :: "string list \<Rightarrow> Inspect \<Rightarrow> NetworkDiagnostic" where
  "network_diagnostic ord netInspect =
     \<lparr>nd_Name = ni_Name netInspect, nd_ID = ni_ID netInspect, Driver = ni_Driver netInspect,
      Scope = ni_Scope netInspect, Internal = ni_Internal netInspect,
      nd_IPAM = convertIPAM (ni_IPAM netInspect),
      nd_Containers = fold (\<lambda>(containerID, endpoint). AList.update containerID (convert_endpoint endpoint))
                        (range_over ord (ni_Containers netInspect)) [],
      nd_Error = []\<rparr>"

definition failed_network :: "Summary \<Rightarrow> goerror \<Rightarrow> NetworkDiagnostic" where
  "failed_network net err =
     \<lparr>nd_Name = su_Name net, nd_ID = su_ID net, Driver = [], Scope = [], Internal = False,
      nd_IPAM = \<lparr>ic_Driver = [], Configs = []\<rparr>, nd_Containers = [], nd_Error = Error err\<rparr>"

fun add_endpoint ::
    "string \<times> EndpointSettings option \<Rightarrow> (string, NetworkEndpoint) gomap outcome \<Rightarrow> (string, NetworkEndpoint) gomap outcome" where
  "add_endpoint (netName, netSettings) acc =
     and_then acc (\<lambda>m. and_then (nil_panics netSettings) (\<lambda>s.
       Finishes (AList.update netName
         \<lparr>ne_IPAddress = es_IPAddress s, ne_Gateway = es_Gateway s, ne_MacAddress = es_MacAddress s\<rparr> m)))"

definition container_network_info :: "string list \<Rightarrow> container_json \<Rightarrow> ContainerNetworkInfo outcome" where
  "container_network_info ord c =
     and_then (nil_panics (cj_Config c)) (\<lambda>(hostname, domainname).
     and_then (nil_panics (cj_HostConfig c)) (\<lambda>host.
     and_then (nil_panics (cj_Networks c)) (\<lambda>networks.
     and_then (fold add_endpoint (range_over ord networks) (Finishes [])) (\<lambda>endpoints.
       Finishes \<lparr>Hostname = hostname, Domainname = domainname, DNS = hc_DNS host,
                 DNSSearch = hc_DNSSearch host, DNSOptions = hc_DNSOptions host,
                 cni_Networks = endpoints\<rparr>))))"

section \<open>The enhanced client\<close>

text \<open>What the client stores through \<^verbatim>\<open>GetOrCompute\<close>, whose values have the type \<^verbatim>\<open>interface{}\<close>.\<close>

datatype computed =
    Diagnostics "NetworkDiagnostic list"
  | NetworkConfig ContainerNetworkInfo

type_synonym 'c client_cache = "('c, Summary, Inspect, container_json, computed) ResponseCache"

record 'c EnhancedClient =
  ec_cache :: "'c client_cache"
  ec_metrics :: ClientMetrics
  ec_retryPolicy :: DockerRetryPolicy
  ec_timeout :: Duration
  ec_maxConnections :: "32 word"
  connSemaphore :: nat
  semaphore_cap :: nat
  ec_closed :: bool
  closeCh_closed :: bool
  ctx_cancelled :: bool

record EnhancedClientConfig =
  RateLimit :: f64
  RateBurst :: int
  CacheTTL :: Duration
  MaxCacheEntries :: int
  MaxConnections :: int
  cc_Timeout :: Duration
  cc_MaxRetries :: int
  RetryBackoff :: Duration

definition default_client_config :: EnhancedClientConfig where
  "default_client_config =
     \<lparr>RateLimit = flit 5, RateBurst = 10, CacheTTL = 30 * Second, MaxCacheEntries = 100,
      MaxConnections = 10, cc_Timeout = 30 * Second, cc_MaxRetries = 3, RetryBackoff = 100 * Millisecond\<rparr>"

definition client_retry_policy :: "EnhancedClientConfig \<Rightarrow> DockerRetryPolicy" where
  "client_retry_policy config =
     \<lparr>drp_MaxRetries = cc_MaxRetries config, InitialBackoff = RetryBackoff config,
      MaxBackoff = 5 * Second, BackoffFactor = flit 2,
      drp_RetryableErrors =
        [(''connection refused'', True), (''connection reset'', True), (''timeout'', True),
         (''EOF'', True), (''broken pipe'', True), (''service unavailable'', True),
         (''too many requests'', True)]\<rparr>"

text \<open>
  \<open>created\<close> is the error of \<^verbatim>\<open>NewClientWithOpts\<close>, \<open>ping\<close> that of \<^verbatim>\<open>Ping\<close>. A channel of negative
  capacity panics. The loop that fills the semaphore leaves it full.
\<close>

definition NewEnhancedClient ::
    "Time \<Rightarrow> goerror option \<Rightarrow> goerror option \<Rightarrow> EnhancedClientConfig option \<Rightarrow>
     (goerror + 'c EnhancedClient) outcome" where
  "NewEnhancedClient now created ping config =
     (let config = (case config of None \<Rightarrow> default_client_config | Some c \<Rightarrow> c)
      in case created of
           Some err \<Rightarrow> Finishes (Inl (Errorf ''failed to create Docker client: '' err []))
         | None \<Rightarrow>
             case ping of
               Some err \<Rightarrow> Finishes (Inl (Errorf ''cannot connect to Docker daemon: '' err []))
             | None \<Rightarrow>
                 if MaxConnections config < 0 then Crashes
                 else Finishes (Inr
                   \<lparr>ec_cache = NewResponseCache (CacheTTL config) (MaxCacheEntries config),
                    ec_metrics = NewClientMetrics now, ec_retryPolicy = client_retry_policy config,
                    ec_timeout = cc_Timeout config, ec_maxConnections = word_of_int (MaxConnections config),
                    connSemaphore = nat (MaxConnections config), semaphore_cap = nat (MaxConnections config),
                    ec_closed = False, closeCh_closed = False, ctx_cancelled = False\<rparr>))"

text \<open>Closing the channel or the cache twice would panic; the flag prevents it.\<close>

definition EnhancedClient_Close ::
    "goerror option \<Rightarrow> 'c EnhancedClient \<Rightarrow> ('c EnhancedClient \<times> goerror option) outcome" where
  "EnhancedClient_Close sdk_close ec =
     (if ec_closed ec then Finishes (ec, None)
      else if closeCh_closed ec then Crashes
      else case Close (ec_cache ec) of
             None \<Rightarrow> Crashes
           | Some c \<Rightarrow> Finishes (ec\<lparr>ec_closed := True, closeCh_closed := True, ctx_cancelled := True,
                                      ec_cache := c\<rparr>, sdk_close))"

section \<open>One call through the limits\<close>

text \<open>
  The environment of one call of \<^verbatim>\<open>executeWithRateLimit\<close>: the error of its context, if it is done when
  the call waits for a connection; which ready case of the \<^verbatim>\<open>select\<close> is chosen; what the rate limiter
  answers; the clock; and, for the retries, the timers and the clock of the backoff.
\<close>

record exec_env =
  ex_ctx :: "goerror option"
  ex_pick :: nat
  ex_limiter :: "goerror option"
  ex_start :: Time
  ex_end :: Time
  ex_now :: Time
  ex_timer :: "nat \<Rightarrow> Duration \<Rightarrow> goerror option"
  ex_jitter :: "nat \<Rightarrow> Time"
  ex_ord :: "nat \<Rightarrow> string list"
  ex_oor :: "f64 \<Rightarrow> int"

definition docker_calls :: "exec_env \<Rightarrow> (nat \<Rightarrow> goerror + 'a) \<Rightarrow> 'a docker_env" where
  "docker_calls env answer =
     \<lparr>d_op = answer, timer = ex_timer env, d_now = ex_jitter env, d_ord = ex_ord env, d_oor = ex_oor env\<rparr>"

datatype acquired = GotSlot | ContextDone goerror | ClientClosing

definition ready_cases :: "exec_env \<Rightarrow> 'c EnhancedClient \<Rightarrow> acquired list" where
  "ready_cases env ec =
     (if 0 < connSemaphore ec then [GotSlot] else []) @
     (case ex_ctx env of Some err \<Rightarrow> [ContextDone err] | None \<Rightarrow> []) @
     (if closeCh_closed ec then [ClientClosing] else [])"

definition take_slot :: "'c EnhancedClient \<Rightarrow> 'c EnhancedClient" where
  "take_slot ec = ec\<lparr>connSemaphore := connSemaphore ec - 1\<rparr>"

definition return_slot :: "'c EnhancedClient \<Rightarrow> 'c EnhancedClient" where
  "return_slot ec = ec\<lparr>connSemaphore := connSemaphore ec + 1\<rparr>"

definition update_active :: "32 word \<Rightarrow> 'c EnhancedClient \<Rightarrow> 'c EnhancedClient" where
  "update_active delta ec = ec\<lparr>ec_metrics := UpdateActiveConnections delta (ec_metrics ec)\<rparr>"

definition count_limited :: "'c EnhancedClient \<Rightarrow> 'c EnhancedClient" where
  "count_limited ec = ec\<lparr>ec_metrics := RecordRateLimitHit (ec_metrics ec)\<rparr>"

definition error_of :: "goerror + 'a \<Rightarrow> goerror option" where
  "error_of r = (case r of Inl err \<Rightarrow> Some err | Inr _ \<Rightarrow> None)"

definition count_call :: "exec_env \<Rightarrow> string \<Rightarrow> goerror option \<Rightarrow> 'c EnhancedClient \<Rightarrow> 'c EnhancedClient" where
  "count_call env operation err ec =
     ec\<lparr>ec_metrics := RecordAPICall (ex_now env) operation (Sub (ex_end env) (ex_start env)) err (ec_metrics ec)\<rparr>"

text \<open>
  The part under the connection slot. \<open>r\<close> is what the function argument returns; the deferred calls
  run in reverse order: the active counter goes down, then the slot is returned.
\<close>

definition limited_call ::
    "exec_env \<Rightarrow> string \<Rightarrow> goerror + 'a \<Rightarrow> 'c EnhancedClient \<Rightarrow> 'c EnhancedClient \<times> (goerror + 'a)" where
  "limited_call env operation r ec =
     (case ex_limiter env of
        Some err \<Rightarrow> (count_limited ec, Inl (Errorf ''rate limit error: '' err []))
      | None \<Rightarrow> (count_call env operation (error_of r) ec, r))"

definition executeWithRateLimit ::
    "exec_env \<Rightarrow> string \<Rightarrow> goerror + 'a \<Rightarrow> 'c EnhancedClient \<Rightarrow> ('c EnhancedClient \<times> (goerror + 'a)) outcome" where
  "executeWithRateLimit env operation r ec =
     (if ec_closed ec then Finishes (ec, Inl (ErrorString ''client is closed''))
      else let cases = ready_cases env ec
           in if cases = [] then Hangs
              else case cases ! (ex_pick env mod length cases) of
                     ContextDone err \<Rightarrow> Finishes (ec, Inl err)
                   | ClientClosing \<Rightarrow> Finishes (ec, Inl (ErrorString ''client is closing''))
                   | GotSlot \<Rightarrow>
                       (case limited_call env operation r (update_active 1 (take_slot ec)) of
                          (ec, result) \<Rightarrow> Finishes (return_slot (update_active (- 1) ec), result)))"

definition retried :: "exec_env \<Rightarrow> (nat \<Rightarrow> goerror + 'a) \<Rightarrow> 'c EnhancedClient \<Rightarrow> goerror + 'a" where
  "retried env answer ec = snd (ExecuteWithValue (ec_retryPolicy ec) (docker_calls env answer))"

section \<open>Operations of the enhanced client\<close>

text \<open>
  The clock and the iteration orders of an operation that uses the cache: the time of the lookup and
  of the store, the order of the map in an eviction, and the order of the endpoints of the n-th value.
\<close>

record cache_env =
  ca_get :: Time
  ca_set :: Time
  ca_evict :: "string list"
  ca_endpoints :: "nat \<Rightarrow> string list"

definition set_cache :: "'c client_cache \<Rightarrow> 'c EnhancedClient \<Rightarrow> 'c EnhancedClient" where
  "set_cache c ec = ec\<lparr>ec_cache := c\<rparr>"

definition count_hit :: "'c EnhancedClient \<Rightarrow> 'c EnhancedClient" where
  "count_hit ec = ec\<lparr>ec_metrics := RecordCacheHit (ec_metrics ec)\<rparr>"

definition count_miss :: "'c EnhancedClient \<Rightarrow> 'c EnhancedClient" where
  "count_miss ec = ec\<lparr>ec_metrics := RecordCacheMiss (ec_metrics ec)\<rparr>"

definition EnhancedClient_ListContainers ::
    "exec_env \<Rightarrow> cache_env \<Rightarrow> (nat \<Rightarrow> goerror + 'c list) \<Rightarrow> 'c EnhancedClient \<Rightarrow>
     ('c EnhancedClient \<times> (goerror + 'c list)) outcome" where
  "EnhancedClient_ListContainers env ca answer ec =
     (case GetContainerList (ca_get ca) ''containers:all'' (ec_cache ec) of
        (c, Some containers) \<Rightarrow> Finishes (count_hit (set_cache c ec), Inr containers)
      | (c, None) \<Rightarrow>
          let ec = count_miss (set_cache c ec)
          in and_then (executeWithRateLimit env ''container_list'' (retried env answer ec) ec)
               (\<lambda>(ec, r). case r of
                  Inl err \<Rightarrow> Finishes (ec, Inl err)
                | Inr containers \<Rightarrow>
                    Finishes (set_cache (SetContainerList (ca_evict ca) (ca_set ca) ''containers:all''
                                           containers (30 * Second) (ec_cache ec)) ec, Inr containers)))"

definition EnhancedClient_InspectContainer ::
    "exec_env \<Rightarrow> cache_env \<Rightarrow> (nat \<Rightarrow> goerror + container_json) \<Rightarrow> string \<Rightarrow> 'c EnhancedClient \<Rightarrow>
     ('c EnhancedClient \<times> (goerror + container_json)) outcome" where
  "EnhancedClient_InspectContainer env ca answer containerID ec =
     (case GetContainerInspect (ca_get ca) containerID (ec_cache ec) of
        (c, Some container) \<Rightarrow> Finishes (count_hit (set_cache c ec), Inr container)
      | (c, None) \<Rightarrow>
          let ec = count_miss (set_cache c ec)
          in and_then (executeWithRateLimit env ''container_inspect'' (retried env answer ec) ec)
               (\<lambda>(ec, r). case r of
                  Inl err \<Rightarrow> Finishes (ec, Inl err)
                | Inr container \<Rightarrow>
                    Finishes (set_cache (SetContainerInspect (ca_evict ca) (ca_set ca) containerID
                                           container (30 * Second) (ec_cache ec)) ec, Inr container)))"

text \<open>
  \<^verbatim>\<open>GetOrCompute\<close> of the cache around a computation that works on the whole client: its two
  locked phases are those of the cache.
\<close>

definition cached_compute ::
    "cache_env \<Rightarrow> string \<Rightarrow> ('c EnhancedClient \<Rightarrow> ('c EnhancedClient \<times> (goerror + computed)) outcome) \<Rightarrow>
     Duration \<Rightarrow> 'c EnhancedClient \<Rightarrow>
     ('c EnhancedClient \<times> (goerror + ('c, Summary, Inspect, container_json, computed) cache_data)) outcome" where
  "cached_compute ca key compute ttl ec =
     (case compute_lookup (ca_get ca) key (ec_cache ec) of
        (c, Some d) \<Rightarrow> Finishes (set_cache c ec, Inr d)
      | (c, None) \<Rightarrow>
          and_then (compute (set_cache c ec))
            (\<lambda>(ec, r). case r of
               Inl err \<Rightarrow> Finishes (ec, Inl err)
             | Inr v \<Rightarrow>
                 Finishes (set_cache (store_entry (ca_evict ca) (ca_set ca) key (OtherData v) ttl (ec_cache ec)) ec,
                           Inr (OtherData v))))"

text \<open>
  The loop over the networks: the call of the n-th network has its own environment and answers. An
  error becomes an entry of the result.
\<close>

fun inspect_networks ::
    "(nat \<Rightarrow> exec_env) \<Rightarrow> (nat \<Rightarrow> string list) \<Rightarrow> (nat \<Rightarrow> nat \<Rightarrow> goerror + Inspect) \<Rightarrow> nat \<Rightarrow> Summary list \<Rightarrow>
     'c EnhancedClient \<Rightarrow> ('c EnhancedClient \<times> NetworkDiagnostic list) outcome" where
  "inspect_networks envs ords answers n [] ec = Finishes (ec, [])"
| "inspect_networks envs ords answers n (net # nets) ec =
     and_then (executeWithRateLimit (envs n) ''network_inspect'' (retried (envs n) (answers n) ec) ec)
       (\<lambda>(ec, r).
          let diag = (case r of Inl err \<Rightarrow> failed_network net err
                              | Inr netInspect \<Rightarrow> network_diagnostic (ords n) netInspect)
          in and_then (inspect_networks envs ords answers (n + 1) nets ec)
               (\<lambda>(ec, diagnostics). Finishes (ec, diag # diagnostics)))"

definition compute_network_info where
  "compute_network_info env ca answer envs answers ec =
     and_then (executeWithRateLimit env ''network_list'' (retried env answer ec) ec)
       (\<lambda>(ec, r). case r of
          Inl err \<Rightarrow> Finishes (ec, Inl err)
        | Inr networks \<Rightarrow>
            and_then (inspect_networks envs (ca_endpoints ca) answers 0 networks ec)
              (\<lambda>(ec, diagnostics). Finishes (ec, Inr (Diagnostics diagnostics))))"

text \<open>The type assertions on what \<^verbatim>\<open>GetOrCompute\<close> returns panic on a value of another type.\<close>

fun assert_diagnostics where
  "assert_diagnostics (OtherData (Diagnostics ds)) = Some ds" | "assert_diagnostics _ = None"

fun assert_network_config where
  "assert_network_config (OtherData (NetworkConfig info)) = Some info" | "assert_network_config _ = None"

definition EnhancedClient_GetNetworkInfo ::
    "exec_env \<Rightarrow> cache_env \<Rightarrow> (nat \<Rightarrow> goerror + Summary list) \<Rightarrow> (nat \<Rightarrow> exec_env) \<Rightarrow>
     (nat \<Rightarrow> nat \<Rightarrow> goerror + Inspect) \<Rightarrow> 'c EnhancedClient \<Rightarrow>
     ('c EnhancedClient \<times> (goerror + NetworkDiagnostic list)) outcome" where
  "EnhancedClient_GetNetworkInfo env ca answer envs answers ec =
     and_then (cached_compute ca ''network:diagnostics''
                 (compute_network_info env ca answer envs answers) (60 * Second) ec)
       (\<lambda>(ec, r). case r of
          Inl err \<Rightarrow> Finishes (ec, Inl err)
        | Inr d \<Rightarrow> and_then (nil_panics (assert_diagnostics d)) (\<lambda>ds. Finishes (ec, Inr ds)))"

definition compute_network_config where
  "compute_network_config env ca answer ec =
     and_then (executeWithRateLimit env ''container_inspect'' (retried env answer ec) ec)
       (\<lambda>(ec, r). case r of
          Inl err \<Rightarrow> Finishes (ec, Inl (Errorf ''failed to inspect container: '' err []))
        | Inr container \<Rightarrow>
            and_then (container_network_info (ca_endpoints ca 0) container)
              (\<lambda>info. Finishes (ec, Inr (NetworkConfig info))))"

definition EnhancedClient_GetContainerNetworkConfig ::
    "exec_env \<Rightarrow> cache_env \<Rightarrow> (nat \<Rightarrow> goerror + container_json) \<Rightarrow> string \<Rightarrow> 'c EnhancedClient \<Rightarrow>
     ('c EnhancedClient \<times> (goerror + ContainerNetworkInfo)) outcome" where
  "EnhancedClient_GetContainerNetworkConfig env ca answer containerID ec =
     and_then (cached_compute ca (''container_network:'' @ containerID)
                 (compute_network_config env ca answer) (30 * Second) ec)
       (\<lambda>(ec, r). case r of
          Inl err \<Rightarrow> Finishes (ec, Inl err)
        | Inr d \<Rightarrow> and_then (nil_panics (assert_network_config d)) (\<lambda>info. Finishes (ec, Inr info)))"

text \<open>
  A command in a container: creating the session and attaching to it may fail; of the output, the
  first read into a buffer of 4096 bytes is kept, and its error is ignored. \<open>attach\<close> gives the bytes
  of that read.
\<close>

definition exec_session :: "goerror + string \<Rightarrow> goerror + string \<Rightarrow> goerror + string" where
  "exec_session create attach =
     (case create of
        Inl err \<Rightarrow> Inl (Errorf ''failed to create exec: '' err [])
      | Inr _ \<Rightarrow>
          (case attach of
             Inl err \<Rightarrow> Inl (Errorf ''failed to start exec: '' err [])
           | Inr bytes \<Rightarrow> Inr (take 4096 bytes)))"

definition EnhancedClient_ExecInContainer ::
    "exec_env \<Rightarrow> (nat \<Rightarrow> goerror + string) \<Rightarrow> (nat \<Rightarrow> goerror + string) \<Rightarrow> 'c EnhancedClient \<Rightarrow>
     ('c EnhancedClient \<times> string \<times> goerror option) outcome" where
  "EnhancedClient_ExecInContainer env create attach ec =
     and_then (executeWithRateLimit env ''container_exec''
                 (retried env (\<lambda>n. exec_session (create n) (attach n)) ec) ec)
       (\<lambda>(ec, r). case r of
          Inl err \<Rightarrow> Finishes (ec, [], Some err)
        | Inr out \<Rightarrow> Finishes (ec, out, None))"

definition EnhancedClient_Ping ::
    "exec_env \<Rightarrow> (nat \<Rightarrow> goerror option) \<Rightarrow> 'c EnhancedClient \<Rightarrow>
     ('c EnhancedClient \<times> goerror option) outcome" where
  "EnhancedClient_Ping env answer ec =
     (let calls = docker_calls env (\<lambda>n. case answer n of Some err \<Rightarrow> Inl err | None \<Rightarrow> Inr ());
          err = snd (docker_Execute (ec_retryPolicy ec) calls);
          r = (case err of Some err \<Rightarrow> Inl err | None \<Rightarrow> Inr ())
      in and_then (executeWithRateLimit env ''ping'' r ec)
           (\<lambda>(ec, r). Finishes (ec, error_of r)))"

definition EnhancedClient_GetMetrics :: "Time \<Rightarrow> 'c EnhancedClient \<Rightarrow> MetricsSnapshot" where
  "EnhancedClient_GetMetrics now ec = GetSnapshot now (ec_metrics ec) (ec_metrics ec)"

definition EnhancedClient_GetCacheStats :: "'c EnhancedClient \<Rightarrow> CacheStats" where
  "EnhancedClient_GetCacheStats ec = GetStats (ec_cache ec)"

definition EnhancedClient_InvalidateCache :: "'c EnhancedClient \<Rightarrow> 'c EnhancedClient" where
  "EnhancedClient_InvalidateCache ec = set_cache (InvalidateAll (ec_cache ec)) ec"

section \<open>The standard client\<close>

text \<open>
  \<open>cl_docker\<close> tells whether the SDK client is set. The answers of the SDK are arguments; those of a
  client with an enhanced client are given per attempt.
\<close>

record 'c Client =
  cl_docker :: bool
  cl_enhanced :: "'c EnhancedClient option"

record ClientOptions =
  UseEnhanced :: bool
  EnhancedConfig :: "EnhancedClientConfig option"

definition new_standard_client :: "goerror option \<Rightarrow> goerror option \<Rightarrow> (goerror + 'c Client) outcome" where
  "new_standard_client created ping =
     (case created of
        Some err \<Rightarrow> Finishes (Inl (Errorf ''failed to create Docker client: '' err []))
      | None \<Rightarrow>
          (case ping of
             Some err \<Rightarrow> Finishes (Inl (Errorf ''cannot connect to Docker daemon: '' err []))
           | None \<Rightarrow> Finishes (Inr \<lparr>cl_docker = True, cl_enhanced = None\<rparr>)))"

definition NewClientWithOptions ::
    "Time \<Rightarrow> goerror option \<Rightarrow> goerror option \<Rightarrow> ClientOptions option \<Rightarrow> (goerror + 'c Client) outcome" where
  "NewClientWithOptions now created ping opts =
     (if (case opts of Some opt \<Rightarrow> UseEnhanced opt | None \<Rightarrow> False)
      then let config = (case opts of Some opt \<Rightarrow> EnhancedConfig opt | None \<Rightarrow> None);
               config = (case config of None \<Rightarrow> default_client_config | Some c \<Rightarrow> c)
           in and_then (NewEnhancedClient now created ping (Some config))
                (\<lambda>r. case r of
                   Inl err \<Rightarrow> Finishes (Inl err)
                 | Inr ec \<Rightarrow> Finishes (Inr \<lparr>cl_docker = True, cl_enhanced = Some ec\<rparr>))
      else new_standard_client created ping)"

definition NewClient :: "Time \<Rightarrow> goerror option \<Rightarrow> goerror option \<Rightarrow> (goerror + 'c Client) outcome" where
  "NewClient now created ping = NewClientWithOptions now created ping None"

definition AsLegacyClient :: "'c EnhancedClient \<Rightarrow> 'c Client" where
  "AsLegacyClient ec = \<lparr>cl_docker = True, cl_enhanced = None\<rparr>"

text \<open>A method of the client first asks the enhanced client, when there is one.\<close>

definition delegate ::
    "('c EnhancedClient \<Rightarrow> ('c EnhancedClient \<times> 'r) outcome) \<Rightarrow> 'r \<Rightarrow> 'r outcome \<Rightarrow> 'c Client \<Rightarrow>
     ('c Client \<times> 'r) outcome" where
  "delegate enhanced uninitialized standard c =
     (case cl_enhanced c of
        Some ec \<Rightarrow> and_then (enhanced ec) (\<lambda>(ec, r). Finishes (c\<lparr>cl_enhanced := Some ec\<rparr>, r))
      | None \<Rightarrow> if \<not> cl_docker c then Finishes (c, uninitialized)
                else and_then standard (\<lambda>r. Finishes (c, r)))"

abbreviation not_initialized :: goerror where
  "not_initialized \<equiv> ErrorString ''docker client not initialized''"

definition Client_ListContainers where
  "Client_ListContainers env ca answer c =
     delegate (EnhancedClient_ListContainers env ca answer) (Inl not_initialized)
       (Finishes (case answer 0 of
                    Inl err \<Rightarrow> Inl (Errorf ''failed to list containers: '' err [])
                  | Inr containers \<Rightarrow> Inr containers)) c"

fun standard_diagnostics ::
    "(nat \<Rightarrow> string list) \<Rightarrow> (nat \<Rightarrow> goerror + Inspect) \<Rightarrow> nat \<Rightarrow> Summary list \<Rightarrow> NetworkDiagnostic list" where
  "standard_diagnostics ords answers n [] = []"
| "standard_diagnostics ords answers n (net # nets) =
     (case answers n of Inl err \<Rightarrow> failed_network net err
                      | Inr netInspect \<Rightarrow> network_diagnostic (ords n) netInspect)
     # standard_diagnostics ords answers (n + 1) nets"

definition Client_GetNetworkInfo where
  "Client_GetNetworkInfo env ca answer envs answers c =
     delegate (EnhancedClient_GetNetworkInfo env ca answer envs answers) (Inl not_initialized)
       (Finishes (case answer 0 of
                    Inl err \<Rightarrow> Inl (Errorf ''failed to list networks: '' err [])
                  | Inr networks \<Rightarrow> Inr (standard_diagnostics (ca_endpoints ca) (\<lambda>n. answers n 0) 0 networks))) c"

definition Client_GetContainerNetworkConfig where
  "Client_GetContainerNetworkConfig env ca answer containerID c =
     delegate (EnhancedClient_GetContainerNetworkConfig env ca answer containerID) (Inl not_initialized)
       (case answer 0 of
          Inl err \<Rightarrow> Finishes (Inl (Errorf ''failed to inspect container: '' err []))
        | Inr container \<Rightarrow> and_then (container_network_info (ca_endpoints ca 0) container)
                             (\<lambda>info. Finishes (Inr info))) c"

definition Client_ExecInContainer where
  "Client_ExecInContainer env create attach c =
     delegate (EnhancedClient_ExecInContainer env create attach) ([], Some not_initialized)
       (Finishes (case exec_session (create 0) (attach 0) of
                    Inl err \<Rightarrow> ([], Some err)
                  | Inr out \<Rightarrow> (out, None))) c"

definition Client_Ping where
  "Client_Ping env answer c =
     delegate (EnhancedClient_Ping env answer) (Some not_initialized) (Finishes (answer 0)) c"

definition Client_InspectContainer where
  "Client_InspectContainer env ca answer containerID c =
     delegate (EnhancedClient_InspectContainer env ca answer containerID) (Inl not_initialized)
       (Finishes (answer 0)) c"

definition Client_Close :: "goerror option \<Rightarrow> 'c Client \<Rightarrow> ('c Client \<times> goerror option) outcome" where
  "Client_Close sdk_close c =
     delegate (EnhancedClient_Close sdk_close) None (Finishes sdk_close) c"

definition Client_GetMetrics :: "Time \<Rightarrow> 'c Client \<Rightarrow> MetricsSnapshot option" where
  "Client_GetMetrics now c = map_option (EnhancedClient_GetMetrics now) (cl_enhanced c)"

definition Client_GetCacheStats :: "'c Client \<Rightarrow> CacheStats option" where
  "Client_GetCacheStats c = map_option EnhancedClient_GetCacheStats (cl_enhanced c)"

definition Client_InvalidateCache :: "'c Client \<Rightarrow> 'c Client" where
  "Client_InvalidateCache c = c\<lparr>cl_enhanced := map_option EnhancedClient_InvalidateCache (cl_enhanced c)\<rparr>"

definition IsEnhanced :: "'c Client \<Rightarrow> bool" where
  "IsEnhanced c \<longleftrightarrow> cl_enhanced c \<noteq> None"

section \<open>Frames\<close>

definition same_shell :: "'c EnhancedClient \<Rightarrow> 'c EnhancedClient \<Rightarrow> bool" where
  "same_shell ec ec' \<longleftrightarrow> ec_retryPolicy ec' = ec_retryPolicy ec \<and> ec_timeout ec' = ec_timeout ec \<and>
     ec_maxConnections ec' = ec_maxConnections ec \<and> connSemaphore ec' = connSemaphore ec \<and>
     semaphore_cap ec' = semaphore_cap ec \<and> ec_closed ec' = ec_closed ec \<and>
     closeCh_closed ec' = closeCh_closed ec \<and> ctx_cancelled ec' = ctx_cancelled ec \<and>
     RetryCount (ec_metrics ec') = RetryCount (ec_metrics ec)"

lemma same_shell_refl [simp]: "same_shell ec ec"
  by (simp add: same_shell_def)

lemma same_shell_trans [trans]: "same_shell a b \<Longrightarrow> same_shell b c \<Longrightarrow> same_shell a c"
  by (simp add: same_shell_def)

lemma count_operation_frame [simp]:
  "RetryCount (count_operation operation m) = RetryCount m"
  "ActiveConnections (count_operation operation m) = ActiveConnections m"
  "PeakConnections (count_operation operation m) = PeakConnections m"
  by (simp_all add: count_operation_def)

lemma recordDuration_frame [simp]:
  "RetryCount (recordDuration operation dur m) = RetryCount m"
  "ActiveConnections (recordDuration operation dur m) = ActiveConnections m"
  "PeakConnections (recordDuration operation dur m) = PeakConnections m"
  by (simp_all add: recordDuration_def split: option.split)

lemma recordError_frame [simp]:
  "RetryCount (recordError now operation err m) = RetryCount m"
  "ActiveConnections (recordError now operation err m) = ActiveConnections m"
  "PeakConnections (recordError now operation err m) = PeakConnections m"
  by (simp_all add: recordError_def push_error_def Let_def)

lemma RecordAPICall_frame [simp]:
  "RetryCount (RecordAPICall now operation dur err m) = RetryCount m"
  "ActiveConnections (RecordAPICall now operation dur err m) = ActiveConnections m"
  "PeakConnections (RecordAPICall now operation dur err m) = PeakConnections m"
  by (cases err; simp add: RecordAPICall_def)+

lemma counters_frame [simp]:
  "RetryCount (UpdateActiveConnections d m) = RetryCount m"
  "RetryCount (RecordRateLimitHit m) = RetryCount m"
  "RetryCount (RecordCacheHit m) = RetryCount m" "RetryCount (RecordCacheMiss m) = RetryCount m"
  "ActiveConnections (RecordRateLimitHit m) = ActiveConnections m"
  "PeakConnections (RecordRateLimitHit m) = PeakConnections m"
  "ActiveConnections (RecordCacheHit m) = ActiveConnections m" "PeakConnections (RecordCacheHit m) = PeakConnections m"
  "ActiveConnections (RecordCacheMiss m) = ActiveConnections m" "PeakConnections (RecordCacheMiss m) = PeakConnections m"
  by (simp_all add: update_active_defs RecordRateLimitHit_def RecordCacheHit_def RecordCacheMiss_def)

lemma set_cache_frame [simp]:
  "ec_cache (set_cache c ec) = c" "ec_metrics (set_cache c ec) = ec_metrics ec"
  "same_shell ec (set_cache c ec)"
  by (simp_all add: set_cache_def same_shell_def)

lemma count_frame [simp]:
  "ec_cache (count_hit ec) = ec_cache ec" "ec_cache (count_miss ec) = ec_cache ec"
  "same_shell ec (count_hit ec)" "same_shell ec (count_miss ec)"
  by (simp_all add: count_hit_def count_miss_def same_shell_def)

lemma and_then_Finishes_iff: "and_then x f = Finishes z \<longleftrightarrow> (\<exists>y. x = Finishes y \<and> f y = Finishes z)"
  by (cases x) simp_all

lemma case_sum_Inr_iff:
  "(case r of Inl err \<Rightarrow> Finishes (s, Inl err) | Inr v \<Rightarrow> f v) = Finishes (t, Inr w) \<longleftrightarrow>
   (\<exists>v. r = Inr v \<and> f v = Finishes (t, Inr w))"
  by (cases r) auto

lemma limited_call_frame:
  "limited_call env operation r ec = (ec', r') \<Longrightarrow> ec_cache ec' = ec_cache ec \<and> same_shell ec ec'"
  by (auto simp: limited_call_def count_limited_def count_call_def same_shell_def split: option.splits)

lemma execute_frame:
  assumes "executeWithRateLimit env operation r ec = Finishes (ec', r')"
  shows "ec_cache ec' = ec_cache ec \<and> same_shell ec ec'"
proof (cases "ec_closed ec")
  case False
  note def = executeWithRateLimit_def Let_def
  show ?thesis
  proof (cases "ready_cases env ec ! (ex_pick env mod length (ready_cases env ec))")
    case GotSlot
    have ne: "ready_cases env ec \<noteq> []" using assms False by (auto simp: def)
    then have "GotSlot \<in> set (ready_cases env ec)" using GotSlot by (metis length_greater_0_conv mod_less_divisor nth_mem)
    then have slot: "0 < connSemaphore ec" by (auto simp: ready_cases_def split: if_splits option.splits)
    obtain ec1 where lc: "limited_call env operation r (update_active 1 (take_slot ec)) = (ec1, r')"
      and ec': "ec' = return_slot (update_active (- 1) ec1)"
      using assms False GotSlot ne by (auto simp: def split: prod.splits)
    from limited_call_frame [OF lc] slot show ?thesis
      by (simp add: ec' same_shell_def return_slot_def update_active_def take_slot_def)
  qed (use assms False in \<open>auto simp: def split: if_splits\<close>)
qed (use assms in \<open>simp add: executeWithRateLimit_def\<close>)

lemma execute_finishes:
  assumes "0 < connSemaphore ec \<or> ec_closed ec"
  obtains ec' r' where "executeWithRateLimit env operation r ec = Finishes (ec', r')"
proof -
  have "ready_cases env ec \<noteq> []" if "\<not> ec_closed ec" using that assms by (simp add: ready_cases_def)
  then have "\<exists>ec' r'. executeWithRateLimit env operation r ec = Finishes (ec', r')"
    by (cases "ready_cases env ec ! (ex_pick env mod length (ready_cases env ec))";
        cases "limited_call env operation r (update_active 1 (take_slot ec))")
      (simp_all add: executeWithRateLimit_def Let_def)
  with that show ?thesis by blast
qed

section \<open>The types in the cache\<close>

fun typed_computed :: "string \<Rightarrow> computed \<Rightarrow> bool" where
  "typed_computed key (Diagnostics ds) \<longleftrightarrow> key = ''network:diagnostics''"
| "typed_computed key (NetworkConfig info) \<longleftrightarrow> prefix ''container_network:'' key"

fun typed_under :: "string \<Rightarrow> ('c, 's, 'n, 'j, computed) cache_data \<Rightarrow> bool" where
  "typed_under key (OtherData v) \<longleftrightarrow> typed_computed key v"
| "typed_under key (Containers cs) \<longleftrightarrow> key = ''containers:all''"
| "typed_under key (Networks ns) \<longleftrightarrow> False"
| "typed_under key (NetworkInspect n) \<longleftrightarrow> False"
| "typed_under key (ContainerJSON j) \<longleftrightarrow> prefix ''container_inspect:'' key"

definition cache_typed :: "('c, 's, 'n, 'j, computed) ResponseCache \<Rightarrow> bool" where
  "cache_typed c \<longleftrightarrow> list_all (\<lambda>(k, e). typed_under k (Data e)) (entries c)"

lemma cache_typed_subset: "cache_typed c \<Longrightarrow> set (entries c') \<subseteq> set (entries c) \<Longrightarrow> cache_typed c'"
  by (auto simp: cache_typed_def list_all_iff)

lemma typed_get_typed [simp]: "cache_typed (fst (typed_get f now k c)) = cache_typed c"
  by (simp add: cache_typed_def typed_get_keeps)

lemma compute_lookup_entries: "entries (fst (compute_lookup now k c)) = entries c"
  by (simp add: compute_lookup_def split: option.split)

lemma store_entry_typed:
  assumes "cache_typed c" "typed_under key d"
  shows "cache_typed (store_entry ord now key d ttl c)"
proof -
  have "set (AList.update k e m) \<subseteq> insert (k, e) (set m)" for k e and m :: "(string \<times> 'z) list"
    by (induction m) auto
  moreover have "set (entries (evictOldest ord c)) \<subseteq> set (entries c)"
    by (auto simp: evictOldest_def Let_def AList.delete_eq)
  ultimately show ?thesis
    using assms by (fastforce simp: store_entry_def Let_def cache_typed_def list_all_iff)
qed

lemma compute_lookup_typed:
  assumes "cache_typed c" "compute_lookup now key c = (c', Some d)"
  shows "typed_under key d"
  using assms
  by (auto simp: compute_lookup_def cache_typed_def list_all_iff split: option.splits if_splits dest!: map_of_SomeD)

section \<open>Sequences of operations\<close>

text \<open>
  The operations that a client performs one after the other, with whatever environment, and the
  periodic cleanup of the cache between them. An operation that crashes or hangs has no successor.
\<close>

inductive client_op :: "'c EnhancedClient \<Rightarrow> 'c EnhancedClient \<Rightarrow> bool" where
  op_list: "EnhancedClient_ListContainers env ca answer ec = Finishes (ec', r) \<Longrightarrow> client_op ec ec'"
| op_networks: "EnhancedClient_GetNetworkInfo env ca answer envs answers ec = Finishes (ec', r') \<Longrightarrow> client_op ec ec'"
| op_config: "EnhancedClient_GetContainerNetworkConfig env ca answer' cid ec = Finishes (ec', r'') \<Longrightarrow> client_op ec ec'"
| op_inspect: "EnhancedClient_InspectContainer env ca answer' cid ec = Finishes (ec', q) \<Longrightarrow> client_op ec ec'"
| op_exec: "EnhancedClient_ExecInContainer env create attach ec = Finishes (ec', q') \<Longrightarrow> client_op ec ec'"
| op_ping: "EnhancedClient_Ping env pinged ec = Finishes (ec', e) \<Longrightarrow> client_op ec ec'"
| op_invalidate: "client_op ec (EnhancedClient_InvalidateCache ec)"
| op_cleanup: "client_op ec (set_cache (cleanupExpired ord now (ec_cache ec)) ec)"
| op_close: "EnhancedClient_Close e ec = Finishes (ec', e') \<Longrightarrow> client_op ec ec'"

definition client_ok :: "int \<Rightarrow> 'c EnhancedClient \<Rightarrow> bool" where
  "client_ok n ec \<longleftrightarrow> cache_typed (ec_cache ec) \<and> connSemaphore ec = nat n \<and> semaphore_cap ec = nat n \<and>
     closeCh_closed ec = ec_closed ec \<and> stopCleanup_closed (ec_cache ec) = ec_closed ec \<and>
     RetryCount (ec_metrics ec) = 0"

lemma client_ok_shell:
  "client_ok n ec \<Longrightarrow> same_shell ec ec' \<Longrightarrow> cache_typed (ec_cache ec') \<Longrightarrow>
   stopCleanup_closed (ec_cache ec') = stopCleanup_closed (ec_cache ec) \<Longrightarrow> client_ok n ec'"
  by (simp add: client_ok_def same_shell_def)

lemma stopCleanup_frame [simp]:
  "stopCleanup_closed (store_entry ord now k d ttl c) = stopCleanup_closed c"
  "stopCleanup_closed (fst (typed_get f now k c)) = stopCleanup_closed c"
  "stopCleanup_closed (fst (compute_lookup now k c)) = stopCleanup_closed c"
  "stopCleanup_closed (cleanupExpired ord now c) = stopCleanup_closed c"
  "stopCleanup_closed (InvalidateAll c) = stopCleanup_closed c"
  by (simp_all add: store_entry_def evictOldest_def typed_get_def compute_lookup_def cleanupExpired_def
      InvalidateAll_def Let_def split: option.split)

text \<open>What every operation does to a client that is well formed.\<close>

definition keeps_ok :: "bool \<Rightarrow> int \<Rightarrow> 'c EnhancedClient \<Rightarrow> ('c EnhancedClient \<times> 'r) outcome \<Rightarrow> bool" where
  "keeps_ok t n ec x \<longleftrightarrow> (\<forall>ec' r. x = Finishes (ec', r) \<longrightarrow> client_ok n ec' \<and> ec_closed ec' = ec_closed ec) \<and>
     x \<noteq> Hangs \<and> (t \<longrightarrow> (\<exists>ec' r. x = Finishes (ec', r)))"

lemma keeps_okD:
  "keeps_ok t n ec x \<Longrightarrow> x = Finishes (ec', r) \<Longrightarrow> client_ok n ec'"
  "keeps_ok True n ec x \<Longrightarrow> \<exists>ec' r. x = Finishes (ec', r)"
  "keeps_ok t n ec x \<Longrightarrow> x \<noteq> Hangs"
  by (simp_all add: keeps_ok_def)

lemma keeps_okI [intro]:
  "x = Finishes (ec', r) \<Longrightarrow> client_ok n ec' \<Longrightarrow> ec_closed ec' = ec_closed ec \<Longrightarrow> keeps_ok t n ec x"
  by (auto simp: keeps_ok_def)

lemma keeps_ok_Finishes [simp]:
  "keeps_ok t n ec (Finishes (ec', r)) \<longleftrightarrow> client_ok n ec' \<and> ec_closed ec' = ec_closed ec"
  by (simp add: keeps_ok_def)

lemma keeps_ok_bind:
  assumes x: "keeps_ok t n ec x"
    and f: "\<And>ec' r. x = Finishes (ec', r) \<Longrightarrow> client_ok n ec' \<Longrightarrow> ec_closed ec' = ec_closed ec \<Longrightarrow> keeps_ok t n ec' (f (ec', r))"
  shows "keeps_ok t n ec (and_then x f)"
proof (cases x)
  case (Finishes z)
  obtain ec' r where z: "z = (ec', r)" by (cases z)
  have "client_ok n ec'" "ec_closed ec' = ec_closed ec" using x Finishes z by simp_all
  with f [of ec' r] Finishes z show ?thesis by (simp add: keeps_ok_def)
qed (use x in \<open>simp_all add: keeps_ok_def\<close>)

lemma execute_keeps_ok:
  assumes "client_ok n ec" "0 < n"
  shows "keeps_ok t n ec (executeWithRateLimit env operation r ec)"
proof -
  have "0 < connSemaphore ec \<or> ec_closed ec" using assms by (simp add: client_ok_def)
  then obtain ec' r' where e: "executeWithRateLimit env operation r ec = Finishes (ec', r')"
    by (rule execute_finishes)
  note f = execute_frame [OF e]
  then have "client_ok n ec'" by (intro client_ok_shell [OF assms(1)]) (use assms(1) in \<open>auto simp: client_ok_def\<close>)
  with e f show ?thesis by (auto simp: same_shell_def)
qed

lemma set_cache_ok:
  "client_ok n ec \<Longrightarrow> cache_typed c \<Longrightarrow> stopCleanup_closed c = stopCleanup_closed (ec_cache ec) \<Longrightarrow>
   client_ok n (set_cache c ec) \<and> ec_closed (set_cache c ec) = ec_closed ec"
  by (simp add: client_ok_def set_cache_def)

lemma count_ok:
  "client_ok n (count_hit ec) = client_ok n ec" "client_ok n (count_miss ec) = client_ok n ec"
  "ec_closed (count_hit ec) = ec_closed ec" "ec_closed (count_miss ec) = ec_closed ec"
  by (simp_all add: client_ok_def count_hit_def count_miss_def)

lemma client_okD:
  "client_ok n ec \<Longrightarrow> cache_typed (ec_cache ec)"
  by (simp add: client_ok_def)

lemma store_ok:
  assumes "client_ok n ec" "typed_under key d"
  shows "client_ok n (set_cache (store_entry ord now key d ttl (ec_cache ec)) ec) \<and>
         ec_closed (set_cache (store_entry ord now key d ttl (ec_cache ec)) ec) = ec_closed ec"
  using assms by (intro set_cache_ok) (auto intro: store_entry_typed client_okD)

lemma typed_get_ok_client:
  assumes "client_ok n ec" "typed_get f now key (ec_cache ec) = (c, v)"
  shows "client_ok n (set_cache c ec) \<and> ec_closed (set_cache c ec) = ec_closed ec"
  using assms typed_get_typed [of f now key "ec_cache ec"] stopCleanup_frame(2) [of f now key "ec_cache ec"]
  by (intro set_cache_ok) (auto dest: client_okD)

lemma compute_lookup_ok_client:
  assumes "client_ok n ec" "compute_lookup now key (ec_cache ec) = (c, v)"
  shows "client_ok n (set_cache c ec) \<and> ec_closed (set_cache c ec) = ec_closed ec"
  using assms compute_lookup_entries [of now key "ec_cache ec"] stopCleanup_frame(3) [of now key "ec_cache ec"]
  by (intro set_cache_ok) (auto dest: client_okD intro: cache_typed_subset [of "ec_cache ec"])

lemma ListContainers_ok:
  assumes "client_ok n ec" "0 < n"
  shows "keeps_ok t n ec (EnhancedClient_ListContainers env ca answer ec)"
proof (cases "GetContainerList (ca_get ca) ''containers:all'' (ec_cache ec)")
  case (Pair c v)
  then have c: "client_ok n (set_cache c ec)" "ec_closed (set_cache c ec) = ec_closed ec"
    using typed_get_ok_client [OF assms(1) Pair [unfolded GetContainerList_def]] by simp_all
  show ?thesis
  proof (cases v)
    case None
    let ?ec = "count_miss (set_cache c ec)"
    have "keeps_ok t n ?ec (EnhancedClient_ListContainers env ca answer ec)"
      unfolding EnhancedClient_ListContainers_def Pair None Let_def prod.case option.case
      using c(1) assms(2)
      by (intro keeps_ok_bind execute_keeps_ok)
        (auto simp: count_ok SetContainerList_def store_ok split: sum.split)
    then show ?thesis using c by (simp add: keeps_ok_def count_ok)
  qed (use Pair c in \<open>simp add: EnhancedClient_ListContainers_def count_ok\<close>)
qed

lemma InspectContainer_ok:
  assumes "client_ok n ec" "0 < n"
  shows "keeps_ok t n ec (EnhancedClient_InspectContainer env ca answer cid ec)"
proof (cases "GetContainerInspect (ca_get ca) cid (ec_cache ec)")
  case (Pair c v)
  then have c: "client_ok n (set_cache c ec)" "ec_closed (set_cache c ec) = ec_closed ec"
    using typed_get_ok_client [OF assms(1) Pair [unfolded GetContainerInspect_def]] by simp_all
  show ?thesis
  proof (cases v)
    case None
    let ?ec = "count_miss (set_cache c ec)"
    have "keeps_ok t n ?ec (EnhancedClient_InspectContainer env ca answer cid ec)"
      unfolding EnhancedClient_InspectContainer_def Pair None Let_def prod.case option.case
      using c(1) assms(2)
      by (intro keeps_ok_bind execute_keeps_ok)
        (auto simp: count_ok SetContainerInspect_def store_ok split: sum.split)
    then show ?thesis using c by (simp add: keeps_ok_def count_ok)
  qed (use Pair c in \<open>simp add: EnhancedClient_InspectContainer_def count_ok\<close>)
qed

text \<open>A cached computation whose value has the type of its key, and a type assertion for that type.\<close>

definition yields_typed :: "string \<Rightarrow> ('s \<times> (goerror + computed)) outcome \<Rightarrow> bool" where
  "yields_typed key x \<longleftrightarrow> (\<forall>s v. x = Finishes (s, Inr v) \<longrightarrow> typed_computed key v)"

lemma and_then_assoc: "and_then (and_then x f) g = and_then x (\<lambda>y. and_then (f y) g)"
  by (cases x) simp_all

lemma cached_compute_ok:
  assumes "client_ok n ec" and keeps: "\<And>ec'. client_ok n ec' \<Longrightarrow> keeps_ok t n ec' (compute ec')"
    and typed: "\<And>ec'. yields_typed key (compute ec')"
    and asserts: "\<And>d. typed_under key d \<Longrightarrow> assertion d \<noteq> None"
  shows "keeps_ok t n ec (and_then (cached_compute ca key compute ttl ec)
           (\<lambda>(ec, r). case r of
              Inl err \<Rightarrow> Finishes (ec, Inl err)
            | Inr d \<Rightarrow> and_then (nil_panics (assertion d)) (\<lambda>x. Finishes (ec, Inr x))))"
    (is "keeps_ok t n ec (and_then _ ?use)")
proof (cases "compute_lookup (ca_get ca) key (ec_cache ec)")
  case (Pair c v)
  note c = compute_lookup_ok_client [OF assms(1) Pair]
  have got: "keeps_ok t n e (?use (e, Inr d))" if "client_ok n e" "typed_under key d" for e d
    using that(1) asserts [OF that(2)] by auto
  show ?thesis
  proof (cases v)
    case (Some d)
    then have "typed_under key d" using compute_lookup_typed [of "ec_cache ec"] assms(1) Pair client_okD by blast
    with got [of "set_cache c ec" d] c show ?thesis by (simp add: cached_compute_def Pair Some keeps_ok_def)
  next
    case None
    have "keeps_ok t n (set_cache c ec) (and_then (compute (set_cache c ec)) (\<lambda>(e, r).
        and_then (case r of Inl err \<Rightarrow> Finishes (e, Inl err)
          | Inr w \<Rightarrow> Finishes (set_cache (store_entry (ca_evict ca) (ca_set ca) key (OtherData w) ttl (ec_cache e)) e,
                       Inr (OtherData w))) ?use))"
    proof (rule keeps_ok_bind)
      fix e r
      assume e: "compute (set_cache c ec) = Finishes (e, r)" "client_ok n e"
      show "keeps_ok t n e (case (e, r) of (e, r) \<Rightarrow>
        and_then (case r of Inl err \<Rightarrow> Finishes (e, Inl err)
          | Inr w \<Rightarrow> Finishes (set_cache (store_entry (ca_evict ca) (ca_set ca) key (OtherData w) ttl (ec_cache e)) e,
                       Inr (OtherData w))) ?use)"
      proof (cases r)
        case (Inr w)
        then have "typed_computed key w"
          using typed [of "set_cache c ec"] e(1) by (simp add: yields_typed_def)
        then have t: "typed_under key (OtherData w)" by simp
        with got [OF store_ok [OF e(2) t, THEN conjunct1] t] store_ok [OF e(2) t] Inr show ?thesis
          by (simp add: keeps_ok_def)
      qed (use e(2) in simp)
    qed (use c keeps in simp)
    then show ?thesis
      using c by (simp add: cached_compute_def Pair None and_then_assoc keeps_ok_def split_def)
  qed
qed

lemma typed_under_diagnostics: "typed_under ''network:diagnostics'' d \<Longrightarrow> assert_diagnostics d \<noteq> None"
  by (cases d rule: assert_diagnostics.cases) auto

lemma typed_under_config: "typed_under (''container_network:'' @ cid) d \<Longrightarrow> assert_network_config d \<noteq> None"
  by (cases d rule: assert_network_config.cases) auto

lemma inspect_networks_ok:
  "client_ok n ec \<Longrightarrow> 0 < n \<Longrightarrow> keeps_ok t n ec (inspect_networks envs ords answers i nets ec)"
proof (induction nets arbitrary: i ec)
  case (Cons net nets)
  show ?case
    unfolding inspect_networks.simps Let_def
    by (intro keeps_ok_bind execute_keeps_ok Cons.prems) (auto intro!: keeps_ok_bind Cons.IH Cons.prems(2))
qed simp

lemma GetNetworkInfo_ok:
  assumes "client_ok n ec" "0 < n"
  shows "keeps_ok t n ec (EnhancedClient_GetNetworkInfo env ca answer envs answers ec)"
  unfolding EnhancedClient_GetNetworkInfo_def
proof (rule cached_compute_ok)
  fix ec' assume ok: "client_ok n ec'"
  show "keeps_ok t n ec' (compute_network_info env ca answer envs answers ec')"
    unfolding compute_network_info_def
    by (intro keeps_ok_bind execute_keeps_ok ok assms(2))
      (auto intro!: keeps_ok_bind inspect_networks_ok assms(2) split: sum.split)
next
  fix ec'
  show "yields_typed ''network:diagnostics'' (compute_network_info env ca answer envs answers ec')"
    by (auto simp: yields_typed_def compute_network_info_def and_then_Finishes_iff split: sum.split_asm)
qed (use assms typed_under_diagnostics in auto)

text \<open>A container whose configuration, host configuration and network settings are there.\<close>

definition complete :: "container_json \<Rightarrow> bool" where
  "complete c \<longleftrightarrow> cj_Config c \<noteq> None \<and> cj_HostConfig c \<noteq> None \<and>
     (case cj_Networks c of None \<Rightarrow> False | Some ns \<Rightarrow> gomap_ok ns \<and> list_all (\<lambda>(k, s). s \<noteq> None) ns)"

lemma fold_add_endpoint:
  "list_all (\<lambda>(k, s). s \<noteq> None) ps \<Longrightarrow> \<exists>m'. fold add_endpoint ps (Finishes m) = Finishes m'"
  by (induction ps arbitrary: m) auto

lemma add_endpoints_no_hang: "and_then (fold add_endpoint ps (Finishes m)) (\<lambda>e. Finishes (f e)) \<noteq> Hangs"
proof -
  have "fold add_endpoint ps x \<noteq> Hangs" if "x \<noteq> Hangs" for x
    using that
  proof (induction ps arbitrary: x)
    case (Cons p ps)
    obtain k s where p: "p = (k, s)" by (cases p)
    then have "add_endpoint p x \<noteq> Hangs" using Cons.prems by (cases x; cases s) auto
    then show ?case using Cons.IH by simp
  qed simp
  from this [of "Finishes m"] show ?thesis by (cases "fold add_endpoint ps (Finishes m)") simp_all
qed

lemma container_network_info_no_hang: "container_network_info ord c \<noteq> Hangs"
  by (cases "cj_Config c"; cases "cj_HostConfig c"; cases "cj_Networks c")
    (auto simp: container_network_info_def add_endpoints_no_hang)

lemma complete_info:
  assumes "complete c"
  obtains info where "container_network_info ord c = Finishes info"
proof -
  obtain h d host ns where c: "cj_Config c = Some (h, d)" "cj_HostConfig c = Some host" "cj_Networks c = Some ns"
    and ns: "gomap_ok ns" "list_all (\<lambda>(k, s). s \<noteq> None) ns"
    using assms by (auto simp: complete_def split: option.splits)
  then have "list_all (\<lambda>(k, s). s \<noteq> None) (range_over ord ns)" by (simp add: list_all_iff)
  from fold_add_endpoint [OF this, of "[]"] c that show ?thesis
    by (auto simp: container_network_info_def)
qed

lemma retried_answer:
  assumes "retried env answer ec = Inr v"
  shows "\<exists>k. answer k = Inr v"
proof -
  let ?r = "ec_retryPolicy ec"
  obtain k where k: "value_loop ?r (docker_calls env answer) 0 None = (k, Inr v)"
    using assms by (cases "value_loop ?r (docker_calls env answer) 0 None")
      (simp add: retried_def ExecuteWithValue_def)
  show ?thesis
  proof (cases "0 \<le> drp_MaxRetries ?r")
    case True
    then show ?thesis using value_loop_calls [OF _ k] by (auto simp: docker_calls_def)
  next
    case False
    then show ?thesis using k by (subst (asm) value_loop.simps) simp
  qed
qed

lemma execute_value:
  assumes "executeWithRateLimit env operation r ec = Finishes (ec', Inr v)"
  shows "r = Inr v"
  using assms
  by (auto simp: executeWithRateLimit_def limited_call_def Let_def
      split: if_splits acquired.splits prod.splits option.splits)

lemma GetContainerNetworkConfig_ok:
  assumes "client_ok n ec" "0 < n" "\<And>k c. t \<Longrightarrow> answer k = Inr c \<Longrightarrow> complete c"
  shows "keeps_ok t n ec (EnhancedClient_GetContainerNetworkConfig env ca answer cid ec)"
  unfolding EnhancedClient_GetContainerNetworkConfig_def
proof (rule cached_compute_ok)
  fix ec' assume ok: "client_ok n ec'"
  have c: "\<exists>info. container_network_info ord c = Finishes info"
    if "t" "executeWithRateLimit env ''container_inspect'' (retried env answer ec') ec' = Finishes (e, Inr c)" for e c ord
    using execute_value [OF that(2)] retried_answer [of env answer ec' c] assms(3) [OF that(1)] complete_info by blast
  show "keeps_ok t n ec' (compute_network_config env ca answer ec')"
    unfolding compute_network_config_def
  proof (rule keeps_ok_bind [OF execute_keeps_ok [OF ok assms(2)]])
    fix e r
    assume e: "executeWithRateLimit env ''container_inspect'' (retried env answer ec') ec' = Finishes (e, r)" "client_ok n e"
    then show "keeps_ok t n e (case (e, r) of (ec, r) \<Rightarrow>
        (case r of Inl err \<Rightarrow> Finishes (ec, Inl (Errorf ''failed to inspect container: '' err []))
         | Inr container \<Rightarrow> and_then (container_network_info (ca_endpoints ca 0) container)
             (\<lambda>info. Finishes (ec, Inr (NetworkConfig info)))))"
    proof (cases r)
      case (Inr c)
      with c [of e c "ca_endpoints ca 0"] e show ?thesis
        using container_network_info_no_hang [of "ca_endpoints ca 0" c]
        by (cases "container_network_info (ca_endpoints ca 0) c") (auto simp: keeps_ok_def)
    qed (use e in simp)
  qed
next
  fix ec'
  show "yields_typed (''container_network:'' @ cid) (compute_network_config env ca answer ec')"
    by (auto simp: yields_typed_def compute_network_config_def and_then_Finishes_iff split: sum.split_asm)
qed (use assms(1) typed_under_config in auto)

lemma ExecInContainer_ok:
  "client_ok n ec \<Longrightarrow> 0 < n \<Longrightarrow> keeps_ok t n ec (EnhancedClient_ExecInContainer env create attach ec)"
  unfolding EnhancedClient_ExecInContainer_def
  by (rule keeps_ok_bind [OF execute_keeps_ok]) (auto split: sum.split)

lemma Ping_ok:
  "client_ok n ec \<Longrightarrow> 0 < n \<Longrightarrow> keeps_ok t n ec (EnhancedClient_Ping env answer ec)"
  unfolding EnhancedClient_Ping_def Let_def
  by (rule keeps_ok_bind [OF execute_keeps_ok]) auto

lemma Close_finishes:
  assumes "client_ok n ec"
  shows "\<exists>ec' r. EnhancedClient_Close e ec = Finishes (ec', r) \<and> client_ok n ec' \<and> ec_closed ec'"
  using assms by (auto simp: EnhancedClient_Close_def client_ok_def Close_def cache_typed_def)

lemma client_op_ok:
  assumes "client_op ec ec'" "client_ok n ec" "0 < n"
  shows "client_ok n ec'"
  using assms(1)
proof cases
  case op_list
  then show ?thesis using ListContainers_ok [of n ec False] assms(2, 3) keeps_okD(1) by metis
next
  case op_networks
  then show ?thesis using GetNetworkInfo_ok [of n ec False] assms(2, 3) keeps_okD(1) by metis
next
  case op_config
  then show ?thesis using GetContainerNetworkConfig_ok [of n ec False] assms(2, 3) keeps_okD(1) by metis
next
  case op_inspect
  then show ?thesis using InspectContainer_ok [of n ec False] assms(2, 3) keeps_okD(1) by metis
next
  case op_exec
  then show ?thesis using ExecInContainer_ok [of n ec False] assms(2, 3) keeps_okD(1) by metis
next
  case op_ping
  then show ?thesis using Ping_ok [of n ec False] assms(2, 3) keeps_okD(1) by metis
next
  case op_invalidate
  then show ?thesis
    using set_cache_ok [OF assms(2), of "InvalidateAll (ec_cache ec)"]
    by (simp add: EnhancedClient_InvalidateCache_def) (simp add: cache_typed_def InvalidateAll_def)
next
  case (op_cleanup ord now)
  have "cache_typed (cleanupExpired ord now (ec_cache ec))"
    using client_okD [OF assms(2)]
    by (rule cache_typed_subset) (simp add: cleanupExpired_def Let_def fold_delete_subset)
  with op_cleanup show ?thesis using set_cache_ok [OF assms(2)] by simp
next
  case (op_close e r)
  then show ?thesis using Close_finishes [OF assms(2), of e] by auto
qed

lemma client_ops_ok: "client_op\<^sup>*\<^sup>* ec ec' \<Longrightarrow> client_ok n ec \<Longrightarrow> 0 < n \<Longrightarrow> client_ok n ec'"
  by (induction rule: rtranclp_induct) (auto dest: client_op_ok)

lemma NewEnhancedClient_ok:
  assumes "NewEnhancedClient now None None (Some config) = Finishes (Inr ec)"
  shows "client_ok (MaxConnections config) ec \<and> \<not> ec_closed ec"
  using assms
  by (auto simp: NewEnhancedClient_def client_ok_def NewResponseCache_def cache_typed_def NewClientMetrics_def
      split: if_splits)

section \<open>Concurrent calls\<close>

text \<open>
  Where a call of \<^verbatim>\<open>executeWithRateLimit\<close> stands: it has arrived, has seen the client open, holds a
  connection, has added itself to the active connections and carries the value it read back, has
  raised the peak to it, has passed the rate limiter, has recorded its outcome, has taken itself off the
  active connections, has shown that value to the peak too, has left. Recording a call is one step:
  its counters are not those the connections depend on.
\<close>

datatype call_phase = Arrived | Admitted | Connected | Counting "32 word" | Counted | Calling | Recorded
  | Uncounting "32 word" | Uncounted | Left

text \<open>The steps of the calls themselves, one per atomic action.\<close>

inductive call_step :: "'c EnhancedClient \<times> call_phase list \<Rightarrow> 'c EnhancedClient \<times> call_phase list \<Rightarrow> bool" where
  call_closed: "i < length ps \<Longrightarrow> ps ! i = Arrived \<Longrightarrow> ec_closed ec \<Longrightarrow> call_step (ec, ps) (ec, ps[i := Left])"
| call_enter: "i < length ps \<Longrightarrow> ps ! i = Arrived \<Longrightarrow> \<not> ec_closed ec \<Longrightarrow> call_step (ec, ps) (ec, ps[i := Admitted])"
| call_connect: "i < length ps \<Longrightarrow> ps ! i = Admitted \<Longrightarrow> 0 < connSemaphore ec \<Longrightarrow>
    call_step (ec, ps) (take_slot ec, ps[i := Connected])"
| call_closing: "i < length ps \<Longrightarrow> ps ! i = Admitted \<Longrightarrow> closeCh_closed ec \<Longrightarrow> call_step (ec, ps) (ec, ps[i := Left])"
| call_count: "i < length ps \<Longrightarrow> ps ! i = Connected \<Longrightarrow> add_active 1 (ec_metrics ec) = (m, v) \<Longrightarrow>
    call_step (ec, ps) (ec\<lparr>ec_metrics := m\<rparr>, ps[i := Counting v])"
| call_peak: "i < length ps \<Longrightarrow> ps ! i = Counting v \<Longrightarrow>
    call_step (ec, ps) (ec\<lparr>ec_metrics := raise_peak v (ec_metrics ec)\<rparr>, ps[i := Counted])"
| call_limited: "i < length ps \<Longrightarrow> ps ! i = Counted \<Longrightarrow> call_step (ec, ps) (count_limited ec, ps[i := Recorded])"
| call_pass: "i < length ps \<Longrightarrow> ps ! i = Counted \<Longrightarrow> call_step (ec, ps) (ec, ps[i := Calling])"
| call_record: "i < length ps \<Longrightarrow> ps ! i = Calling \<Longrightarrow>
    call_step (ec, ps) (count_call env operation err ec, ps[i := Recorded])"
| call_uncount: "i < length ps \<Longrightarrow> ps ! i = Recorded \<Longrightarrow> add_active (- 1) (ec_metrics ec) = (m, v) \<Longrightarrow>
    call_step (ec, ps) (ec\<lparr>ec_metrics := m\<rparr>, ps[i := Uncounting v])"
| call_unpeak: "i < length ps \<Longrightarrow> ps ! i = Uncounting v \<Longrightarrow>
    call_step (ec, ps) (ec\<lparr>ec_metrics := raise_peak v (ec_metrics ec)\<rparr>, ps[i := Uncounted])"
| call_return: "i < length ps \<Longrightarrow> ps ! i = Uncounted \<Longrightarrow> call_step (ec, ps) (return_slot ec, ps[i := Left])"

text \<open>
  What happens around them: calls arrive, the context of a waiting call ends, other goroutines use
  the cache and its counters, the client is closed.
\<close>

inductive conn_step :: "'c EnhancedClient \<times> call_phase list \<Rightarrow> 'c EnhancedClient \<times> call_phase list \<Rightarrow> bool" where
  conn_call: "call_step s s' \<Longrightarrow> conn_step s s'"
| conn_arrive: "conn_step (ec, ps) (ec, ps @ [Arrived])"
| conn_cancelled: "i < length ps \<Longrightarrow> ps ! i = Admitted \<Longrightarrow> conn_step (ec, ps) (ec, ps[i := Left])"
| conn_cache: "conn_step (ec, ps) (set_cache c ec, ps)"
| conn_hit: "conn_step (ec, ps) (count_hit ec, ps)"
| conn_miss: "conn_step (ec, ps) (count_miss ec, ps)"
| conn_close: "EnhancedClient_Close e ec = Finishes (ec', r) \<Longrightarrow> conn_step (ec, ps) (ec', ps)"

fun pending_value :: "call_phase \<Rightarrow> 32 word option" where
  "pending_value (Counting v) = Some v"
| "pending_value (Uncounting v) = Some v"
| "pending_value _ = None"

fun connected :: "call_phase \<Rightarrow> bool" where
  "connected Arrived = False"
| "connected Admitted = False"
| "connected Left = False"
| "connected _ = True"

fun active :: "call_phase \<Rightarrow> bool" where
  "active (Counting v) = True"
| "active Counted = True"
| "active Calling = True"
| "active Recorded = True"
| "active _ = False"

lemma active_le_connected: "number active ps \<le> number connected ps"
proof (induction ps)
  case (Cons p ps)
  then show ?case by (cases p) (auto simp: number_def)
qed (simp add: number_def)

text \<open>
  The peak is never above the number of connections, and the active calls never outnumber it by more
  than what a call that has just counted itself is about to report.
\<close>

definition peak_ok :: "nat \<Rightarrow> 32 word \<Rightarrow> call_phase list \<Rightarrow> bool" where
  "peak_ok c peak ps \<longleftrightarrow>
     0 \<le> sint peak \<and> sint peak \<le> int c \<and>
     (\<forall>p v. p \<in> set ps \<and> pending_value p = Some v \<longrightarrow> sint v \<le> int c) \<and>
     (int (number active ps) \<le> sint peak \<or> (\<exists>v. Counting v \<in> set ps \<and> int (number active ps) \<le> sint v))"

definition connections_ok :: "'c EnhancedClient \<times> call_phase list \<Rightarrow> bool" where
  "connections_ok s \<longleftrightarrow> (case s of (ec, ps) \<Rightarrow>
     connSemaphore ec + number connected ps = semaphore_cap ec \<and> semaphore_cap ec < 2 ^ 31 \<and>
     ActiveConnections (ec_metrics ec) = of_nat (number active ps) \<and>
     peak_ok (semaphore_cap ec) (PeakConnections (ec_metrics ec)) ps)"

lemma sint_of_nat32: "n < 2 ^ 31 \<Longrightarrow> sint (of_nat n :: 32 word) = int n"
  by (simp add: signed_of_nat signed_take_bit_int_eq_self)

lemma set_update_keep: "x \<in> set ps \<Longrightarrow> i < length ps \<Longrightarrow> ps ! i \<noteq> x \<Longrightarrow> x \<in> set (ps[i := q])"
  by (metis in_set_conv_nth length_list_update nth_list_update_neq)

lemma set_updateD: "p \<in> set (ps[i := q]) \<Longrightarrow> p = q \<or> p \<in> set ps"
  using set_update_subset_insert by fastforce

lemma pending_bound:
  assumes "peak_ok c peak ps" "\<And>v. pending_value q = Some v \<Longrightarrow> sint v \<le> int c"
  shows "\<forall>p v. p \<in> set (ps[i := q]) \<and> pending_value p = Some v \<longrightarrow> sint v \<le> int c"
proof (intro allI impI)
  fix p v
  assume p: "p \<in> set (ps[i := q]) \<and> pending_value p = Some v"
  have b: "\<And>p v. p \<in> set ps \<Longrightarrow> pending_value p = Some v \<Longrightarrow> sint v \<le> int c"
    using assms(1) by (simp add: peak_ok_def)
  have "p = q \<or> p \<in> set ps" by (rule set_updateD [OF p [THEN conjunct1]])
  then show "sint v \<le> int c" using p assms(2) b by (elim disjE) simp_all
qed

lemma peak_ok_keep:
  assumes "peak_ok c peak ps" "i < length ps" "pending_value (ps ! i) = None"
    "\<And>v. pending_value q = Some v \<Longrightarrow> sint v \<le> int c" "number active (ps[i := q]) \<le> number active ps"
  shows "peak_ok c peak (ps[i := q])"
proof -
  have "Counting v \<in> set (ps[i := q])" if "Counting v \<in> set ps" for v
    using that assms(2, 3) by (intro set_update_keep) auto
  moreover have "int (number active (ps[i := q])) \<le> int (number active ps)" using assms(5) by simp
  ultimately have "int (number active (ps[i := q])) \<le> sint peak \<or>
      (\<exists>v. Counting v \<in> set (ps[i := q]) \<and> int (number active (ps[i := q])) \<le> sint v)"
    using assms(1) unfolding peak_ok_def by (metis order_trans)
  then show ?thesis using assms(1) pending_bound [of c peak ps q i] assms(4) unfolding peak_ok_def by blast
qed

lemma peak_ok_move:
  assumes "peak_ok c peak ps" "i < length ps" "pending_value (ps ! i) = None" "pending_value q = None"
    "number active (ps[i := q]) \<le> number active ps"
  shows "peak_ok c peak (ps[i := q])"
  using assms by (intro peak_ok_keep) simp_all

lemma peak_ok_snoc: "peak_ok c peak ps \<Longrightarrow> peak_ok c peak (ps @ [Arrived])"
  by (auto simp: peak_ok_def number_snoc)

lemma peak_ok_count:
  assumes "peak_ok c peak ps" "i < length ps" "sint v = int (number active (ps[i := Counting v]))"
    "number active (ps[i := Counting v]) \<le> c"
  shows "peak_ok c peak (ps[i := Counting v])"
proof -
  have "Counting v \<in> set (ps[i := Counting v])" using assms(2) by (rule set_update_memI)
  moreover have "\<forall>p w. p \<in> set (ps[i := Counting v]) \<and> pending_value p = Some w \<longrightarrow> sint w \<le> int c"
    using assms by (intro pending_bound) simp_all
  ultimately show ?thesis using assms(1, 3) unfolding peak_ok_def by (metis order_refl)
qed

lemma peak_ok_raise:
  assumes "peak_ok c (PeakConnections m) ps" "i < length ps" "pending_value (ps ! i) = Some v" "pending_value q = None"
    "number active (ps[i := q]) = number active ps"
  shows "peak_ok c (PeakConnections (raise_peak v m)) (ps[i := q])"
proof -
  have v: "sint v \<le> int c" using assms(1 - 3) nth_mem [of i ps] unfolding peak_ok_def by blast
  have up: "sint v \<le> sint (PeakConnections (raise_peak v m))"
    "sint (PeakConnections m) \<le> sint (PeakConnections (raise_peak v m))"
    by (simp_all add: raise_peak_def)
  have bound: "sint (PeakConnections (raise_peak v m)) \<le> int c"
    using v assms(1) by (simp add: raise_peak_def peak_ok_def)
  have keep: "Counting w \<in> set (ps[i := q]) \<or> w = v" if "Counting w \<in> set ps" for w
    using set_update_keep [OF that assms(2), of q] assms(3) by (cases "ps ! i = Counting w") auto
  have "int (number active ps) \<le> sint (PeakConnections (raise_peak v m)) \<or>
        (\<exists>w. Counting w \<in> set (ps[i := q]) \<and> int (number active ps) \<le> sint w)"
  proof (cases "int (number active ps) \<le> sint (PeakConnections m)")
    case True
    then show ?thesis using up(2) by linarith
  next
    case False
    then obtain w where w: "Counting w \<in> set ps" "int (number active ps) \<le> sint w"
      using assms(1) unfolding peak_ok_def by blast
    from keep [OF w(1)] show ?thesis using w(2) up(1) by (metis order_trans)
  qed
  moreover have "\<forall>p w. p \<in> set (ps[i := q]) \<and> pending_value p = Some w \<longrightarrow> sint w \<le> int c"
    using assms(1, 4) by (intro pending_bound) simp_all
  moreover have "0 \<le> sint (PeakConnections (raise_peak v m))" using up assms(1) unfolding peak_ok_def by linarith
  ultimately show ?thesis using bound assms(5) by (simp add: peak_ok_def)
qed

lemma call_step_connections:
  assumes "call_step s s'" "connections_ok s"
  shows "connections_ok s' \<and> semaphore_cap (fst s') = semaphore_cap (fst s)"
  using assms
proof cases
  case (call_count i ps ec m v)
  have u: "number active (ps[i := Counting v]) = Suc (number active ps)"
    "number connected (ps[i := Counting v]) = number connected ps"
    using number_update [of i ps active "Counting v"] number_update [of i ps connected "Counting v"] call_count
    by simp_all
  have c: "Suc (number active ps) \<le> semaphore_cap ec"
    using active_le_connected [of "ps[i := Counting v]"] assms(2) call_count(1) u by (simp add: connections_ok_def)
  have mv: "m = (ec_metrics ec)\<lparr>ActiveConnections := v\<rparr>" "v = of_nat (Suc (number active ps))"
    using call_count(5) assms(2) call_count(1) by (auto simp: add_active_def connections_ok_def Let_def)
  have "sint v = int (Suc (number active ps))"
    unfolding mv(2) by (rule sint_of_nat32) (use c assms(2) call_count(1) in \<open>simp add: connections_ok_def\<close>)
  then have "peak_ok (semaphore_cap ec) (PeakConnections (ec_metrics ec)) (ps[i := Counting v])"
    using assms(2) call_count c u by (intro peak_ok_count) (simp_all add: connections_ok_def)
  then show ?thesis using assms(2) call_count u mv by (simp add: connections_ok_def)
next
  case (call_uncount i ps ec m v)
  obtain k where k: "number active ps = Suc k" "number active (ps[i := Uncounting v]) = k"
    "number connected (ps[i := Uncounting v]) = number connected ps"
    using number_update [of i ps active "Uncounting v"] number_update [of i ps connected "Uncounting v"] call_uncount
    by simp
  have c: "Suc k \<le> semaphore_cap ec" using active_le_connected [of ps] k(1) assms(2) call_uncount(1)
    by (simp add: connections_ok_def)
  have mv: "m = (ec_metrics ec)\<lparr>ActiveConnections := v\<rparr>" "v = of_nat k"
    using call_uncount(5) assms(2) call_uncount(1) k(1) by (auto simp: add_active_def connections_ok_def Let_def)
  have "sint v = int k"
    unfolding mv(2) by (rule sint_of_nat32) (use c assms(2) call_uncount(1) in \<open>simp add: connections_ok_def\<close>)
  then have "peak_ok (semaphore_cap ec) (PeakConnections (ec_metrics ec)) (ps[i := Uncounting v])"
    using assms(2) call_uncount c k by (intro peak_ok_keep) (simp_all add: connections_ok_def)
  then show ?thesis using assms(2) call_uncount k mv by (simp add: connections_ok_def)
next
  case (call_peak i ps v ec)
  have n: "number P (ps[i := Counted]) = number P ps" if "P \<in> {active, connected}" for P
    using that call_peak by (intro number_same) auto
  have "peak_ok (semaphore_cap ec) (PeakConnections (raise_peak v (ec_metrics ec))) (ps[i := Counted])"
    using assms(2) call_peak n by (intro peak_ok_raise) (simp_all add: connections_ok_def)
  with assms(2) call_peak n show ?thesis by (simp add: connections_ok_def raise_peak_def)
next
  case (call_unpeak i ps v ec)
  have n: "number P (ps[i := Uncounted]) = number P ps" if "P \<in> {active, connected}" for P
    using that call_unpeak by (intro number_same) auto
  have "peak_ok (semaphore_cap ec) (PeakConnections (raise_peak v (ec_metrics ec))) (ps[i := Uncounted])"
    using assms(2) call_unpeak n by (intro peak_ok_raise) (simp_all add: connections_ok_def)
  with assms(2) call_unpeak n show ?thesis by (simp add: connections_ok_def raise_peak_def)
next
  case (call_connect i ps ec)
  then have "number connected (ps[i := Connected]) = Suc (number connected ps)"
    "number active (ps[i := Connected]) = number active ps"
    by (simp_all add: number_up number_same)
  with assms(2) call_connect show ?thesis by (simp add: connections_ok_def take_slot_def peak_ok_move)
next
  case (call_return i ps ec)
  then have "number connected ps = Suc (number connected (ps[i := Left]))"
    "number active (ps[i := Left]) = number active ps"
    by (simp_all add: number_down number_same)
  with assms(2) call_return show ?thesis by (simp add: connections_ok_def return_slot_def peak_ok_move)
qed (use assms(2) in \<open>simp_all add: connections_ok_def count_limited_def count_call_def number_same peak_ok_move\<close>)

lemma conn_step_connections:
  assumes "conn_step s s'" "connections_ok s"
  shows "connections_ok s' \<and> semaphore_cap (fst s') = semaphore_cap (fst s)"
  using assms
proof cases
  case conn_call
  then show ?thesis using call_step_connections assms(2) by blast
next
  case (conn_close e ec ec' r ps)
  then show ?thesis using assms(2)
    by (auto simp: EnhancedClient_Close_def connections_ok_def split: if_splits option.splits)
qed (use assms(2) in \<open>simp_all add: connections_ok_def number_same number_snoc peak_ok_move peak_ok_snoc
      set_cache_def count_hit_def count_miss_def\<close>)

lemma conn_steps_connections:
  "conn_step\<^sup>*\<^sup>* s s' \<Longrightarrow> connections_ok s \<Longrightarrow> connections_ok s' \<and> semaphore_cap (fst s') = semaphore_cap (fst s)"
  by (induction rule: rtranclp_induct) (auto dest: conn_step_connections)

text \<open>A call that has not left can move, or waits for a connection that another call holds.\<close>

lemma call_progress:
  assumes "connections_ok (ec, ps)" "0 < semaphore_cap ec" "list_ex (\<lambda>p. p \<noteq> Left) ps"
  shows "\<exists>s'. call_step (ec, ps) s'"
proof (rule ccontr)
  assume stuck: "\<nexists>s'. call_step (ec, ps) s'"
  have phases: "ps ! i \<in> {Admitted, Left}" if "i < length ps" for i
    using stuck that
    by (cases "ps ! i"; cases "ec_closed ec")
      (auto intro: call_step.intros call_count [OF _ _ surjective_pairing] call_uncount [OF _ _ surjective_pairing])
  then have "number connected ps = 0" by (force simp: number_pos)
  then have "0 < connSemaphore ec" using assms(1, 2) by (simp add: connections_ok_def)
  moreover obtain i where "i < length ps" "ps ! i \<noteq> Left" using assms(3) by (auto simp: list_ex_length)
  moreover from this phases have "ps ! i = Admitted" by auto
  ultimately show False using stuck call_connect by blast
qed

text \<open>The sequential function is one path of these steps.\<close>

lemma conn_path:
  assumes "conn_step\<^sup>*\<^sup>* (a, ps @ [p]) (b, ps @ [q])" "call_step (b, ps @ [q]) (c, (ps @ [q])[length ps := r])"
  shows "conn_step\<^sup>*\<^sup>* (a, ps @ [p]) (c, ps @ [r])"
  using assms(1) conn_call [OF assms(2)] by (simp add: rtranclp.rtrancl_into_rtrancl)

lemma update_active_steps:
  "update_active delta ec =
     (let e = ec\<lparr>ec_metrics := fst (add_active delta (ec_metrics ec))\<rparr>
      in e\<lparr>ec_metrics := raise_peak (snd (add_active delta (ec_metrics ec))) (ec_metrics e)\<rparr>)"
  by (simp add: update_active_def UpdateActiveConnections_def split_def)

lemmas path_start = conn_path [OF rtranclp.rtrancl_refl]

lemma execute_is_path:
  assumes "executeWithRateLimit env operation r ec = Finishes (ec', r')"
  shows "conn_step\<^sup>*\<^sup>* (ec, ps @ [Arrived]) (ec', ps @ [Left])"
proof (cases "ec_closed ec")
  case True
  then have "ec' = ec" using assms by (simp add: executeWithRateLimit_def)
  moreover have "call_step (ec, ps @ [Arrived]) (ec, (ps @ [Arrived])[length ps := Left])"
    using True by (intro call_closed) simp_all
  ultimately show ?thesis using path_start by blast
next
  case False
  then have enter: "conn_step\<^sup>*\<^sup>* (ec, ps @ [Arrived]) (ec, ps @ [Admitted])"
    by (intro path_start call_enter) simp_all
  let ?cases = "ready_cases env ec"
  have ne: "?cases \<noteq> []" using assms False by (auto simp: executeWithRateLimit_def Let_def)
  define a where "a = ?cases ! (ex_pick env mod length ?cases)"
  have mem: "a \<in> set ?cases" unfolding a_def using ne by (metis length_greater_0_conv mod_less_divisor nth_mem)
  have res: "(case a of ContextDone err \<Rightarrow> Finishes (ec, Inl err)
       | ClientClosing \<Rightarrow> Finishes (ec, Inl (ErrorString ''client is closing''))
       | GotSlot \<Rightarrow> (case limited_call env operation r (update_active 1 (take_slot ec)) of
            (e, result) \<Rightarrow> Finishes (return_slot (update_active (- 1) e), result))) = Finishes (ec', r')"
    using assms False ne by (simp add: executeWithRateLimit_def Let_def a_def)
  show ?thesis
  proof (cases a)
    case GotSlot
    then have slot: "0 < connSemaphore ec" using mem by (auto simp: ready_cases_def split: if_splits option.splits)
    obtain e where e: "limited_call env operation r (update_active 1 (take_slot ec)) = (e, r')"
      "ec' = return_slot (update_active (- 1) e)" using res GotSlot by (auto split: prod.splits)
    have c1: "conn_step\<^sup>*\<^sup>* (ec, ps @ [Arrived]) (take_slot ec, ps @ [Connected])"
      by (rule conn_path [OF enter], rule call_connect) (use slot in simp_all)
    have c: "conn_step\<^sup>*\<^sup>* (ec, ps @ [Arrived]) (update_active 1 (take_slot ec), ps @ [Counted])"
      unfolding update_active_steps Let_def
      by (rule conn_path [OF conn_path [OF c1 call_count] call_peak]) simp_all
    have "conn_step\<^sup>*\<^sup>* (ec, ps @ [Arrived]) (e, ps @ [Recorded])"
    proof (cases "ex_limiter env")
      case None
      have "conn_step\<^sup>*\<^sup>* (ec, ps @ [Arrived]) (update_active 1 (take_slot ec), ps @ [Calling])"
        by (rule conn_path [OF c], rule call_pass) simp_all
      moreover have "e = count_call env operation (error_of r) (update_active 1 (take_slot ec))"
        using e(1) None by (auto simp: limited_call_def)
      ultimately show ?thesis by (simp only:, elim conn_path, intro call_record) simp_all
    next
      case (Some err)
      then have "e = count_limited (update_active 1 (take_slot ec))" using e(1) by (simp add: limited_call_def)
      then show ?thesis by (simp only:, intro conn_path [OF c] call_limited) simp_all
    qed
    then have "conn_step\<^sup>*\<^sup>* (ec, ps @ [Arrived]) (update_active (- 1) e, ps @ [Uncounted])"
      unfolding update_active_steps Let_def
      by (rule conn_path [OF conn_path [OF _ call_uncount] call_unpeak]) simp_all
    then show ?thesis unfolding e(2)
      by (rule conn_path, intro call_return) simp_all
  next
    case (ContextDone err)
    then show ?thesis using res enter conn_cancelled [of "length ps" "ps @ [Admitted]" ec]
      by (simp add: rtranclp.rtrancl_into_rtrancl)
  next
    case ClientClosing
    then show ?thesis using res enter conn_cancelled [of "length ps" "ps @ [Admitted]" ec]
      by (simp add: rtranclp.rtrancl_into_rtrancl)
  qed
qed

section \<open>A calm environment\<close>

text \<open>
  The enhanced client against a daemon whose first answers are successes or errors that are not
  worth a retry, with a limiter that admits and contexts that do not end.
\<close>

definition client_open :: "'c EnhancedClient \<Rightarrow> bool" where
  "client_open ec \<longleftrightarrow> \<not> ec_closed ec \<and> \<not> closeCh_closed ec \<and> 0 < connSemaphore ec \<and>
     0 \<le> drp_MaxRetries (ec_retryPolicy ec)"

definition calm :: "exec_env \<Rightarrow> bool" where
  "calm env \<longleftrightarrow> ex_ctx env = None \<and> ex_limiter env = None"

definition settled :: "'c EnhancedClient \<Rightarrow> (nat \<Rightarrow> goerror + 'a) \<Rightarrow> bool" where
  "settled ec answer \<longleftrightarrow>
     (case answer 0 of Inl err \<Rightarrow> \<not> docker_isRetryable [] (ec_retryPolicy ec) err | Inr _ \<Rightarrow> True)"

lemma settled_value [simp]: "settled ec (\<lambda>_. Inr x)"
  by (simp add: settled_def)

lemma settled_shell: "same_shell ec ec' \<Longrightarrow> settled ec' answer = settled ec answer"
  by (auto simp: settled_def same_shell_def split: sum.split)

lemma client_open_shell: "same_shell ec ec' \<Longrightarrow> client_open ec' = client_open ec"
  by (simp add: client_open_def same_shell_def)

lemma docker_isRetryable_any_order: "docker_isRetryable ord r err = docker_isRetryable ord' r err"
  by (simp add: docker_isRetryable_iff)

lemma value_loop_settled:
  assumes "settled ec answer" "client_open ec"
  shows "value_loop (ec_retryPolicy ec) (docker_calls env answer) 0 None = (1, answer 0)"
  using assms docker_isRetryable_any_order [of "ex_ord env 0" "ec_retryPolicy ec" _ "[]"]
  by (subst value_loop.simps) (auto simp: settled_def client_open_def docker_calls_def split: sum.splits)

lemma retried_settled: "settled ec answer \<Longrightarrow> client_open ec \<Longrightarrow> retried env answer ec = answer 0"
  by (simp add: retried_def ExecuteWithValue_def value_loop_settled)

lemma execute_calm:
  assumes "client_open ec" "calm env"
  obtains ec' where "executeWithRateLimit env operation r ec = Finishes (ec', r)"
    "ec_cache ec' = ec_cache ec" "same_shell ec ec'"
proof -
  have "ready_cases env ec = [GotSlot]"
    using assms by (simp add: ready_cases_def client_open_def calm_def)
  then obtain ec' where e: "executeWithRateLimit env operation r ec = Finishes (ec', r)"
    using assms by (simp add: executeWithRateLimit_def Let_def limited_call_def client_open_def calm_def)
  with that execute_frame [OF e] show ?thesis by blast
qed

lemma inspect_networks_calm:
  assumes "client_open ec" "\<forall>i. calm (envs i)" "\<forall>i. settled ec (answers i)"
  shows "\<exists>ec'. inspect_networks envs ords answers n nets ec =
           Finishes (ec', standard_diagnostics ords (\<lambda>i. answers i 0) n nets)"
  using assms
proof (induction nets arbitrary: n ec)
  case (Cons net nets)
  obtain e where e: "executeWithRateLimit (envs n) ''network_inspect'' (answers n 0) ec = Finishes (e, answers n 0)"
    "same_shell ec e" using Cons.prems(2) execute_calm [OF Cons.prems(1), of "envs n"] by metis
  then obtain e' where "inspect_networks envs ords answers (n + 1) nets e =
      Finishes (e', standard_diagnostics ords (\<lambda>i. answers i 0) (n + 1) nets)"
    using Cons.IH [of e "n + 1"] Cons.prems client_open_shell [of ec e] settled_shell [of ec e] by blast
  with e Cons.prems show ?case by (simp add: retried_settled)
qed simp

text \<open>What a caller learns from a result whose error text does not matter.\<close>

definition success_of :: "('s \<times> (goerror + 'a)) outcome \<Rightarrow> 'a option outcome" where
  "success_of x = and_then x (\<lambda>(_, r). Finishes (case r of Inl _ \<Rightarrow> None | Inr v \<Rightarrow> Some v))"

lemma success_ofE:
  assumes "success_of x = Finishes (Some v)"
  obtains s where "x = Finishes (s, Inr v)"
proof -
  obtain s r where x: "x = Finishes (s, r)" "(case r of Inl _ \<Rightarrow> None | Inr v \<Rightarrow> Some v) = Some v"
    using assms by (auto simp: success_of_def and_then_Finishes_iff)
  then show ?thesis using that by (cases r) simp_all
qed

abbreviation standard :: "'c Client" where
  "standard \<equiv> \<lparr>cl_docker = True, cl_enhanced = None\<rparr>"

abbreviation enhanced :: "'c EnhancedClient \<Rightarrow> 'c Client" where
  "enhanced ec \<equiv> \<lparr>cl_docker = True, cl_enhanced = Some ec\<rparr>"

lemma invalidated [simp]:
  "entries (ec_cache (EnhancedClient_InvalidateCache ec)) = []"
  "same_shell ec (EnhancedClient_InvalidateCache ec)"
  by (simp_all add: EnhancedClient_InvalidateCache_def InvalidateAll_def)

lemma empty_cache_misses:
  "entries c = [] \<Longrightarrow> typed_get f now k c = (c\<lparr>misses := misses c + 1\<rparr>, None)"
  "entries c = [] \<Longrightarrow> compute_lookup now k c = (c\<lparr>misses := misses c + 1\<rparr>, None)"
  by (simp_all add: typed_get_def compute_lookup_def)

lemma calm_call:
  assumes "client_open ec" "calm env" "settled ec answer" "same_shell ec e0"
  obtains e where "executeWithRateLimit env operation (retried env answer e0) e0 = Finishes (e, answer 0)"
    "same_shell ec e" "ec_cache e = ec_cache e0"
proof -
  have o: "client_open e0" "settled e0 answer"
    using assms client_open_shell [OF assms(4)] settled_shell [OF assms(4)] by auto
  obtain e where "executeWithRateLimit env operation (answer 0) e0 = Finishes (e, answer 0)"
    "ec_cache e = ec_cache e0" "same_shell e0 e"
    by (rule execute_calm [OF o(1) assms(2)])
  with that show ?thesis
    unfolding retried_settled [OF o(2, 1)] using same_shell_trans [OF assms(4)] by blast
qed

lemma ListContainers_calm:
  assumes "client_open ec" "calm env" "settled ec answer" "entries (ec_cache ec) = []"
  shows "success_of (EnhancedClient_ListContainers env ca answer ec) =
         success_of (Client_ListContainers env ca answer standard)"
proof -
  define e0 where "e0 = count_miss (set_cache (ec_cache ec\<lparr>misses := misses (ec_cache ec) + 1\<rparr>) ec)"
  have sh: "same_shell ec e0" unfolding e0_def by (rule same_shell_trans [OF set_cache_frame(3) count_frame(4)])
  obtain e where e: "executeWithRateLimit env ''container_list'' (retried env answer e0) e0 = Finishes (e, answer 0)"
    by (rule calm_call [OF assms(1-3) sh])
  show ?thesis
    using assms(4) e
    by (simp add: EnhancedClient_ListContainers_def GetContainerList_def empty_cache_misses Let_def
        Client_ListContainers_def delegate_def success_of_def flip: e0_def split: sum.split)
qed

lemma InspectContainer_calm:
  assumes "client_open ec" "calm env" "settled ec answer" "entries (ec_cache ec) = []"
  shows "success_of (EnhancedClient_InspectContainer env ca answer cid ec) =
         success_of (Client_InspectContainer env ca answer cid standard)"
proof -
  define e0 where "e0 = count_miss (set_cache (ec_cache ec\<lparr>misses := misses (ec_cache ec) + 1\<rparr>) ec)"
  have sh: "same_shell ec e0" unfolding e0_def by (rule same_shell_trans [OF set_cache_frame(3) count_frame(4)])
  obtain e where e: "executeWithRateLimit env ''container_inspect'' (retried env answer e0) e0 = Finishes (e, answer 0)"
    by (rule calm_call [OF assms(1-3) sh])
  show ?thesis
    using assms(4) e
    by (simp add: EnhancedClient_InspectContainer_def GetContainerInspect_def empty_cache_misses Let_def
        Client_InspectContainer_def delegate_def success_of_def flip: e0_def split: sum.split)
qed

text \<open>A cached computation on an empty cache is the computation.\<close>

lemma cached_compute_miss:
  assumes "entries (ec_cache ec) = []"
  shows "\<exists>e0. same_shell ec e0 \<and> entries (ec_cache e0) = [] \<and> cached_compute ca key compute ttl ec =
     and_then (compute e0) (\<lambda>(e, r). case r of
        Inl err \<Rightarrow> Finishes (e, Inl err)
      | Inr v \<Rightarrow> Finishes (set_cache (store_entry (ca_evict ca) (ca_set ca) key (OtherData v) ttl (ec_cache e)) e,
                           Inr (OtherData v)))"
  using assms
  by (intro exI [of _ "set_cache (ec_cache ec\<lparr>misses := misses (ec_cache ec) + 1\<rparr>) ec"])
    (simp add: cached_compute_def empty_cache_misses)

lemma cached_compute_stores:
  assumes "cached_compute ca key compute ttl ec = Finishes (e, Inr d)" "entries (ec_cache ec) = []"
  obtains c where "ec_cache e = store_entry (ca_evict ca) (ca_set ca) key d ttl c"
proof -
  obtain e0 where "cached_compute ca key compute ttl ec = and_then (compute e0) (\<lambda>(e, r). case r of
        Inl err \<Rightarrow> Finishes (e, Inl err)
      | Inr v \<Rightarrow> Finishes (set_cache (store_entry (ca_evict ca) (ca_set ca) key (OtherData v) ttl (ec_cache e)) e,
                           Inr (OtherData v)))"
    using cached_compute_miss [OF assms(2)] by blast
  from assms(1) [unfolded this] that show ?thesis
    by (auto simp: and_then_Finishes_iff case_sum_Inr_iff)
qed

lemma GetNetworkInfo_calm:
  assumes "client_open ec" "calm env" "settled ec answer" "\<forall>i. calm (envs i)" "\<forall>i. settled ec (answers i)"
    "entries (ec_cache ec) = []"
  shows "success_of (EnhancedClient_GetNetworkInfo env ca answer envs answers ec) =
         success_of (Client_GetNetworkInfo env ca answer envs answers standard)"
proof -
  obtain e0 where e0: "same_shell ec e0"
    and c: "cached_compute ca ''network:diagnostics'' (compute_network_info env ca answer envs answers) (60 * Second) ec =
     and_then (compute_network_info env ca answer envs answers e0) (\<lambda>(e, r). case r of
        Inl err \<Rightarrow> Finishes (e, Inl err)
      | Inr v \<Rightarrow> Finishes (set_cache (store_entry (ca_evict ca) (ca_set ca) ''network:diagnostics'' (OtherData v)
                             (60 * Second) (ec_cache e)) e, Inr (OtherData v)))"
    using cached_compute_miss [OF assms(6)] by blast
  obtain e where e: "executeWithRateLimit env ''network_list'' (retried env answer e0) e0 = Finishes (e, answer 0)"
    "same_shell ec e" by (rule calm_call [OF assms(1-3) e0])
  show ?thesis
  proof (cases "answer 0")
    case (Inr nets)
    obtain e' where "inspect_networks envs (ca_endpoints ca) answers 0 nets e =
        Finishes (e', standard_diagnostics (ca_endpoints ca) (\<lambda>i. answers i 0) 0 nets)"
      using inspect_networks_calm [of e envs answers "ca_endpoints ca" 0 nets] assms(1, 4, 5)
        client_open_shell [OF e(2)] settled_shell [OF e(2)] by blast
    with e(1) Inr show ?thesis
      unfolding EnhancedClient_GetNetworkInfo_def c
      by (simp add: compute_network_info_def success_of_def
          Client_GetNetworkInfo_def delegate_def)
  qed (use e(1) in \<open>unfold EnhancedClient_GetNetworkInfo_def c, simp add: compute_network_info_def success_of_def
          Client_GetNetworkInfo_def delegate_def\<close>)
qed

lemma GetContainerNetworkConfig_calm:
  assumes "client_open ec" "calm env" "settled ec answer" "entries (ec_cache ec) = []"
  shows "success_of (EnhancedClient_GetContainerNetworkConfig env ca answer cid ec) =
         success_of (Client_GetContainerNetworkConfig env ca answer cid standard)"
proof -
  obtain e0 where e0: "same_shell ec e0"
    and c: "cached_compute ca (''container_network:'' @ cid) (compute_network_config env ca answer) (30 * Second) ec =
     and_then (compute_network_config env ca answer e0) (\<lambda>(e, r). case r of
        Inl err \<Rightarrow> Finishes (e, Inl err)
      | Inr v \<Rightarrow> Finishes (set_cache (store_entry (ca_evict ca) (ca_set ca) (''container_network:'' @ cid) (OtherData v)
                             (30 * Second) (ec_cache e)) e, Inr (OtherData v)))"
    using cached_compute_miss [OF assms(4)] by blast
  obtain e where e: "executeWithRateLimit env ''container_inspect'' (retried env answer e0) e0 = Finishes (e, answer 0)"
    by (rule calm_call [OF assms(1-3) e0])
  show ?thesis
  proof (cases "answer 0")
    case (Inr cj)
    with e show ?thesis
      unfolding EnhancedClient_GetContainerNetworkConfig_def c
      by (cases "container_network_info (ca_endpoints ca 0) cj")
        (simp_all add: compute_network_config_def success_of_def
          Client_GetContainerNetworkConfig_def delegate_def)
  qed (use e in \<open>unfold EnhancedClient_GetContainerNetworkConfig_def c, simp add: compute_network_config_def success_of_def
          Client_GetContainerNetworkConfig_def delegate_def\<close>)
qed

text \<open>A client without connections waits for ever, unless its context ends or it is closed.\<close>

lemma no_connections_hangs:
  "connSemaphore ec = 0 \<Longrightarrow> \<not> ec_closed ec \<Longrightarrow> \<not> closeCh_closed ec \<Longrightarrow> ex_ctx env = None \<Longrightarrow>
   executeWithRateLimit env operation r ec = Hangs"
  by (simp add: executeWithRateLimit_def ready_cases_def)

lemma stored_then_found:
  "Sub t now \<le> ttl \<Longrightarrow> ttl \<noteq> 0 \<Longrightarrow>
   compute_lookup t key (store_entry ord now key d ttl c) =
     ((store_entry ord now key d ttl c)\<lparr>hits := hits c + 1\<rparr>, Some d)"
  by (simp add: compute_lookup_def store_entry_lookup effective_ttl_def)

lemma stale_not_found:
  "ttl < Sub t now \<Longrightarrow> ttl \<noteq> 0 \<Longrightarrow> snd (compute_lookup t key (store_entry ord now key d ttl c)) = None"
  by (simp add: compute_lookup_def store_entry_lookup effective_ttl_def)

section \<open>Properties\<close>

text \<open>
  C5: An enhanced client that was created with at least one connection never blocks for ever, and apart
  from one operation it never panics, whatever operations were performed on it before, whatever the
  daemon, the limiter and the contexts answer: every operation finishes. In particular the type assertions on what the cache
  returns always succeed, because no two kinds of values can share a key, and closing twice is
  harmless. The one exception is reading the network configuration of a container, which never blocks
  either, but which a missing part in the daemon's answer (a nil configuration, host configuration or
  network setting) makes panic; it finishes when all answers are complete. The retry counter of the
  metrics is still zero: no operation ever records a retry.
\<close>

theorem enhanced_client_finishes:
  assumes "NewEnhancedClient now None None (Some config) = Finishes (Inr (ec0 :: 'c EnhancedClient))"
    "client_op\<^sup>*\<^sup>* ec0 ec" "0 < MaxConnections config"
  shows "(\<exists>x. EnhancedClient_ListContainers env ca listed ec = Finishes x) \<and>
         (\<exists>x. EnhancedClient_GetNetworkInfo env ca nets envs inspects ec = Finishes x) \<and>
         (\<exists>x. EnhancedClient_InspectContainer env ca containers cid ec = Finishes x) \<and>
         (\<exists>x. EnhancedClient_ExecInContainer env create attach ec = Finishes x) \<and>
         (\<exists>x. EnhancedClient_Ping env pings ec = Finishes x) \<and>
         (\<exists>x. EnhancedClient_Close e ec = Finishes x) \<and>
         ((\<exists>x. EnhancedClient_GetContainerNetworkConfig env ca containers cid ec = Finishes x) \<or>
          EnhancedClient_GetContainerNetworkConfig env ca containers cid ec = Crashes \<and>
            (\<exists>k c. containers k = Inr c \<and> \<not> complete c)) \<and>
         RetryCount (ec_metrics ec) = 0"
proof -
  let ?n = "MaxConnections config"
  have ok: "client_ok ?n ec"
    using client_ops_ok [OF assms(2) _ assms(3)] NewEnhancedClient_ok [OF assms(1)] by blast
  have fin: "\<exists>x. X = Finishes x" if "keeps_ok True ?n ec X" for X :: "('c EnhancedClient \<times> 'r) outcome"
    using keeps_okD(2) [OF that] by blast
  have retries: "RetryCount (ec_metrics ec) = 0" using ok by (simp add: client_ok_def)
  have close: "\<exists>x. EnhancedClient_Close e ec = Finishes x" using Close_finishes [OF ok] by blast
  have config: "(\<exists>x. EnhancedClient_GetContainerNetworkConfig env ca containers cid ec = Finishes x) \<or>
      EnhancedClient_GetContainerNetworkConfig env ca containers cid ec = Crashes \<and>
        (\<exists>k c. containers k = Inr c \<and> \<not> complete c)" (is "?fin \<or> ?crash \<and> ?part")
  proof (cases ?part)
    case True
    have "keeps_ok False ?n ec (EnhancedClient_GetContainerNetworkConfig env ca containers cid ec)"
      by (rule GetContainerNetworkConfig_ok [OF ok assms(3)]) simp
    from keeps_okD(3) [OF this] show ?thesis
      using True by (cases "EnhancedClient_GetContainerNetworkConfig env ca containers cid ec") auto
  next
    case False
    then show ?thesis by (intro disjI1 fin GetContainerNetworkConfig_ok ok assms(3)) blast
  qed
  show ?thesis
    by (intro conjI retries close config fin ListContainers_ok GetNetworkInfo_ok InspectContainer_ok
        ExecInContainer_ok Ping_ok ok assms(3))
qed

definition quiet_env :: exec_env where
  "quiet_env = \<lparr>ex_ctx = None, ex_pick = 0, ex_limiter = None, ex_start = 0, ex_end = 5, ex_now = 5,
                ex_timer = (\<lambda>_ _. None), ex_jitter = (\<lambda>_. 0), ex_ord = (\<lambda>_. []), ex_oor = (\<lambda>_. 0)\<rparr>"

definition quiet_cache :: cache_env where
  "quiet_cache = \<lparr>ca_get = 1, ca_set = 2, ca_evict = [], ca_endpoints = (\<lambda>_. [])\<rparr>"

definition fresh_client :: "unit EnhancedClient" where
  "fresh_client =
     \<lparr>ec_cache = NewResponseCache (30 * Second) 100, ec_metrics = NewClientMetrics 0,
      ec_retryPolicy = client_retry_policy default_client_config, ec_timeout = 30 * Second,
      ec_maxConnections = 10, connSemaphore = 10, semaphore_cap = 10, ec_closed = False,
      closeCh_closed = False, ctx_cancelled = False\<rparr>"

lemma fresh_client_new: "NewEnhancedClient 0 None None (Some default_client_config) = Finishes (Inr fresh_client)"
  by (simp add: NewEnhancedClient_def fresh_client_def default_client_config_def)

lemma default_connections: "MaxConnections default_client_config = 10"
  by (simp add: default_client_config_def)

theorem enhanced_client_finishes_witness:
  "\<exists>x. EnhancedClient_Ping quiet_env (\<lambda>_. Some Canceled) fresh_client = Finishes x"
  using enhanced_client_finishes [OF fresh_client_new rtranclp.rtrancl_refl, of quiet_env quiet_cache]
  by (simp add: default_connections)

text \<open>
  C30: The cache of an enhanced client is well typed after any sequence of operations: a container list
  is only ever found under its one key, network diagnostics under theirs, and an inspected container or
  its network configuration under a key with its own prefix. So the type assertions on what
  \<^verbatim>\<open>GetOrCompute\<close> returns hold for every key and at every time.
\<close>

theorem cached_values_typed:
  assumes "NewEnhancedClient now None None (Some config) = Finishes (Inr (ec0 :: 'c EnhancedClient))"
    "client_op\<^sup>*\<^sup>* ec0 ec" "0 < MaxConnections config"
  shows "list_all (\<lambda>(k, e). typed_under k (Data e)) (entries (ec_cache ec)) \<and>
     (\<forall>t c d. compute_lookup t ''network:diagnostics'' (ec_cache ec) = (c, Some d) \<longrightarrow> assert_diagnostics d \<noteq> None) \<and>
     (\<forall>t c d cid. compute_lookup t (''container_network:'' @ cid) (ec_cache ec) = (c, Some d) \<longrightarrow>
        assert_network_config d \<noteq> None)"
proof -
  have typed: "cache_typed (ec_cache ec)"
    using client_ops_ok [OF assms(2) _ assms(3)] NewEnhancedClient_ok [OF assms(1)] by (auto simp: client_ok_def)
  then show ?thesis
    using compute_lookup_typed [OF typed] typed_under_diagnostics typed_under_config
    unfolding cache_typed_def by blast
qed

theorem cached_values_typed_witness:
  "cache_typed (ec_cache (count_miss fresh_client)) \<and> cache_typed (ec_cache fresh_client)"
  using cached_values_typed [OF fresh_client_new rtranclp.rtrancl_refl]
  by (simp add: default_connections cache_typed_def)

text \<open>
  C6: Connections are conserved under every interleaving of the calls of the client with each other,
  with its cache, with cancelled contexts and with \<^verbatim>\<open>Close\<close>: free slots and calls that hold one add
  up to \<^verbatim>\<open>MaxConnections\<close>, the 32-bit counter of active connections is the number of calls that
  are active, and neither it nor its recorded peak exceeds the limit. The peak covers the active
  connections except while a call is between adding itself and reporting the value to the peak; the value
  of such a call covers them then. While some call has not returned, a step of a call is possible, so
  the calls cannot deadlock on the semaphore.
\<close>

theorem connections_conserved:
  assumes "NewEnhancedClient now None None (Some config) = Finishes (Inr ec0)"
    "conn_step\<^sup>*\<^sup>* (ec0, []) (ec, ps)" "MaxConnections config < 2 ^ 31"
  shows "int (connSemaphore ec + number connected ps) = MaxConnections config \<and>
         sint (ActiveConnections (ec_metrics ec)) = int (number active ps) \<and>
         (sint (ActiveConnections (ec_metrics ec)) \<le> sint (PeakConnections (ec_metrics ec)) \<or>
          (\<exists>v. Counting v \<in> set ps \<and> sint (ActiveConnections (ec_metrics ec)) \<le> sint v)) \<and>
         sint (PeakConnections (ec_metrics ec)) \<le> MaxConnections config \<and>
         (0 < MaxConnections config \<and> list_ex (\<lambda>p. p \<noteq> Left) ps \<longrightarrow> (\<exists>s'. call_step (ec, ps) s'))"
proof -
  have init: "connections_ok (ec0, []) \<and> int (semaphore_cap ec0) = MaxConnections config"
    using assms(1, 3)
    by (auto simp: NewEnhancedClient_def connections_ok_def peak_ok_def number_def NewClientMetrics_def
        split: if_splits)
  then have ok: "connections_ok (ec, ps)" "int (semaphore_cap ec) = MaxConnections config"
    using conn_steps_connections [OF assms(2)] by simp_all
  then have "number active ps < 2 ^ 31"
    using active_le_connected [of ps] assms(3) by (simp add: connections_ok_def)
  then have "sint (ActiveConnections (ec_metrics ec)) = int (number active ps)"
    using ok(1) by (simp add: connections_ok_def sint_of_nat32)
  with ok call_progress [OF ok(1)] show ?thesis by (auto simp: connections_ok_def peak_ok_def)
qed

theorem connections_conserved_witness:
  "int (connSemaphore (take_slot fresh_client) + number connected [Connected]) = 10"
proof -
  have "conn_step\<^sup>*\<^sup>* (fresh_client, []) (fresh_client, [] @ [Arrived])"
    by (rule r_into_rtranclp) (rule conn_arrive)
  moreover have "conn_step (fresh_client, [Arrived]) (fresh_client, [Admitted])"
    using call_enter [of 0 "[Arrived]" fresh_client] by (simp add: conn_call fresh_client_def)
  moreover have "conn_step (fresh_client, [Admitted]) (take_slot fresh_client, [Connected])"
    using call_connect [of 0 "[Admitted]" fresh_client] by (simp add: conn_call fresh_client_def)
  ultimately have "conn_step\<^sup>*\<^sup>* (fresh_client, []) (take_slot fresh_client, [Connected])"
    by simp
  from connections_conserved [OF fresh_client_new this] show ?thesis
    by (simp add: default_connections)
qed


lemma fresh_client_calm: "client_open (EnhancedClient_InvalidateCache fresh_client)" "calm quiet_env"
proof -
  have "client_open fresh_client"
    by (simp add: client_open_def fresh_client_def client_retry_policy_def default_client_config_def)
  then show "client_open (EnhancedClient_InvalidateCache fresh_client)"
    using client_open_shell [OF invalidated(2) [of fresh_client]] by simp
qed (simp add: calm_def quiet_env_def)


text \<open>
  C29: A value that was fetched stays available exactly for its time to live: after a successful call
  on an emptied cache, the same call within that time (30 seconds for the container list, 60 for the
  networks) returns the same value, whatever the daemon would answer now and even if the limiter
  refuses or the context has ended, and makes no API call; later the cache no longer yields it. A
  repeated listing of the containers is counted as a cache hit; a repeated reading of the networks
  leaves the metrics untouched, so that they miss these hits.
\<close>

theorem cached_answers_reused:
  assumes "EnhancedClient_ListContainers env ca listed (EnhancedClient_InvalidateCache ec) = Finishes (ec1, Inr cs)"
    "EnhancedClient_GetNetworkInfo env ca nets envs inspects (EnhancedClient_InvalidateCache ec) = Finishes (ec2, Inr ds)"
    "age = Sub (ca_get ca') (ca_set ca)"
  shows "(age \<le> 30 * Second \<longrightarrow> (\<exists>ec'. EnhancedClient_ListContainers env' ca' listed' ec1 = Finishes (ec', Inr cs) \<and>
            TotalAPICalls (ec_metrics ec') = TotalAPICalls (ec_metrics ec1) \<and>
            CacheHits (ec_metrics ec') = CacheHits (ec_metrics ec1) + 1)) \<and>
         (30 * Second < age \<longrightarrow> snd (GetContainerList (ca_get ca') ''containers:all'' (ec_cache ec1)) = None) \<and>
         (age \<le> 60 * Second \<longrightarrow> (\<exists>ec'. EnhancedClient_GetNetworkInfo env' ca' nets' envs' inspects' ec2 = Finishes (ec', Inr ds) \<and>
            ec_metrics ec' = ec_metrics ec2)) \<and>
         (60 * Second < age \<longrightarrow> snd (compute_lookup (ca_get ca') ''network:diagnostics'' (ec_cache ec2)) = None)"
proof (intro conjI impI)
  obtain c where c: "ec_cache ec1 = SetContainerList (ca_evict ca) (ca_set ca) ''containers:all'' cs (30 * Second) c"
    using assms(1)
    by (auto simp: EnhancedClient_ListContainers_def GetContainerList_def empty_cache_misses Let_def
        and_then_Finishes_iff case_sum_Inr_iff)
  have got: "snd (GetContainerList (ca_get ca') ''containers:all'' (ec_cache ec1)) = (if age \<le> 30 * Second then Some cs else None)"
    unfolding c container_list.get_set using assms(3) by (simp add: effective_ttl_def)
  then show "30 * Second < age \<Longrightarrow> snd (GetContainerList (ca_get ca') ''containers:all'' (ec_cache ec1)) = None" by simp
  assume "age \<le> 30 * Second"
  with got show "\<exists>ec'. EnhancedClient_ListContainers env' ca' listed' ec1 = Finishes (ec', Inr cs) \<and>
            TotalAPICalls (ec_metrics ec') = TotalAPICalls (ec_metrics ec1) \<and>
            CacheHits (ec_metrics ec') = CacheHits (ec_metrics ec1) + 1"
    by (cases "GetContainerList (ca_get ca') ''containers:all'' (ec_cache ec1)")
      (auto simp: EnhancedClient_ListContainers_def count_hit_def RecordCacheHit_def)
next
  let ?key = "''network:diagnostics''"
  let ?compute = "compute_network_info env ca nets envs inspects"
  obtain d where d: "cached_compute ca ?key ?compute (60 * Second) (EnhancedClient_InvalidateCache ec) = Finishes (ec2, Inr d)"
    "assert_diagnostics d = Some ds"
    using assms(2) unfolding EnhancedClient_GetNetworkInfo_def and_then_Finishes_iff
    by (auto simp: and_then_Finishes_iff case_sum_Inr_iff elim!: nil_panics.elims)
  obtain c where c: "ec_cache ec2 = store_entry (ca_evict ca) (ca_set ca) ?key d (60 * Second) c"
    by (rule cached_compute_stores [OF d(1)]) simp_all
  show "60 * Second < age \<Longrightarrow> snd (compute_lookup (ca_get ca') ?key (ec_cache ec2)) = None"
    unfolding c assms(3) by (rule stale_not_found) simp_all
  assume "age \<le> 60 * Second"
  then have "Sub (ca_get ca') (ca_set ca) \<le> 60 * Second" using assms(3) by simp
  from stored_then_found [OF this, of ?key "ca_evict ca" d c] d(2)
  show "\<exists>ec'. EnhancedClient_GetNetworkInfo env' ca' nets' envs' inspects' ec2 = Finishes (ec', Inr ds) \<and>
            ec_metrics ec' = ec_metrics ec2"
    by (simp add: EnhancedClient_GetNetworkInfo_def cached_compute_def c)
qed

theorem cached_answers_reused_witness:
  "\<exists>ec1 ec'. EnhancedClient_ListContainers quiet_env quiet_cache (\<lambda>_. Inr [()])
       (EnhancedClient_InvalidateCache fresh_client) = Finishes (ec1, Inr [()]) \<and>
     EnhancedClient_ListContainers (quiet_env\<lparr>ex_limiter := Some Canceled\<rparr>) quiet_cache (\<lambda>_. Inl Canceled) ec1 =
       Finishes (ec', Inr [()])"
proof -
  let ?ec = "EnhancedClient_InvalidateCache fresh_client"
  note f = fresh_client_calm
  have "success_of (Client_ListContainers quiet_env quiet_cache (\<lambda>_. Inr [()]) standard) = Finishes (Some [()])"
    by (simp add: Client_ListContainers_def delegate_def success_of_def)
  then have "success_of (EnhancedClient_ListContainers quiet_env quiet_cache (\<lambda>_. Inr [()]) ?ec) = Finishes (Some [()])"
    using f by (subst ListContainers_calm) simp_all
  then obtain ec1 where 1: "EnhancedClient_ListContainers quiet_env quiet_cache (\<lambda>_. Inr [()]) ?ec = Finishes (ec1, Inr [()])"
    by (rule success_ofE)
  have "success_of (Client_GetNetworkInfo quiet_env quiet_cache (\<lambda>_. Inr []) (\<lambda>_. quiet_env) (\<lambda>_ _. Inr undefined) standard)
      = Finishes (Some [])"
    by (simp add: Client_GetNetworkInfo_def delegate_def success_of_def)
  then have "success_of (EnhancedClient_GetNetworkInfo quiet_env quiet_cache (\<lambda>_. Inr []) (\<lambda>_. quiet_env) (\<lambda>_ _. Inr undefined) ?ec)
      = Finishes (Some [])"
    using f by (subst GetNetworkInfo_calm) simp_all
  then obtain ec2 where 2: "EnhancedClient_GetNetworkInfo quiet_env quiet_cache (\<lambda>_. Inr []) (\<lambda>_. quiet_env) (\<lambda>_ _. Inr undefined) ?ec
      = Finishes (ec2, Inr [])" by (rule success_ofE)
  have age: "Sub (ca_get quiet_cache) (ca_set quiet_cache) \<le> 30 * Second"
    by (simp add: quiet_cache_def Sub_def max_duration_def min_duration_def)
  from cached_answers_reused [OF 1 2 refl, of quiet_cache "quiet_env\<lparr>ex_limiter := Some Canceled\<rparr>" "\<lambda>_. Inl Canceled"] age 1
  show ?thesis by blast
qed

end
