(* ===== verification/Go_Net.thy ===== *)
theory Go_Net
  imports Go_Fmt "HOL-Library.Word"
begin

unbundle bit_operations_syntax

text \<open>
  The part of Go's package \<^verbatim>\<open>net\<close> that the checks use: \<^verbatim>\<open>ParseCIDR\<close> on IPv4 and IPv6 texts,
  \<^verbatim>\<open>IPNet.Contains\<close> and \<^verbatim>\<open>IPNet.String\<close>. An address is its list of bytes, 4 or 16 of them.
\<close>

type_synonym IP = "8 word list"

record IPNet =
  net_IP :: IP
  net_Mask :: "8 word list"

section \<open>Reading addresses\<close>

fun split_on :: "char \<Rightarrow> string \<Rightarrow> string list" where
  "split_on c [] = [[]]"
| "split_on c (x # xs) =
     (if x = c then [] # split_on c xs
      else case split_on c xs of y # ys \<Rightarrow> (x # y) # ys | [] \<Rightarrow> [[x]])"

definition digit :: "char \<Rightarrow> bool" where
  "digit c \<longleftrightarrow> 48 \<le> (of_char c :: nat) \<and> (of_char c :: nat) \<le> 57"

definition decimal :: "string \<Rightarrow> nat" where
  "decimal s = fold (\<lambda>c n. 10 * n + (of_char c - 48)) s 0"

definition hex_value :: "char \<Rightarrow> nat option" where
  "hex_value c =
     (let n = of_char c :: nat in
      if 48 \<le> n \<and> n \<le> 57 then Some (n - 48)
      else if 97 \<le> n \<and> n \<le> 102 then Some (n - 87)
      else if 65 \<le> n \<and> n \<le> 70 then Some (n - 55)
      else None)"

text \<open>An octet has no leading zero and is at most 255.\<close>

definition parse_octet :: "string \<Rightarrow> 8 word option" where
  "parse_octet s =
     (if s \<noteq> [] \<and> list_all digit s \<and> (1 < length s \<longrightarrow> hd s \<noteq> CHR ''0'') \<and> decimal s \<le> 255
      then Some (of_nat (decimal s)) else None)"

fun all_some :: "'a option list \<Rightarrow> 'a list option" where
  "all_some [] = Some []"
| "all_some (None # xs) = None"
| "all_some (Some x # xs) = map_option ((#) x) (all_some xs)"

definition parse_ipv4 :: "string \<Rightarrow> IP option" where
  "parse_ipv4 s =
     (let fields = split_on (CHR ''.'') s
      in if length fields = 4 then all_some (map parse_octet fields) else None)"

text \<open>A group of an IPv6 address: one to four hexadecimal digits, two bytes.\<close>

definition parse_group :: "string \<Rightarrow> 8 word list option" where
  "parse_group s =
     (if s = [] \<or> 4 < length s then None
      else map_option (\<lambda>ds. let n = fold (\<lambda>d n. 16 * n + d) ds 0 in [of_nat (n div 256), of_nat (n mod 256)])
             (all_some (map hex_value s)))"

text \<open>The groups of one side of an ellipsis; the last one of the address may be an IPv4 address.\<close>

definition parse_groups :: "bool \<Rightarrow> string \<Rightarrow> 8 word list option" where
  "parse_groups ends s =
     (if s = [] then Some []
      else let gs = split_on (CHR '':'') s;
               bs = map parse_group (butlast gs) @
                    [if ends \<and> CHR ''.'' \<in> set (last gs) then parse_ipv4 (last gs) else parse_group (last gs)]
           in map_option concat (all_some bs))"

fun cut_ellipsis :: "string \<Rightarrow> (string \<times> string) option" where
  "cut_ellipsis (x # y # s) =
     (if x = CHR '':'' \<and> y = CHR '':'' then Some ([], s)
      else map_option (\<lambda>(l, r). (x # l, r)) (cut_ellipsis (y # s)))"
| "cut_ellipsis _ = None"

definition parse_ipv6 :: "string \<Rightarrow> IP option" where
  "parse_ipv6 s =
     (case cut_ellipsis s of
        None \<Rightarrow>
          (case parse_groups True s of
             Some bs \<Rightarrow> if length bs = 16 then Some bs else None
           | None \<Rightarrow> None)
      | Some (l, r) \<Rightarrow>
          (case (parse_groups False l, parse_groups True r) of
             (Some ls, Some rs) \<Rightarrow>
               if length ls + length rs \<le> 14
               then Some (ls @ replicate (16 - length ls - length rs) 0 @ rs) else None
           | _ \<Rightarrow> None))"

text \<open>The first dot or colon decides the family.\<close>

definition parse_address :: "string \<Rightarrow> IP option" where
  "parse_address s =
     (case dropWhile (\<lambda>c. c \<noteq> CHR ''.'' \<and> c \<noteq> CHR '':'' \<and> c \<noteq> CHR ''%'') s of
        [] \<Rightarrow> None
      | c # _ \<Rightarrow> if c = CHR ''.'' then parse_ipv4 s else if c = CHR '':'' then parse_ipv6 s else None)"

section \<open>Masks\<close>

primrec cidr_bytes :: "nat \<Rightarrow> nat \<Rightarrow> 8 word list" where
  "cidr_bytes n 0 = []"
| "cidr_bytes n (Suc l) =
     (if 8 \<le> n then 0xFF # cidr_bytes (n - 8) l else NOT (drop_bit n 0xFF) # cidr_bytes 0 l)"

definition mask_ip :: "8 word list \<Rightarrow> IP \<Rightarrow> IP" where
  "mask_ip ms ip = map (\<lambda>(b, m). b AND m) (zip ip ms)"

definition ParseCIDR :: "string \<Rightarrow> IPNet option" where
  "ParseCIDR s =
     (let addr = takeWhile (\<lambda>c. c \<noteq> CHR ''/'') s;
          rest = dropWhile (\<lambda>c. c \<noteq> CHR ''/'') s
      in if rest = [] then None
         else case parse_address addr of
                None \<Rightarrow> None
              | Some ip \<Rightarrow>
                  let bits = tl rest
                  in if bits \<noteq> [] \<and> list_all digit bits \<and> decimal bits \<le> 8 * length ip
                     then let m = cidr_bytes (decimal bits) (length ip)
                          in Some \<lparr>net_IP = mask_ip m ip, net_Mask = m\<rparr>
                     else None)"

section \<open>Membership\<close>

definition v4InV6Prefix :: "8 word list" where
  "v4InV6Prefix = replicate 10 0 @ [0xFF, 0xFF]"

definition To4 :: "IP \<Rightarrow> IP option" where
  "To4 ip =
     (if length ip = 4 then Some ip
      else if length ip = 16 \<and> take 12 ip = v4InV6Prefix then Some (drop 12 ip)
      else None)"

definition networkNumberAndMask :: "IPNet \<Rightarrow> IP \<times> 8 word list" where
  "networkNumberAndMask n =
     (let m = net_Mask n
      in case To4 (net_IP n) of
           Some ip \<Rightarrow> if length m = 4 then (ip, m) else if length m = 16 then (ip, drop 12 m) else ([], [])
         | None \<Rightarrow> if length (net_IP n) = 16 \<and> length m = 16 then (net_IP n, m) else ([], []))"

definition same_under :: "8 word list \<Rightarrow> IP \<Rightarrow> IP \<Rightarrow> bool" where
  "same_under m a b \<longleftrightarrow> list_all (\<lambda>i. (a ! i) AND (m ! i) = (b ! i) AND (m ! i)) [0..<length a]"

definition canonical :: "IP \<Rightarrow> IP" where
  "canonical ip = (case To4 ip of Some x \<Rightarrow> x | None \<Rightarrow> ip)"

definition Contains :: "IPNet \<Rightarrow> IP \<Rightarrow> bool" where
  "Contains n ip \<longleftrightarrow>
     (case networkNumberAndMask n of
        (nn, m) \<Rightarrow> length (canonical ip) = length nn \<and> same_under m nn (canonical ip))"

section \<open>Writing networks\<close>

fun intercalate_with :: "string \<Rightarrow> string list \<Rightarrow> string" where
  "intercalate_with sep [] = []"
| "intercalate_with sep [x] = x"
| "intercalate_with sep (x # y # ys) = x @ sep @ intercalate_with sep (y # ys)"

definition hex_digit :: "nat \<Rightarrow> char" where
  "hex_digit d = ''0123456789abcdef'' ! (d mod 16)"

fun show_hex :: "nat \<Rightarrow> string" where
  "show_hex n = (if n < 16 then [hex_digit n] else show_hex (n div 16) @ [hex_digit (n mod 16)])"

declare show_hex.simps [simp del]

definition groups_of :: "IP \<Rightarrow> nat list" where
  "groups_of ip = map (\<lambda>i. 256 * unat (ip ! (2 * i)) + unat (ip ! (2 * i + 1))) [0..<8]"

definition zero_run :: "nat list \<Rightarrow> nat \<Rightarrow> nat" where
  "zero_run gs i = length (takeWhile (\<lambda>g. g = 0) (drop i gs))"

text \<open>The first longest run of at least two zero groups: where it starts, and its length.\<close>

definition longest_run :: "nat list \<Rightarrow> nat \<times> nat" where
  "longest_run gs =
     fold (\<lambda>i (s, l). if 2 \<le> zero_run gs i \<and> l < zero_run gs i then (i, zero_run gs i) else (s, l)) [0..<8] (0, 0)"

definition ip_String :: "IP \<Rightarrow> string" where
  "ip_String ip =
     (if length ip = 4 then intercalate_with ''.'' (map (\<lambda>b. show_nat (unat b)) ip)
      else let gs = groups_of ip; (s, l) = longest_run gs; text = (\<lambda>ns. intercalate_with '':'' (map show_hex ns))
           in if l = 0 then text gs else text (take s gs) @ ''::'' @ text (drop (s + l) gs))"

text \<open>The length of a mask that is a prefix of ones, as all parsed ones are.\<close>

definition mask_ones :: "8 word list \<Rightarrow> nat" where
  "mask_ones m = length (takeWhile id (concat (map (\<lambda>b. map (\<lambda>k. bit b (7 - k)) [0..<8]) m)))"

definition IPNet_String :: "IPNet \<Rightarrow> string" where
  "IPNet_String n =
     (case networkNumberAndMask n of (nn, m) \<Rightarrow>
        if nn = [] \<or> m = [] then ''<nil>'' else ip_String nn @ ''/'' @ show_nat (mask_ones m))"

section \<open>Prefix masks are ordered\<close>

definition mask_byte :: "nat \<Rightarrow> 8 word" where
  "mask_byte n = (if 8 \<le> n then 0xFF else NOT (drop_bit n 0xFF))"

lemma cidr_bytes_nth: "i < l \<Longrightarrow> cidr_bytes n l ! i = mask_byte (n - 8 * i)"
proof (induction l arbitrary: n i)
  case (Suc l)
  then show ?case by (cases i) (simp_all add: mask_byte_def)
qed simp

lemma length_cidr_bytes [simp]: "length (cidr_bytes n l) = l"
  by (induction l arbitrary: n) simp_all

lemma drop_cidr_bytes: "j \<le> l \<Longrightarrow> drop j (cidr_bytes n l) = cidr_bytes (n - 8 * j) (l - j)"
  by (rule nth_equalityI) (simp_all add: cidr_bytes_nth algebra_simps)

lemma mask_byte_le:
  assumes "n \<le> n'"
  shows "mask_byte n' AND mask_byte n = mask_byte n"
proof -
  have small: "k \<in> {0, 1, 2, 3, 4, 5, 6, 7}" if "k < 8" for k :: nat using that by auto
  have full: "(0xFF :: 8 word) AND w = w" for w
  proof -
    have "(0xFF :: 8 word) = - 1" by simp
    then show ?thesis by (simp only: and.left_neutral)
  qed
  show ?thesis
  proof (cases "8 \<le> n'")
    case True
    then show ?thesis by (simp add: mask_byte_def [of n'] full)
  next
    case False
    then show ?thesis using small [of n'] small [of n] assms
      by (auto simp: mask_byte_def)
  qed
qed

definition prefix_mask :: "nat \<Rightarrow> IP \<Rightarrow> 8 word list" where
  "prefix_mask k nn = cidr_bytes k (length nn)"

lemma same_under_mono:
  assumes "k \<le> k'" "length b = length a" "same_under (prefix_mask k' a) a b"
  shows "same_under (prefix_mask k a) a b"
  unfolding same_under_def list_all_iff
proof
  fix i assume "i \<in> set [0..<length a]"
  then have i: "i < length a" by simp
  let ?m = "mask_byte (k - 8 * i)" and ?m' = "mask_byte (k' - 8 * i)"
  have m: "?m' AND ?m = ?m" using assms(1) by (intro mask_byte_le) simp
  have "(a ! i) AND ?m' = (b ! i) AND ?m'"
    using assms(3) i by (simp add: same_under_def list_all_iff prefix_mask_def cidr_bytes_nth)
  then have "((a ! i) AND ?m') AND ?m = ((b ! i) AND ?m') AND ?m" by simp
  then have "(a ! i) AND ?m = (b ! i) AND ?m" by (simp only: and.assoc m)
  then show "(a ! i) AND (prefix_mask k a ! i) = (b ! i) AND (prefix_mask k a ! i)"
    using i by (simp add: prefix_mask_def cidr_bytes_nth)
qed

lemma same_under_sym: "length a = length b \<Longrightarrow> same_under m a b = same_under m b a"
  by (auto simp: same_under_def list_all_iff)

lemma same_under_trans:
  "length a = length b \<Longrightarrow> same_under m a b \<Longrightarrow> same_under m b c \<Longrightarrow> same_under m a c"
  by (auto simp: same_under_def list_all_iff)

section \<open>Parsed networks\<close>

lemma length_mask_ip [simp]: "length (mask_ip m ip) = min (length ip) (length m)"
  by (simp add: mask_ip_def)

lemma all_some_length: "all_some xs = Some ys \<Longrightarrow> length ys = length xs"
  by (induction xs arbitrary: ys rule: all_some.induct) auto

lemma parse_address_length: "parse_address s = Some ip \<Longrightarrow> length ip = 4 \<or> length ip = 16"
  by (auto simp: parse_address_def parse_ipv4_def parse_ipv6_def Let_def all_some_length
      split: list.splits if_splits option.splits)

lemma ParseCIDR_network:
  assumes "ParseCIDR s = Some n"
  obtains nn k where "networkNumberAndMask n = (nn, prefix_mask k nn)" "canonical (net_IP n) = nn" "nn \<noteq> []"
proof -
  obtain ip k where ip: "length ip = 4 \<or> length ip = 16"
    and n: "n = \<lparr>net_IP = mask_ip (cidr_bytes k (length ip)) ip, net_Mask = cidr_bytes k (length ip)\<rparr>"
    using assms parse_address_length
    by (auto simp: ParseCIDR_def Let_def split: if_splits option.splits)
  have len: "length (net_IP n) = length ip" by (simp add: n)
  show ?thesis
  proof (cases "To4 (net_IP n)")
    case None
    then have "length ip = 16" using ip len by (auto simp: To4_def)
    then show ?thesis using None len that [of "net_IP n" k]
      by (simp add: networkNumberAndMask_def canonical_def prefix_mask_def n Let_def)
        (metis length_mask_ip length_cidr_bytes list.size(3) min.idem zero_neq_numeral)
  next
    case (Some x)
    then have x: "length x = 4" "x \<noteq> []" using len ip by (auto simp: To4_def split: if_splits)
    show ?thesis
    proof (cases "length ip = 4")
      case True
      then show ?thesis using Some x that [of x k]
        by (auto simp: networkNumberAndMask_def canonical_def prefix_mask_def n)
    next
      case False
      then have "length ip = 16" using ip by simp
      then show ?thesis using Some x that [of x "k - 96"]
        by (auto simp: networkNumberAndMask_def canonical_def prefix_mask_def n drop_cidr_bytes)
    qed
  qed
qed

text \<open>Two parsed networks share an address exactly when one contains the other's base address.\<close>

lemma contains_base_iff:
  assumes "ParseCIDR s = Some a" "ParseCIDR t = Some b"
  shows "Contains a (net_IP b) \<or> Contains b (net_IP a) \<longleftrightarrow> (\<exists>ip. Contains a ip \<and> Contains b ip)"
proof -
  obtain x k where a: "networkNumberAndMask a = (x, prefix_mask k x)" "canonical (net_IP a) = x"
    by (rule ParseCIDR_network [OF assms(1)])
  obtain y l where b: "networkNumberAndMask b = (y, prefix_mask l y)" "canonical (net_IP b) = y"
    by (rule ParseCIDR_network [OF assms(2)])
  have refl: "Contains a (net_IP a)" "Contains b (net_IP b)"
    using a b by (simp_all add: Contains_def same_under_def list_all_iff)
  have half: "same_under (prefix_mask i u) u v"
    if "length v = length u" "length w = length u" "same_under (prefix_mask i u) u w"
      "same_under (prefix_mask j v) v w" "i \<le> j" for i j u v w
  proof -
    have "same_under (prefix_mask i v) v w"
      by (rule same_under_mono [OF that(5) _ that(4)]) (simp add: that)
    then have "same_under (prefix_mask i v) w v"
      by (subst same_under_sym) (simp_all add: that)
    then have "same_under (prefix_mask i u) w v" by (simp add: prefix_mask_def that(1))
    with that(2, 3) show ?thesis using same_under_trans [of u w] by simp
  qed
  have "Contains a (net_IP b) \<or> Contains b (net_IP a)" if ip: "Contains a ip" "Contains b ip" for ip
  proof -
    let ?c = "canonical ip"
    have c: "length ?c = length x" "same_under (prefix_mask k x) x ?c"
      "length ?c = length y" "same_under (prefix_mask l y) y ?c"
      using ip a(1) b(1) by (simp_all add: Contains_def)
    then have e: "length y = length x" "length x = length y" by simp_all
    show ?thesis
    proof (cases "k \<le> l")
      case True
      have "same_under (prefix_mask k x) x y" by (rule half [OF e(1) c(1, 2, 4) True])
      then show ?thesis using a b e by (simp add: Contains_def)
    next
      case False
      then have "l \<le> k" by simp
      have "same_under (prefix_mask l y) y x" by (rule half [OF e(2) c(3, 4, 2) \<open>l \<le> k\<close>])
      then show ?thesis using a b e by (simp add: Contains_def)
    qed
  qed
  with refl show ?thesis by blast
qed

lemma ParseCIDR_v4: "ParseCIDR ''10.1.2.3/16'' = Some \<lparr>net_IP = [10, 1, 0, 0], net_Mask = [255, 255, 0, 0]\<rparr>"
  by code_simp

lemma ParseCIDR_rejects:
  "ParseCIDR ''10.1.2/16'' = None" "ParseCIDR ''10.1.2.03/16'' = None" "ParseCIDR ''10.0.0.0/33'' = None"
  "ParseCIDR ''1:::2/64'' = None" "ParseCIDR ''::1'' = None"
  by code_simp+

end
