(* ===== verification/Diagnostic_Checks.thy ===== *)
theory Diagnostic_Checks
  imports Engine Docker_Client Go_Net
begin

text \<open>
  The eleven checks of \<^verbatim>\<open>internal/diagnostics/system_checks.go\<close>, \<^verbatim>\<open>network_checks.go\<close>,
  \<^verbatim>\<open>dns_checks.go\<close> and \<^verbatim>\<open>connectivity_checks.go\<close>. A check calls the operations of a Docker client one
  after the other; the client is the record of those operations, each a function on the client's state.
  What the host answers (name lookup, network interfaces, commands, connections) is the environment, as are
  the clock and the orders in which Go visits maps.
\<close>

section \<open>The client a check sees\<close>

record Port =
  po_IP :: string
  PublicPort :: "16 word"
  po_Type :: string

text \<open>Of a listed container: its network settings are a pointer; of its networks only the names are read.\<close>

record Container =
  co_ID :: string
  co_Names :: "string list"
  co_Networks :: "(string, unit) gomap option"
  co_Ports :: "Port list"

record 's client_ops =
  op_Ping :: "'s \<Rightarrow> ('s \<times> goerror option) outcome"
  op_ListContainers :: "'s \<Rightarrow> ('s \<times> (goerror + Container list)) outcome"
  op_ExecInContainer :: "string \<Rightarrow> string list \<Rightarrow> 's \<Rightarrow> ('s \<times> string \<times> goerror option) outcome"
  op_GetContainerNetworkConfig :: "string \<Rightarrow> 's \<Rightarrow> ('s \<times> (goerror + ContainerNetworkInfo)) outcome"
  op_GetNetworkInfo :: "'s \<Rightarrow> ('s \<times> (goerror + NetworkDiagnostic list)) outcome"

record Interface =
  if_Up :: bool
  MTU :: int

record host =
  host_lookup :: "goerror option"
  host_interface :: "string \<Rightarrow> goerror + Interface"
  host_sysctl :: "goerror + string"
  host_iptables :: "string \<times> goerror option"
  host_nat :: string
  host_dial :: "nat \<Rightarrow> string \<Rightarrow> goerror option"
  host_order :: "nat \<Rightarrow> string list"
  host_now :: Time
  host_later :: Time

text \<open>Calling a method of a nil client panics.\<close>

definition call :: "'s client_ops option \<Rightarrow> ('s client_ops \<Rightarrow> 's \<Rightarrow> ('s \<times> 'r) outcome) \<Rightarrow> 's \<Rightarrow> ('s \<times> 'r) outcome" where
  "call client f s = (case client of None \<Rightarrow> Crashes | Some ops \<Rightarrow> f ops s)"

section \<open>Building results\<close>

definition new_result :: "string \<Rightarrow> host \<Rightarrow> CheckResult" where
  "new_result name h =
     \<lparr>cr_CheckName = name, cr_Success = False, cr_Message = [], Details = Some [], Suggestions = [],
      cr_Timestamp = host_now h, cr_Duration = 0\<rparr>"

definition detail :: "string \<Rightarrow> context_value \<Rightarrow> CheckResult \<Rightarrow> CheckResult" where
  "detail k v r = r\<lparr>Details := map_option (AList.update k v) (Details r)\<rparr>"

definition suggest :: "string list \<Rightarrow> CheckResult \<Rightarrow> CheckResult" where
  "suggest xs r = r\<lparr>Suggestions := Suggestions r @ xs\<rparr>"

definition verdict :: "bool \<Rightarrow> string \<Rightarrow> CheckResult \<Rightarrow> CheckResult" where
  "verdict ok msg r = r\<lparr>cr_Success := ok, cr_Message := msg\<rparr>"

abbreviation CtxNat :: "nat \<Rightarrow> context_value" where
  "CtxNat n \<equiv> CtxInt (int n)"

section \<open>System checks\<close>

text \<open>\<open>ctx\<close> is the error of the context, when it is neither nil nor still open.\<close>

definition DaemonConnectivityCheck_Run ::
    "goerror option \<Rightarrow> host \<Rightarrow> 's client_ops option \<Rightarrow> 's \<Rightarrow> ('s \<times> CheckResult \<times> goerror option) outcome" where
  "DaemonConnectivityCheck_Run ctx h client s =
     (let result = new_result ''daemon_connectivity'' h
      in case ctx of
           Some err \<Rightarrow>
             Finishes (s, detail ''error'' (CtxString (Error err))
                            (verdict False ''Context cancelled before daemon check'' result), None)
         | None \<Rightarrow>
             if client = None then Finishes (s, verdict True ''Docker daemon is accessible (client provided)'' result, None)
             else and_then (call client op_Ping s) (\<lambda>(s, err). case err of
               Some err \<Rightarrow>
                 Finishes (s, (detail ''error'' (CtxString (Error err))
                                (verdict False ''Failed to connect to Docker daemon'' result))
                              \<lparr>Suggestions := [''Ensure Docker daemon is running'', ''Check Docker socket permissions'',
                                 ''Verify DOCKER_HOST environment variable if using remote Docker'']\<rparr>, None)
             | None \<Rightarrow>
                 let duration = Sub (host_later h) (host_now h);
                     result = (verdict True ''Docker daemon is accessible'' result)\<lparr>cr_Duration := duration\<rparr>;
                     result = detail ''ping_duration'' (CtxString (Duration_String duration)) result
                 in Finishes (s, if duration > Second
                                 then suggest [''Docker daemon response is slow, check system resources''] result
                                 else result, None)))"

definition isolation_warning :: "NetworkDiagnostic \<Rightarrow> bool" where
  "isolation_warning net \<longleftrightarrow> \<not> Internal net \<and> Scope net = ''local'' \<and> nd_Name net \<noteq> ''bridge'' \<and> nd_Name net \<noteq> ''host''"

definition custom_network :: "NetworkDiagnostic \<Rightarrow> bool" where
  "custom_network net \<longleftrightarrow> nd_Name net \<noteq> ''bridge'' \<and> nd_Name net \<noteq> ''host'' \<and> nd_Name net \<noteq> ''none''"

definition network_detail :: "NetworkDiagnostic \<Rightarrow> CheckResult \<Rightarrow> CheckResult" where
  "network_detail net =
     detail (nd_Name net) (CtxMap [(''driver'', CtxString (Driver net)), (''internal'', CtxBool (Internal net)),
                                   (''scope'', CtxString (Scope net))])"

definition NetworkIsolationCheck_Run ::
    "goerror option \<Rightarrow> host \<Rightarrow> 's client_ops option \<Rightarrow> 's \<Rightarrow> ('s \<times> CheckResult \<times> goerror option) outcome" where
  "NetworkIsolationCheck_Run ctx h client s =
     (let result = new_result ''network_isolation'' h
      in case ctx of
           Some err \<Rightarrow>
             Finishes (s, detail ''error'' (CtxString (Error err))
                            (verdict False ''Context cancelled before isolation check'' result), None)
         | None \<Rightarrow>
             if client = None
             then Finishes (s, verdict True ''Network isolation configured correctly (no client check)'' result, None)
             else and_then (call client op_GetNetworkInfo s) (\<lambda>(s, r). case r of
               Inl err \<Rightarrow>
                 Finishes (s, (detail ''error'' (CtxString (Error err))
                                (verdict False ''Failed to retrieve network information'' result))
                              \<lparr>Suggestions := [''Check Docker daemon permissions'', ''Verify network configuration'']\<rparr>, None)
             | Inr networks \<Rightarrow>
                 let warnings = map (\<lambda>net. ''Network '' @ [CHR 0x27] @ nd_Name net @ [CHR 0x27] @
                                      '' is not internal but accessible externally'') (filter isolation_warning networks);
                     customNetworks = length (filter custom_network networks);
                     bridgeFound = list_ex (\<lambda>net. nd_Name net = ''bridge'') networks;
                     result = (fold network_detail networks result)\<lparr>cr_Duration := Sub (host_later h) (host_now h)\<rparr>;
                     result = detail ''network_count'' (CtxNat (length networks)) result;
                     result = detail ''custom_networks'' (CtxNat customNetworks) result;
                     result = detail ''bridge_found'' (CtxBool bridgeFound) result
                 in Finishes (s,
                      if warnings \<noteq> []
                      then detail ''warnings'' (CtxStrings warnings)
                             ((verdict False (''Network isolation issues found ('' @ show_nat (length warnings) @ '' warnings)'') result)
                              \<lparr>Suggestions := warnings @ [''Consider using internal networks for sensitive applications'']\<rparr>)
                      else let result = verdict True ''Network isolation configured correctly'' result
                           in if customNetworks > 0
                              then detail ''note'' (CtxString (''Found '' @ show_nat customNetworks @
                                     '' custom networks with proper isolation'')) result
                              else result, None)))"

section \<open>Network checks\<close>

definition BridgeNetworkCheck_Run ::
    "host \<Rightarrow> 's client_ops option \<Rightarrow> 's \<Rightarrow> ('s \<times> CheckResult \<times> goerror option) outcome" where
  "BridgeNetworkCheck_Run h client s =
     (let result = new_result ''bridge_network'' h
      in and_then (call client op_GetNetworkInfo s) (\<lambda>(s, r). case r of
           Inl err \<Rightarrow> Finishes (s, result, Some err)
         | Inr networks \<Rightarrow> (case find (\<lambda>net. nd_Name net = ''bridge'') networks of
             None \<Rightarrow>
               Finishes (s, suggest [''The Docker bridge network is missing. This is critical for container networking.'',
                               ''Try restarting the Docker daemon: systemctl restart docker'']
                             (verdict False ''Default bridge network not found'' result), None)
           | Some bridge \<Rightarrow> (case Configs (nd_IPAM bridge) of
               [] \<Rightarrow>
                 Finishes (s, suggest [''Recreate the bridge network with: docker network create bridge'']
                               (verdict False ''Bridge network has no IPAM configuration'' result), None)
             | config # _ \<Rightarrow> (case host_interface h ''docker0'' of
                 Inl err \<Rightarrow>
                   Finishes (s, suggest [''The docker0 bridge interface is missing from the host'',
                                   ''This usually indicates a Docker daemon issue'', ''Try: sudo systemctl restart docker'']
                                 (verdict False (''docker0 bridge interface not found: '' @ Error err) result), None)
               | Inr i \<Rightarrow>
                   if \<not> if_Up i
                   then Finishes (s, suggest [''Bring up the interface: sudo ip link set docker0 up'']
                                      (verdict False ''docker0 bridge interface is down'' result), None)
                   else let result = verdict True ''Bridge network is properly configured'' result;
                            result = detail ''subnet'' (CtxString (Subnet config)) result;
                            result = detail ''gateway'' (CtxString (Gateway config)) result
                        in Finishes (s, detail ''interface_status'' (CtxString ''UP'') result, None))))))"

text \<open>
  \<^verbatim>\<open>strings.TrimSpace\<close>: white space is a list of byte sequences, the UTF-8 encodings of Unicode's
  white-space runes.
\<close>

definition white_space :: "string list" where
  "white_space =
     [[CHR 0x09], [CHR 0x0A], [CHR 0x0B], [CHR 0x0C], [CHR 0x0D], [CHR 0x20], [CHR 0xC2, CHR 0x85], [CHR 0xC2, CHR 0xA0],
      [CHR 0xE1, CHR 0x9A, CHR 0x80], [CHR 0xE2, CHR 0x80, CHR 0xA8], [CHR 0xE2, CHR 0x80, CHR 0xA9],
      [CHR 0xE2, CHR 0x80, CHR 0xAF], [CHR 0xE2, CHR 0x81, CHR 0x9F], [CHR 0xE3, CHR 0x80, CHR 0x80]] @
     map (\<lambda>b. [CHR 0xE2, CHR 0x80, char_of (b :: nat)]) [0x80..<0x8B]"

lemma find_Some_prefix:
  "find (\<lambda>p. p \<noteq> [] \<and> take (length p) s = p) spaces = Some p \<Longrightarrow> length s - length p < length s"
  by (auto simp: find_Some_iff) (metis diff_less length_greater_0_conv take_eq_Nil2)

function trim_front :: "string list \<Rightarrow> string \<Rightarrow> string" where
  "trim_front spaces s =
     (case find (\<lambda>p. p \<noteq> [] \<and> take (length p) s = p) spaces of
        None \<Rightarrow> s
      | Some p \<Rightarrow> trim_front spaces (drop (length p) s))"
  by pat_completeness auto
termination
  by (relation "measure (\<lambda>(_, s). length s)")
    (auto dest!: find_Some_prefix)

declare trim_front.simps [simp del]

definition TrimSpace :: "string \<Rightarrow> string" where
  "TrimSpace s = rev (trim_front (map rev white_space) (rev (trim_front white_space s)))"

definition IPForwardingCheck_Run ::
    "host \<Rightarrow> 's client_ops option \<Rightarrow> 's \<Rightarrow> ('s \<times> CheckResult \<times> goerror option) outcome" where
  "IPForwardingCheck_Run h client s =
     (let result = new_result ''ip_forwarding'' h
      in case host_sysctl h of
           Inl err \<Rightarrow> Finishes (s, verdict False (''Failed to check IP forwarding: '' @ Error err) result, None)
         | Inr output \<Rightarrow>
             let ipv4Forward = TrimSpace output;
                 result = detail ''ipv4_forwarding'' (CtxString ipv4Forward) result
             in if \<not> strings_Contains ipv4Forward ''= 1''
                then Finishes (s, suggest [''Enable IP forwarding to allow container network traffic'',
                                     ''Temporary: sudo sysctl -w net.ipv4.ip_forward=1'',
                                     ''Permanent: Add '' @ [CHR 0x27] @ ''net.ipv4.ip_forward=1'' @ [CHR 0x27] @ '' to /etc/sysctl.conf'']
                                   (verdict False ''IP forwarding is disabled on the host'' result), None)
                else Finishes (s, verdict True ''IP forwarding is properly enabled'' result, None))"

definition subnetsOverlap :: "IPNet \<Rightarrow> IPNet \<Rightarrow> bool" where
  "subnetsOverlap a b \<longleftrightarrow> Contains a (net_IP b) \<or> Contains b (net_IP a)"

definition collect_subnets :: "NetworkDiagnostic list \<Rightarrow> (string \<times> IPNet) list" where
  "collect_subnets networks =
     concat (map (\<lambda>network. List.map_filter (\<lambda>config.
         if Subnet config \<noteq> [] then map_option (Pair (nd_Name network)) (ParseCIDR (Subnet config)) else None)
       (Configs (nd_IPAM network))) networks)"

fun find_overlaps :: "(string \<times> IPNet) list \<Rightarrow> string list" where
  "find_overlaps [] = []"
| "find_overlaps ((n, a) # subnets) =
     map (\<lambda>(m, b). n @ '' ('' @ IPNet_String a @ '') overlaps with '' @ m @ '' ('' @ IPNet_String b @ '')'')
       (filter (\<lambda>(m, b). subnetsOverlap a b) subnets) @ find_overlaps subnets"

definition SubnetOverlapCheck_Run ::
    "host \<Rightarrow> 's client_ops option \<Rightarrow> 's \<Rightarrow> ('s \<times> CheckResult \<times> goerror option) outcome" where
  "SubnetOverlapCheck_Run h client s =
     (let result = new_result ''subnet_overlap'' h
      in and_then (call client op_GetNetworkInfo s) (\<lambda>(s, r). case r of
           Inl err \<Rightarrow> Finishes (s, result, Some err)
         | Inr networks \<Rightarrow>
             let subnets = collect_subnets networks; overlaps = find_overlaps subnets
             in if overlaps \<noteq> []
                then let result = verdict False (''Found '' @ show_nat (length overlaps) @ '' subnet overlaps'') result;
                         result = detail ''overlaps'' (CtxStrings overlaps) result
                     in Finishes (s, suggest [''Overlapping subnets can cause routing issues'',
                                        ''Consider using non-overlapping ranges like:'',
                                        ''  - 172.20.0.0/16 for network1'', ''  - 172.21.0.0/16 for network2'',
                                        ''Remove unused networks: docker network prune''] result, None)
                else let result = verdict True ''No subnet overlaps detected'' result;
                         result = detail ''total_networks'' (CtxNat (length networks)) result
                     in Finishes (s, detail ''total_subnets'' (CtxNat (length subnets)) result, None)))"

definition primary_interface :: "host \<Rightarrow> Interface option" where
  "primary_interface h =
     (case host_interface h ''eth0'' of
        Inr i \<Rightarrow> Some i
      | Inl _ \<Rightarrow> (case host_interface h ''ens33'' of
          Inr i \<Rightarrow> Some i
        | Inl _ \<Rightarrow> (case host_interface h ''enp0s3'' of Inr i \<Rightarrow> Some i | Inl _ \<Rightarrow> None)))"

definition MTUConsistencyCheck_Run ::
    "host \<Rightarrow> 's client_ops option \<Rightarrow> 's \<Rightarrow> ('s \<times> CheckResult \<times> goerror option) outcome" where
  "MTUConsistencyCheck_Run h client s =
     (let result = new_result ''mtu_consistency'' h;
          hostMTU = (case primary_interface h of Some i \<Rightarrow> MTU i | None \<Rightarrow> 1500);
          result = (case primary_interface h of
                      Some i \<Rightarrow> detail ''host_mtu'' (CtxInt (MTU i)) result | None \<Rightarrow> result);
          consistent = verdict True ''MTU settings are consistent''
      in case host_interface h ''docker0'' of
           Inl _ \<Rightarrow> Finishes (s, consistent result, None)
         | Inr bridge \<Rightarrow>
             let result = detail ''bridge_mtu'' (CtxInt (MTU bridge)) result
             in if MTU bridge > hostMTU
                then Finishes (s, suggest [''MTU mismatch can cause packet loss and connectivity issues'',
                         ''Set Docker MTU to match host: docker network create --opt com.docker.network.driver.mtu='' @
                           show_int hostMTU,
                         ''Or configure in /etc/docker/daemon.json: {'' @ [CHR 0x22] @ ''mtu'' @ [CHR 0x22] @ '': '' @
                           show_int hostMTU @ ''}'']
                       (verdict False (''Docker bridge MTU ('' @ show_int (MTU bridge) @ '') exceeds host MTU ('' @
                                         show_int hostMTU @ '')'') result), None)
                else Finishes (s, consistent result, None))"

definition IptablesCheck_Run ::
    "host \<Rightarrow> 's client_ops option \<Rightarrow> 's \<Rightarrow> ('s \<times> CheckResult \<times> goerror option) outcome" where
  "IptablesCheck_Run h client s =
     (let result = new_result ''iptables'' h
      in case host_iptables h of
           (output, Some err) \<Rightarrow>
             if strings_Contains output ''No chain/target/match''
             then Finishes (s, suggest [''Docker iptables rules are missing - containers won'' @ [CHR 0x27] @ ''t have network access'',
                                  ''Restart Docker to recreate rules: sudo systemctl restart docker'',
                                  ''Ensure iptables is not being managed by another tool (firewalld, ufw)'']
                                (verdict False ''Docker iptables chain is missing'' result), None)
             else Finishes (s, suggest [''Ensure you have permission to read iptables (run with sudo)'',
                                  ''Check if iptables service is running'']
                                (verdict False (''Failed to check iptables: '' @ Error err) result), None)
         | (output, None) \<Rightarrow>
             if \<not> strings_Contains (host_nat h) ''MASQUERADE''
             then Finishes (s, suggest [''Containers cannot access external networks without NAT'',
                                  ''Restart Docker daemon to restore NAT rules'']
                                (verdict False ''NAT MASQUERADE rule missing for Docker'' result), None)
             else let result = verdict True ''Docker iptables rules are properly configured'' result;
                      result = detail ''docker_chain'' (CtxString ''present'') result
                  in Finishes (s, detail ''nat_masquerade'' (CtxString ''configured'') result, None))"

section \<open>DNS checks\<close>

text \<open>One container: its name is read after the command has run, and panics when it has none.\<close>

definition test_resolution ::
    "'s client_ops option \<Rightarrow> Container \<Rightarrow> 's \<Rightarrow> CheckResult \<Rightarrow> ('s \<times> CheckResult \<times> string \<times> bool) outcome" where
  "test_resolution client container s result =
     and_then (call client (\<lambda>ops. op_ExecInContainer ops (co_ID container) [''nslookup'', ''google.com'']) s)
       (\<lambda>(s, testResult, err). case co_Names container of
          [] \<Rightarrow> Crashes
        | name # _ \<Rightarrow>
            if err \<noteq> None \<or> strings_Contains testResult (''can'' @ [CHR 0x27] @ ''t resolve'')
            then and_then (call client (\<lambda>ops. op_ExecInContainer ops (co_ID container) [''cat'', ''/etc/resolv.conf'']) s)
                   (\<lambda>(s, dnsConfig, _).
                      Finishes (s, detail (''container_'' @ name @ ''_resolv'') (CtxString dnsConfig) result, name, False))
            else Finishes (s, result, name, True))"

fun test_resolutions ::
    "'s client_ops option \<Rightarrow> Container list \<Rightarrow> 's \<Rightarrow> CheckResult \<Rightarrow> (string, bool) gomap \<Rightarrow>
     ('s \<times> CheckResult \<times> (string, bool) gomap) outcome" where
  "test_resolutions client [] s result testResults = Finishes (s, result, testResults)"
| "test_resolutions client (container # cs) s result testResults =
     and_then (test_resolution client container s result) (\<lambda>(s, result, name, ok).
       test_resolutions client cs s result (AList.update name ok testResults))"

definition DNSResolutionCheck_Run ::
    "host \<Rightarrow> 's client_ops option \<Rightarrow> 's \<Rightarrow> ('s \<times> CheckResult \<times> goerror option) outcome" where
  "DNSResolutionCheck_Run h client s =
     (let result = new_result ''dns_resolution'' h;
          hostDNSWorking = (host_lookup h = None);
          result = (if hostDNSWorking then detail ''host_dns'' (CtxString ''working'') result
                    else suggest [''DNS resolution is failing on the host itself'',
                                  ''Check /etc/resolv.conf on the host'', ''Verify network connectivity: ping 8.8.8.8'']
                           (detail ''host_dns'' (CtxString ''failed'') result))
      in and_then (call client op_ListContainers s) (\<lambda>(s, r). case r of
           Inl err \<Rightarrow> Finishes (s, result, Some (Errorf ''failed to list containers: '' err []))
         | Inr containers \<Rightarrow>
             if containers = [] then Finishes (s, verdict True ''No running containers to test'' result, None)
             else and_then (test_resolutions client (take 3 containers) s result []) (\<lambda>(s, result, testResults).
               let failedContainers = length (filter (\<lambda>(_, ok). \<not> ok) testResults);
                   result = fold (\<lambda>(name, ok). detail (''dns_test_'' @ name) (CtxBool ok))
                              (range_over (host_order h 0) testResults) result
               in Finishes (s,
                    if failedContainers > 0
                    then let result = verdict False (''DNS resolution failed in '' @ show_nat failedContainers @ ''/'' @
                                        show_nat (length testResults) @ '' containers'') result
                         in if hostDNSWorking
                            then suggest [''Container DNS is broken but host DNS works'',
                                          ''Check Docker daemon DNS settings in /etc/docker/daemon.json'',
                                          ''Try setting explicit DNS: docker run --dns 8.8.8.8'',
                                          ''Verify firewall isn'' @ [CHR 0x27] @ ''t blocking DNS (UDP port 53)''] result
                            else result
                    else verdict True ''DNS resolution working in all tested containers'' result, None))))"

text \<open>The first two containers of a network, in the order the map is visited.\<close>

definition test_names :: "string \<Rightarrow> string \<Rightarrow> string \<Rightarrow> 's client_ops option \<Rightarrow> 's \<Rightarrow> CheckResult \<Rightarrow> ('s \<times> CheckResult \<times> bool) outcome" where
  "test_names network source target client s result =
     and_then (call client (\<lambda>ops. op_ExecInContainer ops source [''ping'', ''-c'', ''1'', target]) s)
       (\<lambda>(s, testResult, err). Finishes (s,
          if err \<noteq> None \<or> strings_Contains testResult ''bad address''
          then (suggest [''Containers in network '' @ [CHR 0x27] @ network @ [CHR 0x27] @ '' cannot resolve each other'',
                         ''Ensure containers are on the same network'',
                         ''Use container names, not IDs for internal communication'',
                         ''Check if Docker'' @ [CHR 0x27] @ ''s embedded DNS server (127.0.0.11) is working'']
                  (detail (''network_'' @ network) (CtxString ''DNS not working'') result), True)
          else (detail (''network_'' @ network) (CtxString ''DNS working'') result, False)))"

fun test_networks ::
    "(nat \<Rightarrow> string list) \<Rightarrow> nat \<Rightarrow> NetworkDiagnostic list \<Rightarrow> 's client_ops option \<Rightarrow> 's \<Rightarrow> CheckResult \<Rightarrow>
     nat \<Rightarrow> ('s \<times> CheckResult \<times> nat) outcome" where
  "test_networks ord i [] client s result issues = Finishes (s, result, issues)"
| "test_networks ord i (network # ns) client s result issues =
     (case map (\<lambda>(_, endpoint). ep_Name endpoint) (range_over (ord i) (nd_Containers network)) of
        source # target # _ \<Rightarrow>
          and_then (test_names (nd_Name network) source target client s result) (\<lambda>(s, result, failed).
            test_networks ord (i + 1) ns client s result (if failed then issues + 1 else issues))
      | _ \<Rightarrow> test_networks ord (i + 1) ns client s result issues)"

definition InternalDNSCheck_Run ::
    "host \<Rightarrow> 's client_ops option \<Rightarrow> 's \<Rightarrow> ('s \<times> CheckResult \<times> goerror option) outcome" where
  "InternalDNSCheck_Run h client s =
     (let result = new_result ''internal_dns'' h
      in and_then (call client op_GetNetworkInfo s) (\<lambda>(s, r). case r of
           Inl err \<Rightarrow> Finishes (s, result, Some err)
         | Inr networks \<Rightarrow>
             let customNetworks = filter custom_network networks
             in if customNetworks = []
                then Finishes (s, detail ''info'' (CtxString ''Container name resolution only works on user-defined networks'')
                       (verdict True ''No custom networks found (internal DNS requires custom networks)'' result), None)
                else and_then (test_networks (host_order h) 0 customNetworks client s result 0) (\<lambda>(s, result, issues).
                  Finishes (s,
                    if issues > 0
                    then verdict False (''Internal DNS issues detected in '' @ show_nat issues @ '' networks'') result
                    else verdict True ''Internal DNS resolution working correctly'' result, None))))"

section \<open>Connectivity checks\<close>

definition append_to :: "'k \<Rightarrow> 'v \<Rightarrow> ('k, 'v list) gomap \<Rightarrow> ('k, 'v list) gomap" where
  "append_to k v m = AList.update k ((case map_of m k of None \<Rightarrow> [] | Some vs \<Rightarrow> vs) @ [v]) m"

text \<open>A container without network settings panics, and so does an identifier too short to slice.\<close>

fun group_containers ::
    "(nat \<Rightarrow> string list) \<Rightarrow> nat \<Rightarrow> Container list \<Rightarrow> (string, string list) gomap \<Rightarrow>
     (string, string list) gomap outcome" where
  "group_containers ord i [] groups = Finishes groups"
| "group_containers ord i (container # cs) groups =
     (case co_Networks container of
        None \<Rightarrow> Crashes
      | Some networks \<Rightarrow>
          if networks \<noteq> [] \<and> length (co_ID container) < 12 then Crashes
          else group_containers ord (i + 1) cs
                 (fold (\<lambda>(netName, _). append_to netName (take 12 (co_ID container)))
                    (range_over (ord i) networks) groups))"

definition ping_failed :: "string \<Rightarrow> string \<Rightarrow> string \<Rightarrow> CheckResult \<Rightarrow> CheckResult" where
  "ping_failed network source target result =
     suggest [''Check if containers '' @ source @ '' and '' @ target @ '' are properly connected to network '' @ network]
       (detail (''ping_'' @ source @ ''_to_'' @ target) (CtxString ''Failed'') result)"

definition test_pair ::
    "string \<Rightarrow> string \<Rightarrow> string \<Rightarrow> 's client_ops option \<Rightarrow> 's \<Rightarrow> CheckResult \<Rightarrow> ('s \<times> CheckResult \<times> bool) outcome" where
  "test_pair network source target client s result =
     and_then (call client (\<lambda>ops. op_GetContainerNetworkConfig ops target) s) (\<lambda>(s, r). case r of
       Inl err \<Rightarrow> Finishes (s, detail (''error_'' @ target) (CtxString (Error err)) result, True)
     | Inr targetInfo \<Rightarrow>
         let targetIP = (case map_of (cni_Networks targetInfo) network of Some e \<Rightarrow> ne_IPAddress e | None \<Rightarrow> [])
         in if targetIP = []
            then Finishes (s, detail (''no_ip_'' @ target) (CtxString ''No IP address found'') result, True)
            else and_then (call client (\<lambda>ops. op_ExecInContainer ops source
                                          [''ping'', ''-c'', ''1'', ''-W'', ''2'', targetIP]) s)
                   (\<lambda>(s, output, err). Finishes (s,
                      if err \<noteq> None \<or> \<not> strings_Contains output ''1 received''
                      then (ping_failed network source target result, True)
                      else (detail (''ping_'' @ source @ ''_to_'' @ target) (CtxString ''Success'') result, False))))"

fun test_groups ::
    "(string \<times> string list) list \<Rightarrow> 's client_ops option \<Rightarrow> 's \<Rightarrow> CheckResult \<Rightarrow> nat \<Rightarrow> nat \<Rightarrow>
     ('s \<times> CheckResult \<times> nat \<times> nat) outcome" where
  "test_groups [] client s result issues totalTests = Finishes (s, result, issues, totalTests)"
| "test_groups ((network, containerIDs) # gs) client s result issues totalTests =
     (case containerIDs of
        source # target # _ \<Rightarrow>
          and_then (test_pair network source target client s result) (\<lambda>(s, result, failed).
            test_groups gs client s result (if failed then issues + 1 else issues) (totalTests + 1))
      | _ \<Rightarrow> test_groups gs client s result issues totalTests)"

definition ContainerConnectivityCheck_Run ::
    "host \<Rightarrow> 's client_ops option \<Rightarrow> 's \<Rightarrow> ('s \<times> CheckResult \<times> goerror option) outcome" where
  "ContainerConnectivityCheck_Run h client s =
     (let result = (new_result ''container_connectivity'' h)\<lparr>cr_Success := True\<rparr>
      in if client = None
         then Finishes (s, verdict False ''Docker client is not available for container connectivity check'' result, None)
         else and_then (call client op_ListContainers s) (\<lambda>(s, r). case r of
           Inl err \<Rightarrow> Finishes (s, verdict False (''Failed to list containers: '' @ Error err) result, Some err)
         | Inr containers \<Rightarrow>
             if length containers < 2
             then Finishes (s, detail ''container_count'' (CtxNat (length containers))
                                 (result\<lparr>cr_Message := ''Need at least 2 containers to test connectivity''\<rparr>), None)
             else and_then (group_containers (\<lambda>i. host_order h (i + 1)) 0 containers []) (\<lambda>networkGroups.
               and_then (test_groups (range_over (host_order h 0) networkGroups) client s result 0 0)
                 (\<lambda>(s, result, connectivityIssues, totalTests).
                    let result = detail ''total_tests'' (CtxNat totalTests) result;
                        result = detail ''failed_tests'' (CtxNat connectivityIssues) result
                    in Finishes (s,
                         if connectivityIssues > 0
                         then suggest [''Ensure containers are on the same network'', ''Check network isolation settings'',
                                       ''Verify firewall rules are not blocking container communication'']
                                (verdict False (''Container connectivity issues detected: '' @ show_nat connectivityIssues @
                                   ''/'' @ show_nat totalTests @ '' tests failed'') result)
                         else result\<lparr>cr_Message := ''All container connectivity tests passed ('' @ show_nat totalTests @
                                                    '' tests)''\<rparr>, None)))))"

record port_scan =
  ps_result :: CheckResult
  portConflicts :: "(string, string list) gomap"
  ps_issues :: nat
  checkedPorts :: nat

definition any_address :: "string \<Rightarrow> bool" where
  "any_address ip \<longleftrightarrow> ip = [] \<or> ip = ''0.0.0.0''"

definition port_key :: "Port \<Rightarrow> string" where
  "port_key port =
     (let portKey = show_nat (unat (PublicPort port)) @ ''/'' @ po_Type port
      in if any_address (po_IP port) then portKey else po_IP port @ '':'' @ portKey)"

definition dial_address :: "Port \<Rightarrow> string" where
  "dial_address port =
     (if any_address (po_IP port) then ''127.0.0.1'' else po_IP port) @ '':'' @ show_nat (unat (PublicPort port))"

definition without_slash :: "string \<Rightarrow> string" where
  "without_slash name = (if name \<noteq> [] \<and> hd name = CHR ''/'' then tl name else name)"

text \<open>\<open>dial\<close> is what the attempt to connect to the n-th checked port returns.\<close>

definition scan_port :: "(nat \<Rightarrow> string \<Rightarrow> goerror option) \<Rightarrow> string \<Rightarrow> Port \<Rightarrow> port_scan \<Rightarrow> port_scan" where
  "scan_port dial name port ps =
     (let containerName = without_slash name;
          portNumber = show_nat (unat (PublicPort port));
          portDetail = ''port_'' @ containerName @ ''_'' @ portNumber;
          err = dial (checkedPorts ps) (dial_address port);
          ps = ps\<lparr>checkedPorts := checkedPorts ps + 1,
                  portConflicts := append_to (port_key port) containerName (portConflicts ps)\<rparr>
      in case err of
           Some err \<Rightarrow>
             ps\<lparr>ps_issues := ps_issues ps + 1,
                ps_result := suggest [''Check if container '' @ containerName @ '' is running and healthy'']
                  (detail portDetail (CtxString (''Port '' @ portNumber @ '' not accessible: '' @ Error err)) (ps_result ps))\<rparr>
         | None \<Rightarrow> ps\<lparr>ps_result := detail portDetail (CtxString ''Accessible'') (ps_result ps)\<rparr>)"

fun scan_container ::
    "(nat \<Rightarrow> string \<Rightarrow> goerror option) \<Rightarrow> Container \<Rightarrow> Port list \<Rightarrow> port_scan \<Rightarrow> port_scan outcome" where
  "scan_container dial container [] ps = Finishes ps"
| "scan_container dial container (port # ports) ps =
     (if PublicPort port = 0 then scan_container dial container ports ps
      else case co_Names container of
             [] \<Rightarrow> Crashes
           | name # _ \<Rightarrow> scan_container dial container ports (scan_port dial name port ps))"

fun scan_containers ::
    "(nat \<Rightarrow> string \<Rightarrow> goerror option) \<Rightarrow> Container list \<Rightarrow> port_scan \<Rightarrow> port_scan outcome" where
  "scan_containers dial [] ps = Finishes ps"
| "scan_containers dial (container # cs) ps =
     and_then (scan_container dial container (co_Ports container) ps) (scan_containers dial cs)"

definition report_conflict :: "string \<times> string list \<Rightarrow> nat \<times> CheckResult \<Rightarrow> nat \<times> CheckResult" where
  "report_conflict c acc =
     (case c of (port, names) \<Rightarrow> case acc of (conflictCount, result) \<Rightarrow>
        if length names > 1
        then (conflictCount + 1,
              suggest [''Port conflict on '' @ port @ '': used by '' @ show_strings names]
                (detail (''conflict_'' @ port) (CtxStrings names) result))
        else (conflictCount, result))"

definition port_verdict :: "nat \<Rightarrow> nat \<Rightarrow> nat \<Rightarrow> CheckResult \<Rightarrow> CheckResult" where
  "port_verdict checked issues conflictCount result =
     (let result = detail ''ports_checked'' (CtxNat checked) result;
          result = detail ''ports_with_issues'' (CtxNat issues) result;
          result = detail ''port_conflicts'' (CtxNat conflictCount) result
      in if issues > 0 \<or> conflictCount > 0
         then suggest [''Ensure containers are running and healthy'', ''Check firewall rules for blocked ports'',
                       ''Resolve port conflicts by using different port mappings'']
                (verdict False (''Port binding issues detected: '' @ show_nat issues @ '' inaccessible, '' @
                                show_nat conflictCount @ '' conflicts'') result)
         else if checked = 0 then result\<lparr>cr_Message := ''No exposed ports found to check''\<rparr>
         else result\<lparr>cr_Message := ''All '' @ show_nat checked @ '' exposed ports are accessible and conflict-free''\<rparr>)"

definition PortBindingCheck_Run ::
    "host \<Rightarrow> 's client_ops option \<Rightarrow> 's \<Rightarrow> ('s \<times> CheckResult \<times> goerror option) outcome" where
  "PortBindingCheck_Run h client s =
     (let result = (new_result ''port_binding'' h)\<lparr>cr_Success := True\<rparr>
      in if client = None
         then Finishes (s, verdict False ''Docker client is not available for port binding check'' result, None)
         else and_then (call client op_ListContainers s) (\<lambda>(s, r). case r of
           Inl err \<Rightarrow> Finishes (s, verdict False (''Failed to list containers: '' @ Error err) result, Some err)
         | Inr containers \<Rightarrow>
             and_then (scan_containers (host_dial h) containers
                        \<lparr>ps_result = result, portConflicts = [], ps_issues = 0, checkedPorts = 0\<rparr>) (\<lambda>ps.
               case fold report_conflict (range_over (host_order h 0) (portConflicts ps)) (0, ps_result ps) of
                 (conflictCount, result) \<Rightarrow>
                   Finishes (s, port_verdict (checkedPorts ps) (ps_issues ps) conflictCount result, None))))"

section \<open>The registered checks\<close>

text \<open>The method \<^verbatim>\<open>Run\<close> of the check of a name, in the order of \<^term>\<open>registerDefaultChecks\<close>.\<close>

definition check_runs ::
    "goerror option \<Rightarrow>
     (string \<times> (host \<Rightarrow> 's client_ops option \<Rightarrow> 's \<Rightarrow> ('s \<times> CheckResult \<times> goerror option) outcome)) list" where
  "check_runs ctx =
     [(''daemon_connectivity'', DaemonConnectivityCheck_Run ctx), (''bridge_network'', BridgeNetworkCheck_Run),
      (''ip_forwarding'', IPForwardingCheck_Run), (''iptables'', IptablesCheck_Run),
      (''dns_resolution'', DNSResolutionCheck_Run), (''internal_dns'', InternalDNSCheck_Run),
      (''container_connectivity'', ContainerConnectivityCheck_Run), (''port_binding'', PortBindingCheck_Run),
      (''network_isolation'', NetworkIsolationCheck_Run ctx), (''mtu_consistency'', MTUConsistencyCheck_Run),
      (''subnet_overlap'', SubnetOverlapCheck_Run)]"

lemma check_runs_names: "map fst (check_runs ctx) = map c_Name registerDefaultChecks"
  by (simp add: check_runs_def registerDefaultChecks_def check_of_def)

section \<open>Checks never crash on a working client\<close>

text \<open>\<open>finishes I Q x\<close>: the operation ends in a state of \<open>I\<close> with a result of \<open>Q\<close>.\<close>

definition finishes :: "('s \<Rightarrow> bool) \<Rightarrow> ('r \<Rightarrow> bool) \<Rightarrow> ('s \<times> 'r) outcome \<Rightarrow> bool" where
  "finishes I Q x \<longleftrightarrow> (\<exists>s r. x = Finishes (s, r) \<and> I s \<and> Q r)"

lemma finishes_Finishes [simp]: "finishes I Q (Finishes (s, r)) \<longleftrightarrow> I s \<and> Q r"
  by (simp add: finishes_def)

lemma finishes_bind:
  "finishes I Q x \<Longrightarrow> (\<And>s r. I s \<Longrightarrow> Q r \<Longrightarrow> finishes I R (f (s, r))) \<Longrightarrow> finishes I R (and_then x f)"
  by (auto simp: finishes_def)

lemma result_fields [simp]:
  "cr_CheckName (detail k v r) = cr_CheckName r" "cr_CheckName (suggest xs r) = cr_CheckName r"
  "cr_CheckName (verdict ok msg r) = cr_CheckName r" "cr_CheckName (new_result name h) = name"
  "cr_Success (detail k v r) = cr_Success r" "cr_Success (suggest xs r) = cr_Success r"
  "cr_Success (verdict ok msg r) = ok"
  by (simp_all add: detail_def suggest_def verdict_def new_result_def)

lemma fold_detail_fields [simp]:
  "cr_CheckName (fold (\<lambda>(n, b). detail (f n) (g b)) xs r) = cr_CheckName r"
  by (induction xs arbitrary: r) auto

lemma network_details_fields [simp]:
  "cr_CheckName (fold network_detail ns r) = cr_CheckName r"
  by (induction ns arbitrary: r) (auto simp: network_detail_def)

definition listed_ok :: "Container \<Rightarrow> bool" where
  "listed_ok c \<longleftrightarrow> co_Names c \<noteq> [] \<and> co_Networks c \<noteq> None \<and> 12 \<le> length (co_ID c)"

definition names :: "string \<Rightarrow> CheckResult \<times> 'r \<Rightarrow> bool" where
  "names name x \<longleftrightarrow> cr_CheckName (fst x) = name"

lemma names_Pair [simp]: "names name (r, x) \<longleftrightarrow> cr_CheckName r = name"
  by (simp add: names_def)

lemma call_Some [simp]: "call (Some ops) f s = f ops s"
  by (simp add: call_def)

lemma client_given: "(Some ops = None) = False"
  by simp

lemma scan_container_finishes:
  "co_Names c \<noteq> [] \<Longrightarrow> cr_CheckName (ps_result ps) = n \<Longrightarrow>
   \<exists>ps'. scan_container dial c ports ps = Finishes ps' \<and> cr_CheckName (ps_result ps') = n"
proof (induction ports arbitrary: ps)
  case (Cons port ports)
  then show ?case
    by (auto simp: scan_port_def Let_def split: list.split option.split)
qed simp

lemma scan_containers_finishes:
  "list_all listed_ok cs \<Longrightarrow> cr_CheckName (ps_result ps) = n \<Longrightarrow>
   \<exists>ps'. scan_containers dial cs ps = Finishes ps' \<and> cr_CheckName (ps_result ps') = n"
proof (induction cs arbitrary: ps)
  case (Cons c cs)
  then obtain ps1 where "scan_container dial c (co_Ports c) ps = Finishes ps1" "cr_CheckName (ps_result ps1) = n"
    using scan_container_finishes [of c ps n dial "co_Ports c"] by (auto simp: listed_ok_def)
  with Cons show ?case by simp
qed simp

lemma group_containers_finishes:
  "list_all listed_ok cs \<Longrightarrow> \<exists>g'. group_containers ord i cs g = Finishes g'"
proof (induction cs arbitrary: i g)
  case (Cons c cs)
  then show ?case by (auto simp: listed_ok_def)
qed simp

lemma report_conflicts_name:
  "cr_CheckName (snd (fold report_conflict cs acc)) = cr_CheckName (snd acc)"
  by (induction cs arbitrary: acc) (auto simp: report_conflict_def split: prod.split)

locale working_client =
  fixes ops :: "'s client_ops" and I :: "'s \<Rightarrow> bool"
  assumes ping: "I s \<Longrightarrow> finishes I (\<lambda>_. True) (op_Ping ops s)"
    and list: "I s \<Longrightarrow> finishes I (\<lambda>r. case r of Inl _ \<Rightarrow> True | Inr cs \<Rightarrow> list_all listed_ok cs) (op_ListContainers ops s)"
    and exec: "I s \<Longrightarrow> finishes I (\<lambda>_. True) (op_ExecInContainer ops cid cmd s)"
    and config: "I s \<Longrightarrow> finishes I (\<lambda>_. True) (op_GetContainerNetworkConfig ops cid s)"
    and info: "I s \<Longrightarrow> finishes I (\<lambda>_. True) (op_GetNetworkInfo ops s)"
begin

lemma daemon: "I s \<Longrightarrow> finishes I (names ''daemon_connectivity'') (DaemonConnectivityCheck_Run ctx h (Some ops) s)"
  by (auto simp: DaemonConnectivityCheck_Run_def Let_def split: option.split intro!: finishes_bind [OF ping])

lemma isolation: "I s \<Longrightarrow> finishes I (names ''network_isolation'') (NetworkIsolationCheck_Run ctx h (Some ops) s)"
  by (auto simp: NetworkIsolationCheck_Run_def Let_def split: option.split sum.split intro!: finishes_bind [OF info])

lemma bridge: "I s \<Longrightarrow> finishes I (names ''bridge_network'') (BridgeNetworkCheck_Run h (Some ops) s)"
  by (auto simp: BridgeNetworkCheck_Run_def Let_def split: option.split sum.split list.split
      intro!: finishes_bind [OF info])

lemma subnet: "I s \<Longrightarrow> finishes I (names ''subnet_overlap'') (SubnetOverlapCheck_Run h (Some ops) s)"
  by (auto simp: SubnetOverlapCheck_Run_def Let_def split: sum.split intro!: finishes_bind [OF info])

lemma resolution:
  assumes "I s" "co_Names c \<noteq> []" "cr_CheckName r = n"
  shows "finishes I (names n) (test_resolution (Some ops) c s r)"
  using assms
  by (auto simp: test_resolution_def split: list.split intro!: finishes_bind [OF exec])

lemma resolutions:
  "I s \<Longrightarrow> list_all listed_ok cs \<Longrightarrow> cr_CheckName r = n \<Longrightarrow> finishes I (names n) (test_resolutions (Some ops) cs s r t)"
proof (induction cs arbitrary: s r t)
  case (Cons c cs)
  then show ?case
    by (auto simp: listed_ok_def intro!: finishes_bind [OF resolution [of s c r n]])
qed simp

lemma dns:
  assumes "I s"
  shows "finishes I (names ''dns_resolution'') (DNSResolutionCheck_Run h (Some ops) s)"
  unfolding DNSResolutionCheck_Run_def Let_def call_Some
proof (rule finishes_bind [OF list [OF assms]], goal_cases)
  case (1 s r)
  show ?case
  proof (cases r)
    case (Inr cs)
    with 1 have cs: "list_all listed_ok (take 3 cs)" by (auto simp: list_all_iff dest: in_set_takeD)
    show ?thesis using Inr 1 cs by (auto intro!: finishes_bind [OF resolutions [where n = "''dns_resolution''"]])
  qed (use 1 in auto)
qed

lemma test_names: "I s \<Longrightarrow> cr_CheckName r = n \<Longrightarrow> finishes I (names n) (test_names nw a b (Some ops) s r)"
  by (auto simp: test_names_def intro!: finishes_bind [OF exec])

lemma test_networks:
  "I s \<Longrightarrow> cr_CheckName r = n \<Longrightarrow> finishes I (names n) (test_networks ord i ns (Some ops) s r k)"
proof (induction ns arbitrary: i s r k)
  case (Cons nw ns)
  then show ?case
    by (auto split: list.split intro!: finishes_bind [OF test_names [where n = n]])
qed simp

lemma internal_dns: "I s \<Longrightarrow> finishes I (names ''internal_dns'') (InternalDNSCheck_Run h (Some ops) s)"
  by (auto simp: InternalDNSCheck_Run_def Let_def split: sum.split
      intro!: finishes_bind [OF info] finishes_bind [OF test_networks [where n = "''internal_dns''"]])

lemma test_pair: "I s \<Longrightarrow> cr_CheckName r = n \<Longrightarrow> finishes I (names n) (test_pair nw a b (Some ops) s r)"
  by (auto simp: test_pair_def Let_def ping_failed_def split: sum.split option.split
      intro!: finishes_bind [OF config] finishes_bind [OF exec])

lemma test_groups:
  "I s \<Longrightarrow> cr_CheckName r = n \<Longrightarrow> finishes I (names n) (test_groups gs (Some ops) s r k m)"
proof (induction gs arbitrary: s r k m)
  case (Cons g gs)
  then show ?case
    by (cases g) (auto split: list.split intro!: finishes_bind [OF test_pair [where n = n]])
qed simp

lemma connectivity:
  assumes "I s"
  shows "finishes I (names ''container_connectivity'') (ContainerConnectivityCheck_Run h (Some ops) s)"
  unfolding ContainerConnectivityCheck_Run_def Let_def call_Some client_given if_False
proof (rule finishes_bind [OF list [OF assms]], goal_cases)
  case (1 s r)
  show ?case
  proof (cases r)
    case (Inr cs)
    with 1 obtain g where "group_containers (\<lambda>i. host_order h (i + 1)) 0 cs [] = Finishes g"
      using group_containers_finishes [of cs] by fastforce
    then show ?thesis
      using Inr 1 by (auto intro!: finishes_bind [OF test_groups [where n = "''container_connectivity''"]])
  qed (use 1 in auto)
qed

lemma ports:
  assumes "I s"
  shows "finishes I (names ''port_binding'') (PortBindingCheck_Run h (Some ops) s)"
  unfolding PortBindingCheck_Run_def Let_def call_Some client_given if_False
proof (rule finishes_bind [OF list [OF assms]], goal_cases)
  case (1 s r)
  show ?case
  proof (cases r)
    case (Inr cs)
    let ?ps = "\<lparr>ps_result = (new_result ''port_binding'' h)\<lparr>cr_Success := True\<rparr>, portConflicts = [],
                 ps_issues = 0, checkedPorts = 0\<rparr>"
    from Inr 1 obtain ps where "scan_containers (host_dial h) cs ?ps = Finishes ps"
      "cr_CheckName (ps_result ps) = ''port_binding''"
      using scan_containers_finishes [of cs ?ps] by (auto simp: new_result_def)
    moreover have "cr_CheckName (port_verdict a b c x) = cr_CheckName x" for a b c x
      by (simp add: port_verdict_def Let_def)
    ultimately show ?thesis
      using Inr 1 report_conflicts_name [of "range_over (host_order h 0) (portConflicts ps)" "(0, ps_result ps)"]
      by (cases "fold report_conflict (range_over (host_order h 0) (portConflicts ps)) (0, ps_result ps)") simp
  qed (use 1 in \<open>auto simp: new_result_def\<close>)
qed

lemma host_checks:
  assumes "I s"
  shows "finishes I (names ''ip_forwarding'') (IPForwardingCheck_Run h (Some ops) s)"
    "finishes I (names ''mtu_consistency'') (MTUConsistencyCheck_Run h (Some ops) s)"
    "finishes I (names ''iptables'') (IptablesCheck_Run h (Some ops) s)"
  using assms
  by (auto simp: IPForwardingCheck_Run_def MTUConsistencyCheck_Run_def IptablesCheck_Run_def Let_def
      split: sum.split option.split prod.split)

lemma checks_finish:
  "I s \<Longrightarrow> list_all (\<lambda>(name, run). finishes I (names name) (run h (Some ops) s)) (check_runs ctx)"
  by (simp add: check_runs_def daemon isolation bridge subnet dns internal_dns connectivity ports host_checks)

end

section \<open>The checks on the program's client\<close>

text \<open>What the Docker daemon and the rest of the environment answer to the n-th call of the client.\<close>

record call_world =
  cw_exec :: exec_env
  cw_cache :: cache_env
  cw_ping :: "nat \<Rightarrow> goerror option"
  cw_list :: "nat \<Rightarrow> goerror + Container list"
  cw_networks :: "nat \<Rightarrow> goerror + Docker_Client.Summary list"
  cw_envs :: "nat \<Rightarrow> exec_env"
  cw_inspects :: "nat \<Rightarrow> nat \<Rightarrow> goerror + Inspect"
  cw_container :: "nat \<Rightarrow> goerror + container_json"
  cw_create :: "nat \<Rightarrow> goerror + string"
  cw_attach :: "nat \<Rightarrow> goerror + string"

type_synonym docker_state = "(nat \<Rightarrow> call_world) \<times> Container Client"

definition next_call ::
    "(call_world \<Rightarrow> Container Client \<Rightarrow> (Container Client \<times> 'r) outcome) \<Rightarrow> docker_state \<Rightarrow> (docker_state \<times> 'r) outcome" where
  "next_call f s = (case s of (w, c) \<Rightarrow> and_then (f (w 0) c) (\<lambda>(c, r). Finishes ((\<lambda>n. w (n + 1), c), r)))"

definition docker_client :: "docker_state client_ops" where
  "docker_client =
     \<lparr>op_Ping = next_call (\<lambda>w. Client_Ping (cw_exec w) (cw_ping w)),
      op_ListContainers = next_call (\<lambda>w. Client_ListContainers (cw_exec w) (cw_cache w) (cw_list w)),
      op_ExecInContainer = (\<lambda>containerID cmd. next_call (\<lambda>w. Client_ExecInContainer (cw_exec w) (cw_create w) (cw_attach w))),
      op_GetContainerNetworkConfig = (\<lambda>containerID. next_call (\<lambda>w.
        Client_GetContainerNetworkConfig (cw_exec w) (cw_cache w) (cw_container w) containerID)),
      op_GetNetworkInfo = next_call (\<lambda>w.
        Client_GetNetworkInfo (cw_exec w) (cw_cache w) (cw_networks w) (cw_envs w) (cw_inspects w))\<rparr>"

text \<open>
  A daemon that answers as its API documents: a listed container has a name, an identifier of at least
  twelve digits and network settings, an inspected one has its parts. It may fail any call.
\<close>

definition answers_ok :: "call_world \<Rightarrow> bool" where
  "answers_ok w \<longleftrightarrow> (\<forall>n cs. cw_list w n = Inr cs \<longrightarrow> list_all listed_ok cs) \<and>
     (\<forall>n c. cw_container w n = Inr c \<longrightarrow> complete c)"

definition standard_state :: "docker_state \<Rightarrow> bool" where
  "standard_state s \<longleftrightarrow> snd s = \<lparr>cl_docker = True, cl_enhanced = None\<rparr> \<and> (\<forall>n. answers_ok (fst s n))"

lemma standard_call:
  assumes "standard_state s" "\<And>w. answers_ok w \<Longrightarrow> \<exists>r. f w (snd s) = Finishes (snd s, r) \<and> Q r"
  shows "finishes standard_state Q (next_call f s)"
proof -
  obtain w c where s: "s = (w, c)" by fastforce
  with assms obtain r where "f (w 0) c = Finishes (c, r)" "Q r" by (auto simp: standard_state_def)
  with s assms(1) show ?thesis by (simp add: next_call_def standard_state_def)
qed

interpretation docker: working_client docker_client standard_state
proof unfold_locales
  fix s cid cmd assume s: "standard_state s"
  then have c: "snd s = \<lparr>cl_docker = True, cl_enhanced = None\<rparr>" by (simp add: standard_state_def)
  show "finishes standard_state (\<lambda>_. True) (op_Ping docker_client s)"
    by (simp add: docker_client_def) (rule standard_call [OF s], simp add: Client_Ping_def delegate_def c)
  show "finishes standard_state (\<lambda>r. case r of Inl _ \<Rightarrow> True | Inr cs \<Rightarrow> list_all listed_ok cs)
          (op_ListContainers docker_client s)"
    by (simp add: docker_client_def)
      (rule standard_call [OF s], auto simp: Client_ListContainers_def delegate_def c answers_ok_def split: sum.split)
  show "finishes standard_state (\<lambda>_. True) (op_ExecInContainer docker_client cid cmd s)"
    by (simp add: docker_client_def)
      (rule standard_call [OF s], auto simp: Client_ExecInContainer_def delegate_def c split: sum.split)
  show "finishes standard_state (\<lambda>_. True) (op_GetNetworkInfo docker_client s)"
    by (simp add: docker_client_def) (rule standard_call [OF s], simp add: Client_GetNetworkInfo_def delegate_def c)
  show "finishes standard_state (\<lambda>_. True) (op_GetContainerNetworkConfig docker_client cid s)"
  proof (simp add: docker_client_def, rule standard_call [OF s])
    fix w assume w: "answers_ok w"
    show "\<exists>r. Client_GetContainerNetworkConfig (cw_exec w) (cw_cache w) (cw_container w) cid (snd s) =
                Finishes (snd s, r) \<and> True"
    proof (cases "cw_container w 0")
      case (Inr j)
      with w have "complete j" by (auto simp: answers_ok_def)
      then obtain i where "container_network_info (ca_endpoints (cw_cache w) 0) j = Finishes i" by (rule complete_info)
      then show ?thesis by (simp add: Client_GetContainerNetworkConfig_def delegate_def c Inr)
    qed (simp add: Client_GetContainerNetworkConfig_def delegate_def c)
  qed
qed

section \<open>The checks in a run of the engine\<close>

text \<open>
  The outcomes of the checks that run one after the other on the same client; a check that crashes or
  hangs leaves none.
\<close>

fun check_outcomes ::
    "'s client_ops option \<Rightarrow> (nat \<Rightarrow> host) \<Rightarrow> nat \<Rightarrow>
     (string \<times> (host \<Rightarrow> 's client_ops option \<Rightarrow> 's \<Rightarrow> ('s \<times> CheckResult \<times> goerror option) outcome)) list \<Rightarrow>
     's \<Rightarrow> run_outcome list outcome" where
  "check_outcomes client hosts i [] s = Finishes []"
| "check_outcomes client hosts i ((name, run) # runs) s =
     and_then (run (hosts i) client s) (\<lambda>(s, r, err).
       and_then (check_outcomes client hosts (i + 1) runs s) (\<lambda>outs. Finishes (Returns (Some r) err # outs)))"

definition outcome_named :: "string \<Rightarrow> run_outcome \<Rightarrow> bool" where
  "outcome_named name out \<longleftrightarrow> (\<exists>r err. out = Returns (Some r) err \<and> cr_CheckName r = name)"

lemma outcome_named_Returns [simp]: "outcome_named name (Returns (Some r) err) \<longleftrightarrow> cr_CheckName r = name"
  by (simp add: outcome_named_def)

lemma check_outcomes_finish:
  assumes "\<And>s h. I s \<Longrightarrow> list_all (\<lambda>(name, run). finishes I (names name) (run h client s)) runs" "I s"
  shows "\<exists>outs. check_outcomes client hosts i runs s = Finishes outs \<and> list_all2 outcome_named (map fst runs) outs"
  using assms
proof (induction runs arbitrary: i s)
  case (Cons nr runs)
  obtain name run where nr: "nr = (name, run)" by fastforce
  from Cons.prems nr have "finishes I (names name) (run (hosts i) client s)" by simp
  then obtain s' r err where run: "run (hosts i) client s = Finishes (s', r, err)" "I s'" "cr_CheckName r = name"
    by (auto simp: finishes_def)
  obtain outs where "check_outcomes client hosts (i + 1) runs s' = Finishes outs"
    "list_all2 outcome_named (map fst runs) outs"
    using Cons.IH [OF _ run(2)] Cons.prems(1) by fastforce
  with run nr show ?case by simp
qed simp

lemma runCheckSafely_named:
  "outcome_named (c_Name check) out \<Longrightarrow> \<exists>r. runCheckSafely now d check out = Some r \<and> cr_CheckName r = c_Name check"
  by (auto simp: outcome_named_def runCheckSafely_def failed_result_def split: option.split)

lemma failed_result_name [simp]: "cr_CheckName (failed_result now name msg) = name"
  by (simp add: failed_result_def)

lemma seq_loop_named:
  assumes "\<forall>j < length cs. outcome_named (c_Name (cs ! j)) (ce_outcome env (i + j))"
  shows "\<exists>e' rs. seq_loop tb env i cs e = Some e' \<and> Checks (eng_results e') = Checks (eng_results e) @ map Some rs \<and>
           map cr_CheckName rs = take (length rs) (map c_Name cs)"
  using assms
proof (induction cs arbitrary: i e)
  case Nil
  then show ?case by (intro exI [of _ e] exI [of _ "[]"]) simp
next
  case (Cons c cs)
  have tl: "\<forall>j < length cs. outcome_named (c_Name (cs ! j)) (ce_outcome env (i + 1 + j))"
    using Cons.prems by (metis One_nat_def Suc_less_eq add.assoc length_Cons nth_Cons_Suc plus_1_eq_Suc)
  have step: ?case if "seq_loop tb env i (c # cs) e = seq_loop tb env (i + 1) cs e1"
    "Checks (eng_results e1) = Checks (eng_results e) @ [Some r]" "cr_CheckName r = c_Name c" for e1 r
  proof -
    obtain e' rs where "seq_loop tb env (i + 1) cs e1 = Some e'"
      "Checks (eng_results e') = Checks (eng_results e1) @ map Some rs" "map cr_CheckName rs = take (length rs) (map c_Name cs)"
      using Cons.IH [OF tl] by blast
    with that show ?thesis by (intro exI [of _ e'] exI [of _ "r # rs"]) simp
  qed
  obtain rl err where w: "Wait tb (ce_ctx env) (ce_wait env i) (ce_now env i) (rateLimiter e) = (rl, err)" by fastforce
  show ?case
  proof (cases err)
    case (Some er)
    let ?r = "failed_result (ce_now env i) (c_Name c) (''Rate limit error: '' @ Error er)"
    let ?e1 = "add_result (Some ?r) (e\<lparr>rateLimiter := rl\<rparr>)"
    have "seq_loop tb env i (c # cs) e = seq_loop tb env (i + 1) cs ?e1" using w Some by simp
    moreover have "Checks (eng_results ?e1) = Checks (eng_results e) @ [Some ?r]" by (simp add: add_result_def)
    ultimately show ?thesis by (rule step [OF _ _ failed_result_name])
  next
    case None
    obtain r where r: "runCheckSafely (ce_now env i) (ce_duration env i) c (ce_outcome env i) = Some r"
      "cr_CheckName r = c_Name c"
      using Cons.prems runCheckSafely_named [of c "ce_outcome env i"] by fastforce
    let ?r = "r\<lparr>cr_Duration := ce_duration env i\<rparr>" and ?e1 = "add_result (Some (r\<lparr>cr_Duration := ce_duration env i\<rparr>)) (e\<lparr>rateLimiter := rl\<rparr>)"
    have e1: "Checks (eng_results ?e1) = Checks (eng_results e) @ [Some ?r]" "cr_CheckName ?r = c_Name c"
      using r(2) by (simp_all add: add_result_def)
    show ?thesis
    proof (cases "\<not> cr_Success ?r \<and> shouldStopOnFailure c")
      case True
      then have "seq_loop tb env i (c # cs) e = Some ?e1" using w None r by (simp add: Let_def)
      then show ?thesis using e1 by (intro exI [of _ ?e1] exI [of _ "[?r]"]) simp
    next
      case False
      then have "seq_loop tb env i (c # cs) e = seq_loop tb env (i + 1) cs ?e1" using w None r by (auto simp: Let_def)
      then show ?thesis using e1 by (rule step)
    qed
  qed
qed

section \<open>Overlapping subnets\<close>

lemma find_overlaps_none:
  "find_overlaps xs = [] \<longleftrightarrow> sorted_wrt (\<lambda>(_, a) (_, b). \<not> subnetsOverlap a b) xs"
  by (induction xs rule: find_overlaps.induct) (auto simp: filter_empty_conv)

lemma map_filter_Some: "y \<in> set (List.map_filter f xs) \<longleftrightarrow> (\<exists>x \<in> set xs. f x = Some y)"
  by (force simp: List.map_filter_def image_iff)

lemma collected_subnet: "(n, a) \<in> set (collect_subnets networks) \<Longrightarrow> \<exists>t. ParseCIDR t = Some a"
  by (auto simp: collect_subnets_def map_filter_Some split: if_splits)

lemma subnetsOverlap_iff:
  assumes "x \<in> set (collect_subnets networks)" "y \<in> set (collect_subnets networks)"
  shows "subnetsOverlap (snd x) (snd y) \<longleftrightarrow> (\<exists>ip. Contains (snd x) ip \<and> Contains (snd y) ip)"
proof -
  obtain s t where "ParseCIDR s = Some (snd x)" "ParseCIDR t = Some (snd y)"
    using assms collected_subnet by (metis prod.collapse)
  then show ?thesis unfolding subnetsOverlap_def by (rule contains_base_iff)
qed

definition disjoint_subnets :: "NetworkDiagnostic list \<Rightarrow> bool" where
  "disjoint_subnets networks \<longleftrightarrow>
     (\<forall>i j ip. i < j \<longrightarrow> j < length (collect_subnets networks) \<longrightarrow>
        \<not> (Contains (snd (collect_subnets networks ! i)) ip \<and> Contains (snd (collect_subnets networks ! j)) ip))"

lemma find_overlaps_disjoint: "find_overlaps (collect_subnets networks) = [] \<longleftrightarrow> disjoint_subnets networks"
proof -
  let ?xs = "collect_subnets networks"
  have "\<not> subnetsOverlap (snd (?xs ! i)) (snd (?xs ! j)) \<longleftrightarrow>
        (\<forall>ip. \<not> (Contains (snd (?xs ! i)) ip \<and> Contains (snd (?xs ! j)) ip))" if "i < j" "j < length ?xs" for i j
    using subnetsOverlap_iff [of "?xs ! i" networks "?xs ! j"] that by simp
  then show ?thesis
    by (auto simp: find_overlaps_none sorted_wrt_iff_nth_less disjoint_subnets_def case_prod_beta)
qed

section \<open>Exposed ports\<close>

definition exposed :: "Container list \<Rightarrow> (string \<times> Port) list" where
  "exposed cs = concat (map (\<lambda>c. map (Pair (hd (co_Names c))) (filter (\<lambda>p. PublicPort p \<noteq> 0) (co_Ports c))) cs)"

definition exposures_named :: "Container list \<Rightarrow> bool" where
  "exposures_named cs \<longleftrightarrow> list_all (\<lambda>c. co_Names c \<noteq> [] \<or> list_all (\<lambda>p. PublicPort p = 0) (co_Ports c)) cs"

abbreviation scan_all where
  "scan_all dial \<equiv> fold (\<lambda>(name, port). scan_port dial name port)"

lemma scan_container_fold:
  "co_Names c \<noteq> [] \<or> list_all (\<lambda>p. PublicPort p = 0) ports \<Longrightarrow>
   scan_container dial c ports ps =
     Finishes (scan_all dial (map (Pair (hd (co_Names c))) (filter (\<lambda>p. PublicPort p \<noteq> 0) ports)) ps)"
  by (induction ports arbitrary: ps) (auto split: list.split)

lemma scan_containers_fold:
  "exposures_named cs \<Longrightarrow> scan_containers dial cs ps = Finishes (scan_all dial (exposed cs) ps)"
  by (induction cs arbitrary: ps) (auto simp: exposures_named_def exposed_def scan_container_fold)

definition users :: "(string \<times> Port) list \<Rightarrow> string \<Rightarrow> string list" where
  "users xs k = map (\<lambda>(name, _). without_slash name) (filter (\<lambda>(_, port). port_key port = k) xs)"

lemma scan_port_fields:
  "checkedPorts (scan_port dial name port ps) = checkedPorts ps + 1"
  "ps_issues (scan_port dial name port ps) =
     ps_issues ps + (if dial (checkedPorts ps) (dial_address port) = None then 0 else 1)"
  "portConflicts (scan_port dial name port ps) = append_to (port_key port) (without_slash name) (portConflicts ps)"
  "cr_Success (ps_result (scan_port dial name port ps)) = cr_Success (ps_result ps)"
  by (auto simp: scan_port_def Let_def split: option.split)

lemma scan_all_fields:
  fixes xs dial
  defines "start \<equiv> \<lambda>r. \<lparr>ps_result = r, portConflicts = [], ps_issues = 0, checkedPorts = 0\<rparr>"
  shows "checkedPorts (scan_all dial xs (start r)) = length xs \<and>
    (ps_issues (scan_all dial xs (start r)) = 0 \<longleftrightarrow> (\<forall>i < length xs. dial i (dial_address (snd (xs ! i))) = None)) \<and>
    gomap_ok (portConflicts (scan_all dial xs (start r))) \<and>
    (\<forall>k. map_of (portConflicts (scan_all dial xs (start r))) k = (if users xs k = [] then None else Some (users xs k))) \<and>
    cr_Success (ps_result (scan_all dial xs (start r))) = cr_Success r"
proof (induction xs rule: rev_induct)
  case Nil
  then show ?case by (simp add: start_def users_def)
next
  case (snoc x xs)
  obtain n p where x: "x = (n, p)" by fastforce
  have u: "users (xs @ [x]) k = (if port_key p = k then users xs k @ [without_slash n] else users xs k)" for k
    by (simp add: users_def x)
  define ps where "ps = scan_all dial xs (start r)"
  have ps: "scan_all dial (xs @ [x]) (start r) = scan_port dial n p ps" by (simp add: ps_def x)
  from snoc have IH: "checkedPorts ps = length xs"
    "ps_issues ps = 0 \<longleftrightarrow> (\<forall>i < length xs. dial i (dial_address (snd (xs ! i))) = None)"
    "gomap_ok (portConflicts ps)"
    "map_of (portConflicts ps) k = (if users xs k = [] then None else Some (users xs k))"
    "cr_Success (ps_result ps) = cr_Success r" for k
    unfolding ps_def by blast+
  have "ps_issues (scan_port dial n p ps) = 0 \<longleftrightarrow>
        (\<forall>i < length (xs @ [x]). dial i (dial_address (snd ((xs @ [x]) ! i))) = None)"
    by (auto simp: scan_port_fields IH(1, 2) x nth_append less_Suc_eq)
  moreover have "map_of (portConflicts (scan_port dial n p ps)) k =
        (if users (xs @ [x]) k = [] then None else Some (users (xs @ [x]) k))" for k
    by (simp add: scan_port_fields append_to_def update_conv' IH(4) u)
  ultimately show ?case
    unfolding ps by (simp add: scan_port_fields append_to_def IH(1, 3, 5))
qed

lemma report_conflicts:
  "fst (fold report_conflict cs (n, r)) = n + length (filter (\<lambda>(_, names). 1 < length names) cs)"
  "cr_Success (snd (fold report_conflict cs (n, r))) = cr_Success r"
  by (induction cs arbitrary: n r) (simp_all add: report_conflict_def split: prod.split)

lemma users_distinct: "(\<forall>k. length (users xs k) \<le> 1) \<longleftrightarrow> distinct (map (\<lambda>(_, p). port_key p) xs)"
proof (induction xs)
  case (Cons x xs)
  obtain n p where x: "x = (n, p)" by fastforce
  let ?k = "port_key p"
  have u: "length (users (x # xs) k) = (if ?k = k then Suc (length (users xs k)) else length (users xs k))" for k
    by (simp add: users_def x)
  have e: "users xs ?k = [] \<longleftrightarrow> ?k \<notin> set (map (\<lambda>(_, p). port_key p) xs)"
    by (force simp: users_def filter_empty_conv)
  have "(\<forall>k. length (users (x # xs) k) \<le> 1) \<longleftrightarrow> users xs ?k = [] \<and> (\<forall>k. length (users xs k) \<le> 1)"
  proof
    assume *: "\<forall>k. length (users (x # xs) k) \<le> 1"
    have "length (users xs k) \<le> 1" for k using spec [OF *, of k] unfolding u by (simp split: if_splits)
    moreover have "users xs ?k = []" using spec [OF *, of ?k] unfolding u by simp
    ultimately show "users xs ?k = [] \<and> (\<forall>k. length (users xs k) \<le> 1)" by simp
  next
    assume "users xs ?k = [] \<and> (\<forall>k. length (users xs k) \<le> 1)"
    then show "\<forall>k. length (users (x # xs) k) \<le> 1" unfolding u by simp
  qed
  with Cons e show ?case by (simp add: x)
qed (simp add: users_def)

section \<open>Oddities\<close>

text \<open>
  The predefined network \<^verbatim>\<open>none\<close> is local and not internal, so a host with it always has isolation
  issues: the check excludes \<^verbatim>\<open>bridge\<close> and \<^verbatim>\<open>host\<close>, but not \<^verbatim>\<open>none\<close>.
\<close>

lemma none_network_flagged:
  assumes "op_GetNetworkInfo ops s = Finishes (s', Inr networks)" "net \<in> set networks"
    "nd_Name net = ''none''" "Scope net = ''local''" "\<not> Internal net"
  shows "\<exists>r. NetworkIsolationCheck_Run None h (Some ops) s = Finishes (s', r, None) \<and> \<not> cr_Success r"
proof -
  have "filter isolation_warning networks \<noteq> []"
    using assms(2-5) by (auto simp: filter_empty_conv isolation_warning_def)
  then show ?thesis using assms(1) by (simp add: NetworkIsolationCheck_Run_def Let_def)
qed

text \<open>The address of a port bound to IPv6 is not one that \<^verbatim>\<open>net.Dial\<close> takes: it needs brackets.\<close>

lemma ipv6_port_address:
  "dial_address \<lparr>po_IP = ''::'', PublicPort = 8080, po_Type = ''tcp''\<rparr> = '':::8080''"
  by (simp add: dial_address_def any_address_def show_nat.simps digit_char_def)

text \<open>Without a client some checks succeed, others panic.\<close>

lemma nil_client:
  "\<exists>r. DaemonConnectivityCheck_Run None h None s = Finishes (s, r, None) \<and> cr_Success r"
  "\<exists>r. NetworkIsolationCheck_Run None h None s = Finishes (s, r, None) \<and> cr_Success r"
  "BridgeNetworkCheck_Run h None s = Crashes" "SubnetOverlapCheck_Run h None s = Crashes"
  "DNSResolutionCheck_Run h None s = Crashes" "InternalDNSCheck_Run h None s = Crashes"
  by (simp_all add: DaemonConnectivityCheck_Run_def NetworkIsolationCheck_Run_def BridgeNetworkCheck_Run_def
      SubnetOverlapCheck_Run_def DNSResolutionCheck_Run_def InternalDNSCheck_Run_def call_def Let_def)

text \<open>The MTU of a bridge that is missing is consistent.\<close>

lemma mtu_without_bridge:
  "host_interface h ''docker0'' = Inl err \<Longrightarrow>
   \<exists>r. MTUConsistencyCheck_Run h client s = Finishes (s, r, None) \<and> cr_Success r"
  by (simp add: MTUConsistencyCheck_Run_def Let_def)

section \<open>Properties\<close>

text \<open>
  C9: On a new standard client and with a daemon that answers as its API documents, or fails, none of
  the eleven registered checks panics or blocks, whatever the host answers and in whatever order maps
  are visited; and a sequential run of a new engine over their outcomes ends with a result under the
  name of each check it ran, in the order of registration.
\<close>

theorem default_checks_complete:
  assumes "NewClient now None None = Finishes (Inr c)" "\<forall>n. answers_ok (w n)"
  shows "\<exists>outs. check_outcomes (Some docker_client) hosts 0 (check_runs ctx) (w, c) = Finishes outs \<and>
     (\<exists>e' rs. runSequential tb (env\<lparr>ce_outcome := (!) outs\<rparr>) (NewEngine tb numCPU conf) = Some e' \<and>
        Checks (eng_results e') = map Some rs \<and>
        map cr_CheckName rs = take (length rs) (map c_Name registerDefaultChecks))"
proof -
  have st: "standard_state (w, c)"
    using assms by (auto simp: NewClient_def NewClientWithOptions_def new_standard_client_def standard_state_def)
  obtain outs where outs: "check_outcomes (Some docker_client) hosts 0 (check_runs ctx) (w, c) = Finishes outs"
    "list_all2 outcome_named (map c_Name registerDefaultChecks) outs"
    using check_outcomes_finish [OF docker.checks_finish st] unfolding check_runs_names by blast
  let ?e = "NewEngine tb numCPU conf" and ?env = "env\<lparr>ce_outcome := (!) outs\<rparr>"
  have e: "checks ?e = registerDefaultChecks" "Checks (eng_results ?e) = []"
    by (simp_all add: NewEngine_def Let_def)
  have "\<forall>j < length registerDefaultChecks. outcome_named (c_Name (registerDefaultChecks ! j)) (ce_outcome ?env (0 + j))"
    using outs(2) by (auto simp: list_all2_conv_all_nth)
  from seq_loop_named [OF this, of tb ?e] outs(1) e show ?thesis by (auto simp: runSequential_def)
qed

definition web_container :: Container where
  "web_container =
     \<lparr>co_ID = ''4f5e8c1a2b3d4e5f'', co_Names = [''/web''], co_Networks = Some [(''bridge'', ())],
      co_Ports = [\<lparr>po_IP = [], PublicPort = 8080, po_Type = ''tcp''\<rparr>,
                  \<lparr>po_IP = ''0.0.0.0'', PublicPort = 8080, po_Type = ''tcp''\<rparr>,
                  \<lparr>po_IP = [], PublicPort = 0, po_Type = ''udp''\<rparr>]\<rparr>"

definition quiet_world :: call_world where
  "quiet_world =
     \<lparr>cw_exec = quiet_env, cw_cache = quiet_cache, cw_ping = (\<lambda>_. None), cw_list = (\<lambda>_. Inr [web_container]),
      cw_networks = (\<lambda>_. Inr []), cw_envs = (\<lambda>_. quiet_env), cw_inspects = (\<lambda>_ _. Inl Canceled),
      cw_container = (\<lambda>_. Inl Canceled), cw_create = (\<lambda>_. Inr ''1''), cw_attach = (\<lambda>_. Inr ''ok'')\<rparr>"

definition quiet_host :: host where
  "quiet_host =
     \<lparr>host_lookup = None, host_interface = (\<lambda>_. Inl Canceled), host_sysctl = Inr ''1'', host_iptables = ([], None),
      host_nat = [], host_dial = (\<lambda>_ _. None), host_order = (\<lambda>_. []), host_now = 5, host_later = 6\<rparr>"

theorem default_checks_complete_witness:
  "\<exists>outs. check_outcomes (Some docker_client) (\<lambda>_. quiet_host) 0 (check_runs None)
     (\<lambda>_. quiet_world, \<lparr>cl_docker = True, cl_enhanced = None\<rparr>) = Finishes outs"
proof -
  have "answers_ok quiet_world" by (simp add: answers_ok_def quiet_world_def listed_ok_def web_container_def)
  then show ?thesis
    using default_checks_complete [of 0 "\<lparr>cl_docker = True, cl_enhanced = None\<rparr>" "\<lambda>_. quiet_world" "\<lambda>_. quiet_host" None
        counting_bucket quick_env 4 None]
    by (auto simp: NewClient_def NewClientWithOptions_def new_standard_client_def)
qed

text \<open>
  C12: The subnet check is exact: it succeeds if and only if no two of the subnets that could be parsed,
  IPv4 or IPv6, have an address in common, although it only compares their base addresses.
\<close>

theorem subnet_check_exact:
  assumes "op_GetNetworkInfo ops s = Finishes (s', Inr networks)"
  shows "\<exists>r. SubnetOverlapCheck_Run h (Some ops) s = Finishes (s', r, None) \<and>
             (cr_Success r \<longleftrightarrow> disjoint_subnets networks)"
  using assms by (simp add: SubnetOverlapCheck_Run_def Let_def find_overlaps_disjoint)

definition sample_network :: "string \<Rightarrow> string \<Rightarrow> NetworkDiagnostic" where
  "sample_network name subnet =
     \<lparr>nd_Name = name, nd_ID = [], Driver = ''bridge'', Scope = ''local'', Internal = False,
      nd_IPAM = \<lparr>ic_Driver = ''default'', Configs = [\<lparr>Subnet = subnet, Gateway = []\<rparr>]\<rparr>,
      nd_Containers = [], nd_Error = []\<rparr>"

definition sample_networks :: "NetworkDiagnostic list" where
  "sample_networks = [sample_network ''a'' ''10.1.0.0/16'', sample_network ''b'' ''10.2.0.0/16'', sample_network ''c'' ''10.1.2.9/24'']"

definition sample_client :: "unit client_ops" where
  "sample_client =
     \<lparr>op_Ping = (\<lambda>s. Finishes (s, None)), op_ListContainers = (\<lambda>s. Finishes (s, Inr [web_container])),
      op_ExecInContainer = (\<lambda>_ _ s. Finishes (s, [], None)),
      op_GetContainerNetworkConfig = (\<lambda>_ s. Finishes (s, Inl Canceled)),
      op_GetNetworkInfo = (\<lambda>s. Finishes (s, Inr sample_networks))\<rparr>"

theorem subnet_check_exact_witness:
  "\<exists>r. SubnetOverlapCheck_Run quiet_host (Some sample_client) () = Finishes ((), r, None) \<and> \<not> cr_Success r"
proof -
  let ?xs = "collect_subnets sample_networks"
  have nets: "map snd ?xs =
    [\<lparr>net_IP = [10, 1, 0, 0], net_Mask = [255, 255, 0, 0]\<rparr>, \<lparr>net_IP = [10, 2, 0, 0], net_Mask = [255, 255, 0, 0]\<rparr>,
     \<lparr>net_IP = [10, 1, 2, 0], net_Mask = [255, 255, 255, 0]\<rparr>]" by code_simp
  have len: "length ?xs = 3" using arg_cong [OF nets, of length] by simp
  have "Contains (map snd ?xs ! 0) [10, 1, 2, 0]" "Contains (map snd ?xs ! 2) [10, 1, 2, 0]"
    unfolding nets by code_simp+
  then have "\<not> disjoint_subnets sample_networks"
    unfolding disjoint_subnets_def not_all
    by (intro exI [of _ 0] exI [of _ 2] exI [of _ "[10, 1, 2, 0]"]) (simp add: len)
  then show ?thesis
    using subnet_check_exact [of sample_client "()" "()" sample_networks quiet_host] by (simp add: sample_client_def)
qed

text \<open>
  C31: The port check is exact in its own terms: when every container with an exposed port has a name,
  it succeeds if and only if every connection it tries is accepted and no two exposed ports have the
  same key, in whatever order the conflicts are visited.
\<close>

theorem port_check_exact:
  assumes "op_ListContainers ops s = Finishes (s', Inr cs)" "exposures_named cs"
  shows "\<exists>r. PortBindingCheck_Run h (Some ops) s = Finishes (s', r, None) \<and>
     (cr_Success r \<longleftrightarrow>
        (\<forall>i < length (exposed cs). host_dial h i (dial_address (snd (exposed cs ! i))) = None) \<and>
        distinct (map (\<lambda>(_, p). port_key p) (exposed cs)))"
proof -
  let ?r = "(new_result ''port_binding'' h)\<lparr>cr_Success := True\<rparr>"
  let ?start = "\<lparr>ps_result = ?r, portConflicts = [], ps_issues = 0, checkedPorts = 0\<rparr>"
  define ps where "ps = scan_all (host_dial h) (exposed cs) ?start"
  note fields = scan_all_fields [of "host_dial h" "exposed cs" ?r, folded ps_def]
  let ?list = "range_over (host_order h 0) (portConflicts ps)"
  obtain k r where report: "fold report_conflict ?list (0, ps_result ps) = (k, r)" by fastforce
  have k: "k = length (filter (\<lambda>(_, names). 1 < length names) ?list)" and r: "cr_Success r"
    using report_conflicts [of ?list 0 "ps_result ps"] report fields by simp_all
  have "k = 0 \<longleftrightarrow> (\<forall>(key, names) \<in> set (portConflicts ps). length names \<le> 1)"
    unfolding k using fields by (auto simp: filter_empty_conv)
  also have "\<dots> \<longleftrightarrow> (\<forall>key. length (users (exposed cs) key) \<le> 1)"
  proof -
    have "(key, names) \<in> set (portConflicts ps) \<longleftrightarrow> names = users (exposed cs) key \<and> names \<noteq> []" for key names
    proof -
      have "distinct (map fst (portConflicts ps))" using fields by (simp add: gomap_ok_def)
      then have "(key, names) \<in> set (portConflicts ps) \<longleftrightarrow> map_of (portConflicts ps) key = Some names" by simp
      also have "map_of (portConflicts ps) key =
          (if users (exposed cs) key = [] then None else Some (users (exposed cs) key))"
        using fields by blast
      finally show ?thesis by (auto split: if_splits)
    qed
    then show ?thesis by (fastforce simp: not_le)
  qed
  finally have conflicts: "k = 0 \<longleftrightarrow> distinct (map (\<lambda>(_, p). port_key p) (exposed cs))"
    by (simp only: users_distinct)
  have "cr_Success (port_verdict a b k r) \<longleftrightarrow> b = 0 \<and> k = 0" for a b
    using r by (simp add: port_verdict_def Let_def)
  then show ?thesis
    using assms fields conflicts report
    by (simp add: PortBindingCheck_Run_def Let_def scan_containers_fold [OF assms(2)] flip: ps_def)
qed

theorem port_check_exact_witness:
  "\<exists>r. PortBindingCheck_Run quiet_host (Some sample_client) () = Finishes ((), r, None) \<and> \<not> cr_Success r"
proof -
  have "exposures_named [web_container]" by (simp add: exposures_named_def web_container_def)
  moreover have "\<not> distinct (map (\<lambda>(_, p). port_key p) (exposed [web_container]))"
    by (simp add: exposed_def web_container_def port_key_def any_address_def)
  ultimately show ?thesis
    using port_check_exact [of sample_client "()" "()" "[web_container]" quiet_host]
    by (auto simp: sample_client_def)
qed

end
