(* ===== verification/Command_Line.thy ===== *)
theory Command_Line
  imports Diagnostic_Checks
begin

text \<open>
  The commands of the program, \<^verbatim>\<open>internal/cli/commands.go\<close>: they connect to the daemon, run the engine or
  one check and print the results. An operation returns the text it has written and its error;
  \<^term>\<open>None\<close> is a panic or a call that never returns. The JSON and YAML encoders are third-party code.
\<close>

section \<open>Output\<close>

text \<open>
  The encoders, the rendering of a time, \<^verbatim>\<open>strings.ToLower\<close> beyond ASCII, and the order in which the
  details of the n-th check are visited. The flag of an encoder says whether the metrics of the results are set.
\<close>

record cli_lib =
  lib_lower :: "string \<Rightarrow> string"
  lib_json :: "bool \<Rightarrow> Results \<Rightarrow> string \<times> goerror option"
  lib_yaml :: "bool \<Rightarrow> Results \<Rightarrow> string \<times> goerror option"
  lib_time :: "Time \<Rightarrow> string"
  lib_order :: "nat \<Rightarrow> string list"

definition Fprintln :: "string list \<Rightarrow> string" where
  "Fprintln parts = concat parts @ newline"

fun bytes_less :: "string \<Rightarrow> string \<Rightarrow> bool" where
  "bytes_less _ [] \<longleftrightarrow> False"
| "bytes_less [] (_ # _) \<longleftrightarrow> True"
| "bytes_less (c # cs) (d # ds) \<longleftrightarrow>
     (of_char c :: nat) < of_char d \<or> c = d \<and> bytes_less cs ds"

fun insert_key :: "string \<times> 'v \<Rightarrow> (string \<times> 'v) list \<Rightarrow> (string \<times> 'v) list" where
  "insert_key x [] = [x]"
| "insert_key x (y # ys) = (if bytes_less (fst y) (fst x) then y # insert_key x ys else x # y # ys)"

text \<open>The verb \<^verbatim>\<open>%v\<close>: a map is printed with its keys sorted.\<close>

fun show_value :: "(Time \<Rightarrow> string) \<Rightarrow> context_value \<Rightarrow> string" where
  "show_value tm (CtxString s) = s"
| "show_value tm (CtxTime t) = tm t"
| "show_value tm (CtxBool b) = show_bool b"
| "show_value tm (CtxInt n) = show_int n"
| "show_value tm (CtxStrings xs) = show_strings xs"
| "show_value tm (CtxMap m) =
     ''map'' @ show_strings (map (\<lambda>(k, v). k @ '':'' @ v)
       (foldr insert_key (map (\<lambda>(k, v). (k, show_value tm v)) m) []))"

definition tick :: string where "tick = [CHR 0xE2, CHR 0x9C, CHR 0x85]"
definition cross :: string where "cross = [CHR 0xE2, CHR 0x9D, CHR 0x8C]"
definition bullet :: string where "bullet = [CHR 0xE2, CHR 0x80, CHR 0xA2]"

definition summary_lines :: "Results \<Rightarrow> string" where
  "summary_lines rs =
     Fprintln [[CHR 0xF0, CHR 0x9F, CHR 0x94, CHR 0x8D], '' Docker Network Doctor - Diagnostic Results''] @
     Fprintln [replicate 52 CHR ''=''] @ Fprintln [] @
     Fprintln [[CHR 0xF0, CHR 0x9F, CHR 0x93, CHR 0x8A], '' Summary:''] @
     Fprintln [''  Total Checks: '', show_int (TotalChecks (res_Summary rs))] @
     Fprintln [''  Passed: '', show_int (PassedChecks (res_Summary rs)), '' '', tick] @
     Fprintln [''  Failed: '', show_int (FailedChecks (res_Summary rs)), '' '', cross] @
     Fprintln [''  Duration: '', Duration_String (res_Duration rs)] @ Fprintln []"

definition critical_lines :: "string list \<Rightarrow> string" where
  "critical_lines issues =
     (if issues = [] then []
      else Fprintln [[CHR 0xF0, CHR 0x9F, CHR 0x9A, CHR 0xA8], '' Critical Issues:''] @
           concat (map (\<lambda>issue. Fprintln [''  '', bullet, '' '', issue]) issues) @ Fprintln [])"

definition check_lines :: "cli_lib \<Rightarrow> bool \<Rightarrow> nat \<Rightarrow> CheckResult \<Rightarrow> string" where
  "check_lines lib verbose i check =
     (let status = (if cr_Success check then tick @ '' PASS'' else cross @ '' FAIL'');
          details = (case Details check of None \<Rightarrow> [] | Some m \<Rightarrow> m)
      in Fprintln [''  '', status, '' '', cr_CheckName check] @
         Fprintln [''    Message: '', cr_Message check] @
         (if verbose \<and> Suggestions check \<noteq> []
          then Fprintln [''    Suggestions:''] @
               concat (map (\<lambda>s. Fprintln [''      '', bullet, '' '', s]) (Suggestions check)) else []) @
         (if verbose \<and> details \<noteq> []
          then Fprintln [''    Details:''] @
               concat (map (\<lambda>(key, v). Fprintln [''      '', key, '': '', show_value (lib_time lib) v])
                 (range_over (lib_order lib i) details)) else []) @
         Fprintln [])"

text \<open>A nil result panics.\<close>

definition outputTable :: "cli_lib \<Rightarrow> bool \<Rightarrow> Results \<Rightarrow> string option" where
  "outputTable lib verbose rs =
     map_option (\<lambda>cs. summary_lines rs @ critical_lines (CriticalIssues (res_Summary rs)) @
         Fprintln [[CHR 0xF0, CHR 0x9F, CHR 0x93, CHR 0x8B], '' Detailed Results:''] @
         concat (map (\<lambda>(i, c). check_lines lib verbose i c) (enumerate 0 cs)))
       (deref (Checks rs))"

definition OutputResults :: "cli_lib \<Rightarrow> bool \<Rightarrow> Results \<Rightarrow> string \<Rightarrow> bool \<Rightarrow> (string \<times> goerror option) option" where
  "OutputResults lib hasMetrics rs outputFormat verbose =
     (let format = ToLower (lib_lower lib) outputFormat
      in if format = ''json'' then Some (lib_json lib hasMetrics rs)
         else if format = ''yaml'' then Some (lib_yaml lib hasMetrics rs)
         else if format = ''table'' then map_option (\<lambda>s. (s, None)) (outputTable lib verbose rs)
         else Some ([], Some (ErrorString (''unsupported output format: '' @ outputFormat))))"

section \<open>Running the engine\<close>

record cli_flags =
  containerFilter :: string
  networkFilter :: string
  fl_parallel :: bool
  fl_timeout :: Duration
  fl_verbose :: bool
  fl_format :: string

text \<open>What connecting to and leaving the daemon gives.\<close>

record connection =
  cn_now :: Time
  cn_created :: "goerror option"
  cn_ping :: "goerror option"
  cn_close :: "goerror option"

definition cli_config :: "cli_flags \<Rightarrow> Config" where
  "cli_config fl =
     \<lparr>Parallel = fl_parallel fl, Timeout = fl_timeout fl, Verbose = fl_verbose fl, TargetFilter = containerFilter fl,
      WorkerCount = 0, RateLimit = Fin 0\<rparr>"

text \<open>The deferred \<^verbatim>\<open>Close\<close>, whose error is dropped.\<close>

definition closing :: "goerror option \<Rightarrow> 'c Client \<Rightarrow> 'r option \<Rightarrow> 'r option" where
  "closing sdkClose c r = (case Client_Close sdkClose c of Finishes _ \<Rightarrow> r | _ \<Rightarrow> None)"

definition write_first :: "string \<Rightarrow> (string \<times> goerror option) option \<Rightarrow> (string \<times> goerror option) option" where
  "write_first out r = map_option (\<lambda>(s, err). (out @ s, err)) r"

definition report_run ::
    "cli_lib \<Rightarrow> string \<Rightarrow> bool \<Rightarrow> goerror + Results \<Rightarrow> (string \<times> goerror option) option" where
  "report_run lib outputFormat verbose run =
     (case run of
        Inl err \<Rightarrow> Some ([], Some (Errorf ''diagnostic engine failed: '' err []))
      | Inr rs \<Rightarrow> OutputResults lib True rs outputFormat verbose)"

definition announce :: "cli_flags \<Rightarrow> string" where
  "announce fl =
     (if fl_verbose fl
      then Fprintln [''Running diagnostics with config: parallel='', show_bool (fl_parallel fl), '', timeout='',
                     Duration_String (fl_timeout fl)] else [])"

text \<open>
  A run of the engine may end in several ways; what the engine prints itself goes to the standard output
  and not to the writer.
\<close>

definition RunDiagnostics ::
    "('l, 'c) token_bucket \<Rightarrow> cli_lib \<Rightarrow> 'c check_env \<Rightarrow> (bool \<Rightarrow> goerror option \<Rightarrow> bool) \<Rightarrow>
     ('l DiagnosticEngine \<Rightarrow> 'l pool_run) \<Rightarrow> Duration \<Rightarrow> int \<Rightarrow> connection \<Rightarrow> cli_flags \<Rightarrow>
     (string \<times> goerror option) option \<Rightarrow> bool" where
  "RunDiagnostics tb lib env W start elapsed numCPU cn fl res \<longleftrightarrow>
     (let out = (if fl_verbose fl then Fprintln [''Connecting to Docker daemon...''] else [])
      in case (NewClient (cn_now cn) (cn_created cn) (cn_ping cn) :: (goerror + Container Client) outcome) of
           Finishes (Inl err) \<Rightarrow> res = Some (out, Some (Errorf ''failed to connect to Docker daemon: '' err []))
         | Finishes (Inr c) \<Rightarrow>
             (\<exists>run. Run tb env W start elapsed (NewEngine tb numCPU (Some (cli_config fl))) run \<and>
                res = closing (cn_close cn) c (case run of
                        None \<Rightarrow> None
                      | Some (e, r) \<Rightarrow> write_first (out @ announce fl) (report_run lib (fl_format fl) (fl_verbose fl) r)))
         | _ \<Rightarrow> res = None)"

text \<open>With injected dependencies: what the engine returns is an argument.\<close>

definition RunDiagnosticsWithMocks :: "cli_lib \<Rightarrow> goerror + Results \<Rightarrow> (string \<times> goerror option) option" where
  "RunDiagnosticsWithMocks lib run = report_run lib ''table'' False run"

section \<open>Running one check\<close>

definition specific_check :: "string \<Rightarrow> string option" where
  "specific_check checkType =
     map_of [(''dns'', ''dns_resolution''), (''bridge'', ''bridge_network''), (''connectivity'', ''container_connectivity''),
             (''ports'', ''port_binding''), (''iptables'', ''iptables''), (''forwarding'', ''ip_forwarding''),
             (''mtu'', ''mtu_consistency''), (''overlap'', ''subnet_overlap'')] checkType"

definition single_result :: "CheckResult \<Rightarrow> Results" where
  "single_result result =
     \<lparr>Checks = [Some result],
      res_Summary = \<lparr>TotalChecks = 1, PassedChecks = (if cr_Success result then 1 else 0),
                     FailedChecks = (if cr_Success result then 0 else 1), WarningChecks = 0, CriticalIssues = []\<rparr>,
      res_Duration = Second, Metrics = empty_execution_metrics\<rparr>"

definition RunSpecificCheck ::
    "cli_lib \<Rightarrow> goerror option \<Rightarrow> host \<Rightarrow> (nat \<Rightarrow> call_world) \<Rightarrow> connection \<Rightarrow> string \<Rightarrow> cli_flags \<Rightarrow>
     (string \<times> goerror option) option" where
  "RunSpecificCheck lib ctx h w cn checkType fl =
     (case (NewClient (cn_now cn) (cn_created cn) (cn_ping cn) :: (goerror + Container Client) outcome) of
        Finishes (Inl err) \<Rightarrow> Some ([], Some (Errorf ''failed to connect to Docker daemon: '' err []))
      | Finishes (Inr c) \<Rightarrow>
          (case specific_check (ToLower (lib_lower lib) checkType) of
             None \<Rightarrow> closing (cn_close cn) c (Some ([], Some (ErrorString (''unknown check type: '' @ checkType))))
           | Some name \<Rightarrow>
               let check = the (find (\<lambda>c. c_Name c = name) registerDefaultChecks);
                   out = (if fl_verbose fl then Fprintln [''Running check: '', c_Description check] else [])
               in case (the (map_of (check_runs ctx) name)) h (Some docker_client) (w, c) of
                    Finishes ((w, c), result, Some err) \<Rightarrow>
                      closing (cn_close cn) c (Some (out, Some (Errorf ''check failed: '' err [])))
                  | Finishes ((w, c), result, None) \<Rightarrow>
                      closing (cn_close cn) c (write_first out
                        (OutputResults lib False (single_result result) (fl_format fl) (fl_verbose fl)))
                  | _ \<Rightarrow> None)
      | _ \<Rightarrow> None)"

section \<open>The rate of the command line\<close>

text \<open>
  The command line leaves the rate at zero. As the package documents, a bucket starts full with its burst
  and is refilled at its rate: of a limiter of rate zero every wait that succeeds takes one of the
  tokens that are left, and none comes back. Nothing is said of the limiters of other rates; \<open>rate_of\<close>
  tells the rate a limiter was made with, which a wait does not change.
\<close>

definition no_refill :: "('l, 'c) token_bucket \<Rightarrow> ('l \<Rightarrow> f64) \<Rightarrow> ('l \<Rightarrow> nat) \<Rightarrow> bool" where
  "no_refill tb rate_of left \<longleftrightarrow>
     (\<forall>r b. rate_of (NewLimiter tb r b) = r) \<and> (\<forall>b. left (NewLimiter tb (Fin 0) b) \<le> nat b) \<and>
     (\<forall>ctx l. rate_of l = Fin 0 \<longrightarrow>
        (case bucket_Wait tb ctx l of (l', err) \<Rightarrow>
           rate_of l' = Fin 0 \<and> (if err = None then left l' < left l else left l' \<le> left l)))"

text \<open>The tokens that a rate limiter of rate zero still has.\<close>

definition tokens :: "('l \<Rightarrow> f64) \<Rightarrow> ('l \<Rightarrow> nat) \<Rightarrow> 'l RateLimiter \<Rightarrow> nat \<Rightarrow> bool" where
  "tokens rate_of left rl n \<longleftrightarrow>
     Enabled (rl_config rl) \<and> (\<exists>l. limiter rl = Some l \<and> rate_of l = Fin 0 \<and> left l \<le> n)"

lemma updateMetrics_limiter [simp]:
  "limiter (Rate_Limiter.updateMetrics now err d rl) = limiter rl" "rl_config (Rate_Limiter.updateMetrics now err d rl) = rl_config rl"
  by (simp_all add: Rate_Limiter.updateMetrics_def Let_def split: option.split)

lemma no_refillD:
  assumes "no_refill tb rate_of left" "bucket_Wait tb ctx l = (l', e)" "rate_of l = Fin 0"
  shows "rate_of l' = Fin 0 \<and> (if e = None then left l' < left l else left l' \<le> left l)"
proof -
  have "case bucket_Wait tb ctx l of (l', err) \<Rightarrow>
      rate_of l' = Fin 0 \<and> (if err = None then left l' < left l else left l' \<le> left l)"
    using assms(1, 3) by (simp add: no_refill_def)
  then show ?thesis unfolding assms(2) prod.case .
qed

lemma Wait_tokens:
  assumes "no_refill tb rate_of left" "tokens rate_of left rl n" "Wait tb ctx d now rl = (rl', err)"
  shows "if err = None then 0 < n \<and> tokens rate_of left rl' (n - 1) else tokens rate_of left rl' n"
proof -
  obtain l where l: "Enabled (rl_config rl)" "limiter rl = Some l" "rate_of l = Fin 0" "left l \<le> n"
    using assms(2) by (auto simp: tokens_def)
  let ?ctx = "if WaitTimeout (rl_config rl) > 0 then WithTimeout ctx (WaitTimeout (rl_config rl)) else CallerCtx ctx"
  obtain l' e where w: "bucket_Wait tb ?ctx l = (l', e)" by fastforce
  have "rate_of l' = Fin 0 \<and> (if e = None then left l' < left l else left l' \<le> left l)"
    by (rule no_refillD [OF assms(1) w l(3)])
  moreover have "limiter (record_request rl) = Some l" "rl_config (record_request rl) = rl_config rl"
    using l(2) by (simp_all add: record_request_def)
  then have "rl' = Rate_Limiter.updateMetrics now e d ((record_request rl)\<lparr>limiter := Some l'\<rparr>)"
    "err = (case e of None \<Rightarrow> None | Some e \<Rightarrow>
       if e = DeadlineExceeded then Some (ErrorString (''rate limiter timeout after '' @ Duration_String d))
       else Some (Errorf ''rate limiter error: '' e []))"
    using assms(3) l(1) w unfolding Wait_def wait_token_def Let_def by (simp_all cong: if_cong)
  then have "limiter rl' = Some l'" "rl_config rl' = rl_config rl" "err = None \<longleftrightarrow> e = None"
    by (simp_all add: record_request_def split: option.split)
  ultimately show ?thesis using l by (auto simp: tokens_def split: if_splits)
qed

text \<open>A sequence of checks that is longer than the tokens contains one that failed.\<close>

definition some_failed :: "'l DiagnosticEngine \<Rightarrow> bool" where
  "some_failed e \<longleftrightarrow> (\<exists>r. Some r \<in> set (Checks (eng_results e)) \<and> \<not> cr_Success r)"

lemma add_failed: "\<not> cr_Success r \<Longrightarrow> some_failed (add_result (Some r) e)"
  by (auto simp: some_failed_def add_result_def)

lemma seq_loop_keeps_failed:
  "seq_loop tb env i cs e = Some e' \<Longrightarrow> some_failed e \<Longrightarrow> some_failed e'"
proof (induction cs arbitrary: i e)
  case (Cons c cs)
  have "some_failed (add_result r (e\<lparr>rateLimiter := rl\<rparr>))" for r rl
    using Cons.prems(2) by (auto simp: some_failed_def add_result_def)
  then show ?case
    using Cons.prems(1) Cons.IH by (auto simp: Let_def split: prod.splits option.splits if_splits)
qed simp

lemma seq_loop_rate_limited:
  assumes "no_refill tb rate_of left"
  shows "seq_loop tb env i cs e = Some e' \<Longrightarrow> tokens rate_of left (rateLimiter e) n \<Longrightarrow> n < length cs \<Longrightarrow> some_failed e'"
proof (induction cs arbitrary: i e n)
  case (Cons c cs)
  obtain rl err where w: "Wait tb (ce_ctx env) (ce_wait env i) (ce_now env i) (rateLimiter e) = (rl, err)" by fastforce
  note T = Wait_tokens [OF assms Cons.prems(2) w]
  show ?case
  proof (cases err)
    case (Some er)
    have "some_failed (add_result (Some (failed_result (ce_now env i) (c_Name c) (''Rate limit error: '' @ Error er)))
        (e\<lparr>rateLimiter := rl\<rparr>))"
      by (rule add_failed) (simp add: failed_result_def)
    moreover have "seq_loop tb env (i + 1) cs (add_result
        (Some (failed_result (ce_now env i) (c_Name c) (''Rate limit error: '' @ Error er))) (e\<lparr>rateLimiter := rl\<rparr>)) = Some e'"
      using Cons.prems(1) w Some by simp
    ultimately show ?thesis using seq_loop_keeps_failed by blast
  next
    case None
    then obtain r where r: "runCheckSafely (ce_now env i) (ce_duration env i) c (ce_outcome env i) = Some r"
      using Cons.prems(1) w by (auto split: option.splits)
    let ?r = "r\<lparr>cr_Duration := ce_duration env i\<rparr>" and ?e = "add_result (Some (r\<lparr>cr_Duration := ce_duration env i\<rparr>)) (e\<lparr>rateLimiter := rl\<rparr>)"
    show ?thesis
    proof (cases "\<not> cr_Success ?r \<and> shouldStopOnFailure c")
      case True
      then have "e' = ?e" using Cons.prems(1) w None r by (simp add: Let_def)
      then show ?thesis using True add_failed by blast
    next
      case False
      then have "seq_loop tb env (i + 1) cs ?e = Some e'"
        using Cons.prems(1) w None r by (simp add: Let_def split: if_splits)
      moreover have "tokens rate_of left (rateLimiter ?e) (n - 1)" using T None by (simp add: add_result_def)
      ultimately show ?thesis using Cons.IH [of "i + 1" ?e "n - 1"] Cons.prems(3) T None by simp
    qed
  qed
qed simp

lemma cli_engine_tokens:
  assumes "no_refill tb rate_of left"
  shows "tokens rate_of left (rateLimiter (NewEngine tb numCPU (Some (cli_config fl)))) 10"
    "checks (NewEngine tb numCPU (Some (cli_config fl))) = registerDefaultChecks"
    "Parallel (eng_config (NewEngine tb numCPU (Some (cli_config fl)))) = fl_parallel fl"
  using assms by (auto simp: no_refill_def tokens_def NewEngine_def cli_config_def NewRateLimiter_def make_limiter_def
      DOCKER_API_BURST_def Let_def intro: order_trans)

lemma begin_run_fields [simp]:
  "rateLimiter (begin_run e) = rateLimiter e" "checks (begin_run e) = checks e" "eng_config (begin_run e) = eng_config e"
  by (simp_all add: begin_run_def set_metrics_def)

lemma sequential_cli_run:
  assumes "no_refill tb rate_of left" "\<not> fl_parallel fl"
    "Run tb env W start elapsed (NewEngine tb numCPU (Some (cli_config fl))) (Some (e, Inr rs))"
  shows "0 < FailedChecks (res_Summary rs)"
proof -
  let ?e = "NewEngine tb numCPU (Some (cli_config fl))"
  have "Some (e, Inr rs) = Option.bind (runSequential tb env (begin_run ?e)) (finish_run elapsed)"
    using assms(2, 3) by (simp add: Run_def cli_engine_tokens(3) [OF assms(1)])
  then obtain e1 where e1: "runSequential tb env (begin_run ?e) = Some e1" "finish_run elapsed e1 = Some (e, Inr rs)"
    by (auto simp: bind_eq_Some_conv dest!: sym [of "Some _"])
  have "some_failed e1"
    using seq_loop_rate_limited [OF assms(1) e1(1) [unfolded runSequential_def], of 10] cli_engine_tokens [OF assms(1)]
    by (simp add: registerDefaultChecks_def)
  moreover obtain cs where cs: "Checks (eng_results e1) = map Some cs"
    "res_Summary rs = fold (count_result (checks e1)) cs (empty_summary\<lparr>TotalChecks := int (length cs)\<rparr>)"
    using finish_run_Some [OF e1(2)] by blast
  ultimately have "filter (\<lambda>r. \<not> cr_Success r) cs \<noteq> []" by (auto simp: some_failed_def filter_empty_conv)
  then show ?thesis unfolding cs(2) by (simp add: fold_count_result empty_summary_def)
qed

section \<open>Properties\<close>

text \<open>
  C39: A sequential \<^verbatim>\<open>diagnose\<close> with table output that connects always reports a failure, even when every
  check would succeed. The command line does not set the rate, the engine asks the rate limiter before each
  of its eleven checks, and a bucket of rate zero never gives out more than its burst of ten, whatever
  buckets of other rates do. So whenever the run ends without an error its table counts at least one
  failed check.
\<close>

theorem sequential_diagnose_fails:
  assumes "no_refill tb rate_of left" "\<not> fl_parallel fl" "fl_format fl = ''table''" "cn_created cn = None" "cn_ping cn = None"
    "RunDiagnostics tb lib env W start elapsed numCPU cn fl (Some (out, None))"
  shows "\<exists>before rs table. out = before @ table \<and> outputTable lib (fl_verbose fl) rs = Some table \<and>
     0 < FailedChecks (res_Summary rs)"
proof -
  obtain c :: "Container Client" where c: "NewClient (cn_now cn) (cn_created cn) (cn_ping cn) = Finishes (Inr c)"
    using assms(4, 5) by (simp add: NewClient_def NewClientWithOptions_def new_standard_client_def)
  obtain run where run: "Run tb env W start elapsed (NewEngine tb numCPU (Some (cli_config fl))) run"
    "Some (out, None) = closing (cn_close cn) c (case run of
        None \<Rightarrow> None
      | Some (e, r) \<Rightarrow> write_first ((if fl_verbose fl then Fprintln [''Connecting to Docker daemon...''] else []) @ announce fl)
          (report_run lib (fl_format fl) (fl_verbose fl) r))"
    using assms(6) unfolding RunDiagnostics_def Let_def c by auto
  then obtain e r where r: "run = Some (e, r)"
    "Some (out, None) = write_first ((if fl_verbose fl then Fprintln [''Connecting to Docker daemon...''] else []) @ announce fl)
      (report_run lib (fl_format fl) (fl_verbose fl) r)"
    by (auto simp: closing_def split: outcome.splits option.splits)
  have low: "ToLower (lib_lower lib) ''table'' = ''table''" by (simp add: ToLower_def lower_char_def is_ascii_def)
  then obtain rs table where rs: "r = Inr rs" "outputTable lib (fl_verbose fl) rs = Some table"
    "out = ((if fl_verbose fl then Fprintln [''Connecting to Docker daemon...''] else []) @ announce fl) @ table"
    using r(2) [symmetric] assms(3)
    by (auto simp: write_first_def report_run_def OutputResults_def map_option_eq_Some split: sum.splits)
  then have "0 < FailedChecks (res_Summary rs)" using sequential_cli_run [OF assms(1, 2)] run(1) r(1) by blast
  with rs show ?thesis by blast
qed

text \<open>
  A bucket that knows its rate: a positive one has a token after a short wait, one of rate zero has its
  burst. Flags for a sequential run, and checks that all succeed.
\<close>

definition burst_bucket :: "(f64 \<times> nat, unit) token_bucket" where
  "burst_bucket =
     \<lparr>NewLimiter = (\<lambda>r b. (r, nat b)),
      bucket_Wait = (\<lambda>_ (r, l).
        if r \<noteq> Fin 0 then ((r, l), None)
        else if l = 0 then ((r, 0), Some (ErrorString ''would exceed context deadline''))
        else ((r, l - 1), None)),
      bucket_Allow = (\<lambda>(r, l). if l = 0 then ((r, 0), False) else ((r, l - 1), True))\<rparr>"

definition sequential_flags :: cli_flags where
  "sequential_flags =
     \<lparr>containerFilter = [], networkFilter = [], fl_parallel = False, fl_timeout = 30 * Second, fl_verbose = False,
      fl_format = ''table''\<rparr>"

definition good_connection :: connection where
  "good_connection = \<lparr>cn_now = 0, cn_created = None, cn_ping = None, cn_close = None\<rparr>"

definition good_env :: "unit check_env" where
  "good_env = quick_env\<lparr>ce_outcome := (\<lambda>_. Returns (Some
     \<lparr>cr_CheckName = ''check'', cr_Success = True, cr_Message = ''fine'', Details = None, Suggestions = [],
      cr_Timestamp = 5, cr_Duration = 0\<rparr>) None)\<rparr>"

definition plain_lib :: cli_lib where
  "plain_lib = \<lparr>lib_lower = id, lib_json = (\<lambda>_ _. ([], None)), lib_yaml = (\<lambda>_ _. ([], None)), lib_time = (\<lambda>_. []),
                lib_order = (\<lambda>_. [])\<rparr>"

theorem sequential_diagnose_fails_witness:
  "\<exists>out before rs table.
     RunDiagnostics burst_bucket plain_lib good_env (\<lambda>_ _. True) (run_start False 0 4 0) 9 4 good_connection sequential_flags
       (Some (out, None)) \<and>
     out = before @ table \<and> outputTable plain_lib False rs = Some table \<and> 0 < FailedChecks (res_Summary rs)"
proof -
  let ?e = "NewEngine burst_bucket 4 (Some (cli_config sequential_flags))"
  have nr: "no_refill burst_bucket fst snd" by (auto simp: no_refill_def burst_bucket_def)
  have seq: "\<not> fl_parallel sequential_flags" by (simp add: sequential_flags_def)
  obtain e1 cs where e1: "seq_loop burst_bucket good_env 0 (checks (begin_run ?e)) (begin_run ?e) = Some e1"
    "seq_outcome (checks (begin_run ?e)) (begin_run ?e) e1 cs"
    using seq_loop_outcome [of good_env burst_bucket "checks (begin_run ?e)" "begin_run ?e"]
    by (auto simp: good_env_def)
  have "Checks (eng_results (begin_run ?e)) = []" by (simp add: NewEngine_def begin_run_def set_metrics_def Let_def)
  then have "Checks (eng_results e1) = map Some cs" using e1(2) by (simp add: seq_outcome_def)
  then obtain e where e: "finish_run 9 e1 = Some (e, Inr (eng_results e))" "Checks (eng_results e) = map Some cs"
    using finish_run_total by blast
  have "Run burst_bucket good_env (\<lambda>_ _. True) (run_start False 0 4 0) 9 ?e (Some (e, Inr (eng_results e)))"
    using seq e(1) e1(1) cli_engine_tokens(3) [OF nr] by (simp add: Run_def runSequential_def)
  moreover have "deref (map Some cs) = Some cs" by (simp add: deref_iff)
  then obtain table where "outputTable plain_lib False (eng_results e) = Some table"
    using e(2) by (simp add: outputTable_def)
  ultimately have "RunDiagnostics burst_bucket plain_lib good_env (\<lambda>_ _. True) (run_start False 0 4 0) 9 4 good_connection
      sequential_flags (Some (table, None))"
    unfolding RunDiagnostics_def Let_def
    by (auto simp: good_connection_def NewClient_def NewClientWithOptions_def new_standard_client_def closing_def
        Client_Close_def delegate_def write_first_def report_run_def OutputResults_def sequential_flags_def announce_def
        ToLower_def is_ascii_def lower_char_def intro!: exI)
  then show ?thesis
    using sequential_diagnose_fails [OF nr seq, of good_connection plain_lib good_env "\<lambda>_ _. True" "run_start False 0 4 0" 9 4 table]
    by (auto simp: sequential_flags_def good_connection_def)
qed

text \<open>
  C40: The command for a single check works for every type it knows: once connected, whatever the host
  answers, and whatever the daemon answers as its API documents (a listed container has a name, an
  identifier of at least twelve digits and network settings, an inspected one has its parts) or fails
  to, the check of that type ends without a panic with a result that carries its name, and the command
  prints just that result in the format asked for, a table or what the encoder gives, or returns the error
  of the check or of the format.
\<close>

theorem specific_check_reports:
  assumes "cn_created cn = None" "cn_ping cn = None" "\<forall>n. answers_ok (w n)"
    "specific_check (ToLower (lib_lower lib) checkType) = Some name"
  shows "\<exists>s r err before printed e.
     (the (map_of (check_runs ctx) name)) h (Some docker_client) (w, \<lparr>cl_docker = True, cl_enhanced = None\<rparr>) =
       Finishes (s, r, err) \<and>
     cr_CheckName r = name \<and>
     OutputResults lib False (single_result r) (fl_format fl) (fl_verbose fl) = Some (printed, e) \<and>
     RunSpecificCheck lib ctx h w cn checkType fl =
       Some (case err of None \<Rightarrow> (before @ printed, e) | Some x \<Rightarrow> (before, Some (Errorf ''check failed: '' x []))) \<and>
     (fl_format fl = ''table'' \<longrightarrow> e = None \<and> outputTable lib (fl_verbose fl) (single_result r) = Some printed)"
proof -
  let ?c = "\<lparr>cl_docker = True, cl_enhanced = None\<rparr> :: Container Client"
  have st: "standard_state (w, ?c)" using assms(3) by (simp add: standard_state_def)
  have "name \<in> set (map fst (check_runs ctx :: (string \<times> (host \<Rightarrow> docker_state client_ops option \<Rightarrow> docker_state \<Rightarrow>
      (docker_state \<times> CheckResult \<times> goerror option) outcome)) list))"
    using assms(4) by (auto simp: specific_check_def check_runs_def split: if_splits)
  then obtain run :: "host \<Rightarrow> docker_state client_ops option \<Rightarrow> docker_state \<Rightarrow>
      (docker_state \<times> CheckResult \<times> goerror option) outcome"
    where run: "map_of (check_runs ctx) name = Some run" by (metis map_of_eq_None_iff option.exhaust set_map)
  then have "finishes standard_state (names name) (run h (Some docker_client) (w, ?c))"
    using docker.checks_finish [OF st, of h ctx] map_of_SomeD by (fastforce simp: list_all_iff)
  then obtain w' c r err where r: "run h (Some docker_client) (w, ?c) = Finishes ((w', c), r, err)"
    "standard_state (w', c)" "cr_CheckName r = name"
    by (auto simp: finishes_def names_def)
  then have c: "c = ?c" by (simp add: standard_state_def)
  have new: "NewClient (cn_now cn) (cn_created cn) (cn_ping cn) = Finishes (Inr ?c)"
    using assms(1, 2) by (simp add: NewClient_def NewClientWithOptions_def new_standard_client_def)
  have close: "closing (cn_close cn) c x = x" for x :: "(string \<times> goerror option) option"
    by (simp add: c closing_def Client_Close_def delegate_def)
  have low: "ToLower (lib_lower lib) ''table'' = ''table''" by (simp add: ToLower_def lower_char_def is_ascii_def)
  obtain table where table: "outputTable lib (fl_verbose fl) (single_result r) = Some table"
    by (simp add: outputTable_def single_result_def)
  obtain printed e where out: "OutputResults lib False (single_result r) (fl_format fl) (fl_verbose fl) = Some (printed, e)"
  proof -
    have "OutputResults lib False (single_result r) (fl_format fl) (fl_verbose fl) \<noteq> None"
      using table by (simp add: OutputResults_def Let_def)
    with that show thesis by fastforce
  qed
  have "fl_format fl = ''table'' \<longrightarrow> e = None \<and> outputTable lib (fl_verbose fl) (single_result r) = Some printed"
    using out low table by (auto simp: OutputResults_def Let_def)
  moreover have "\<exists>before. RunSpecificCheck lib ctx h w cn checkType fl =
      Some (case err of None \<Rightarrow> (before @ printed, e) | Some x \<Rightarrow> (before, Some (Errorf ''check failed: '' x [])))"
    using r run new assms(4) close out by (cases err) (simp_all add: RunSpecificCheck_def write_first_def Let_def)
  ultimately show ?thesis using r run out by simp
qed

theorem specific_check_reports_witness:
  "\<exists>out err. RunSpecificCheck plain_lib None quiet_host (\<lambda>_. quiet_world) good_connection ''DNS'' sequential_flags = Some (out, err)"
proof -
  have "answers_ok quiet_world" by (simp add: answers_ok_def quiet_world_def listed_ok_def web_container_def)
  moreover have "specific_check (ToLower (lib_lower plain_lib) ''DNS'') = Some ''dns_resolution''"
    by code_simp
  ultimately show ?thesis
    using specific_check_reports [where cn = good_connection and w = "\<lambda>_. quiet_world" and fl = sequential_flags
        and lib = plain_lib and checkType = "''DNS''" and name = "''dns_resolution''" and ctx = None and h = quiet_host]
    by (auto simp: good_connection_def sequential_flags_def)
qed

end
