(* ===== verification/Benchmark_Helpers.thy ===== *)
theory Benchmark_Helpers
  imports Engine
begin

text \<open>
  The engines that measure and speed up runs, \<^verbatim>\<open>internal/diagnostics/benchmark_helpers.go\<close>, and the
  verdict of \<^verbatim>\<open>performance_benchmark.go\<close>. Both engines embed the diagnostic engine and call its methods.
\<close>

section \<open>Metrics of a run\<close>

record BenchmarkMetrics =
  CheckDurations :: "(string, Duration) gomap"
  bm_TotalDuration :: Duration
  ParallelSpeedup :: f64
  MemoryUsed :: int
  GoroutinesCreated :: int

definition NewBenchmarkMetrics :: BenchmarkMetrics where
  "NewBenchmarkMetrics =
     \<lparr>CheckDurations = [], bm_TotalDuration = 0, ParallelSpeedup = Fin 0, MemoryUsed = 0, GoroutinesCreated = 0\<rparr>"

definition RecordCheckDuration :: "string \<Rightarrow> Duration \<Rightarrow> BenchmarkMetrics \<Rightarrow> BenchmarkMetrics" where
  "RecordCheckDuration checkName duration m =
     m\<lparr>CheckDurations := AList.update checkName duration (CheckDurations m)\<rparr>"

definition GetCheckDuration :: "string \<Rightarrow> BenchmarkMetrics \<Rightarrow> Duration" where
  "GetCheckDuration checkName m = count_of (CheckDurations m) checkName"

definition CalculateParallelSpeedup :: "Duration \<Rightarrow> Duration \<Rightarrow> BenchmarkMetrics \<Rightarrow> BenchmarkMetrics" where
  "CalculateParallelSpeedup sequentialTime parallelTime m =
     (if parallelTime > 0
      then m\<lparr>ParallelSpeedup := f_div (float64 sequentialTime) (float64 parallelTime)\<rparr> else m)"

record 'l BenchmarkEngine =
  be_engine :: "'l DiagnosticEngine"
  be_metrics :: BenchmarkMetrics

definition NewBenchmarkEngine :: "'l DiagnosticEngine \<Rightarrow> 'l BenchmarkEngine" where
  "NewBenchmarkEngine engine = \<lparr>be_engine = engine, be_metrics = NewBenchmarkMetrics\<rparr>"

text \<open>
  The detail \<open>duration\<close> of a result, when it is a \<^verbatim>\<open>time.Duration\<close>: \<open>dur\<close> decides that and gives it. A
  failed run returns no results, whose checks cannot be visited: \<^term>\<open>None\<close> is that panic.
\<close>

definition record_duration ::
    "(context_value \<Rightarrow> Duration option) \<Rightarrow> CheckResult \<Rightarrow> BenchmarkMetrics \<Rightarrow> BenchmarkMetrics" where
  "record_duration dur r m =
     (case Option.bind (Details r) (\<lambda>d. map_of d ''duration'') of
        None \<Rightarrow> m
      | Some v \<Rightarrow> (case dur v of None \<Rightarrow> m | Some d \<Rightarrow> RecordCheckDuration (cr_CheckName r) d m))"

definition record_run ::
    "(context_value \<Rightarrow> Duration option) \<Rightarrow> Duration \<Rightarrow> goerror + Results \<Rightarrow> BenchmarkMetrics \<Rightarrow> BenchmarkMetrics option" where
  "record_run dur since run m =
     (case run of
        Inl err \<Rightarrow> None
      | Inr rs \<Rightarrow> map_option (\<lambda>cs. fold (record_duration dur) cs (m\<lparr>bm_TotalDuration := since\<rparr>)) (deref (Checks rs)))"

definition RunWithMetrics ::
    "(context_value \<Rightarrow> Duration option) \<Rightarrow> Duration \<Rightarrow> ('l, 'c) token_bucket \<Rightarrow> 'c check_env \<Rightarrow>
     (bool \<Rightarrow> goerror option \<Rightarrow> bool) \<Rightarrow> ('l DiagnosticEngine \<Rightarrow> 'l pool_run) \<Rightarrow> Duration \<Rightarrow> 'l BenchmarkEngine \<Rightarrow>
     ('l BenchmarkEngine \<times> (goerror + Results)) option \<Rightarrow> bool" where
  "RunWithMetrics dur since tb env W start elapsed e res \<longleftrightarrow>
     (\<exists>run. Run tb env W start elapsed (be_engine e) run \<and>
        res = (case run of
                 None \<Rightarrow> None
               | Some (engine, r) \<Rightarrow>
                   map_option (\<lambda>m. (\<lparr>be_engine = engine, be_metrics = m\<rparr>, r)) (record_run dur since r (be_metrics e))))"

section \<open>Mock checks and groups\<close>

record MockCheck =
  mock_check :: Check
  mock_delay :: Duration
  shouldFail :: bool

definition NewMockCheck :: "string \<Rightarrow> Duration \<Rightarrow> bool \<Rightarrow> MockCheck" where
  "NewMockCheck name delay fails =
     \<lparr>mock_check = check_of name ''Mock check for benchmarking'' SeverityInfo, mock_delay = delay, shouldFail = fails\<rparr>"

text \<open>\<open>cancelled\<close> is the error of the context when it ends before the delay; \<open>mk\<close> builds the detail.\<close>

definition MockCheck_Run :: "(Duration \<Rightarrow> context_value) \<Rightarrow> goerror option \<Rightarrow> Time \<Rightarrow> MockCheck \<Rightarrow> run_outcome" where
  "MockCheck_Run mk cancelled now c =
     (case cancelled of
        Some err \<Rightarrow> Returns None (Some err)
      | None \<Rightarrow> Returns (Some \<lparr>cr_CheckName = c_Name (mock_check c), cr_Success = \<not> shouldFail c,
                              cr_Message = ''Mock check completed'', Details = Some [(''duration'', mk (mock_delay c))],
                              Suggestions = [], cr_Timestamp = now, cr_Duration = 0\<rparr>) None)"

definition default_check :: "string \<Rightarrow> Check" where
  "default_check name = the (find (\<lambda>c. c_Name c = name) registerDefaultChecks)"

record CheckGroupBenchmark =
  SystemChecks :: "Check list"
  NetworkChecks :: "Check list"
  DNSChecks :: "Check list"
  ContainerChecks :: "Check list"

definition GetDefaultCheckGroups :: CheckGroupBenchmark where
  "GetDefaultCheckGroups =
     \<lparr>SystemChecks = map default_check [''daemon_connectivity'', ''ip_forwarding'', ''iptables''],
      NetworkChecks = map default_check [''bridge_network'', ''subnet_overlap'', ''mtu_consistency'', ''network_isolation''],
      DNSChecks = map default_check [''dns_resolution'', ''internal_dns''],
      ContainerChecks = map default_check [''container_connectivity'', ''port_binding'']\<rparr>"

section \<open>The optimised engine\<close>

datatype ParallelizationStrategy = StrategyFullParallel | StrategyGroupParallel | StrategyAdaptive | StrategySequential

record 'l OptimizedEngine =
  oe_engine :: "'l DiagnosticEngine"
  oe_strategy :: ParallelizationStrategy
  oe_maxWorkers :: int

definition NewOptimizedEngine :: "'l DiagnosticEngine \<Rightarrow> ParallelizationStrategy \<Rightarrow> 'l OptimizedEngine" where
  "NewOptimizedEngine engine strategy = \<lparr>oe_engine = engine, oe_strategy = strategy, oe_maxWorkers = 10\<rparr>"

text \<open>What the checks do, and the order in which the results of each group arrive.\<close>

record group_env =
  ge_now :: "string \<Rightarrow> Time"
  ge_duration :: "string \<Rightarrow> Duration"
  ge_outcome :: "string \<Rightarrow> run_outcome"
  ge_arrival :: "nat \<Rightarrow> nat list"

definition run_in_group :: "group_env \<Rightarrow> Check \<Rightarrow> CheckResult option" where
  "run_in_group env c = runCheckSafely (ge_now env (c_Name c)) (ge_duration env (c_Name c)) c (ge_outcome env (c_Name c))"

definition runCheckGroup :: "group_env \<Rightarrow> nat \<Rightarrow> Check list \<Rightarrow> CheckResult option list" where
  "runCheckGroup env k cs = arrange (ge_arrival env k) (map (run_in_group env) cs)"

text \<open>A \<^verbatim>\<open>Results\<close> of its own, with the zero summary and without metrics.\<close>

record GroupResults =
  gr_Checks :: "CheckResult option list"
  gr_Summary :: Summary
  gr_Duration :: Duration
  gr_Metrics :: "ExecutionMetrics option"

definition group_results :: "CheckResult option list \<Rightarrow> GroupResults" where
  "group_results cs = \<lparr>gr_Checks = cs, gr_Summary = empty_summary, gr_Duration = 0, gr_Metrics = None\<rparr>"

definition runGroupParallel :: "group_env \<Rightarrow> 'l DiagnosticEngine \<Rightarrow> ('l DiagnosticEngine \<times> GroupResults) option" where
  "runGroupParallel env e =
     (let groups = GetDefaultCheckGroups;
          cs = concat (map (\<lambda>(k, g). runCheckGroup env k g)
                 (enumerate 0 [SystemChecks groups, NetworkChecks groups, DNSChecks groups, ContainerChecks groups]))
      in map_option (\<lambda>e. (e, group_results cs)) (calculateSummary e))"

definition io_checks :: "Check list" where
  "io_checks = map default_check [''container_connectivity'', ''dns_resolution'', ''internal_dns'', ''port_binding'']"

definition host_checks :: "Check list" where
  "host_checks = map default_check [''daemon_connectivity'', ''ip_forwarding'', ''iptables'', ''bridge_network'',
                                     ''subnet_overlap'', ''mtu_consistency'', ''network_isolation'']"

definition runAdaptive :: "group_env \<Rightarrow> 'l DiagnosticEngine \<Rightarrow> ('l DiagnosticEngine \<times> GroupResults) option" where
  "runAdaptive env e =
     (let cs = runCheckGroup env 0 io_checks @ map (run_in_group env) host_checks
      in map_option (\<lambda>e. (e, group_results cs)) (calculateSummary e))"

definition whole_results :: "Results \<Rightarrow> GroupResults" where
  "whole_results rs =
     \<lparr>gr_Checks = Checks rs, gr_Summary = res_Summary rs, gr_Duration = res_Duration rs, gr_Metrics = Some (Metrics rs)\<rparr>"

text \<open>The full and the sequential strategy change the configuration of the engine for good.\<close>

definition RunOptimized ::
    "group_env \<Rightarrow> ('l, 'c) token_bucket \<Rightarrow> 'c check_env \<Rightarrow> (bool \<Rightarrow> goerror option \<Rightarrow> bool) \<Rightarrow>
     ('l DiagnosticEngine \<Rightarrow> 'l pool_run) \<Rightarrow> Duration \<Rightarrow> 'l OptimizedEngine \<Rightarrow>
     ('l DiagnosticEngine \<times> (goerror + GroupResults)) option \<Rightarrow> bool" where
  "RunOptimized genv tb env W start elapsed e res \<longleftrightarrow>
     (let engine = oe_engine e;
          with_parallel = (\<lambda>p. engine\<lparr>eng_config := (eng_config engine)\<lparr>Parallel := p\<rparr>\<rparr>);
          run = (\<lambda>engine. \<exists>r. Run tb env W start elapsed engine r \<and>
                   res = map_option (\<lambda>(e, r). (e, map_sum id whole_results r)) r)
      in case oe_strategy e of
           StrategyFullParallel \<Rightarrow> run (with_parallel True)
         | StrategyGroupParallel \<Rightarrow> res = map_option (\<lambda>(e, r). (e, Inr r)) (runGroupParallel genv engine)
         | StrategyAdaptive \<Rightarrow> res = map_option (\<lambda>(e, r). (e, Inr r)) (runAdaptive genv engine)
         | StrategySequential \<Rightarrow> run (with_parallel False))"

section \<open>The verdict of the parallel benchmark\<close>

text \<open>
  The sequential work is the first work time once for every work time; a benchmark of any number of
  workers starts one goroutine for every work time. What it reports and which errors it raises:
\<close>

definition work_times :: "Duration list" where
  "work_times = [50 * Millisecond, 80 * Millisecond, 30 * Millisecond, 100 * Millisecond, 150 * Millisecond]"

definition sequential_work :: Duration where
  "sequential_work = sum_list (map (\<lambda>_. hd work_times) work_times)"

definition benchmark_verdict :: "Duration \<Rightarrow> Duration \<Rightarrow> (string \<times> f64) list \<times> string list" where
  "benchmark_verdict sequentialDuration parallelDuration =
     (let speedup = f_div (float64 sequentialDuration) (float64 parallelDuration);
          improvement = f_mul (f_sub speedup (flit 1)) (flit 100)
      in ([(''sequential_ms'', float64 (go_quot sequentialDuration Millisecond)),
           (''parallel_ms'', float64 (go_quot parallelDuration Millisecond)),
           (''speedup'', speedup), (''%improvement'', improvement)],
          (if f_lt improvement (flit 60)
           then [''Performance improvement ('' @ fmt_fixed 2 improvement @ ''%) is below the 60% target''] else []) @
          (if f_gt improvement (flit 100)
           then [''Unrealistic performance improvement ('' @ fmt_fixed 2 improvement @ ''%)''] else [])))"

section \<open>What the optimised runs return\<close>

lemma groups_cover_checks:
  "mset (SystemChecks GetDefaultCheckGroups @ NetworkChecks GetDefaultCheckGroups @ DNSChecks GetDefaultCheckGroups @
     ContainerChecks GetDefaultCheckGroups) = mset registerDefaultChecks"
  "mset (io_checks @ host_checks) = mset registerDefaultChecks"
  by (simp_all add: GetDefaultCheckGroups_def io_checks_def host_checks_def default_check_def registerDefaultChecks_def
      check_of_def add_mset_commute)

lemma mset_runCheckGroup: "mset (runCheckGroup env k cs) = mset (map (run_in_group env) cs)"
  by (simp add: runCheckGroup_def mset_arrange)

text \<open>
  Grouped and adaptive runs return the result of every default check exactly once, however the results
  arrive. But the summary they compute is that of the engine's own results, to which they add nothing: the
  results come with the zero summary and without metrics, and leave the engine with a summary of nothing.
\<close>

lemma optimised_runs_unsummarised:
  assumes "oe_strategy e \<in> {StrategyGroupParallel, StrategyAdaptive}" "Checks (eng_results (oe_engine e)) = []"
    "RunOptimized genv tb env W start elapsed e (Some (e', r))"
  shows "\<exists>g. r = Inr g \<and> mset (gr_Checks g) = mset (map (run_in_group genv) registerDefaultChecks) \<and>
    gr_Summary g = empty_summary \<and> gr_Metrics g = None \<and> res_Summary (eng_results e') = empty_summary"
proof -
  have "calculateSummary (oe_engine e) = Some ((oe_engine e)\<lparr>eng_results := (eng_results (oe_engine e))\<lparr>res_Summary := empty_summary\<rparr>\<rparr>)"
    using assms(2) by (simp add: calculateSummary_def empty_summary_def)
  moreover have "image_mset f (mset (SystemChecks GetDefaultCheckGroups @ NetworkChecks GetDefaultCheckGroups @
      DNSChecks GetDefaultCheckGroups @ ContainerChecks GetDefaultCheckGroups)) = image_mset f (mset registerDefaultChecks)"
    "image_mset f (mset (io_checks @ host_checks)) = image_mset f (mset registerDefaultChecks)" for f :: "Check \<Rightarrow> CheckResult option"
    by (simp_all only: groups_cover_checks)
  ultimately show ?thesis
    using assms(1, 3) by (auto simp: RunOptimized_def runGroupParallel_def runAdaptive_def group_results_def
        mset_runCheckGroup Let_def add.assoc)
qed

text \<open>A run that fails takes the benchmark down.\<close>

lemma failed_run_panics:
  assumes "Run tb env W start elapsed (be_engine e) (Some (engine, Inl err))"
  shows "RunWithMetrics dur since tb env W start elapsed e None"
  unfolding RunWithMetrics_def using assms by (intro exI [of _ "Some (engine, Inl err)"]) (simp add: record_run_def)

text \<open>
  Had the sequential benchmark done all the work, 410 milliseconds, the ideal parallel run of 150 would
  have been rejected as unrealistic; it does 250, which is reported as an improvement of two thirds.
\<close>

lemma sequential_work_wrong: "sequential_work = 250 * Millisecond \<and> sum_list work_times = 410 * Millisecond"
  by (simp add: sequential_work_def work_times_def)

end
