(* ===== verification/Timing_Storage.thy ===== *)
theory Timing_Storage
  imports Go_Fmt Go_Float "HOL-Library.Multiset"
begin

text \<open>
  The bounded storage of timing measurements, \<^verbatim>\<open>internal/diagnostics/timing_storage.go\<close>: a
  circular buffer with three indexes. The storage holds pointers. A pointer to a measurement is
  modelled by its address together with the data it points to, which the storage never changes, so
  that equality of pointers is equality. (The profiler does change the data of a stored measurement;
  \<open>Performance_Profiler\<close> models that as a change of every copy.) \<^verbatim>\<open>Store\<close> turns a nil pointer away, so the
  elements of the buffer and of the indexes are never nil, and the nil tests on them always succeed.
\<close>

section \<open>State\<close>

record TimingData =
  addr :: nat
  Name :: string
  StartTime :: Time
  EndTime :: Time
  td_Duration :: Duration
  td_Category :: string
  CheckName :: string
  WorkerID :: int
  Success :: bool

type_synonym 'k index = "('k, TimingData list) gomap"

record TimingStorage =
  measurements :: "TimingData list"
  maxSize :: nat
  currentIndex :: nat
  wrapped :: bool
  byCategory :: "string index"
  byCheck :: "string index"
  byWorker :: "int index"

record TimingStatistics =
  Count :: int
  SuccessCount :: int
  ts_SuccessRate :: f64
  MinDuration :: Duration
  MaxDuration :: Duration
  AverageDuration :: Duration
  TimeSpan :: Duration
  CategoryCounts :: "(string, int) gomap"
  CheckCounts :: "(string, int) gomap"
  WorkerCounts :: "(int, int) gomap"

definition MaxProfileDataPoints :: int where
  "MaxProfileDataPoints = 10000"

definition NewTimingStorage :: "int \<Rightarrow> TimingStorage" where
  "NewTimingStorage maxsz =
     (let maxsz = (if maxsz \<le> 0 then MaxProfileDataPoints else maxsz)
      in \<lparr>measurements = [], maxSize = nat maxsz, currentIndex = 0, wrapped = False,
          byCategory = [], byCheck = [], byWorker = []\<rparr>)"

section \<open>Indexes\<close>

definition idx :: "'k index \<Rightarrow> 'k \<Rightarrow> TimingData list" where
  "idx m k = (case map_of m k of None \<Rightarrow> [] | Some ts \<Rightarrow> ts)"

definition addToIndexes :: "TimingData \<Rightarrow> TimingStorage \<Rightarrow> TimingStorage" where
  "addToIndexes timing ts =
     (let ts = (if td_Category timing \<noteq> []
                then ts\<lparr>byCategory := AList.update (td_Category timing)
                          (idx (byCategory ts) (td_Category timing) @ [timing]) (byCategory ts)\<rparr> else ts);
          ts = (if CheckName timing \<noteq> []
                then ts\<lparr>byCheck := AList.update (CheckName timing)
                          (idx (byCheck ts) (CheckName timing) @ [timing]) (byCheck ts)\<rparr> else ts)
      in if WorkerID timing \<ge> 0
         then ts\<lparr>byWorker := AList.update (WorkerID timing)
                   (idx (byWorker ts) (WorkerID timing) @ [timing]) (byWorker ts)\<rparr>
         else ts)"

datatype index_key = CategoryKey string | CheckKey string | WorkerKey int

fun position :: "'a \<Rightarrow> 'a list \<Rightarrow> nat option" where
  "position x [] = None"
| "position x (y # ys) = (if y = x then Some 0 else map_option Suc (position x ys))"

fun set_index :: "index_key \<Rightarrow> TimingData list \<Rightarrow> TimingStorage \<Rightarrow> TimingStorage" where
  "set_index (CategoryKey k) s ts = ts\<lparr>byCategory := AList.update k s (byCategory ts)\<rparr>"
| "set_index (CheckKey k) s ts = ts\<lparr>byCheck := AList.update k s (byCheck ts)\<rparr>"
| "set_index (WorkerKey k) s ts = ts\<lparr>byWorker := AList.update k s (byWorker ts)\<rparr>"

definition removeTimingFromSlice ::
    "TimingData list \<Rightarrow> TimingData \<Rightarrow> index_key \<Rightarrow> TimingStorage \<Rightarrow> TimingStorage" where
  "removeTimingFromSlice s timing key ts =
     (case position timing s of
        None \<Rightarrow> ts
      | Some i \<Rightarrow>
          let s = s[i := s ! (length s - 1)];
              s = take (length s - 1) s
          in set_index key s ts)"

definition removeFromIndexes :: "TimingData \<Rightarrow> TimingStorage \<Rightarrow> TimingStorage" where
  "removeFromIndexes timing ts =
     (let ts = (if td_Category timing \<noteq> []
                then removeTimingFromSlice (idx (byCategory ts) (td_Category timing)) timing
                       (CategoryKey (td_Category timing)) ts else ts);
          ts = (if CheckName timing \<noteq> []
                then removeTimingFromSlice (idx (byCheck ts) (CheckName timing)) timing
                       (CheckKey (CheckName timing)) ts else ts)
      in if WorkerID timing \<ge> 0
         then removeTimingFromSlice (idx (byWorker ts) (WorkerID timing)) timing
                (WorkerKey (WorkerID timing)) ts
         else ts)"

section \<open>Operations\<close>

definition Store :: "TimingData option \<Rightarrow> TimingStorage \<Rightarrow> TimingStorage" where
  "Store timing ts =
     (case timing of
        None \<Rightarrow> ts
      | Some t \<Rightarrow>
          addToIndexes t
            (if length (measurements ts) < maxSize ts
             then let ms = measurements ts @ [t]
                  in ts\<lparr>measurements := ms, currentIndex := length ms - 1\<rparr>
             else let i = (currentIndex ts + 1) mod maxSize ts;
                      ts = removeFromIndexes (measurements ts ! i) (ts\<lparr>currentIndex := i\<rparr>)
                  in ts\<lparr>measurements := (measurements ts)[i := t], wrapped := True\<rparr>))"

definition GetLatest :: "TimingStorage \<Rightarrow> TimingData option" where
  "GetLatest ts =
     (if measurements ts = [] then None else Some (measurements ts ! currentIndex ts))"

definition GetAll :: "TimingStorage \<Rightarrow> TimingData list" where
  "GetAll ts =
     (if wrapped ts
      then let start = (currentIndex ts + 1) mod maxSize ts
           in map (\<lambda>i. measurements ts ! ((start + i) mod maxSize ts)) [0..<maxSize ts]
      else measurements ts)"

definition GetByCategory :: "string \<Rightarrow> TimingStorage \<Rightarrow> TimingData list" where
  "GetByCategory category ts = idx (byCategory ts) category"

definition GetByCheck :: "string \<Rightarrow> TimingStorage \<Rightarrow> TimingData list" where
  "GetByCheck checkName ts = idx (byCheck ts) checkName"

definition GetByWorker :: "int \<Rightarrow> TimingStorage \<Rightarrow> TimingData list" where
  "GetByWorker workerID ts = idx (byWorker ts) workerID"

definition GetAllDurations :: "TimingStorage \<Rightarrow> Duration list" where
  "GetAllDurations ts = map td_Duration (measurements ts)"

definition GetCheckDurations :: "string \<Rightarrow> TimingStorage \<Rightarrow> Duration list" where
  "GetCheckDurations checkName ts = map td_Duration (idx (byCheck ts) checkName)"

definition GetCategoryDurations :: "string \<Rightarrow> TimingStorage \<Rightarrow> Duration list" where
  "GetCategoryDurations category ts = map td_Duration (idx (byCategory ts) category)"

definition GetTimeRange :: "Time \<Rightarrow> Time \<Rightarrow> TimingStorage \<Rightarrow> TimingData list" where
  "GetTimeRange start end ts =
     filter (\<lambda>t. \<not> StartTime t < start \<and> \<not> EndTime t > end) (measurements ts)"

definition getFirstNonNil :: "TimingStorage \<Rightarrow> TimingData option" where
  "getFirstNonNil ts = (case measurements ts of [] \<Rightarrow> None | t # _ \<Rightarrow> Some t)"

definition getLastNonNil :: "TimingStorage \<Rightarrow> TimingData option" where
  "getLastNonNil ts = (case rev (measurements ts) of [] \<Rightarrow> None | t # _ \<Rightarrow> Some t)"

definition count_timing :: "TimingData \<Rightarrow> TimingStatistics \<times> Duration \<Rightarrow> TimingStatistics \<times> Duration" where
  "count_timing t acc =
     (case acc of (st, totalDuration) \<Rightarrow>
        let st = (if td_Duration t < MinDuration st then st\<lparr>MinDuration := td_Duration t\<rparr> else st);
            st = (if td_Duration t > MaxDuration st then st\<lparr>MaxDuration := td_Duration t\<rparr> else st);
            st = st\<lparr>CategoryCounts := incr_key (td_Category t) (CategoryCounts st)\<rparr>;
            st = (if CheckName t \<noteq> [] then st\<lparr>CheckCounts := incr_key (CheckName t) (CheckCounts st)\<rparr> else st);
            st = (if WorkerID t \<ge> 0 then st\<lparr>WorkerCounts := incr_key (WorkerID t) (WorkerCounts st)\<rparr> else st);
            st = (if Success t then st\<lparr>SuccessCount := SuccessCount st + 1\<rparr> else st)
        in (st, wrap64 (totalDuration + td_Duration t)))"

definition empty_statistics :: "int \<Rightarrow> TimingStatistics" where
  "empty_statistics n =
     \<lparr>Count = n, SuccessCount = 0, ts_SuccessRate = Fin 0, MinDuration = 0, MaxDuration = 0,
      AverageDuration = 0, TimeSpan = 0, CategoryCounts = [], CheckCounts = [], WorkerCounts = []\<rparr>"

definition GetStatistics :: "TimingStorage \<Rightarrow> TimingStatistics" where
  "GetStatistics ts =
     (let st = empty_statistics (int (length (measurements ts)))
      in if Count st = 0 then st
         else case fold count_timing (measurements ts) (st\<lparr>MinDuration := 2 ^ 63 - 1\<rparr>, 0) of
                (st, totalDuration) \<Rightarrow>
                  let st = st\<lparr>AverageDuration := go_quot totalDuration (Count st),
                              ts_SuccessRate := f_div (float64 (SuccessCount st)) (float64 (Count st))\<rparr>
                  in case (getFirstNonNil ts, getLastNonNil ts) of
                       (Some f, Some l) \<Rightarrow> st\<lparr>TimeSpan := Sub (EndTime l) (StartTime f)\<rparr>
                     | _ \<Rightarrow> st)"

definition Clear :: "TimingStorage \<Rightarrow> TimingStorage" where
  "Clear ts = ts\<lparr>measurements := [], currentIndex := 0, wrapped := False,
                 byCategory := [], byCheck := [], byWorker := []\<rparr>"

definition Size :: "TimingStorage \<Rightarrow> nat" where
  "Size ts = length (measurements ts)"

definition Capacity :: "TimingStorage \<Rightarrow> nat" where
  "Capacity ts = maxSize ts"

definition IsFull :: "TimingStorage \<Rightarrow> bool" where
  "IsFull ts \<longleftrightarrow> length (measurements ts) \<ge> maxSize ts"

definition exportJSON :: "TimingStorage \<Rightarrow> string" where
  "exportJSON ts = ''{ '' @ [CHR 0x22] @ ''measurements'' @ [CHR 0x22] @ '': '' @
     show_nat (length (GetAll ts)) @ '' }''"

definition csv_line :: "TimingData \<Rightarrow> string" where
  "csv_line t = Name t @ '','' @ td_Category t @ '','' @ Duration_String (td_Duration t) @ '','' @
     show_bool (Success t) @ [CHR 0x0A]"

definition exportCSV :: "TimingStorage \<Rightarrow> string" where
  "exportCSV ts = ''Name,Category,Duration,Success'' @ [CHR 0x0A] @ concat (map csv_line (GetAll ts))"

definition ExportData :: "string \<Rightarrow> TimingStorage \<Rightarrow> string + string" where
  "ExportData format ts =
     (if format = ''json'' then Inr (exportJSON ts)
      else if format = ''csv'' then Inr (exportCSV ts)
      else Inl (''unsupported export format: '' @ format))"

section \<open>The buffer is a bounded history\<close>

definition ring_inv :: "TimingStorage \<Rightarrow> bool" where
  "ring_inv ts \<longleftrightarrow> 0 < maxSize ts \<and> length (measurements ts) \<le> maxSize ts \<and>
     (if wrapped ts then length (measurements ts) = maxSize ts \<and> currentIndex ts < maxSize ts
      else currentIndex ts = length (measurements ts) - 1)"

lemma GetAll_wrapped:
  assumes "wrapped ts" "length (measurements ts) = maxSize ts" "currentIndex ts < maxSize ts"
  shows "GetAll ts = drop (currentIndex ts + 1) (measurements ts) @ take (currentIndex ts + 1) (measurements ts)"
proof (rule nth_equalityI)
  fix i
  let ?n = "maxSize ts" and ?c = "currentIndex ts + 1"
  assume "i < length (GetAll ts)"
  then have i: "i < ?n" using assms by (simp add: GetAll_def Let_def)
  have "(?c mod ?n + i) mod ?n = (?c + i) mod ?n" by (simp add: mod_add_left_eq)
  also have "\<dots> = (if ?c + i < ?n then ?c + i else ?c + i - ?n)"
    using i assms(3) by (simp add: mod_if)
  finally show "GetAll ts ! i = (drop ?c (measurements ts) @ take ?c (measurements ts)) ! i"
    using i assms by (auto simp: GetAll_def Let_def nth_append add.commute [of _ i])
qed (use assms in \<open>simp add: GetAll_def Let_def\<close>)

lemma GetAll_full:
  assumes "ring_inv ts" "length (measurements ts) = maxSize ts"
  shows "currentIndex ts < maxSize ts"
    and "GetAll ts = drop (currentIndex ts + 1) (measurements ts) @ take (currentIndex ts + 1) (measurements ts)"
proof -
  show c: "currentIndex ts < maxSize ts"
    using assms by (cases "wrapped ts") (simp_all add: ring_inv_def)
  show "GetAll ts = drop (currentIndex ts + 1) (measurements ts) @ take (currentIndex ts + 1) (measurements ts)"
  proof (cases "wrapped ts")
    case True
    then show ?thesis using GetAll_wrapped assms c by blast
  next
    case False
    with assms show ?thesis by (simp add: GetAll_def ring_inv_def)
  qed
qed

lemma set_index_ring [simp]:
  "measurements (set_index k s ts) = measurements ts" "maxSize (set_index k s ts) = maxSize ts"
  "currentIndex (set_index k s ts) = currentIndex ts" "wrapped (set_index k s ts) = wrapped ts"
  by (cases k; simp)+

lemma removeFromIndexes_ring [simp]:
  "measurements (removeFromIndexes t ts) = measurements ts" "maxSize (removeFromIndexes t ts) = maxSize ts"
  "currentIndex (removeFromIndexes t ts) = currentIndex ts" "wrapped (removeFromIndexes t ts) = wrapped ts"
  by (simp_all add: removeFromIndexes_def removeTimingFromSlice_def Let_def split: option.split)

lemma addToIndexes_ring [simp]:
  "measurements (addToIndexes t ts) = measurements ts" "maxSize (addToIndexes t ts) = maxSize ts"
  "currentIndex (addToIndexes t ts) = currentIndex ts" "wrapped (addToIndexes t ts) = wrapped ts"
  by (simp_all add: addToIndexes_def Let_def)

lemma length_GetAll: "ring_inv ts \<Longrightarrow> length (GetAll ts) = length (measurements ts)"
  by (simp add: GetAll_def ring_inv_def Let_def)

lemma last_n_full: "length xs = n \<Longrightarrow> 0 < n \<Longrightarrow> last_n n (xs @ [x]) = tl xs @ [x]"
  by (simp add: last_n_def) (cases xs; simp)

lemma Store_ring:
  assumes "ring_inv ts"
  shows "ring_inv (Store (Some t) ts)" "maxSize (Store (Some t) ts) = maxSize ts"
    "GetAll (Store (Some t) ts) = last_n (maxSize ts) (GetAll ts @ [t])"
proof -
  let ?n = "maxSize ts" and ?ms = "measurements ts"
  show "maxSize (Store (Some t) ts) = maxSize ts" by (simp add: Store_def Let_def)
  have "ring_inv (Store (Some t) ts) \<and> GetAll (Store (Some t) ts) = last_n ?n (GetAll ts @ [t])"
  proof (cases "length ?ms < ?n")
    case True
    then have "\<not> wrapped ts" using assms by (auto simp: ring_inv_def)
    with True assms show ?thesis by (simp add: Store_def Let_def GetAll_def ring_inv_def)
  next
    case False
    then have full: "length ?ms = ?n" using assms by (simp add: ring_inv_def)
    have n: "0 < ?n" using assms by (simp add: ring_inv_def)
    note c = GetAll_full(1) [OF assms full]
    define i where "i = (currentIndex ts + 1) mod ?n"
    have i: "i < ?n" using n by (simp add: i_def)
    let ?ts' = "Store (Some t) ts"
    have s: "measurements ?ts' = ?ms[i := t]" "currentIndex ?ts' = i" "wrapped ?ts'" "maxSize ?ts' = ?n"
      using False by (simp_all add: Store_def Let_def i_def)
    have "GetAll ?ts' = drop (i + 1) ?ms @ take i ?ms @ [t]"
      using GetAll_wrapped [OF s(3)] s full i
      by (simp add: take_Suc_conv_app_nth take_update_swap drop_update_cancel list_update_append)
    moreover have "tl (GetAll ts) = drop (i + 1) ?ms @ take i ?ms"
    proof (cases "currentIndex ts + 1 = ?n")
      case True
      then show ?thesis using GetAll_full(2) [OF assms full] full
        by (simp add: i_def drop_Suc)
    next
      case False
      then have "i = currentIndex ts + 1" "drop i ?ms \<noteq> []" using c full by (simp_all add: i_def)
      then show ?thesis
        using GetAll_full(2) [OF assms full] by (simp add: drop_Suc tl_drop)
    qed
    moreover have "last_n ?n (GetAll ts @ [t]) = tl (GetAll ts) @ [t]"
      using length_GetAll [OF assms] full n by (intro last_n_full) simp_all
    ultimately show ?thesis using s full i n by (simp add: ring_inv_def)
  qed
  then show "ring_inv (Store (Some t) ts)" "GetAll (Store (Some t) ts) = last_n ?n (GetAll ts @ [t])"
    by simp_all
qed

interpretation ring: bounded_history "\<lambda>t. Store (Some t)" GetAll maxSize ring_inv
  by unfold_locales (simp_all add: Store_ring length_GetAll, simp_all add: ring_inv_def)

section \<open>The indexes agree with the buffer\<close>

lemma position_Some: "position x s = Some i \<Longrightarrow> i < length s \<and> s ! i = x"
  by (induction s arbitrary: i) (auto split: if_splits)

lemma position_None: "position x s = None \<longleftrightarrow> x \<notin> set s"
  by (induction s) auto

lemma mset_swap_remove:
  assumes "position x s = Some i"
  shows "mset (take (length s - 1) (s[i := s ! (length s - 1)])) = mset s - {#x#}"
proof -
  have i: "i < length s" "s ! i = x" using position_Some [OF assms] by simp_all
  then obtain ys z where s: "s = ys @ [z]" by (cases s rule: rev_cases) auto
  show ?thesis
  proof (cases "i < length ys")
    case True
    then have "x \<in># mset ys" using i s by (auto simp: nth_append)
    then show ?thesis using True i s by (simp add: list_update_append mset_update nth_append)
  next
    case False
    then have "i = length ys" using i s by simp
    then show ?thesis using i s by simp
  qed
qed

text \<open>What removing from one slice does to an index, seen as a bag.\<close>

definition drop_timing :: "TimingData \<Rightarrow> TimingData list \<Rightarrow> TimingData list" where
  "drop_timing t s = (case position t s of None \<Rightarrow> s
     | Some i \<Rightarrow> take (length s - 1) (s[i := s ! (length s - 1)]))"

lemma mset_drop_timing: "mset (drop_timing t s) = mset s - {#t#}"
  by (simp add: drop_timing_def mset_swap_remove [simplified] position_None diff_single_trivial split: option.split)

lemma idx_update: "idx (AList.update k s m) k' = (if k' = k then s else idx m k')"
  by (simp add: idx_def update_conv)

lemma removeFromIndexes_idx:
  "idx (byCategory (removeFromIndexes t ts)) k =
     (if td_Category t \<noteq> [] \<and> td_Category t = k then drop_timing t (idx (byCategory ts) k) else idx (byCategory ts) k)"
  "idx (byCheck (removeFromIndexes t ts)) k =
     (if CheckName t \<noteq> [] \<and> CheckName t = k then drop_timing t (idx (byCheck ts) k) else idx (byCheck ts) k)"
  "idx (byWorker (removeFromIndexes t ts)) w =
     (if WorkerID t \<ge> 0 \<and> WorkerID t = w then drop_timing t (idx (byWorker ts) w) else idx (byWorker ts) w)"
  by (auto simp: removeFromIndexes_def removeTimingFromSlice_def drop_timing_def Let_def idx_update
      split: option.split)

lemma addToIndexes_idx:
  "idx (byCategory (addToIndexes t ts)) k =
     idx (byCategory ts) k @ (if td_Category t \<noteq> [] \<and> td_Category t = k then [t] else [])"
  "idx (byCheck (addToIndexes t ts)) k =
     idx (byCheck ts) k @ (if CheckName t \<noteq> [] \<and> CheckName t = k then [t] else [])"
  "idx (byWorker (addToIndexes t ts)) w =
     idx (byWorker ts) w @ (if WorkerID t \<ge> 0 \<and> WorkerID t = w then [t] else [])"
  by (auto simp: addToIndexes_def Let_def idx_update)

definition index_inv :: "TimingStorage \<Rightarrow> bool" where
  "index_inv ts \<longleftrightarrow>
     (\<forall>k. mset (idx (byCategory ts) k) = {#t \<in># mset (measurements ts). td_Category t \<noteq> [] \<and> td_Category t = k#}) \<and>
     (\<forall>k. mset (idx (byCheck ts) k) = {#t \<in># mset (measurements ts). CheckName t \<noteq> [] \<and> CheckName t = k#}) \<and>
     (\<forall>w. mset (idx (byWorker ts) w) = {#t \<in># mset (measurements ts). WorkerID t \<ge> 0 \<and> WorkerID t = w#})"

lemma filter_mset_replace:
  "i < length ms \<Longrightarrow> filter_mset P (mset (ms[i := t])) =
     filter_mset P (mset ms) - (if P (ms ! i) then {#ms ! i#} else {#}) + (if P t then {#t#} else {#})"
  by (simp add: mset_update)

lemma Store_index:
  assumes "ring_inv ts" "index_inv ts"
  shows "index_inv (Store (Some t) ts)"
proof (cases "length (measurements ts) < maxSize ts")
  case True
  with assms show ?thesis by (simp add: index_inv_def Store_def Let_def addToIndexes_idx)
next
  case False
  define i where "i = (currentIndex ts + 1) mod maxSize ts"
  have i: "i < length (measurements ts)"
    using assms(1) False by (simp add: i_def ring_inv_def)
  let ?r = "removeFromIndexes (measurements ts ! i) (ts\<lparr>currentIndex := i\<rparr>)"
  have "Store (Some t) ts = addToIndexes t (?r\<lparr>measurements := (measurements ts)[i := t], wrapped := True\<rparr>)"
    using False by (simp add: Store_def Let_def i_def)
  then show ?thesis
    using assms(2) i
    by (simp add: index_inv_def addToIndexes_idx removeFromIndexes_idx mset_drop_timing filter_mset_replace
        del: mset_update)
qed

definition storage_inv :: "TimingStorage \<Rightarrow> bool" where
  "storage_inv ts \<longleftrightarrow> ring_inv ts \<and> index_inv ts"

lemma Store_storage_inv [inv_intros]: "storage_inv ts \<Longrightarrow> storage_inv (Store t ts)"
  by (cases t) (auto simp: storage_inv_def Store_ring Store_index, simp_all add: Store_def)

lemma Clear_storage_inv [inv_intros]: "storage_inv ts \<Longrightarrow> storage_inv (Clear ts)"
  by (simp add: storage_inv_def ring_inv_def index_inv_def Clear_def idx_def)

lemma NewTimingStorage_inv: "storage_inv (NewTimingStorage n)"
  by (simp add: storage_inv_def ring_inv_def index_inv_def NewTimingStorage_def idx_def Let_def
      MaxProfileDataPoints_def)

lemma mset_GetAll:
  assumes "ring_inv ts"
  shows "mset (GetAll ts) = mset (measurements ts)"
proof (cases "wrapped ts")
  case True
  then have "GetAll ts = drop (currentIndex ts + 1) (measurements ts) @ take (currentIndex ts + 1) (measurements ts)"
    using assms by (intro GetAll_wrapped) (simp_all add: ring_inv_def)
  then show ?thesis by (metis append_take_drop_id mset_append union_commute)
qed (simp add: GetAll_def)

section \<open>Statistics\<close>

lemma fold_count_timing:
  assumes "fold count_timing ms (st, tot) = (st', tot')"
    and "\<forall>t \<in> set ms. 0 \<le> td_Duration t" "0 \<le> tot" "tot + sum_list (map td_Duration ms) < 2 ^ 63"
  shows "tot' = tot + sum_list (map td_Duration ms) \<and> Count st' = Count st \<and>
     SuccessCount st' = SuccessCount st + int (length (filter Success ms)) \<and>
     MinDuration st' = fold min (map td_Duration ms) (MinDuration st) \<and>
     MaxDuration st' = fold max (map td_Duration ms) (MaxDuration st) \<and>
     (\<forall>k. count_of (CategoryCounts st') k =
        count_of (CategoryCounts st) k + int (length (filter (\<lambda>t. td_Category t = k) ms)))"
  using assms
proof (induction ms arbitrary: st tot)
  case (Cons t ms)
  define st1 where "st1 = fst (count_timing t (st, tot))"
  have nn: "0 \<le> sum_list (map td_Duration ms)"
    using Cons.prems(2) by (intro sum_list_nonneg) auto
  then have "wrap64 (tot + td_Duration t) = tot + td_Duration t"
    using Cons.prems by (intro wrap64_nonneg_id) auto
  then have c: "count_timing t (st, tot) = (st1, tot + td_Duration t)"
    by (simp add: st1_def count_timing_def Let_def)
  have "Count st1 = Count st" "SuccessCount st1 = SuccessCount st + (if Success t then 1 else 0)"
    "MinDuration st1 = min (td_Duration t) (MinDuration st)" "MaxDuration st1 = max (td_Duration t) (MaxDuration st)"
    "CategoryCounts st1 = incr_key (td_Category t) (CategoryCounts st)"
    by (simp_all add: st1_def count_timing_def Let_def min_def max_def)
  then show ?case
    using Cons.IH [of st1 "tot + td_Duration t"] Cons.prems c by auto
qed simp

lemma GetAll_stored:
  "GetAll (fold (\<lambda>t. Store (Some t)) xs (NewTimingStorage n)) = last_n (maxSize (NewTimingStorage n)) xs"
proof -
  have "ring_inv (NewTimingStorage n)" "GetAll (NewTimingStorage n) = []"
    using NewTimingStorage_inv [of n]
    by (simp_all add: storage_inv_def GetAll_def NewTimingStorage_def Let_def)
  then show ?thesis using ring.fold_push_hist [of "NewTimingStorage n" xs] by simp
qed

section \<open>Properties\<close>

text \<open>
  C3: The circular buffer refines a bounded list: after any sequence of \<^verbatim>\<open>Store\<close> calls on a fresh
  storage, \<^verbatim>\<open>GetAll\<close> returns, in chronological order, the newest measurements up to the capacity,
  \<^verbatim>\<open>GetLatest\<close> the last one stored, \<^verbatim>\<open>Size\<close> never exceeds \<^verbatim>\<open>Capacity\<close>, and \<^verbatim>\<open>Clear\<close> gives the
  empty list.
\<close>

theorem storage_refines_bounded_list:
  "GetAll (fold (\<lambda>t. Store (Some t)) xs (NewTimingStorage n)) =
     last_n (Capacity (NewTimingStorage n)) xs \<and>
   GetLatest (fold (\<lambda>t. Store (Some t)) (xs @ [x]) (NewTimingStorage n)) = Some x \<and>
   Size (fold (\<lambda>t. Store (Some t)) xs (NewTimingStorage n)) \<le> Capacity (NewTimingStorage n) \<and>
   GetAll (Clear (fold (\<lambda>t. Store (Some t)) xs (NewTimingStorage n))) = []"
proof -
  let ?ts = "fold (\<lambda>t. Store (Some t)) xs (NewTimingStorage n)"
  have new: "ring_inv (NewTimingStorage n)"
    using NewTimingStorage_inv [of n] by (simp add: storage_inv_def)
  have inv: "ring_inv ?ts" "maxSize ?ts = maxSize (NewTimingStorage n)"
    using ring.fold_push_inv [OF new, of xs] by simp_all
  have "GetLatest (Store (Some x) ?ts) = Some x"
  proof (cases "length (measurements ?ts) < maxSize ?ts")
    case True
    then show ?thesis by (simp add: GetLatest_def Store_def Let_def)
  next
    case False
    then have "(currentIndex ?ts + 1) mod maxSize ?ts < length (measurements ?ts)"
      using inv(1) by (simp add: ring_inv_def)
    with False show ?thesis by (auto simp: GetLatest_def Store_def Let_def)
  qed
  moreover have "Size ?ts \<le> Capacity (NewTimingStorage n)"
    using inv by (simp add: Size_def Capacity_def ring_inv_def)
  ultimately show ?thesis
    by (simp add: Capacity_def GetAll_stored) (simp add: Clear_def GetAll_def)
qed

text \<open>
  C18: The indexes always agree with the buffer: after any sequence of \<^verbatim>\<open>Store\<close> calls (of
  nil pointers, and of the same pointer several times, too), looking up a non-empty category, a
  non-empty check name or a non-negative worker returns exactly the stored measurements with that
  key, each as often as it is stored, and none that was overwritten.
\<close>

theorem indexes_agree_with_buffer:
  assumes "ts = fold Store xs (NewTimingStorage n)" "k \<noteq> []" "0 \<le> w"
  shows "mset (GetByCategory k ts) = {#t \<in># mset (GetAll ts). td_Category t = k#} \<and>
         mset (GetByCheck k ts) = {#t \<in># mset (GetAll ts). CheckName t = k#} \<and>
         mset (GetByWorker w ts) = {#t \<in># mset (GetAll ts). WorkerID t = w#}"
proof -
  have "storage_inv (fold Store xs s)" if "storage_inv s" for s
    using that by (induction xs arbitrary: s) (simp_all add: Store_storage_inv)
  then have inv: "ring_inv ts" "index_inv ts"
    using NewTimingStorage_inv [of n] assms(1) by (simp_all add: storage_inv_def)
  have eq: "(q \<noteq> [] \<and> q = k) = (q = k)" "(0 \<le> v \<and> v = w) = (v = w)" for q and v
    using assms(2, 3) by auto
  show ?thesis
    using inv(2) by (simp add: index_inv_def GetByCategory_def GetByCheck_def GetByWorker_def
        mset_GetAll [OF inv(1)] eq)
qed

definition sample_timing :: "nat \<Rightarrow> TimingData" where
  "sample_timing i = \<lparr>addr = i, Name = ''op'', StartTime = 10 * int i, EndTime = 10 * int i + 4,
     td_Duration = 4, td_Category = ''c'', CheckName = ''dns'', WorkerID = 0, Success = True\<rparr>"

theorem indexes_agree_with_buffer_witness:
  "size (mset (GetByWorker 0 (fold Store [Some (sample_timing 1), Some (sample_timing 2)] (NewTimingStorage 1)))) = 1"
  using indexes_agree_with_buffer [OF refl, of "''c''" 0 "[Some (sample_timing 1), Some (sample_timing 2)]" 1]
    GetAll_stored [of "[sample_timing 1, sample_timing 2]" 1]
  by (simp add: NewTimingStorage_def Let_def last_n_def sample_timing_def)

text \<open>
  \<^verbatim>\<open>GetStatistics\<close> is sound: for a non-empty storage of non-negative durations whose sum
  fits in an \<^verbatim>\<open>int64\<close>, the average is the truncated mean and lies between the reported minimum and
  maximum, which are attained bounds of the durations; the success rate is between 0 and 1; and the
  count of each category is the number of its measurements.
\<close>

lemma statistics_sound:
  assumes "measurements ts \<noteq> []" "\<forall>t \<in> set (measurements ts). 0 \<le> td_Duration t"
    "sum_list (GetAllDurations ts) < 2 ^ 63" "length (measurements ts) < 2 ^ 63"
  shows "MinDuration (GetStatistics ts) \<le> AverageDuration (GetStatistics ts) \<and>
     AverageDuration (GetStatistics ts) \<le> MaxDuration (GetStatistics ts) \<and>
     AverageDuration (GetStatistics ts) = sum_list (GetAllDurations ts) div int (Size ts) \<and>
     (\<forall>d \<in> set (GetAllDurations ts). MinDuration (GetStatistics ts) \<le> d \<and> d \<le> MaxDuration (GetStatistics ts)) \<and>
     (\<exists>r. ts_SuccessRate (GetStatistics ts) = Fin r \<and> 0 \<le> r \<and> r \<le> 1) \<and>
     (\<forall>k. count_of (CategoryCounts (GetStatistics ts)) k =
        int (length (filter (\<lambda>t. td_Category t = k) (measurements ts))))"
proof -
  let ?ms = "measurements ts" and ?n = "int (length (measurements ts))"
  obtain st tot where f: "fold count_timing ?ms (empty_statistics ?n\<lparr>MinDuration := 2 ^ 63 - 1\<rparr>, 0) = (st, tot)"
    by fastforce
  note F = fold_count_timing [OF f assms(2) order_refl, simplified, folded GetAllDurations_def,
      OF assms(3) [simplified], unfolded empty_statistics_def, simplified]
  have n: "0 < ?n" using assms(1) by simp
  obtain m0 ms' where m0: "?ms = m0 # ms'" using assms(1) by (cases ?ms) auto
  have stats: "MinDuration (GetStatistics ts) = MinDuration st" "MaxDuration (GetStatistics ts) = MaxDuration st"
    "AverageDuration (GetStatistics ts) = go_quot tot ?n"
    "ts_SuccessRate (GetStatistics ts) = f_div (float64 (SuccessCount st)) (float64 ?n)"
    "CategoryCounts (GetStatistics ts) = CategoryCounts st"
    using f F n by (simp_all add: GetStatistics_def Let_def empty_statistics_def split: option.split)
  have bnd: "\<forall>d \<in> set (GetAllDurations ts). MinDuration st \<le> d \<and> d \<le> MaxDuration st"
    using F by (auto simp: fold_min_le fold_max_ge GetAllDurations_def)
  have avg: "go_quot tot ?n = sum_list (GetAllDurations ts) div ?n"
  proof -
    have "0 \<le> sum_list (GetAllDurations ts)"
      using assms(2) by (auto simp: GetAllDurations_def intro!: sum_list_nonneg)
    with F n show ?thesis by (simp add: go_quot_nonneg)
  qed
  have "MinDuration st * ?n \<le> sum_list (GetAllDurations ts) \<and> sum_list (GetAllDurations ts) \<le> MaxDuration st * ?n"
    using sum_list_between [of "GetAllDurations ts" "MinDuration st" "MaxDuration st"] bnd
    by (simp add: GetAllDurations_def)
  then have "MinDuration st \<le> go_quot tot ?n" "go_quot tot ?n \<le> MaxDuration st"
    using n avg zdiv_mono1 [of "sum_list (GetAllDurations ts)" "MaxDuration st * ?n" ?n]
      zdiv_mono1 [of "MinDuration st * ?n" "sum_list (GetAllDurations ts)" ?n] by simp_all
  moreover have "\<exists>r. ts_SuccessRate (GetStatistics ts) = Fin r \<and> 0 \<le> r \<and> r \<le> 1"
    unfolding stats using F n assms(4) by (intro rate_unit_interval) (simp_all add: length_filter_le)
  ultimately show ?thesis
    using F stats bnd avg by (auto simp: Size_def)
qed

lemma fold_Store_fill:
  "\<not> wrapped ts \<Longrightarrow> length (measurements ts) + length xs \<le> maxSize ts \<Longrightarrow>
   ring_inv ts \<Longrightarrow>
   measurements (fold (\<lambda>t. Store (Some t)) xs ts) = measurements ts @ xs \<and>
   \<not> wrapped (fold (\<lambda>t. Store (Some t)) xs ts)"
proof (induction xs arbitrary: ts)
  case (Cons x xs)
  then have "measurements (Store (Some x) ts) = measurements ts @ [x]" "\<not> wrapped (Store (Some x) ts)"
    by (simp_all add: Store_def Let_def)
  with Cons Store_ring [OF Cons.prems(3), of x] show ?case by simp
qed simp

text \<open>
  After the buffer has wrapped, the reported \<^verbatim>\<open>TimeSpan\<close> is not the span of the stored
  measurements: it is taken from the first and the last slot of the buffer, which are then not the
  oldest and the newest. One measurement beyond the capacity is enough: the span runs from the start
  of the newest measurement back to the end of the one before it, and is negative when they follow
  each other.
\<close>

lemma wrapped_time_span_negative:
  assumes "2 \<le> n" "length xs = nat n" "EndTime (last xs) < StartTime y"
    "ts = fold (\<lambda>t. Store (Some t)) (xs @ [y]) (NewTimingStorage n)"
  shows "last (GetAll ts) = y \<and> TimeSpan (GetStatistics ts) = Sub (EndTime (last xs)) (StartTime y) \<and>
         TimeSpan (GetStatistics ts) < 0"
proof -
  let ?s = "fold (\<lambda>t. Store (Some t)) xs (NewTimingStorage n)"
  have new: "ring_inv (NewTimingStorage n)" "maxSize (NewTimingStorage n) = nat n"
      "\<not> wrapped (NewTimingStorage n)" "measurements (NewTimingStorage n) = []"
    using NewTimingStorage_inv [of n] assms(1)
    by (simp_all add: storage_inv_def NewTimingStorage_def Let_def)
  have inv: "ring_inv ?s" "maxSize ?s = nat n" using ring.fold_push_inv [OF new(1), of xs] new by simp_all
  have s: "measurements ?s = xs" "\<not> wrapped ?s"
    using fold_Store_fill [of "NewTimingStorage n" xs] new assms(2) by simp_all
  then have "currentIndex ?s = nat n - 1" using inv(1) assms(2) by (simp add: ring_inv_def)
  then have ms: "measurements ts = xs[0 := y]"
    using assms s inv by (simp add: Store_def Let_def)
  obtain x xs' where xs: "xs = x # xs'" "xs' \<noteq> []"
    using assms(1, 2) by (cases xs; cases "tl xs") auto
  have "last (measurements ts) = last xs" "hd (measurements ts) = y" using ms xs by simp_all
  moreover obtain st tot where "fold count_timing (measurements ts)
      (empty_statistics (int (length (measurements ts)))\<lparr>MinDuration := 2 ^ 63 - 1\<rparr>, 0) = (st, tot)" by fastforce
  moreover have "getLastNonNil ts = Some (last xs)" "getFirstNonNil ts = Some y"
    using ms xs by (cases xs' rule: rev_cases; simp add: getLastNonNil_def getFirstNonNil_def)+
  ultimately have span: "TimeSpan (GetStatistics ts) = Sub (EndTime (last xs)) (StartTime y)"
    using ms xs by (simp add: GetStatistics_def Let_def empty_statistics_def)
  have "last (GetAll ts) = y"
    using ring.push_keeps_newest [OF inv(1), of y] assms(4) by simp
  then show ?thesis using span assms(3) by (simp add: Sub_neg)
qed

end
