(* ===== verification/Precision_Timer.thy ===== *)
theory Precision_Timer
  imports Error_Types Go_Fmt
begin

text \<open>
  The timers of \<^verbatim>\<open>internal/diagnostics/profiling/precision_timer.go\<close>: a timer that subtracts its own
  calibrated overhead, a coarser one, a pool of timers, a batch timer with statistics, a benchmark loop
  and a clock. The monotonic clock is a stream of readings: \<open>clk n\<close> is what the n-th call of
  \<^verbatim>\<open>nanotime\<close> returns, and every operation takes the number of the next reading and returns it
  advanced. \<open>wall n\<close> is the wall clock at that moment. A measured operation is a function on a state.
\<close>

section \<open>The precision timer\<close>

record PrecisionTimer =
  pt_startTime :: Time
  startNano :: int
  stopNano :: int
  pt_overhead :: int
  calibrated :: bool
  calibrationNs :: int

definition zero_timer :: PrecisionTimer where
  "zero_timer = \<lparr>pt_startTime = zero_time, startNano = 0, stopNano = 0, pt_overhead = 0, calibrated = False,
                 calibrationNs = 0\<rparr>"

type_synonym nano_clock = "nat \<Rightarrow> int"

text \<open>Every sample of the calibration reads the clock three times.\<close>

fun overhead_loop :: "nano_clock \<Rightarrow> nat \<Rightarrow> nat \<Rightarrow> int \<Rightarrow> int" where
  "overhead_loop clk n 0 totalOverhead = totalOverhead"
| "overhead_loop clk n (Suc k) totalOverhead =
     overhead_loop clk (n + 3) k (wrap64 (totalOverhead + wrap64 (clk (n + 2) - clk n)))"

definition calibrate :: "nano_clock \<Rightarrow> nat \<Rightarrow> PrecisionTimer \<Rightarrow> PrecisionTimer \<times> nat" where
  "calibrate clk n t =
     (if calibrated t then (t, n)
      else (t\<lparr>calibrationNs := go_quot (overhead_loop clk (n + 100) 1000 0) 1000, calibrated := True\<rparr>, n + 3100))"

definition NewPrecisionTimer :: "nano_clock \<Rightarrow> nat \<Rightarrow> PrecisionTimer \<times> nat" where
  "NewPrecisionTimer clk n = calibrate clk n zero_timer"

definition timer_Start :: "Time \<Rightarrow> nano_clock \<Rightarrow> nat \<Rightarrow> PrecisionTimer \<Rightarrow> PrecisionTimer \<times> nat" where
  "timer_Start now clk n t = (t\<lparr>pt_startTime := now, startNano := clk n\<rparr>, n + 1)"

definition timer_Stop :: "nano_clock \<Rightarrow> nat \<Rightarrow> PrecisionTimer \<Rightarrow> PrecisionTimer \<times> Duration \<times> nat" where
  "timer_Stop clk n t =
     (let t = t\<lparr>stopNano := clk n\<rparr>;
          rawNanos = wrap64 (stopNano t - startNano t);
          adjustedNanos = wrap64 (rawNanos - calibrationNs t);
          adjustedNanos = (if adjustedNanos < 0 then 0 else adjustedNanos)
      in (t\<lparr>pt_overhead := calibrationNs t\<rparr>, adjustedNanos, n + 1))"

definition timer_Elapsed :: "nano_clock \<Rightarrow> nat \<Rightarrow> PrecisionTimer \<Rightarrow> Duration \<times> nat" where
  "timer_Elapsed clk n t =
     (if startNano t = 0 then (0, n) else (wrap64 (clk n - startNano t), n + 1))"

definition timer_Reset :: "PrecisionTimer \<Rightarrow> PrecisionTimer" where
  "timer_Reset t = t\<lparr>pt_startTime := zero_time, startNano := 0, stopNano := 0, pt_overhead := 0\<rparr>"

section \<open>The high-resolution timer\<close>

record HighResolutionTimer =
  hr_start :: int
  hr_stop :: int
  hr_precision :: Duration

definition NewHighResolutionTimer :: HighResolutionTimer where
  "NewHighResolutionTimer = \<lparr>hr_start = 0, hr_stop = 0, hr_precision = 1000\<rparr>"

definition hr_Start :: "int \<Rightarrow> HighResolutionTimer \<Rightarrow> HighResolutionTimer" where
  "hr_Start now t = t\<lparr>hr_start := now\<rparr>"

definition hr_Stop :: "int \<Rightarrow> HighResolutionTimer \<Rightarrow> HighResolutionTimer \<times> Duration" where
  "hr_Stop now t =
     (let t = t\<lparr>hr_stop := now\<rparr>;
          duration = wrap64 (hr_stop t - hr_start t)
      in (t, if hr_precision t > 0
             then wrap64 (go_quot duration (hr_precision t) * hr_precision t) else duration))"

definition SetPrecision :: "Duration \<Rightarrow> HighResolutionTimer \<Rightarrow> HighResolutionTimer" where
  "SetPrecision precision t = t\<lparr>hr_precision := precision\<rparr>"

section \<open>The pool of timers\<close>

text \<open>A buffered channel: the timers in it and its capacity.\<close>

record TimerPool =
  pool_timers :: "PrecisionTimer list"
  pool_cap :: nat

fun fill_pool :: "nano_clock \<Rightarrow> nat \<Rightarrow> nat \<Rightarrow> PrecisionTimer list \<times> nat" where
  "fill_pool clk n 0 = ([], n)"
| "fill_pool clk n (Suc k) =
     (case NewPrecisionTimer clk n of (t, n) \<Rightarrow> case fill_pool clk n k of (ts, n) \<Rightarrow> (t # ts, n))"

definition NewTimerPool :: "nano_clock \<Rightarrow> nat \<Rightarrow> int \<Rightarrow> TimerPool \<times> nat" where
  "NewTimerPool clk n size' =
     (let size' = (if size' \<le> 0 then 100 else size')
      in case fill_pool clk n (nat size') of (ts, n) \<Rightarrow> (\<lparr>pool_timers = ts, pool_cap = nat size'\<rparr>, n))"

definition pool_Get :: "nano_clock \<Rightarrow> nat \<Rightarrow> TimerPool \<Rightarrow> TimerPool \<times> PrecisionTimer \<times> nat" where
  "pool_Get clk n tp =
     (case pool_timers tp of
        timer # ts \<Rightarrow> (tp\<lparr>pool_timers := ts\<rparr>, timer_Reset timer, n)
      | [] \<Rightarrow> (case NewPrecisionTimer clk n of (timer, n) \<Rightarrow> (tp, timer, n)))"

definition pool_Put :: "PrecisionTimer \<Rightarrow> TimerPool \<Rightarrow> TimerPool" where
  "pool_Put timer tp =
     (let timer = timer_Reset timer
      in if length (pool_timers tp) < pool_cap tp then tp\<lparr>pool_timers := pool_timers tp @ [timer]\<rparr> else tp)"

section \<open>The batch timer\<close>

record BatchTimer =
  bt_measurements :: "Duration list"
  bt_overhead :: int
  bt_capacity :: int

record TimerStatistics =
  st_Count :: int
  st_Total :: Duration
  st_Average :: Duration
  st_Min :: Duration
  st_Max :: Duration
  st_Overhead :: Duration

definition NewBatchTimer :: "int \<Rightarrow> BatchTimer" where
  "NewBatchTimer capacity =
     (let capacity = (if capacity \<le> 0 then 1000 else capacity)
      in \<lparr>bt_measurements = [], bt_overhead = 0, bt_capacity = capacity\<rparr>)"

definition batch_Time ::
    "(nat \<Rightarrow> Time) \<Rightarrow> nano_clock \<Rightarrow> ('s \<Rightarrow> 's) \<Rightarrow> BatchTimer \<times> nat \<times> 's \<Rightarrow> (BatchTimer \<times> nat \<times> 's) \<times> Duration" where
  "batch_Time wall clk operation w =
     (case w of (bt, n, s) \<Rightarrow>
        case NewPrecisionTimer clk n of (timer, n) \<Rightarrow>
        case timer_Start (wall n) clk n timer of (timer, n) \<Rightarrow>
        let s = operation s
        in case timer_Stop clk n timer of (timer, duration, n) \<Rightarrow>
           let bt = bt\<lparr>bt_overhead := wrap64 (bt_overhead bt + pt_overhead timer)\<rparr>;
               bt = (if int (length (bt_measurements bt)) < bt_capacity bt
                     then bt\<lparr>bt_measurements := bt_measurements bt @ [duration]\<rparr> else bt)
           in ((bt, n, s), duration))"

definition GetMeasurements :: "BatchTimer \<Rightarrow> Duration list" where
  "GetMeasurements bt = bt_measurements bt"

definition add_measurement :: "Duration \<Rightarrow> Duration \<times> Duration \<times> Duration \<Rightarrow> Duration \<times> Duration \<times> Duration" where
  "add_measurement d acc =
     (case acc of (tot, mn, mx) \<Rightarrow>
        (wrap64 (tot + d), if d < mn then d else mn, if d > mx then d else mx))"

definition batch_GetStatistics :: "BatchTimer \<Rightarrow> TimerStatistics" where
  "batch_GetStatistics bt =
     (case bt_measurements bt of
        [] \<Rightarrow> \<lparr>st_Count = 0, st_Total = 0, st_Average = 0, st_Min = 0, st_Max = 0, st_Overhead = 0\<rparr>
      | d # _ \<Rightarrow>
          (case fold add_measurement (bt_measurements bt) (0, d, d) of
             (tot, mn, mx) \<Rightarrow>
               \<lparr>st_Count = int (length (bt_measurements bt)), st_Total = tot,
                st_Average = go_quot tot (int (length (bt_measurements bt))), st_Min = mn, st_Max = mx,
                st_Overhead = bt_overhead bt\<rparr>))"

definition batch_Reset :: "BatchTimer \<Rightarrow> BatchTimer" where
  "batch_Reset bt = bt\<lparr>bt_measurements := [], bt_overhead := 0\<rparr>"

section \<open>The monotonic clock\<close>

definition NewMonotonicClock :: "nano_clock \<Rightarrow> nat \<Rightarrow> int \<times> nat" where
  "NewMonotonicClock clk n = (clk n, n + 1)"

definition clock_Now :: "nano_clock \<Rightarrow> nat \<Rightarrow> int \<Rightarrow> Duration \<times> nat" where
  "clock_Now clk n baseTime = (wrap64 (clk n - baseTime), n + 1)"

definition clock_Since :: "nano_clock \<Rightarrow> nat \<Rightarrow> int \<Rightarrow> Duration \<Rightarrow> Duration \<times> nat" where
  "clock_Since clk n baseTime t =
     (case clock_Now clk n baseTime of (now, n) \<Rightarrow> (wrap64 (now - t), n))"

text \<open>The spinning wait returns the number of the next reading, or \<^term>\<open>None\<close> when it never ends.\<close>

partial_function (option) spin :: "nano_clock \<Rightarrow> int \<Rightarrow> nat \<Rightarrow> nat option" where
  "spin clk target n = (if clk n < target then spin clk target (n + 1) else Some (n + 1))"

definition clock_Sleep :: "nano_clock \<Rightarrow> nat \<Rightarrow> Duration \<Rightarrow> nat option" where
  "clock_Sleep clk n d =
     (if d \<le> 0 then Some n
      else let target = wrap64 (clk n + d)
           in if d < Millisecond then spin clk target (n + 1) else Some (n + 1))"

section \<open>Benchmarks\<close>

record BenchmarkResult =
  br_Name :: string
  br_Iterations :: int
  br_Total :: Duration
  br_Average :: Duration
  br_Min :: Duration
  br_Max :: Duration
  br_Overhead :: Duration

definition time_all ::
    "(nat \<Rightarrow> Time) \<Rightarrow> nano_clock \<Rightarrow> ('s \<Rightarrow> 's) \<Rightarrow> nat \<Rightarrow> BatchTimer \<times> nat \<times> 's \<Rightarrow> BatchTimer \<times> nat \<times> 's" where
  "time_all wall clk operation k = (\<lambda>w. fst (batch_Time wall clk operation w)) ^^ k"

definition Benchmark ::
    "(nat \<Rightarrow> Time) \<Rightarrow> nano_clock \<Rightarrow> nat \<Rightarrow> string \<Rightarrow> int \<Rightarrow> ('s \<Rightarrow> 's) \<Rightarrow> 's \<Rightarrow> BenchmarkResult \<times> nat \<times> 's" where
  "Benchmark wall clk n name iterations operation s =
     (let iterations = (if iterations \<le> 0 then 1000 else iterations);
          s = (operation ^^ nat (min 10 (go_quot iterations 10))) s
      in case time_all wall clk operation (nat iterations) (NewBatchTimer iterations, n, s) of
           (timer, n, s) \<Rightarrow>
             let stats = batch_GetStatistics timer
             in (\<lparr>br_Name = name, br_Iterations = iterations, br_Total = st_Total stats,
                  br_Average = st_Average stats, br_Min = st_Min stats, br_Max = st_Max stats,
                  br_Overhead = st_Overhead stats\<rparr>, n, s))"

definition BenchmarkResult_String :: "BenchmarkResult \<Rightarrow> string" where
  "BenchmarkResult_String br =
     br_Name br @ '': '' @ show_int (br_Iterations br) @ '' iterations in '' @ Duration_String (br_Total br) @
     '' (avg: '' @ Duration_String (br_Average br) @ '', min: '' @ Duration_String (br_Min br) @
     '', max: '' @ Duration_String (br_Max br) @ '')''"

definition ValidateTimerAccuracy :: "Time \<Rightarrow> nano_clock \<Rightarrow> nat \<Rightarrow> goerror option \<times> nat" where
  "ValidateTimerAccuracy now clk n =
     (case NewPrecisionTimer clk n of (timer, n) \<Rightarrow>
      case timer_Start now clk n timer of (timer, n) \<Rightarrow>
      case timer_Stop clk n timer of (timer, duration, n) \<Rightarrow>
      let expected = 10 * Millisecond;
          diff = wrap64 (duration - expected);
          diff = (if diff < 0 then wrap64 (- diff) else diff)
      in (if diff > Millisecond
          then Some (ErrorString (''timer accuracy validation failed: expected ~'' @ Duration_String expected @
                 '', got '' @ Duration_String duration @ '' (diff: '' @ Duration_String diff @ '')''))
          else None, n))"

section \<open>What a monotonic clock guarantees\<close>

definition clock_ok :: "nano_clock \<Rightarrow> bool" where
  "clock_ok clk \<longleftrightarrow> (\<forall>i j. i \<le> j \<longrightarrow> clk i \<le> clk j) \<and> (\<forall>i. 0 \<le> clk i \<and> clk i < 2 ^ 63)"

lemma clock_mono: "clock_ok clk \<Longrightarrow> i \<le> j \<Longrightarrow> clk i \<le> clk j"
  by (simp add: clock_ok_def)

lemma clock_span: "clock_ok clk \<Longrightarrow> i \<le> j \<Longrightarrow> 0 \<le> clk j - clk i \<and> clk j - clk i < 2 ^ 63"
proof -
  assume ok: "clock_ok clk" and "i \<le> j"
  then have "clk i \<le> clk j" by (simp add: clock_ok_def)
  moreover have "0 \<le> clk i" "clk j < 2 ^ 63" using ok by (auto simp: clock_ok_def)
  ultimately show ?thesis by linarith
qed

lemma clock_diff [simp]: "clock_ok clk \<Longrightarrow> i \<le> j \<Longrightarrow> wrap64 (clk j - clk i) = clk j - clk i"
  using clock_span by (intro wrap64_nonneg_id) blast+

lemma overhead_loop_bounds:
  assumes "clock_ok clk" "0 \<le> t" "t + (clk (n + 3 * k) - clk n) < 2 ^ 63"
  shows "t \<le> overhead_loop clk n k t \<and> overhead_loop clk n k t \<le> t + (clk (n + 3 * k) - clk n)"
  using assms(2, 3)
proof (induction k arbitrary: n t)
  case (Suc k)
  define d where "d = clk (n + 2) - clk n"
  have d: "0 \<le> d" "d \<le> clk (n + 3) - clk n"
    using clock_span [OF assms(1), of n "n + 2"] clock_mono [OF assms(1), of "n + 2" "n + 3"] by (simp_all add: d_def)
  have fin: "clk (n + 3) \<le> clk (n + 3 * Suc k)" by (rule clock_mono [OF assms(1)]) simp
  have e: "n + 3 + 3 * k = n + 3 * Suc k" by simp
  have w: "wrap64 (t + d) = t + d"
    by (rule wrap64_nonneg_id) (use Suc.prems d fin in linarith)+
  have "overhead_loop clk n (Suc k) t = overhead_loop clk (n + 3) k (t + d)"
    using clock_diff [OF assms(1), of n "n + 2"] w by (simp add: d_def)
  moreover have "t + d \<le> overhead_loop clk (n + 3) k (t + d) \<and>
      overhead_loop clk (n + 3) k (t + d) \<le> t + d + (clk (n + 3 + 3 * k) - clk (n + 3))"
    by (rule Suc.IH) (use Suc.prems d fin in \<open>unfold e, linarith+\<close>)
  ultimately show ?case using d fin unfolding e by linarith
qed simp

lemma new_timer:
  assumes "clock_ok clk"
  obtains t where "NewPrecisionTimer clk n = (t, n + 3100)" "calibrated t" "startNano t = 0"
    "0 \<le> calibrationNs t" "1000 * calibrationNs t \<le> clk (n + 3100) - clk (n + 100)"
    "calibrationNs t < 2 ^ 63"
proof -
  let ?o = "overhead_loop clk (n + 100) 1000 0"
  have e: "n + 100 + 3 * 1000 = n + 3100" by simp
  have "0 + (clk (n + 100 + 3 * 1000) - clk (n + 100)) < 2 ^ 63"
    using clock_span [OF assms, of "n + 100" "n + 100 + 3 * 1000"] by simp
  then have o: "0 \<le> ?o \<and> ?o \<le> clk (n + 3100) - clk (n + 100)"
    using overhead_loop_bounds [OF assms, of 0 "n + 100" 1000] unfolding e by simp
  show ?thesis
    by (rule that [of "zero_timer\<lparr>calibrationNs := ?o div 1000, calibrated := True\<rparr>"])
      (use o clock_span [OF assms, of "n + 100" "n + 3100"] in
        \<open>simp_all add: NewPrecisionTimer_def calibrate_def zero_timer_def go_quot_nonneg, linarith+\<close>)
qed

lemma stop_bounds:
  assumes "clock_ok clk" "i \<le> n" "startNano t = clk i" "0 \<le> calibrationNs t" "calibrationNs t < 2 ^ 63"
    "timer_Stop clk n t = (t', d, n')"
  shows "d = max 0 (clk n - clk i - calibrationNs t) \<and> n' = n + 1 \<and> pt_overhead t' = calibrationNs t"
proof -
  have span: "0 \<le> clk n - clk i" "clk n - clk i < 2 ^ 63" using clock_span [OF assms(1, 2)] by blast+
  have "wrap64 (clk n - clk i - calibrationNs t) = clk n - clk i - calibrationNs t"
    using span assms(4, 5) by (intro wrap64_id) (simp add: in_int64_def)
  then show ?thesis using assms by (auto simp: timer_Stop_def Let_def)
qed

text \<open>One measurement: it lies between zero and the time that passed, and uses 3102 readings.\<close>

lemma batch_Time_measures:
  assumes "clock_ok clk"
  obtains bt' d where "batch_Time wall clk operation (bt, n, s) = ((bt', n + 3102, operation s), d)"
    "0 \<le> d" "d \<le> clk (n + 3102) - clk n" "bt_capacity bt' = bt_capacity bt"
    "bt_measurements bt' = (if int (length (bt_measurements bt)) < bt_capacity bt
                            then bt_measurements bt @ [d] else bt_measurements bt)"
proof -
  obtain t where t: "NewPrecisionTimer clk n = (t, n + 3100)" "0 \<le> calibrationNs t" "calibrationNs t < 2 ^ 63"
    using new_timer [OF assms] by metis
  let ?t = "t\<lparr>pt_startTime := wall (n + 3100), startNano := clk (n + 3100)\<rparr>"
  obtain t' d n' where stop: "timer_Stop clk (n + 3101) ?t = (t', d, n')" by (metis prod_cases3)
  have d: "d = max 0 (clk (n + 3101) - clk (n + 3100) - calibrationNs t)" "n' = n + 3102"
    using stop_bounds [OF assms _ _ _ _ stop, of "n + 3100"] t by simp_all
  have "clk n \<le> clk (n + 3100)" "clk (n + 3100) \<le> clk (n + 3101)" "clk (n + 3101) \<le> clk (n + 3102)"
    using assms by (simp_all add: clock_mono)
  then have "0 \<le> d \<and> d \<le> clk (n + 3102) - clk n" using d(1) t(2) by linarith
  moreover have "timer_Start (wall (n + 3100)) clk (n + 3100) t = (?t, n + 3101)" by (simp add: timer_Start_def)
  moreover define bt1 where "bt1 = bt\<lparr>bt_overhead := wrap64 (bt_overhead bt + pt_overhead t')\<rparr>"
  moreover define bt' where "bt' = (if int (length (bt_measurements bt)) < bt_capacity bt
      then bt1\<lparr>bt_measurements := bt_measurements bt1 @ [d]\<rparr> else bt1)"
  ultimately show ?thesis
    using d(2) stop t(1) by (intro that [of bt' d]) (simp_all add: batch_Time_def Let_def)
qed

lemma time_all_measures:
  assumes "clock_ok clk" "k \<le> m" "0 < m"
  shows "\<exists>bt. time_all wall clk operation k (NewBatchTimer (int m), n, s) = (bt, n + 3102 * k, (operation ^^ k) s) \<and>
           length (bt_measurements bt) = k \<and> bt_capacity bt = int m \<and> list_all (\<lambda>d. 0 \<le> d) (bt_measurements bt) \<and>
           sum_list (bt_measurements bt) \<le> clk (n + 3102 * k) - clk n"
  using assms(2)
proof (induction k)
  case 0
  then show ?case using assms(3) by (simp add: time_all_def NewBatchTimer_def)
next
  case (Suc k)
  then obtain bt where bt: "time_all wall clk operation k (NewBatchTimer (int m), n, s) = (bt, n + 3102 * k, (operation ^^ k) s)"
    "length (bt_measurements bt) = k" "bt_capacity bt = int m" "list_all (\<lambda>d. 0 \<le> d) (bt_measurements bt)"
    "sum_list (bt_measurements bt) \<le> clk (n + 3102 * k) - clk n" by auto
  obtain bt' d where step: "batch_Time wall clk operation (bt, n + 3102 * k, (operation ^^ k) s) =
      ((bt', n + 3102 * k + 3102, operation ((operation ^^ k) s)), d)"
    "0 \<le> d" "d \<le> clk (n + 3102 * k + 3102) - clk (n + 3102 * k)" "bt_capacity bt' = bt_capacity bt"
    "bt_measurements bt' = bt_measurements bt @ [d]"
    using batch_Time_measures [OF assms(1), of wall operation bt "n + 3102 * k" "(operation ^^ k) s"] bt(2, 3) Suc.prems
    by auto
  have e: "n + 3102 * k + 3102 = n + 3102 * Suc k" by simp
  have "time_all wall clk operation (Suc k) (NewBatchTimer (int m), n, s) = (bt', n + 3102 * Suc k, (operation ^^ Suc k) s)"
    using bt(1) step(1) by (simp add: time_all_def)
  then show ?case using bt step(2-) unfolding e by simp
qed

lemma fold_measurements:
  assumes "list_all (\<lambda>d. 0 \<le> d) ds" "0 \<le> t" "t + sum_list ds < 2 ^ 63"
  shows "fold add_measurement ds (t, a, b) = (t + sum_list ds, fold min ds a, fold max ds b)"
  using assms
proof (induction ds arbitrary: t a b)
  case (Cons d ds)
  have "0 \<le> sum_list ds" using Cons.prems(1) by (simp add: list_all_iff sum_list_nonneg)
  then have "wrap64 (t + d) = t + d" using Cons.prems by (intro wrap64_nonneg_id) simp_all
  then show ?case using Cons by (simp add: add_measurement_def min_def max_def)
qed simp

lemma statistics_bounds:
  assumes "list_all (\<lambda>d. 0 \<le> d) (bt_measurements bt)" "sum_list (bt_measurements bt) < 2 ^ 63" "bt_measurements bt \<noteq> []"
  defines "st \<equiv> batch_GetStatistics bt" and "n \<equiv> int (length (bt_measurements bt))"
  shows "st_Total st = sum_list (bt_measurements bt) \<and> st_Average st = st_Total st div n \<and> st_Count st = n \<and>
         0 \<le> st_Min st \<and> st_Min st \<le> st_Average st \<and> st_Average st \<le> st_Max st"
proof -
  let ?ds = "bt_measurements bt"
  obtain d ds where ds: "?ds = d # ds" using assms(3) by (cases ?ds) auto
  let ?mn = "fold min ?ds d" and ?mx = "fold max ?ds d"
  have nonneg: "0 \<le> x" if "x \<in> set ?ds" for x using assms(1) that by (simp add: list_all_iff)
  have fold: "fold add_measurement ?ds (0, d, d) = (sum_list ?ds, ?mn, ?mx)"
    using fold_measurements [OF assms(1), of 0 d d] assms(2) by simp
  have n: "0 < n" using assms(3) by (simp add: n_def)
  have nn: "0 \<le> sum_list ?ds" using nonneg by (simp add: sum_list_nonneg)
  have st: "st_Total st = sum_list ?ds" "st_Average st = sum_list ?ds div n" "st_Count st = n"
    "st_Min st = ?mn" "st_Max st = ?mx"
    using fold ds n nn by (simp_all add: st_def n_def batch_GetStatistics_def go_quot_nonneg)
  have "?mn * n \<le> sum_list ?ds \<and> sum_list ?ds \<le> ?mx * n"
    unfolding n_def by (intro sum_list_between) (simp add: fold_min_le fold_max_ge)
  then have "?mn \<le> sum_list ?ds div n \<and> sum_list ?ds div n \<le> ?mx"
    using n by (intro average_between) simp_all
  moreover have "0 \<le> ?mn" using nonneg ds by (intro fold_min_nonneg) auto
  ultimately show ?thesis using st by simp
qed

lemma spin_returns: "(\<exists>k \<ge> n. target \<le> clk k) \<longleftrightarrow> (\<exists>m. spin clk target n = Some m)"
proof
  assume "\<exists>k \<ge> n. target \<le> clk k"
  then obtain k where "n \<le> k" "target \<le> clk k" by blast
  then show "\<exists>m. spin clk target n = Some m"
  proof (induction "k - n" arbitrary: n)
    case 0
    then show ?case by (simp add: spin.simps [of clk target n])
  next
    case (Suc j)
    then have "\<exists>m. spin clk target (n + 1) = Some m" by (cases "k = n") simp_all
    then show ?case by (simp add: spin.simps [of clk target n])
  qed
next
  assume "\<exists>m. spin clk target n = Some m"
  then obtain m where m: "spin clk target n = Some m" ..
  show "\<exists>k \<ge> n. target \<le> clk k"
  proof (rule spin.raw_induct [OF _ m])
    fix sp clk target n m
    assume IH: "\<And>clk target n m. sp clk target n = Some m \<Longrightarrow> \<exists>k \<ge> n. target \<le> (clk k :: int)"
      and e: "(if clk n < target then sp clk target (n + 1) else Some (n + 1)) = Some (m :: nat)"
    show "\<exists>k \<ge> n. target \<le> clk k"
    proof (cases "clk n < target")
      case True
      with e IH [of clk target "n + 1" m] show ?thesis by (auto intro: Suc_leD)
    qed (auto simp: not_less)
  qed
qed

section \<open>The pool keeps its size\<close>

lemma fill_pool_length: "length (fst (fill_pool clk n k)) = k"
  by (induction k arbitrary: n) (simp_all split: prod.split, metis fst_conv)

lemma pool_size:
  "length (pool_timers (fst (NewTimerPool clk n k))) \<le> pool_cap (fst (NewTimerPool clk n k))"
  "length (pool_timers tp) \<le> pool_cap tp \<Longrightarrow> length (pool_timers (pool_Put t tp)) \<le> pool_cap (pool_Put t tp)"
  "length (pool_timers tp) \<le> pool_cap tp \<Longrightarrow>
     length (pool_timers (fst (pool_Get clk n tp))) \<le> pool_cap (fst (pool_Get clk n tp))"
  using fill_pool_length [of clk n]
  by (auto simp: NewTimerPool_def pool_Put_def pool_Get_def Let_def split: prod.split list.split)
    (metis fst_conv order_refl)+

section \<open>Properties\<close>

text \<open>
  On a monotonic clock a benchmark runs its operation once per iteration after at most ten warm-up
  runs, and what it reports is consistent: every measurement is at least zero although the calibrated
  overhead is subtracted, the average is the total divided by the iterations and lies between minimum
  and maximum, and the total never exceeds the time that really passed.
\<close>

lemma benchmark_sound:
  assumes "clock_ok clk" "0 < iterations"
  shows "\<exists>br n'. Benchmark wall clk n name iterations operation s =
      (br, n', (operation ^^ (nat iterations + min 10 (nat iterations div 10))) s) \<and>
    br_Iterations br = iterations \<and> br_Average br = br_Total br div iterations \<and>
    0 \<le> br_Min br \<and> br_Min br \<le> br_Average br \<and> br_Average br \<le> br_Max br \<and>
    br_Total br \<le> clk n' - clk n"
proof -
  let ?m = "nat iterations" and ?w = "nat (min 10 (go_quot iterations 10))"
  have m: "int ?m = iterations" "0 < ?m" using assms(2) by simp_all
  have w: "?w = min 10 (?m div 10)"
  proof -
    obtain k where "iterations = int k" using assms(2) zero_le_imp_eq_int [of iterations] by auto
    moreover have "int k div 10 = int (k div 10)" for k by simp
    ultimately show ?thesis by (simp add: go_quot_nonneg min_def)
  qed
  obtain bt where bt: "time_all wall clk operation ?m (NewBatchTimer (int ?m), n, (operation ^^ ?w) s) =
      (bt, n + 3102 * ?m, (operation ^^ ?m) ((operation ^^ ?w) s))"
    "length (bt_measurements bt) = ?m" "list_all (\<lambda>d. 0 \<le> d) (bt_measurements bt)"
    "sum_list (bt_measurements bt) \<le> clk (n + 3102 * ?m) - clk n"
    using time_all_measures [OF assms(1) order_refl m(2), of wall operation n "(operation ^^ ?w) s"] by blast
  have "sum_list (bt_measurements bt) < 2 ^ 63" "bt_measurements bt \<noteq> []"
    using bt(2, 4) m(2) clock_span [OF assms(1), of n "n + 3102 * ?m"] by auto
  note st = statistics_bounds [OF bt(3) this]
  have "(operation ^^ ?m) ((operation ^^ ?w) s) = (operation ^^ (?m + min 10 (?m div 10))) s"
    unfolding w by (simp only: funpow_add o_apply)
  then show ?thesis using st bt m assms(2) by - (elim conjE, simp add: Benchmark_def Let_def)
qed

end
