(* ===== verification/Metrics_Collector.thy ===== *)
theory Metrics_Collector
  imports Go_Float "HOL-Library.Word"
begin

text \<open>
  The periodic collection of runtime metrics, \<^verbatim>\<open>internal/diagnostics/metrics_collector.go\<close>: a bounded
  list of samples, averages and trends over a time window, and the goroutine that takes the samples.
  What the runtime, the profiler and the worker pool report when a sample is taken is the environment.
\<close>

section \<open>State\<close>

record MetricsSample =
  sa_Timestamp :: Time
  CPUPercent :: f64
  MemoryMB :: f64
  Goroutines :: int
  sa_ActiveJobs :: int
  sa_CompletedJobs :: int
  sa_ErrorRate :: f64
  AvgDuration :: Duration

text \<open>\<open>mc_wg\<close> counts the goroutines that run \<^verbatim>\<open>collect\<close>.\<close>

record MetricsCollector =
  mc_interval :: Duration
  stopChan_closed :: bool
  mc_wg :: nat
  mc_running :: bool
  lastCPUTime :: Time
  lastCPUUsage :: f64
  mc_samples :: "MetricsSample list"
  maxSamples :: nat

definition SamplingInterval :: Duration where
  "SamplingInterval = 100000"

definition NewMetricsCollector :: "Duration \<Rightarrow> MetricsCollector" where
  "NewMetricsCollector interval =
     (let interval = (if interval \<le> 0 then SamplingInterval else interval)
      in \<lparr>mc_interval = interval, stopChan_closed = False, mc_wg = 0, mc_running = False,
          lastCPUTime = zero_time, lastCPUUsage = Fin 0, mc_samples = [], maxSamples = 1000\<rparr>)"

section \<open>Starting and stopping\<close>

text \<open>
  The calls of \<^verbatim>\<open>Start\<close> and \<^verbatim>\<open>Stop\<close> in their atomic parts: \<^verbatim>\<open>CompareAndSwap\<close> on the flag, which gives the
  new state if it succeeds, and what follows it. Closing the closed channel panics, which is \<^term>\<open>None\<close>.
\<close>

definition swap_running :: "bool \<Rightarrow> MetricsCollector \<Rightarrow> MetricsCollector option" where
  "swap_running old mc = (if mc_running mc = old then Some (mc\<lparr>mc_running := \<not> old\<rparr>) else None)"

definition add_goroutine :: "MetricsCollector \<Rightarrow> MetricsCollector" where
  "add_goroutine mc = mc\<lparr>mc_wg := mc_wg mc + 1\<rparr>"

definition close_stopChan :: "MetricsCollector \<Rightarrow> MetricsCollector option" where
  "close_stopChan mc = (if stopChan_closed mc then None else Some (mc\<lparr>stopChan_closed := True\<rparr>))"

definition collector_Start :: "MetricsCollector \<Rightarrow> MetricsCollector" where
  "collector_Start mc = (case swap_running False mc of None \<Rightarrow> mc | Some mc \<Rightarrow> add_goroutine mc)"

text \<open>
  The part of \<^verbatim>\<open>Stop\<close> before it waits for the goroutine: whether it goes on to wait, and the new
  state; \<^term>\<open>None\<close> is the panic.
\<close>

definition collector_Stop :: "MetricsCollector \<Rightarrow> (MetricsCollector \<times> bool) option" where
  "collector_Stop mc =
     (case swap_running True mc of
        None \<Rightarrow> Some (mc, False)
      | Some mc \<Rightarrow> (case close_stopChan mc of None \<Rightarrow> None | Some mc \<Rightarrow> Some (mc, True)))"

lemmas collector_calls = collector_Start_def collector_Stop_def swap_running_def add_goroutine_def close_stopChan_def

section \<open>Sampling\<close>

record sample_env =
  se_now :: Time
  se_cpu_now :: Time
  se_alloc :: "64 word"
  se_goroutines :: int
  se_profiler :: "(Duration \<times> int) option"
  se_pool :: "(int \<times> int) option"

definition collectCPUUsage :: "Time \<Rightarrow> MetricsCollector \<Rightarrow> MetricsCollector \<times> f64" where
  "collectCPUUsage now mc =
     (let mc = (if \<not> IsZero (lastCPUTime mc) \<and> f_gt (Seconds (Sub now (lastCPUTime mc))) (Fin 0)
                then mc\<lparr>lastCPUUsage := Fin 0\<rparr> else mc);
          mc = mc\<lparr>lastCPUTime := now\<rparr>
      in (mc, lastCPUUsage mc))"

definition collectMemoryUsage :: "64 word \<Rightarrow> f64" where
  "collectMemoryUsage alloc = f_div (float64 (uint alloc)) (float64 (1024 * 1024))"

definition storeSample :: "MetricsSample \<Rightarrow> MetricsCollector \<Rightarrow> MetricsCollector" where
  "storeSample sample mc =
     (let mc = (if maxSamples mc \<le> length (mc_samples mc) then mc\<lparr>mc_samples := tl (mc_samples mc)\<rparr> else mc)
      in mc\<lparr>mc_samples := mc_samples mc @ [sample]\<rparr>)"

text \<open>The worker pool is asked only when there is a profiler that knows one.\<close>

definition collectSample :: "sample_env \<Rightarrow> MetricsCollector \<Rightarrow> MetricsCollector" where
  "collectSample env mc =
     (case collectCPUUsage (se_cpu_now env) mc of
        (mc, cpu) \<Rightarrow>
          let sample = \<lparr>sa_Timestamp = se_now env, CPUPercent = cpu, MemoryMB = collectMemoryUsage (se_alloc env),
                        Goroutines = se_goroutines env, sa_ActiveJobs = 0, sa_CompletedJobs = 0,
                        sa_ErrorRate = Fin 0, AvgDuration = 0\<rparr>;
              sample = (case se_profiler env of
                  Some (averageDuration, totalOperations) \<Rightarrow>
                    let sample = sample\<lparr>AvgDuration := averageDuration\<rparr>
                    in if totalOperations > 0
                       then sample\<lparr>sa_ErrorRate := f_div (Fin 0) (float64 totalOperations)\<rparr> else sample
                | None \<Rightarrow> sample);
              sample = (case (se_profiler env, se_pool env) of
                  (Some _, Some (active, completed)) \<Rightarrow>
                    sample\<lparr>sa_ActiveJobs := active, sa_CompletedJobs := completed\<rparr>
                | _ \<Rightarrow> sample)
          in storeSample sample mc)"

section \<open>Reading the samples\<close>

definition GetSamples :: "int \<Rightarrow> MetricsCollector \<Rightarrow> MetricsSample list" where
  "GetSamples num mc =
     (let n = length (mc_samples mc);
          num = (if num \<le> 0 \<or> num > int n then int n else num)
      in drop (n - nat num) (mc_samples mc))"

definition GetLatestSample :: "MetricsCollector \<Rightarrow> MetricsSample option" where
  "GetLatestSample mc = (if mc_samples mc = [] then None else Some (last (mc_samples mc)))"

record AverageMetrics =
  am_Window :: Duration
  SampleCount :: int
  AvgCPU :: f64
  AvgMemoryMB :: f64
  AvgGoroutines :: int
  am_AvgDuration :: Duration

definition in_window :: "Time \<Rightarrow> Duration \<Rightarrow> MetricsCollector \<Rightarrow> MetricsSample list" where
  "in_window now window mc =
     (let cutoff = now + wrap64 (- window) in filter (\<lambda>sample. cutoff < sa_Timestamp sample) (mc_samples mc))"

definition GetAverageMetrics :: "Time \<Rightarrow> Duration \<Rightarrow> MetricsCollector \<Rightarrow> AverageMetrics option" where
  "GetAverageMetrics now window mc =
     (let recent = in_window now window mc;
          num = int (length recent)
      in if recent = [] then None
         else Some \<lparr>am_Window = window, SampleCount = num,
           AvgCPU = f_div (fold (\<lambda>s t. f_add t (CPUPercent s)) recent (Fin 0)) (float64 num),
           AvgMemoryMB = f_div (fold (\<lambda>s t. f_add t (MemoryMB s)) recent (Fin 0)) (float64 num),
           AvgGoroutines = go_quot (fold (\<lambda>s t. wrap64 (t + Goroutines s)) recent 0) num,
           am_AvgDuration = go_quot (fold (\<lambda>s t. wrap64 (t + AvgDuration s)) recent 0) num\<rparr>)"

section \<open>Trends\<close>

record TrendAnalysis =
  Slope :: f64
  Direction :: string

record MetricTrend =
  mt_Metric :: string
  mt_Window :: Duration
  DataPoints :: int
  mt_Slope :: f64
  mt_Direction :: string
  StartValue :: f64
  EndValue :: f64
  MinValue :: f64
  MaxValue :: f64

definition findMin :: "f64 list \<Rightarrow> f64" where
  "findMin values = (case values of [] \<Rightarrow> Fin 0 | v # vs \<Rightarrow> fold (\<lambda>v m. if f_lt v m then v else m) vs v)"

definition findMax :: "f64 list \<Rightarrow> f64" where
  "findMax values = (case values of [] \<Rightarrow> Fin 0 | v # vs \<Rightarrow> fold (\<lambda>v m. if f_gt v m then v else m) vs v)"

definition add_point :: "f64 \<times> f64 \<Rightarrow> f64 \<times> f64 \<times> f64 \<times> f64 \<Rightarrow> f64 \<times> f64 \<times> f64 \<times> f64" where
  "add_point p acc =
     (case p of (x, y) \<Rightarrow> case acc of (sumX, sumY, sumXY, sumX2) \<Rightarrow>
        (f_add sumX x, f_add sumY y, f_add sumXY (f_mul x y), f_add sumX2 (f_mul x x)))"

definition calculateLinearTrend :: "Time list \<Rightarrow> f64 list \<Rightarrow> TrendAnalysis" where
  "calculateLinearTrend timestamps vs =
     (if length timestamps \<noteq> length vs \<or> length vs < 2 then \<lparr>Slope = Fin 0, Direction = ''stable''\<rparr>
      else let xs = map (\<lambda>t. Seconds (Sub t (hd timestamps))) timestamps;
               n = float64 (int (length vs))
           in case fold add_point (zip xs vs) (Fin 0, Fin 0, Fin 0, Fin 0) of
                (sumX, sumY, sumXY, sumX2) \<Rightarrow>
                  let slope = f_div (f_sub (f_mul n sumXY) (f_mul sumX sumY)) (f_sub (f_mul n sumX2) (f_mul sumX sumX))
                  in \<lparr>Slope = slope,
                      Direction = (if f_gt slope (flit (1 / 100)) then ''increasing''
                                   else if f_lt slope (f_neg (flit (1 / 100))) then ''decreasing''
                                   else ''stable'')\<rparr>)"

text \<open>An unknown metric has no values.\<close>

definition metric_value :: "string \<Rightarrow> MetricsSample \<Rightarrow> f64 option" where
  "metric_value metric sample =
     (if metric = ''cpu'' then Some (CPUPercent sample)
      else if metric = ''memory'' then Some (MemoryMB sample)
      else if metric = ''goroutines'' then Some (float64 (Goroutines sample))
      else if metric = ''duration'' then Some (float64 (go_quot (AvgDuration sample) 1000))
      else if metric = ''error_rate'' then Some (sa_ErrorRate sample)
      else None)"

definition GetTrend :: "Time \<Rightarrow> string \<Rightarrow> Duration \<Rightarrow> MetricsCollector \<Rightarrow> MetricTrend option" where
  "GetTrend now metric window mc =
     (if length (mc_samples mc) < 2 then None
      else let points = List.map_filter (\<lambda>s. map_option (Pair (sa_Timestamp s)) (metric_value metric s))
                          (in_window now window mc);
               timestamps = map fst points; vs = map snd points
           in if length vs < 2 then None
              else let trend = calculateLinearTrend timestamps vs
                   in Some \<lparr>mt_Metric = metric, mt_Window = window, DataPoints = int (length vs),
                            mt_Slope = Slope trend, mt_Direction = Direction trend,
                            StartValue = hd vs, EndValue = last vs, MinValue = findMin vs, MaxValue = findMax vs\<rparr>)"

definition IsHealthy :: "MetricsCollector \<Rightarrow> bool" where
  "IsHealthy mc =
     (case GetLatestSample mc of
        None \<Rightarrow> True
      | Some latest \<Rightarrow>
          f_lt (CPUPercent latest) (flit 80) \<and> f_lt (MemoryMB latest) (flit 500) \<and>
          Goroutines latest < 1000 \<and> f_lt (sa_ErrorRate latest) (flit (1 / 10)))"

definition collector_Reset :: "MetricsCollector \<Rightarrow> MetricsCollector" where
  "collector_Reset mc = mc\<lparr>mc_samples := [], lastCPUTime := zero_time, lastCPUUsage := Fin 0\<rparr>"

section \<open>The collector and its goroutines\<close>

text \<open>
  Atomic steps of a collector that is shared by several goroutines, any number of which call \<^verbatim>\<open>Start\<close> and
  \<^verbatim>\<open>Stop\<close>. The numbers count the calls of \<^verbatim>\<open>Start\<close> that have set the flag and not yet added their goroutine,
  those of \<^verbatim>\<open>Stop\<close> that have cleared it and not yet closed the channel, and those of \<^verbatim>\<open>Stop\<close> that wait. When
  the channel is closed and the ticker has fired, \<^verbatim>\<open>select\<close> may choose either.
\<close>

type_synonym collector_state = "MetricsCollector \<times> nat \<times> nat \<times> nat"

inductive collector_step :: "collector_state \<Rightarrow> collector_state \<Rightarrow> bool" where
  step_begin: "swap_running False mc = Some mc' \<Longrightarrow> collector_step (mc, a, b, w) (mc', a + 1, b, w)"
| step_start: "0 < a \<Longrightarrow> collector_step (mc, a, b, w) (add_goroutine mc, a - 1, b, w)"
| step_halt: "swap_running True mc = Some mc' \<Longrightarrow> collector_step (mc, a, b, w) (mc', a, b + 1, w)"
| step_stop: "0 < b \<Longrightarrow> close_stopChan mc = Some mc' \<Longrightarrow> collector_step (mc, a, b, w) (mc', a, b - 1, w + 1)"
| step_tick: "0 < mc_wg mc \<Longrightarrow> collector_step (mc, a, b, w) (collectSample env mc, a, b, w)"
| step_end: "0 < mc_wg mc \<Longrightarrow> stopChan_closed mc \<Longrightarrow>
     collector_step (mc, a, b, w) (mc\<lparr>mc_wg := mc_wg mc - 1\<rparr>, a, b, w)"
| step_stopped: "0 < w \<Longrightarrow> mc_wg mc = 0 \<Longrightarrow> collector_step (mc, a, b, w) (mc, a, b, w - 1)"
| step_reset: "collector_step (mc, a, b, w) (collector_Reset mc, a, b, w)"

inductive_cases collector_stepE: "collector_step (mc, a, b, w) s'"

text \<open>Calls that do not overlap are sequences of these steps.\<close>

lemma collector_Start_steps: "collector_step\<^sup>*\<^sup>* (mc, 0, 0, w) (collector_Start mc, 0, 0, w)"
proof (cases "swap_running False mc")
  case (Some mc')
  then have "collector_step (mc, 0, 0, w) (mc', 1, 0, w)" using step_begin [of mc mc' 0 0 w] by simp
  moreover have "collector_step (mc', 1, 0, w) (add_goroutine mc', 0, 0, w)" using step_start [of 1 mc' 0 w] by simp
  ultimately show ?thesis using Some by (simp add: collector_Start_def)
qed (simp add: collector_Start_def)

lemma collector_Stop_steps:
  assumes "collector_Stop mc = Some (mc', waits)"
  shows "collector_step\<^sup>*\<^sup>* (mc, 0, 0, w) (mc', 0, 0, if waits then w + 1 else w)"
proof (cases "swap_running True mc")
  case (Some mc1)
  then have "close_stopChan mc1 = Some mc'" "waits" using assms by (auto simp: collector_Stop_def split: option.splits)
  then have "collector_step (mc1, 0, 1, w) (mc', 0, 0, w + 1)" using step_stop [of 1 mc1 mc' 0 w] by simp
  moreover have "collector_step (mc, 0, 0, w) (mc1, 0, 1, w)" using step_halt [OF Some, of 0 0 w] by simp
  ultimately show ?thesis using \<open>waits\<close> by simp
qed (use assms in \<open>simp add: collector_Stop_def\<close>)

section \<open>Samples are a bounded history\<close>

definition sampling_ok :: "MetricsCollector \<Rightarrow> bool" where
  "sampling_ok mc \<longleftrightarrow> maxSamples mc = 1000 \<and> length (mc_samples mc) \<le> 1000 \<and> lastCPUUsage mc = Fin 0 \<and>
     list_all (\<lambda>s. CPUPercent s = Fin 0 \<and> sa_ErrorRate s = Fin 0) (mc_samples mc)"

interpretation sampling: bounded_history storeSample mc_samples maxSamples
  "\<lambda>mc. maxSamples mc = 1000 \<and> length (mc_samples mc) \<le> 1000"
  by unfold_locales (auto simp: storeSample_def Let_def last_n_def drop_Suc)

lemma GetSamples_last: "0 < n \<Longrightarrow> GetSamples (int n) mc = last_n n (mc_samples mc)"
  by (simp add: GetSamples_def last_n_def Let_def)

lemma GetLatestSample_stored:
  "maxSamples mc = 1000 \<Longrightarrow> length (mc_samples mc) \<le> 1000 \<Longrightarrow> GetLatestSample (storeSample s mc) = Some s"
  using sampling.push_keeps_newest [of mc s] sampling.push_nonempty [of mc s] by (simp add: GetLatestSample_def)

lemma collectCPUUsage_fields:
  assumes "collectCPUUsage now mc = (mc', cpu)" "lastCPUUsage mc = Fin 0"
  shows "mc' = mc\<lparr>lastCPUTime := now, lastCPUUsage := Fin 0\<rparr> \<and> cpu = Fin 0"
  using assms by (auto simp: collectCPUUsage_def Let_def split: if_splits)

lemma zero_rate:
  assumes "0 < n"
  shows "f_div (Fin 0) (float64 n) = Fin 0"
proof -
  have "1 \<le> rnd_pos (of_int n)"
    using rnd_pos_ge [of 1 "of_int n"] representable_int [of 1] assms by simp
  then show ?thesis using assms by (auto simp: float64_def rnd_def)
qed

lemma collectSample_stores:
  assumes "lastCPUUsage mc = Fin 0"
  obtains s where "collectSample env mc = storeSample s (mc\<lparr>lastCPUTime := se_cpu_now env, lastCPUUsage := Fin 0\<rparr>)"
    "CPUPercent s = Fin 0" "sa_ErrorRate s = Fin 0"
proof -
  obtain mc' cpu where c: "collectCPUUsage (se_cpu_now env) mc = (mc', cpu)" by fastforce
  note f = collectCPUUsage_fields [OF c assms]
  show ?thesis
    using f c by (auto simp: collectSample_def Let_def zero_rate intro: that split: option.split prod.split)
qed

lemma storeSample_fields [simp]:
  "stopChan_closed (storeSample s mc) = stopChan_closed mc" "mc_running (storeSample s mc) = mc_running mc"
  "mc_wg (storeSample s mc) = mc_wg mc" "lastCPUUsage (storeSample s mc) = lastCPUUsage mc"
  "maxSamples (storeSample s mc) = maxSamples mc"
  by (simp_all add: storeSample_def Let_def)

lemma storeSample_ok:
  assumes "sampling_ok mc" "CPUPercent s = Fin 0" "sa_ErrorRate s = Fin 0"
  shows "sampling_ok (storeSample s mc)"
proof -
  have "mc_samples (storeSample s mc) = last_n 1000 (mc_samples mc @ [s])"
    using assms(1) sampling.push_hist [of mc s] by (simp add: sampling_ok_def)
  moreover have "list_all P (last_n n xs)" if "list_all P xs" for P n and xs :: "MetricsSample list"
    using that by (auto simp: list_all_iff last_n_def dest: in_set_dropD)
  ultimately show ?thesis using assms by (auto simp: sampling_ok_def)
qed

definition loop_ok :: "collector_state \<Rightarrow> bool" where
  "loop_ok s \<longleftrightarrow> (case s of (mc, a, b, w) \<Rightarrow> sampling_ok mc \<and>
     (\<not> stopChan_closed mc \<longrightarrow> mc_wg mc + a = (if mc_running mc then 1 else 0) + b \<and> w = 0))"

lemma collector_step_ok: "collector_step s s' \<Longrightarrow> loop_ok s \<Longrightarrow> loop_ok s'"
proof (induction rule: collector_step.induct)
  case (step_tick mc a b w env)
  then have "lastCPUUsage mc = Fin 0" by (simp add: loop_ok_def sampling_ok_def)
  then obtain s where "collectSample env mc = storeSample s (mc\<lparr>lastCPUTime := se_cpu_now env, lastCPUUsage := Fin 0\<rparr>)"
    "CPUPercent s = Fin 0" "sa_ErrorRate s = Fin 0"
    by (rule collectSample_stores)
  moreover have "sampling_ok (mc\<lparr>lastCPUTime := se_cpu_now env, lastCPUUsage := Fin 0\<rparr>)"
    using step_tick by (simp add: loop_ok_def sampling_ok_def)
  ultimately show ?case using step_tick by (simp add: loop_ok_def storeSample_ok)
qed (auto simp: loop_ok_def collector_calls collector_Reset_def sampling_ok_def split: if_splits)

lemma collector_steps_ok: "collector_step\<^sup>*\<^sup>* s s' \<Longrightarrow> loop_ok s \<Longrightarrow> loop_ok s'"
  by (induction rule: rtranclp_induct) (auto dest: collector_step_ok)

text \<open>Once the channel is closed all goroutines can end, and a waiting \<^verbatim>\<open>Stop\<close> returns.\<close>

lemma stop_returns:
  "stopChan_closed mc \<Longrightarrow> 0 < w \<Longrightarrow> collector_step\<^sup>*\<^sup>* (mc, a, b, w) (mc\<lparr>mc_wg := 0\<rparr>, a, b, w - 1)"
proof (induction "mc_wg mc" arbitrary: mc)
  case 0
  then have "collector_step (mc, a, b, w) (mc, a, b, w - 1)" by (intro step_stopped) simp_all
  moreover have "mc\<lparr>mc_wg := 0\<rparr> = mc" using 0 by simp
  ultimately show ?case by simp
next
  case (Suc n)
  let ?mc = "mc\<lparr>mc_wg := mc_wg mc - 1\<rparr>"
  have "collector_step (mc, a, b, w) (?mc, a, b, w)" using Suc by (intro step_end) simp_all
  moreover have "collector_step\<^sup>*\<^sup>* (?mc, a, b, w) (?mc\<lparr>mc_wg := 0\<rparr>, a, b, w - 1)"
    using Suc.hyps(2) Suc.prems by (intro Suc.hyps(1)) simp_all
  ultimately show ?case by simp
qed

section \<open>Trends\<close>

lemma not_f_lt_NaN [simp]: "\<not> f_lt x NaN"
  by (cases x) simp_all

text \<open>Samples that share a timestamp have the slope NaN, and a trend that is called stable.\<close>

lemma simultaneous_trend:
  "calculateLinearTrend [t, t] [Fin 1, Fin 5] = \<lparr>Slope = NaN, Direction = ''stable''\<rparr>"
proof -
  have "Seconds 0 = Fin 0" by (simp add: Seconds_def go_quot_def float64_exact zero_rate)
  moreover have "rnd 1 = Fin 1" "rnd 6 = Fin 6"
    using float64_exact [of 1] float64_exact [of 6] by (simp_all add: float64_def)
  ultimately show ?thesis
    by (simp add: calculateLinearTrend_def f_sub_def inf_of_sign_def add_point_def float64_exact Let_def)
qed

section \<open>Properties\<close>

text \<open>
  C37: However the calls of \<^verbatim>\<open>Start\<close> and \<^verbatim>\<open>Stop\<close>, the ticks and the resets of a collector interleave, it keeps
  at most a thousand samples, all with the CPU usage and the error rate zero; before the channel is closed
  every \<^verbatim>\<open>Start\<close> that set the flag has or gets one goroutine, so between calls exactly one samples while the
  collector runs; a call of \<^verbatim>\<open>Stop\<close> that waits can always return; and once the channel is closed, a \<^verbatim>\<open>Stop\<close>
  that still has to close it panics, as does the next \<^verbatim>\<open>Stop\<close> after starting the collector again.
\<close>

theorem collector_lifecycle:
  assumes "collector_step\<^sup>*\<^sup>* (NewMetricsCollector interval, 0, 0, 0) (mc, starting, stopping, w)"
  shows "length (mc_samples mc) \<le> 1000 \<and>
     list_all (\<lambda>s. CPUPercent s = Fin 0 \<and> sa_ErrorRate s = Fin 0) (mc_samples mc) \<and>
     (\<not> stopChan_closed mc \<longrightarrow> mc_wg mc + starting = (if mc_running mc then 1 else 0) + stopping \<and> w = 0) \<and>
     (0 < w \<longrightarrow> (\<exists>mc'. collector_step\<^sup>*\<^sup>* (mc, starting, stopping, w) (mc', starting, stopping, w - 1))) \<and>
     (stopChan_closed mc \<longrightarrow> close_stopChan mc = None \<and> collector_Stop (collector_Start mc) = None)"
proof -
  have "loop_ok (NewMetricsCollector interval, 0, 0, 0)"
    by (simp add: loop_ok_def sampling_ok_def NewMetricsCollector_def Let_def)
  then have ok: "loop_ok (mc, starting, stopping, w)" by (rule collector_steps_ok [OF assms])
  moreover have "\<exists>mc'. collector_step\<^sup>*\<^sup>* (mc, starting, stopping, w) (mc', starting, stopping, w - 1)" if "0 < w"
    using stop_returns [of mc w] ok that by (auto simp: loop_ok_def)
  ultimately show ?thesis by (auto simp: loop_ok_def sampling_ok_def collector_calls)
qed

text \<open>A \<^verbatim>\<open>Start\<close> that comes between the two parts of a \<^verbatim>\<open>Stop\<close>: the collector runs, but the channel is closed.\<close>

definition overtaken_stop :: MetricsCollector where
  "overtaken_stop = (NewMetricsCollector 5)\<lparr>mc_running := True, mc_wg := 2, stopChan_closed := True\<rparr>"

theorem collector_lifecycle_witness: "collector_Stop (collector_Start overtaken_stop) = None"
proof -
  let ?new = "NewMetricsCollector 5"
  have "collector_step\<^sup>*\<^sup>* (?new, 0, 0, 0) (?new\<lparr>mc_running := True, mc_wg := 1\<rparr>, 0, 0, 0)"
    using collector_Start_steps [of ?new 0] by (simp add: collector_calls NewMetricsCollector_def Let_def)
  moreover have "collector_step (?new\<lparr>mc_running := True, mc_wg := 1\<rparr>, 0, 0, 0) (?new\<lparr>mc_wg := 1\<rparr>, 0, 1, 0)"
    using step_halt [of "?new\<lparr>mc_running := True, mc_wg := 1\<rparr>" "?new\<lparr>mc_wg := 1\<rparr>" 0 0 0]
    by (simp add: collector_calls NewMetricsCollector_def Let_def)
  moreover have "collector_step (?new\<lparr>mc_wg := 1\<rparr>, 0, 1, 0) (?new\<lparr>mc_running := True, mc_wg := 1\<rparr>, 1, 1, 0)"
    using step_begin [of "?new\<lparr>mc_wg := 1\<rparr>" "?new\<lparr>mc_running := True, mc_wg := 1\<rparr>" 0 1 0]
    by (simp add: collector_calls NewMetricsCollector_def Let_def)
  moreover have "collector_step (?new\<lparr>mc_running := True, mc_wg := 1\<rparr>, 1, 1, 0) (?new\<lparr>mc_running := True, mc_wg := 2\<rparr>, 0, 1, 0)"
    using step_start [of 1 "?new\<lparr>mc_running := True, mc_wg := 1\<rparr>" 1 0]
    by (simp add: collector_calls numeral_2_eq_2)
  moreover have "collector_step (?new\<lparr>mc_running := True, mc_wg := 2\<rparr>, 0, 1, 0) (overtaken_stop, 0, 0, 1)"
    using step_stop [of 1 "?new\<lparr>mc_running := True, mc_wg := 2\<rparr>" overtaken_stop 0 0]
    by (simp add: collector_calls overtaken_stop_def NewMetricsCollector_def Let_def)
  ultimately have "collector_step\<^sup>*\<^sup>* (?new, 0, 0, 0) (overtaken_stop, 0, 0, 1)"
    by (meson rtranclp.rtrancl_into_rtrancl)
  then show ?thesis
    using collector_lifecycle [of 5 overtaken_stop 0 0 1] by (simp add: overtaken_stop_def)
qed

end
