(* ===== verification/Performance_Profiler.thy ===== *)
theory Performance_Profiler
  imports Worker_Pool Timing_Storage Precision_Timer Metrics_Collector Swap_Sort
begin

text \<open>
  The performance profiler, \<^verbatim>\<open>internal/diagnostics/performance_profiler.go\<close>: it measures operations
  with the precision timer, keeps the measurements in the timing storage and aggregates them per
  category, check and worker; it owns the metrics collector. \<open>profiler_part\<close> gives the atomic parts of the
  methods, \<open>profiling_step\<close> interleaves those of concurrent calls: a part that needs the lock of the metrics
  runs for a call that waits for it. \<^verbatim>\<open>Reset\<close> replaces the lock together with the metrics, so a run in which
  it overtakes another waiting call is \<open>torn\<close>; the lock itself is modelled at the end.

  Of a measurement the storage keeps the fields of \<open>TimingData\<close>; metadata, call stack and resource
  usage are attached to it and only ever printed.
\<close>

section \<open>State\<close>

datatype ProfilingDetailLevel = DetailLevelBasic | DetailLevelNormal | DetailLevelDetailed | DetailLevelFull

record ProfileConfig =
  pc_Enabled :: bool
  Precision :: Duration
  MaxOverhead :: f64
  SamplingRate :: Duration
  MaxDataPoints :: int
  EnableFlameGraph :: bool
  EnablePercentiles :: bool
  EnableTrends :: bool
  RealtimeMetrics :: bool
  DetailLevel :: ProfilingDetailLevel

record ResourceSnapshot =
  rs_CPUPercent :: f64
  MemoryBytes :: "64 word"
  GoroutineNum :: int
  ThreadNum :: int
  rs_Timestamp :: Time

record CategoryMetrics =
  cm_Count :: int
  cm_TotalDuration :: Duration
  cm_AverageDuration :: Duration
  cm_MinDuration :: Duration
  cm_MaxDuration :: Duration

record CheckProfileMetrics =
  cp_Name :: string
  ExecutionCount :: int
  cp_TotalDuration :: Duration
  cp_AverageDuration :: Duration
  cp_MinDuration :: Duration
  cp_MaxDuration :: Duration
  P50Duration :: Duration
  P95Duration :: Duration
  P99Duration :: Duration
  cp_SuccessRate :: f64
  LastExecution :: Time

record WorkerProfileMetrics =
  wp_WorkerID :: int
  JobsProcessed :: int
  TotalBusyTime :: Duration
  TotalIdleTime :: Duration
  AverageJobTime :: Duration
  Utilization :: f64
  LastJobTime :: Time

record ProfileMetrics =
  TotalOperations :: int
  pm_TotalDuration :: Duration
  pm_AverageDuration :: Duration
  pm_MinDuration :: Duration
  pm_MaxDuration :: Duration
  Percentiles :: "(int, Duration) gomap"
  pm_Categories :: "(string, CategoryMetrics) gomap"
  pm_Checks :: "(string, CheckProfileMetrics) gomap"
  pm_Workers :: "(int, WorkerProfileMetrics) gomap"
  OverheadNanos :: int
  AccuracyAchieved :: Duration

text \<open>
  \<open>pp_starting\<close> counts the goroutines launched to start the collector that have not run yet;
  \<open>pp_addr\<close> is the address of the next measurement; the integration pointers are only set or not.
\<close>

record PerformanceProfiler =
  pp_precision :: Duration
  pp_measurements :: TimingStorage
  pp_metrics :: ProfileMetrics
  pp_collector :: MetricsCollector
  pp_enabled :: bool
  pp_started :: bool
  pp_overhead :: int
  pp_config :: ProfileConfig
  pp_starting :: nat
  pp_addr :: nat
  pp_integration :: "bool \<times> bool \<times> bool"

definition default_profile_config :: ProfileConfig where
  "default_profile_config =
     \<lparr>pc_Enabled = True, Precision = Millisecond, MaxOverhead = flit (5 / 100), SamplingRate = SamplingInterval,
      MaxDataPoints = MaxProfileDataPoints, EnableFlameGraph = False, EnablePercentiles = True,
      EnableTrends = True, RealtimeMetrics = True, DetailLevel = DetailLevelNormal\<rparr>"

definition empty_profile :: ProfileMetrics where
  "empty_profile =
     \<lparr>TotalOperations = 0, pm_TotalDuration = 0, pm_AverageDuration = 0, pm_MinDuration = 0, pm_MaxDuration = 0,
      Percentiles = [], pm_Categories = [], pm_Checks = [], pm_Workers = [], OverheadNanos = 0, AccuracyAchieved = 0\<rparr>"

definition NewPerformanceProfiler :: "ProfileConfig option \<Rightarrow> PerformanceProfiler" where
  "NewPerformanceProfiler config =
     (let config = (case config of None \<Rightarrow> default_profile_config | Some c \<Rightarrow> c)
      in \<lparr>pp_precision = Precision config, pp_measurements = NewTimingStorage (MaxDataPoints config),
          pp_metrics = empty_profile, pp_collector = NewMetricsCollector (SamplingRate config),
          pp_enabled = pc_Enabled config, pp_started = False, pp_overhead = 0, pp_config = config,
          pp_starting = 0, pp_addr = 0, pp_integration = (False, False, False)\<rparr>)"

section \<open>Updating the metrics\<close>

definition zero_category :: CategoryMetrics where
  "zero_category = \<lparr>cm_Count = 0, cm_TotalDuration = 0, cm_AverageDuration = 0, cm_MinDuration = 0, cm_MaxDuration = 0\<rparr>"

definition update_category :: "Duration \<Rightarrow> CategoryMetrics \<Rightarrow> CategoryMetrics" where
  "update_category d c =
     (let c = c\<lparr>cm_Count := cm_Count c + 1, cm_TotalDuration := wrap64 (cm_TotalDuration c + d)\<rparr>;
          c = c\<lparr>cm_AverageDuration := go_quot (cm_TotalDuration c) (cm_Count c)\<rparr>;
          c = (if cm_MinDuration c = 0 \<or> d < cm_MinDuration c then c\<lparr>cm_MinDuration := d\<rparr> else c)
      in if d > cm_MaxDuration c then c\<lparr>cm_MaxDuration := d\<rparr> else c)"

definition update_totals :: "Duration \<Rightarrow> ProfileMetrics \<Rightarrow> ProfileMetrics" where
  "update_totals d m =
     (let m = m\<lparr>TotalOperations := TotalOperations m + 1, pm_TotalDuration := wrap64 (pm_TotalDuration m + d)\<rparr>;
          m = (if pm_MinDuration m = 0 \<or> d < pm_MinDuration m then m\<lparr>pm_MinDuration := d\<rparr> else m);
          m = (if d > pm_MaxDuration m then m\<lparr>pm_MaxDuration := d\<rparr> else m)
      in m\<lparr>pm_AverageDuration := go_quot (pm_TotalDuration m) (TotalOperations m)\<rparr>)"

definition updateMetrics :: "TimingData \<Rightarrow> ProfileMetrics \<Rightarrow> ProfileMetrics" where
  "updateMetrics timing m =
     (let m = update_totals (td_Duration timing) m;
          category = (case map_of (pm_Categories m) (td_Category timing) of Some c \<Rightarrow> c | None \<Rightarrow> zero_category)
      in m\<lparr>pm_Categories := AList.update (td_Category timing) (update_category (td_Duration timing) category)
                              (pm_Categories m)\<rparr>)"

definition new_check_metrics :: "string \<Rightarrow> CheckProfileMetrics" where
  "new_check_metrics name =
     \<lparr>cp_Name = name, ExecutionCount = 0, cp_TotalDuration = 0, cp_AverageDuration = 0, cp_MinDuration = 0,
      cp_MaxDuration = 0, P50Duration = 0, P95Duration = 0, P99Duration = 0, cp_SuccessRate = Fin 0,
      LastExecution = zero_time\<rparr>"

definition count_execution :: "Time \<Rightarrow> bool \<Rightarrow> CheckProfileMetrics \<Rightarrow> CheckProfileMetrics" where
  "count_execution now success c =
     (let c = c\<lparr>ExecutionCount := ExecutionCount c + 1, LastExecution := now\<rparr>;
          past = f_mul (cp_SuccessRate c) (float64 (ExecutionCount c - 1))
      in c\<lparr>cp_SuccessRate := f_div (if success then f_add past (Fin 1) else past) (float64 (ExecutionCount c))\<rparr>)"

definition updateCheckMetrics :: "Time \<Rightarrow> string \<Rightarrow> bool \<Rightarrow> ProfileMetrics \<Rightarrow> ProfileMetrics" where
  "updateCheckMetrics now checkName success m =
     (let c = (case map_of (pm_Checks m) checkName of Some c \<Rightarrow> c | None \<Rightarrow> new_check_metrics checkName)
      in m\<lparr>pm_Checks := AList.update checkName (count_execution now success c) (pm_Checks m)\<rparr>)"

definition new_worker_metrics :: "int \<Rightarrow> WorkerProfileMetrics" where
  "new_worker_metrics workerID =
     \<lparr>wp_WorkerID = workerID, JobsProcessed = 0, TotalBusyTime = 0, TotalIdleTime = 0, AverageJobTime = 0,
      Utilization = Fin 0, LastJobTime = zero_time\<rparr>"

text \<open>The success of the job is an argument that is not used.\<close>

definition updateWorkerMetrics :: "Time \<Rightarrow> int \<Rightarrow> ProfileMetrics \<Rightarrow> ProfileMetrics" where
  "updateWorkerMetrics now workerID m =
     (let w = (case map_of (pm_Workers m) workerID of Some w \<Rightarrow> w | None \<Rightarrow> new_worker_metrics workerID)
      in m\<lparr>pm_Workers := AList.update workerID (w\<lparr>JobsProcessed := JobsProcessed w + 1, LastJobTime := now\<rparr>)
                           (pm_Workers m)\<rparr>)"

definition set_profile :: "(ProfileMetrics \<Rightarrow> ProfileMetrics) \<Rightarrow> PerformanceProfiler \<Rightarrow> PerformanceProfiler" where
  "set_profile f p = p\<lparr>pp_metrics := f (pp_metrics p)\<rparr>"

section \<open>Final metrics\<close>

text \<open>\<open>percentile\<close> is the literal of the call; the index is computed in \<^verbatim>\<open>float64\<close>.\<close>

definition calculatePercentile :: "(f64 \<Rightarrow> int) \<Rightarrow> Duration list \<Rightarrow> int \<Rightarrow> Duration" where
  "calculatePercentile oor durations percentile =
     (if durations = [] then 0
      else let sorted = sort_samples durations;
               index = to_int64 oor (f_div (f_mul (float64 (int (length sorted) - 1)) (float64 percentile)) (flit 100))
           in sorted ! nat index)"

definition check_percentiles ::
    "(f64 \<Rightarrow> int) \<Rightarrow> TimingStorage \<Rightarrow> string \<times> CheckProfileMetrics \<Rightarrow> string \<times> CheckProfileMetrics" where
  "check_percentiles oor ts c =
     (case c of (checkName, m) \<Rightarrow>
        let checkDurations = GetCheckDurations checkName ts
        in (checkName,
            if checkDurations \<noteq> []
            then m\<lparr>P50Duration := calculatePercentile oor checkDurations 50,
                   P95Duration := calculatePercentile oor checkDurations 95,
                   P99Duration := calculatePercentile oor checkDurations 99\<rparr>
            else m))"

definition overall_percentiles :: "(f64 \<Rightarrow> int) \<Rightarrow> Duration list \<Rightarrow> ProfileMetrics \<Rightarrow> ProfileMetrics" where
  "overall_percentiles oor durations m =
     m\<lparr>Percentiles :=
         AList.update 99 (calculatePercentile oor durations 99)
           (AList.update 95 (calculatePercentile oor durations 95)
             (AList.update 50 (calculatePercentile oor durations 50) (Percentiles m)))\<rparr>"

text \<open>The entries of the map are changed in place, so the order of the iteration is of no consequence.\<close>

definition calculatePercentiles :: "(f64 \<Rightarrow> int) \<Rightarrow> TimingStorage \<Rightarrow> ProfileMetrics \<Rightarrow> ProfileMetrics" where
  "calculatePercentiles oor ts m =
     (let durations = GetAllDurations ts
      in if durations = [] then m
         else let m = overall_percentiles oor durations m
              in m\<lparr>pm_Checks := map (check_percentiles oor ts) (pm_Checks m)\<rparr>)"

definition min_difference :: "Duration list \<Rightarrow> Duration" where
  "min_difference durations =
     fold (\<lambda>(a, b) minDiff. let diff = wrap64 (b - a) in if diff > 0 \<and> diff < minDiff then diff else minDiff)
       (zip durations (tl durations)) (2 ^ 63 - 1)"

definition calculateAccuracyAchieved :: "Duration \<Rightarrow> TimingStorage \<Rightarrow> Duration" where
  "calculateAccuracyAchieved precision ts =
     (let durations = GetAllDurations ts
      in if length durations < 2 then precision
         else let minDiff = min_difference durations in if minDiff < precision then precision else minDiff)"

definition calculateFinalMetrics :: "(f64 \<Rightarrow> int) \<Rightarrow> PerformanceProfiler \<Rightarrow> PerformanceProfiler" where
  "calculateFinalMetrics oor p =
     (let m = pp_metrics p;
          m = (if EnablePercentiles (pp_config p) then calculatePercentiles oor (pp_measurements p) m else m);
          m = m\<lparr>AccuracyAchieved := calculateAccuracyAchieved (pp_precision p) (pp_measurements p)\<rparr>
      in p\<lparr>pp_metrics := m\<lparr>OverheadNanos := pp_overhead p\<rparr>\<rparr>)"

section \<open>Starting and stopping\<close>

definition getCurrentCPUUsage :: f64 where
  "getCurrentCPUUsage = Fin 0"

text \<open>The allocated memory, the numbers of goroutines and threads and the time are what the runtime reports.\<close>

definition captureResourceSnapshot :: "64 word \<Rightarrow> int \<Rightarrow> int \<Rightarrow> Time \<Rightarrow> ResourceSnapshot" where
  "captureResourceSnapshot alloc goroutines threads now =
     \<lparr>rs_CPUPercent = getCurrentCPUUsage, MemoryBytes = alloc, GoroutineNum = goroutines, ThreadNum = threads,
      rs_Timestamp = now\<rparr>"

definition captureBaseline :: "ResourceSnapshot \<Rightarrow> PerformanceProfiler \<Rightarrow> PerformanceProfiler" where
  "captureBaseline snapshot =
     set_profile (\<lambda>m. m\<lparr>pm_Categories := AList.update ''baseline''
       (zero_category\<lparr>cm_Count := 1, cm_MinDuration := sint (MemoryBytes snapshot)\<rparr>) (pm_Categories m)\<rparr>)"

definition launch_collector :: "PerformanceProfiler \<Rightarrow> PerformanceProfiler" where
  "launch_collector p =
     (if RealtimeMetrics (pp_config p) then p\<lparr>pp_starting := pp_starting p + 1\<rparr> else p)"

definition profiler_Start :: "ResourceSnapshot \<Rightarrow> PerformanceProfiler \<Rightarrow> PerformanceProfiler \<times> goerror option" where
  "profiler_Start snapshot p =
     (if \<not> pp_enabled p then (p, Some (ErrorString ''profiling is disabled''))
      else if pp_started p then (p, Some (ErrorString ''profiler already started''))
      else let p = p\<lparr>pp_started := True\<rparr>;
               p = launch_collector p
           in (captureBaseline snapshot p, None))"

text \<open>A goroutine launched by \<^verbatim>\<open>Start\<close> runs.\<close>

definition start_collector :: "PerformanceProfiler \<Rightarrow> PerformanceProfiler" where
  "start_collector p = p\<lparr>pp_starting := pp_starting p - 1, pp_collector := collector_Start (pp_collector p)\<rparr>"

text \<open>
  \<^verbatim>\<open>Stop\<close> waits for the goroutines of the collector when it had to close the channel;
  \<^term>\<open>None\<close> is the panic of closing it a second time.
\<close>

definition stop_collector :: "PerformanceProfiler \<Rightarrow> PerformanceProfiler option" where
  "stop_collector p =
     (case collector_Stop (pp_collector p) of
        None \<Rightarrow> None
      | Some (mc, waits) \<Rightarrow> Some (p\<lparr>pp_collector := if waits then mc\<lparr>mc_wg := 0\<rparr> else mc\<rparr>))"

definition profiler_Stop :: "(f64 \<Rightarrow> int) \<Rightarrow> PerformanceProfiler \<Rightarrow> (PerformanceProfiler \<times> goerror option) option" where
  "profiler_Stop oor p =
     (if \<not> pp_started p then Some (p, Some (ErrorString ''profiler not started''))
      else let p = p\<lparr>pp_started := False\<rparr>
           in case stop_collector p of
                None \<Rightarrow> None
              | Some p \<Rightarrow> Some (calculateFinalMetrics oor p, None))"

section \<open>Profiling operations\<close>

text \<open>What the clocks give while one operation is measured.\<close>

record measure_env =
  me_clk :: nano_clock
  me_reading :: nat
  me_start :: Time
  me_end :: Time
  me_now :: Time

definition measured :: "measure_env \<Rightarrow> Duration \<times> int" where
  "measured env =
     (case NewPrecisionTimer (me_clk env) (me_reading env) of (timer, n) \<Rightarrow>
      case timer_Start (me_start env) (me_clk env) n timer of (timer, n) \<Rightarrow>
      case timer_Stop (me_clk env) n timer of (timer, duration, n) \<Rightarrow> (duration, pt_overhead timer))"

definition add_overhead :: "int \<Rightarrow> PerformanceProfiler \<Rightarrow> PerformanceProfiler" where
  "add_overhead overhead p = p\<lparr>pp_overhead := wrap64 (pp_overhead p + overhead)\<rparr>"

definition new_timing ::
    "measure_env \<Rightarrow> string \<Rightarrow> string \<Rightarrow> bool \<Rightarrow> PerformanceProfiler \<Rightarrow> TimingData" where
  "new_timing env name category success p =
     \<lparr>addr = pp_addr p, Name = name, StartTime = me_start env, EndTime = me_end env,
      td_Duration = fst (measured env), td_Category = category, CheckName = [], WorkerID = 0, Success = success\<rparr>"

definition store_timing :: "TimingData \<Rightarrow> PerformanceProfiler \<Rightarrow> PerformanceProfiler" where
  "store_timing timing p =
     p\<lparr>pp_measurements := Store (Some timing) (pp_measurements p), pp_addr := pp_addr p + 1\<rparr>"

text \<open>\<open>err\<close> is what the operation returns; an operation that panics leaves the profiler as it is.\<close>

definition ProfileOperation ::
    "measure_env \<Rightarrow> string \<Rightarrow> string \<Rightarrow> goerror option \<Rightarrow> PerformanceProfiler \<Rightarrow> PerformanceProfiler \<times> goerror option" where
  "ProfileOperation env name category err p =
     (if \<not> pp_enabled p \<or> \<not> pp_started p then (p, err)
      else let p = add_overhead (snd (measured env)) p;
               timing = new_timing env name category (err = None) p;
               p = store_timing timing p
           in (set_profile (updateMetrics timing) p, err))"

definition ProfileDockerAPICall ::
    "measure_env \<Rightarrow> string \<Rightarrow> goerror option \<Rightarrow> PerformanceProfiler \<Rightarrow> PerformanceProfiler \<times> goerror option" where
  "ProfileDockerAPICall env operation = ProfileOperation env (''docker_api_'' @ operation) ''docker_api''"

definition ProfileCheck ::
    "measure_env \<Rightarrow> string \<Rightarrow> run_outcome \<Rightarrow> PerformanceProfiler \<Rightarrow> PerformanceProfiler \<times> run_outcome" where
  "ProfileCheck env checkName outcome p =
     (case outcome of
        Panics r \<Rightarrow> (p, Panics r)
      | Returns result runErr \<Rightarrow>
          if \<not> pp_enabled p then (p, outcome)
          else case ProfileOperation env (''check_'' @ checkName) ''diagnostic_check'' runErr p of
                 (p, err) \<Rightarrow>
                   (set_profile (updateCheckMetrics (me_now env) checkName (err = None)) p, Returns result err))"

text \<open>
  The pointer to the latest measurement is written through: every place that holds the measurement
  sees the change, but the indexes stay keyed as they were.
\<close>

definition retag_timing :: "nat \<Rightarrow> string \<Rightarrow> int \<Rightarrow> TimingData \<Rightarrow> TimingData" where
  "retag_timing a name workerID t = (if addr t = a then t\<lparr>CheckName := name, WorkerID := workerID\<rparr> else t)"

definition retag :: "nat \<Rightarrow> string \<Rightarrow> int \<Rightarrow> TimingStorage \<Rightarrow> TimingStorage" where
  "retag a name workerID ts =
     ts\<lparr>measurements := map (retag_timing a name workerID) (measurements ts),
        byCategory := map (\<lambda>(k, l). (k, map (retag_timing a name workerID) l)) (byCategory ts),
        byCheck := map (\<lambda>(k, l). (k, map (retag_timing a name workerID) l)) (byCheck ts),
        byWorker := map (\<lambda>(k, l). (k, map (retag_timing a name workerID) l)) (byWorker ts)\<rparr>"

definition tag_latest :: "string \<Rightarrow> int \<Rightarrow> PerformanceProfiler \<Rightarrow> PerformanceProfiler" where
  "tag_latest checkName workerID p =
     (case GetLatest (pp_measurements p) of
        None \<Rightarrow> p
      | Some timing \<Rightarrow> p\<lparr>pp_measurements := retag (addr timing) checkName workerID (pp_measurements p)\<rparr>)"

definition ProfileWorkerJob ::
    "measure_env \<Rightarrow> int \<Rightarrow> Job \<Rightarrow> run_outcome \<Rightarrow> PerformanceProfiler \<Rightarrow> PerformanceProfiler \<times> run_outcome" where
  "ProfileWorkerJob env workerID job outcome p =
     (case outcome of
        Panics r \<Rightarrow> (p, Panics r)
      | Returns result runErr \<Rightarrow>
          if \<not> pp_enabled p then (p, outcome)
          else case ProfileOperation env (''worker_'' @ show_int workerID @ ''_job_'' @ show_int (job_ID job))
                      ''worker_job'' runErr p of
                 (p, err) \<Rightarrow>
                   let p = set_profile (updateWorkerMetrics (me_now env) workerID) p
                   in (if result \<noteq> None then tag_latest (c_Name (job_Check job)) workerID p else p, Returns result err))"

section \<open>Reading and resetting\<close>

definition GetMetrics :: "PerformanceProfiler \<Rightarrow> ProfileMetrics" where
  "GetMetrics p = pp_metrics p"

definition GetOverheadPercentage :: "PerformanceProfiler \<Rightarrow> f64" where
  "GetOverheadPercentage p =
     (if pm_TotalDuration (pp_metrics p) = 0 then Fin 0
      else f_mul (f_div (float64 (pp_overhead p)) (float64 (pm_TotalDuration (pp_metrics p)))) (flit 100))"

definition IsWithinOverheadLimit :: "PerformanceProfiler \<Rightarrow> bool" where
  "IsWithinOverheadLimit p \<longleftrightarrow> f_le (GetOverheadPercentage p) (f_mul (MaxOverhead (pp_config p)) (flit 100))"

definition SetIntegration :: "bool \<times> bool \<times> bool \<Rightarrow> PerformanceProfiler \<Rightarrow> PerformanceProfiler" where
  "SetIntegration ptrs p = p\<lparr>pp_integration := ptrs\<rparr>"

definition profiler_Enable :: "PerformanceProfiler \<Rightarrow> PerformanceProfiler" where
  "profiler_Enable p = p\<lparr>pp_enabled := True\<rparr>"

definition profiler_Disable :: "PerformanceProfiler \<Rightarrow> PerformanceProfiler" where
  "profiler_Disable p = p\<lparr>pp_enabled := False\<rparr>"

definition profiler_Reset :: "PerformanceProfiler \<Rightarrow> PerformanceProfiler" where
  "profiler_Reset p =
     p\<lparr>pp_metrics := empty_profile, pp_measurements := Clear (pp_measurements p), pp_overhead := 0\<rparr>"

section \<open>The parts of the methods\<close>

text \<open>
  The atomic parts of the methods, by what they do with the metrics: \<open>Unlocked\<close> parts leave them alone,
  \<open>Section\<close> is all that a method does while it holds their lock, \<open>Counting\<close> such a section that counts
  an operation of a category, \<open>Finishing\<close> a part of the section of \<^verbatim>\<open>calculateFinalMetrics\<close>, which reads the
  storage and the overhead while others change them, and \<open>Replacing\<close> the assignment in \<^verbatim>\<open>Reset\<close>. The
  collector has its own goroutines, so its state is any; \<^verbatim>\<open>ProfileWorkerJob\<close> writes to a measurement it read
  earlier, so \<open>pr_tag\<close> has any address.
\<close>

datatype part = Unlocked | Section | Counting string | Finishing | Replacing

inductive profiler_part :: "part \<Rightarrow> PerformanceProfiler \<Rightarrow> PerformanceProfiler \<Rightarrow> bool" where
  pr_begin: "\<not> pp_started p \<Longrightarrow> profiler_part Unlocked p (p\<lparr>pp_started := True\<rparr>)"
| pr_goroutine: "profiler_part Unlocked p (launch_collector p)"
| pr_launch: "0 < pp_starting p \<Longrightarrow> profiler_part Unlocked p (start_collector p)"
| pr_halt: "pp_started p \<Longrightarrow> profiler_part Unlocked p (p\<lparr>pp_started := False\<rparr>)"
| pr_collector: "profiler_part Unlocked p (p\<lparr>pp_collector := mc\<rparr>)"
| pr_overhead: "profiler_part Unlocked p (add_overhead ns p)"
| pr_store: "profiler_part Unlocked p (store_timing (new_timing env name category success p) p)"
| pr_tag: "profiler_part Unlocked p (p\<lparr>pp_measurements := retag a checkName workerID (pp_measurements p)\<rparr>)"
| pr_enable: "profiler_part Unlocked p (profiler_Enable p)"
| pr_disable: "profiler_part Unlocked p (profiler_Disable p)"
| pr_integration: "profiler_part Unlocked p (SetIntegration ptrs p)"
| pr_clear: "profiler_part Unlocked p (p\<lparr>pp_measurements := Clear (pp_measurements p)\<rparr>)"
| pr_zero: "profiler_part Unlocked p (p\<lparr>pp_overhead := 0\<rparr>)"
| pr_baseline: "profiler_part Section p (captureBaseline snapshot p)"
| pr_check: "profiler_part Section p (set_profile (updateCheckMetrics now checkName success) p)"
| pr_worker: "profiler_part Section p (set_profile (updateWorkerMetrics now workerID) p)"
| pr_read: "profiler_part Section p p"
| pr_update: "profiler_part (Counting (td_Category timing)) p (set_profile (updateMetrics timing) p)"
| pr_percentiles: "profiler_part Finishing p
    (set_profile (overall_percentiles oor (GetAllDurations (pp_measurements p))) p)"
| pr_check_percentiles: "profiler_part Finishing p
    (set_profile (\<lambda>m. m\<lparr>pm_Checks := (pm_Checks m)[i := check_percentiles oor (pp_measurements p) (pm_Checks m ! i)]\<rparr>) p)"
| pr_accuracy: "profiler_part Finishing p
    (set_profile (\<lambda>m. m\<lparr>AccuracyAchieved := calculateAccuracyAchieved (pp_precision p) (pp_measurements p)\<rparr>) p)"
| pr_final_overhead: "profiler_part Finishing p (set_profile (\<lambda>m. m\<lparr>OverheadNanos := pp_overhead p\<rparr>) p)"
| pr_reset: "profiler_part Replacing p (p\<lparr>pp_metrics := empty_profile\<rparr>)"

definition profiler_step :: "PerformanceProfiler \<Rightarrow> PerformanceProfiler \<Rightarrow> bool" where
  "profiler_step p p' \<longleftrightarrow> (\<exists>l. profiler_part l p p')"

lemma part_step: "profiler_part l p p' \<Longrightarrow> profiler_step p p'"
  by (auto simp: profiler_step_def)

lemma part_steps: "profiler_part l p p' \<Longrightarrow> profiler_step\<^sup>*\<^sup>* p' p'' \<Longrightarrow> profiler_step\<^sup>*\<^sup>* p p''"
  by (meson converse_rtranclp_into_rtranclp part_step)

lemma one_part: "profiler_part l p p' \<Longrightarrow> profiler_step\<^sup>*\<^sup>* p p'"
  by (meson r_into_rtranclp part_step)

text \<open>The methods are sequences of these parts.\<close>

lemma profiler_Start_steps: "profiler_step\<^sup>*\<^sup>* p (fst (profiler_Start snapshot p))"
proof (cases "pp_enabled p \<and> \<not> pp_started p")
  case True
  then have "profiler_step\<^sup>*\<^sup>* p (captureBaseline snapshot (launch_collector (p\<lparr>pp_started := True\<rparr>)))"
    using part_steps [OF pr_begin part_steps [OF pr_goroutine one_part [OF pr_baseline]]] by simp
  then show ?thesis using True by (simp add: profiler_Start_def)
qed (auto simp: profiler_Start_def)

lemma check_percentiles_steps:
  "n \<le> length (pm_Checks (pp_metrics p)) \<Longrightarrow>
   profiler_step\<^sup>*\<^sup>* p (set_profile (\<lambda>m. m\<lparr>pm_Checks :=
     map (check_percentiles oor (pp_measurements p)) (take n (pm_Checks m)) @ drop n (pm_Checks m)\<rparr>) p)"
proof (induction n)
  case 0
  then show ?case by (simp add: set_profile_def)
next
  case (Suc n)
  let ?f = "check_percentiles oor (pp_measurements p)"
  let ?cs = "pm_Checks (pp_metrics p)"
  let ?q = "set_profile (\<lambda>m. m\<lparr>pm_Checks := map ?f (take n (pm_Checks m)) @ drop n (pm_Checks m)\<rparr>) p"
  have "(map ?f (take n ?cs) @ drop n ?cs)[n := ?f ((map ?f (take n ?cs) @ drop n ?cs) ! n)] =
      map ?f (take (Suc n) ?cs) @ drop (Suc n) ?cs"
    using Suc.prems by (simp add: list_update_append nth_append take_Suc_conv_app_nth Cons_nth_drop_Suc [symmetric])
  then have "profiler_part Finishing ?q (set_profile (\<lambda>m. m\<lparr>pm_Checks :=
      map ?f (take (Suc n) (pm_Checks m)) @ drop (Suc n) (pm_Checks m)\<rparr>) p)"
    using pr_check_percentiles [of ?q n oor] by (simp add: set_profile_def)
  with Suc show ?case by (auto intro: rtranclp.rtrancl_into_rtrancl part_step)
qed

lemma calculateFinalMetrics_steps: "profiler_step\<^sup>*\<^sup>* p (calculateFinalMetrics oor p)"
proof -
  let ?percentiles = "\<lambda>p. if EnablePercentiles (pp_config p)
     then set_profile (calculatePercentiles oor (pp_measurements p)) p else p"
  let ?o = "set_profile (overall_percentiles oor (GetAllDurations (pp_measurements p))) p"
  have "profiler_step\<^sup>*\<^sup>* p (set_profile (calculatePercentiles oor (pp_measurements p)) p)"
  proof (cases "GetAllDurations (pp_measurements p) = []")
    case True
    then show ?thesis by (simp add: calculatePercentiles_def set_profile_def)
  next
    case False
    have "profiler_step\<^sup>*\<^sup>* p (set_profile (\<lambda>m. m\<lparr>pm_Checks := map (check_percentiles oor (pp_measurements p)) (pm_Checks m)\<rparr>) ?o)"
      using check_percentiles_steps [of "length (pm_Checks (pp_metrics ?o))" ?o oor]
      by (intro part_steps [OF pr_percentiles [of p oor]]) (simp add: set_profile_def)
    then show ?thesis using False by (simp add: calculatePercentiles_def set_profile_def Let_def)
  qed
  then have "profiler_step\<^sup>*\<^sup>* p (?percentiles p)" by simp
  also have "profiler_step\<^sup>*\<^sup>* (?percentiles p) (calculateFinalMetrics oor p)"
    using part_steps [OF pr_accuracy [of "?percentiles p"] one_part [OF pr_final_overhead]]
    by (cases "EnablePercentiles (pp_config p)") (simp_all add: calculateFinalMetrics_def set_profile_def Let_def)
  finally show ?thesis .
qed

lemma profiler_Stop_steps:
  assumes "profiler_Stop oor p = Some (p', err)"
  shows "profiler_step\<^sup>*\<^sup>* p p'"
proof (cases "pp_started p")
  case True
  then obtain q where q: "stop_collector (p\<lparr>pp_started := False\<rparr>) = Some q" "p' = calculateFinalMetrics oor q"
    using assms by (auto simp: profiler_Stop_def split: option.splits)
  have "\<exists>mc. q = p\<lparr>pp_started := False, pp_collector := mc\<rparr>"
    using q(1) by (auto simp: stop_collector_def split: option.splits prod.splits)
  then have "profiler_part Unlocked (p\<lparr>pp_started := False\<rparr>) q" using pr_collector by auto
  then show ?thesis
    unfolding q(2) by (rule part_steps [OF pr_halt [OF True] part_steps [OF _ calculateFinalMetrics_steps]])
qed (use assms in \<open>simp add: profiler_Stop_def\<close>)

lemma profiler_Reset_steps: "profiler_step\<^sup>*\<^sup>* p (profiler_Reset p)"
  using part_steps [OF pr_reset part_steps [OF pr_clear one_part [OF pr_zero]], of p] by (simp add: profiler_Reset_def)

lemma ProfileOperation_steps: "profiler_step\<^sup>*\<^sup>* p (fst (ProfileOperation env name category err p))"
proof (cases "pp_enabled p \<and> pp_started p")
  case True
  then show ?thesis
    using part_steps [OF pr_overhead part_steps [OF pr_store one_part [OF pr_update]]]
    by (simp add: ProfileOperation_def Let_def)
qed (auto simp: ProfileOperation_def)

lemma ProfileCheck_steps: "profiler_step\<^sup>*\<^sup>* p (fst (ProfileCheck env name out p))"
proof (cases out)
  case (Returns result err)
  obtain p1 e where p1: "ProfileOperation env (''check_'' @ name) ''diagnostic_check'' err p = (p1, e)" by fastforce
  then have "profiler_step\<^sup>*\<^sup>* p p1"
    using ProfileOperation_steps [of p env "''check_'' @ name" "''diagnostic_check''" err] by simp
  moreover have "profiler_step p1 (set_profile (updateCheckMetrics (me_now env) name (e = None)) p1)"
    by (rule part_step [OF pr_check])
  ultimately show ?thesis using p1 Returns
    by (cases "pp_enabled p") (simp_all add: ProfileCheck_def rtranclp.rtrancl_into_rtrancl)
qed (simp add: ProfileCheck_def)

lemma tag_latest_steps: "profiler_step\<^sup>*\<^sup>* p (tag_latest name w p)"
  by (auto simp: tag_latest_def intro: one_part [OF pr_tag] split: option.split)

lemma ProfileWorkerJob_steps: "profiler_step\<^sup>*\<^sup>* p (fst (ProfileWorkerJob env w job out p))"
proof (cases out)
  case (Returns result err)
  let ?name = "''worker_'' @ show_int w @ ''_job_'' @ show_int (job_ID job)"
  obtain p1 e where p1: "ProfileOperation env ?name ''worker_job'' err p = (p1, e)" by fastforce
  then have "profiler_step\<^sup>*\<^sup>* p p1"
    using ProfileOperation_steps [of p env ?name "''worker_job''" err] by simp
  also have "profiler_step p1 (set_profile (updateWorkerMetrics (me_now env) w) p1)" (is "profiler_step _ ?p2")
    by (rule part_step [OF pr_worker])
  finally have two: "profiler_step\<^sup>*\<^sup>* p ?p2" .
  then have "profiler_step\<^sup>*\<^sup>* p (tag_latest (c_Name (job_Check job)) w ?p2)"
    using tag_latest_steps by (rule rtranclp_trans)
  then show ?thesis using p1 Returns two by (cases "pp_enabled p") (simp_all add: ProfileWorkerJob_def Let_def)
qed (simp add: ProfileWorkerJob_def)

section \<open>Interleaved calls\<close>

text \<open>
  Calls that run at the same time. \<open>pg_waiting\<close> counts those that have read which mutex to lock and do not
  hold it yet, \<open>pg_final\<close> tells that a call holds it for the parts of \<^verbatim>\<open>calculateFinalMetrics\<close>, and
  \<open>pg_counted\<close> lists the categories of the operations counted since the metrics were made. A call that
  waits for the mutex while \<^verbatim>\<open>Reset\<close> replaces it goes on with a mutex that protects nothing and unlocks one
  it does not hold: from then on the run is \<open>pg_torn\<close>, and the profiler may be in any state.
\<close>

record profiling =
  pg_profiler :: PerformanceProfiler
  pg_waiting :: nat
  pg_final :: bool
  pg_torn :: bool
  pg_counted :: "string list"

definition fresh_profiling :: "ProfileConfig option \<Rightarrow> profiling" where
  "fresh_profiling config =
     \<lparr>pg_profiler = NewPerformanceProfiler config, pg_waiting = 0, pg_final = False, pg_torn = False, pg_counted = []\<rparr>"

inductive profiling_step :: "profiling \<Rightarrow> profiling \<Rightarrow> bool" where
  pg_unlocked: "profiler_part Unlocked (pg_profiler s) p \<Longrightarrow> profiling_step s (s\<lparr>pg_profiler := p\<rparr>)"
| pg_lock: "profiling_step s (s\<lparr>pg_waiting := pg_waiting s + 1\<rparr>)"
| pg_section: "profiler_part Section (pg_profiler s) p \<Longrightarrow> 0 < pg_waiting s \<Longrightarrow> \<not> pg_final s \<Longrightarrow>
     profiling_step s (s\<lparr>pg_profiler := p, pg_waiting := pg_waiting s - 1\<rparr>)"
| pg_count: "profiler_part (Counting k) (pg_profiler s) p \<Longrightarrow> 0 < pg_waiting s \<Longrightarrow> \<not> pg_final s \<Longrightarrow>
     profiling_step s (s\<lparr>pg_profiler := p, pg_waiting := pg_waiting s - 1, pg_counted := k # pg_counted s\<rparr>)"
| pg_finish: "0 < pg_waiting s \<Longrightarrow> \<not> pg_final s \<Longrightarrow>
     profiling_step s (s\<lparr>pg_waiting := pg_waiting s - 1, pg_final := True\<rparr>)"
| pg_finishing: "profiler_part Finishing (pg_profiler s) p \<Longrightarrow> pg_final s \<Longrightarrow> profiling_step s (s\<lparr>pg_profiler := p\<rparr>)"
| pg_finished: "pg_final s \<Longrightarrow> profiling_step s (s\<lparr>pg_final := False\<rparr>)"
| pg_replace: "profiler_part Replacing (pg_profiler s) p \<Longrightarrow> 0 < pg_waiting s \<Longrightarrow> \<not> pg_final s \<Longrightarrow>
     profiling_step s (s\<lparr>pg_profiler := p, pg_waiting := pg_waiting s - 1,
       pg_torn := pg_torn s \<or> 1 < pg_waiting s, pg_counted := []\<rparr>)"
| pg_tear: "pg_torn s \<Longrightarrow> profiling_step s (s\<lparr>pg_profiler := p\<rparr>)"

lemma profiling_parts: "profiling_step s s' \<Longrightarrow> \<not> pg_torn s' \<Longrightarrow>
  \<not> pg_torn s \<and> profiler_step\<^sup>*\<^sup>* (pg_profiler s) (pg_profiler s')"
  by (induction rule: profiling_step.induct) (auto intro: one_part)

lemma untorn_run:
  "profiling_step\<^sup>*\<^sup>* (fresh_profiling config) s \<Longrightarrow> \<not> pg_torn s \<Longrightarrow>
   profiler_step\<^sup>*\<^sup>* (NewPerformanceProfiler config) (pg_profiler s)"
proof (induction rule: rtranclp_induct)
  case base
  then show ?case by (simp add: fresh_profiling_def)
next
  case (step s s')
  then show ?case using profiling_parts by (meson rtranclp_trans)
qed

text \<open>Conversely, calls that come one at a time never tear: every sequence of parts is such a run.\<close>

definition at_rest :: "profiling \<Rightarrow> bool" where
  "at_rest s \<longleftrightarrow> pg_waiting s = 0 \<and> \<not> pg_final s \<and> \<not> pg_torn s"

lemma single_call:
  assumes "profiler_step (pg_profiler s) p" "at_rest s"
  shows "\<exists>s'. profiling_step\<^sup>*\<^sup>* s s' \<and> at_rest s' \<and> pg_profiler s' = p"
proof -
  obtain l where l: "profiler_part l (pg_profiler s) p" using assms(1) by (auto simp: profiler_step_def)
  let ?w = "s\<lparr>pg_waiting := pg_waiting s + 1\<rparr>"
  have w: "profiling_step s ?w" "pg_waiting ?w = 1" "\<not> pg_final ?w" "\<not> pg_torn ?w"
    using assms(2) pg_lock [of s] by (simp_all add: at_rest_def)
  have two: "profiling_step ?w t \<Longrightarrow> at_rest t \<Longrightarrow> pg_profiler t = p \<Longrightarrow> ?thesis" for t
    using converse_rtranclp_into_rtranclp [of profiling_step s ?w t] w(1) by blast
  show ?thesis
  proof (cases l)
    case Unlocked
    then have "profiling_step s (s\<lparr>pg_profiler := p\<rparr>)" using l by (intro pg_unlocked) simp
    then show ?thesis using assms(2) by (intro exI [of _ "s\<lparr>pg_profiler := p\<rparr>"]) (auto simp: at_rest_def)
  next
    case Section
    then show ?thesis using two [OF pg_section [of ?w p]] l w by (simp add: at_rest_def)
  next
    case (Counting k)
    then show ?thesis using two [OF pg_count [of k ?w p]] l w by (simp add: at_rest_def)
  next
    case Replacing
    then show ?thesis using two [OF pg_replace [of ?w p]] l w by (simp add: at_rest_def)
  next
    case Finishing
    let ?f = "?w\<lparr>pg_waiting := pg_waiting ?w - 1, pg_final := True\<rparr>"
    have "profiling_step ?w ?f" using w by (intro pg_finish) simp_all
    moreover have "profiling_step ?f (?f\<lparr>pg_profiler := p\<rparr>)" using pg_finishing [of ?f p] l Finishing by simp
    moreover have "profiling_step (?f\<lparr>pg_profiler := p\<rparr>) (?f\<lparr>pg_profiler := p, pg_final := False\<rparr>)"
      using pg_finished [of "?f\<lparr>pg_profiler := p\<rparr>"] by simp
    ultimately have "profiling_step\<^sup>*\<^sup>* s (?f\<lparr>pg_profiler := p, pg_final := False\<rparr>)"
      using w(1) by (meson converse_rtranclp_into_rtranclp r_into_rtranclp)
    moreover have "at_rest (?f\<lparr>pg_profiler := p, pg_final := False\<rparr>)" using assms(2) by (simp add: at_rest_def)
    ultimately show ?thesis by fastforce
  qed
qed

lemma one_call_at_a_time:
  "profiler_step\<^sup>*\<^sup>* (NewPerformanceProfiler config) p \<Longrightarrow>
   \<exists>s. profiling_step\<^sup>*\<^sup>* (fresh_profiling config) s \<and> at_rest s \<and> pg_profiler s = p"
proof (induction rule: rtranclp_induct)
  case base
  then show ?case by (intro exI [of _ "fresh_profiling config"]) (simp add: fresh_profiling_def at_rest_def)
next
  case (step p q)
  then show ?case using single_call by (metis rtranclp_trans)
qed

section \<open>The counters balance\<close>

definition operations_in :: "(string, CategoryMetrics) gomap \<Rightarrow> int" where
  "operations_in m = sum_list (map (\<lambda>(k, c). if k = ''baseline'' then 0 else cm_Count c) m)"

lemma operations_in_update:
  "gomap_ok m \<Longrightarrow> operations_in (AList.update k c m) =
     operations_in m - (if k = ''baseline'' then 0 else case map_of m k of None \<Rightarrow> 0 | Some c \<Rightarrow> cm_Count c) +
     (if k = ''baseline'' then 0 else cm_Count c)"
  by (induction m) (auto simp: operations_in_def gomap_ok_def split: option.split)

definition unit_rate :: "f64 \<Rightarrow> bool" where
  "unit_rate x \<longleftrightarrow> (\<exists>r. x = Fin r \<and> 0 \<le> r \<and> r \<le> 1)"

definition check_metrics_ok :: "CheckProfileMetrics \<Rightarrow> bool" where
  "check_metrics_ok c \<longleftrightarrow> P50Duration c = 0 \<and> P95Duration c = 0 \<and> P99Duration c = 0 \<and>
     cp_AverageDuration c = 0 \<and> 0 \<le> ExecutionCount c \<and>
     (ExecutionCount c \<le> 2 ^ 53 \<longrightarrow> unit_rate (cp_SuccessRate c))"

lemma new_check_metrics_ok: "check_metrics_ok (new_check_metrics name)"
  by (simp add: check_metrics_ok_def new_check_metrics_def unit_rate_def)

lemma count_execution_ok:
  assumes "check_metrics_ok c"
  shows "check_metrics_ok (count_execution now success c)"
proof -
  let ?n = "ExecutionCount c"
  have "unit_rate (cp_SuccessRate (count_execution now success c))" if n: "?n + 1 \<le> 2 ^ 53"
  proof -
    obtain r where r: "cp_SuccessRate c = Fin r" "0 \<le> r" "r \<le> 1"
      using assms n by (auto simp: check_metrics_ok_def unit_rate_def)
    have n0: "0 \<le> ?n" using assms by (simp add: check_metrics_ok_def)
    have f: "float64 ?n = Fin (of_int ?n)" "float64 (?n + 1) = Fin (of_int (?n + 1))"
      using n n0 by (simp_all only: float64_exact)
    have "r * of_int ?n \<le> of_int ?n" using r n0 by (intro mult_left_le_one_le) simp_all
    then obtain a where a: "rnd (r * of_int ?n) = Fin a" "0 \<le> a" "a \<le> of_int ?n"
      using rnd_bounded_int [of "r * of_int ?n" ?n] r n n0 by auto
    obtain b where b: "(if success then f_add (Fin a) (Fin 1) else Fin a) = Fin b" "0 \<le> b" "b \<le> of_int (?n + 1)"
    proof (cases success)
      case True
      then show ?thesis using rnd_bounded_int [of "a + 1" "?n + 1"] a n that by auto
    next
      case False
      then show ?thesis using a that by auto
    qed
    have pos: "(0 :: rat) < of_int (?n + 1)" using n0 by simp
    then have q: "0 \<le> b / of_int (?n + 1)" "b / of_int (?n + 1) \<le> of_int 1"
      using b(2, 3) by (simp_all add: pos_divide_le_eq)
    then obtain z where "rnd (b / of_int (?n + 1)) = Fin z" "0 \<le> z" "z \<le> 1"
      using rnd_bounded_int [OF q] by auto
    moreover have "cp_SuccessRate (count_execution now success c) = rnd (b / of_int (?n + 1))"
      using r a b(1) f pos by (cases success) (simp_all add: count_execution_def Let_def)
    ultimately show ?thesis by (simp add: unit_rate_def)
  qed
  then show ?thesis using assms by (auto simp: check_metrics_ok_def count_execution_def Let_def)
qed

definition worker_metrics_ok :: "WorkerProfileMetrics \<Rightarrow> bool" where
  "worker_metrics_ok w \<longleftrightarrow> 0 \<le> JobsProcessed w \<and> TotalBusyTime w = 0 \<and> Utilization w = Fin 0"

definition profile_ok :: "ProfileMetrics \<Rightarrow> bool" where
  "profile_ok m \<longleftrightarrow> gomap_ok (pm_Categories m) \<and> gomap_ok (pm_Checks m) \<and> list_all (\<lambda>(k, c). check_metrics_ok c) (pm_Checks m) \<and>
     list_all (\<lambda>(k, w). worker_metrics_ok w \<and> 0 < JobsProcessed w) (pm_Workers m)"

definition profiler_ok :: "PerformanceProfiler \<Rightarrow> bool" where
  "profiler_ok p \<longleftrightarrow> profile_ok (pp_metrics p) \<and> ring_inv (pp_measurements p) \<and> byCheck (pp_measurements p) = [] \<and>
     maxSize (pp_measurements p) = nat (if MaxDataPoints (pp_config p) \<le> 0 then 10000 else MaxDataPoints (pp_config p))"

lemma update_totals_fields [simp]:
  "TotalOperations (update_totals d m) = TotalOperations m + 1" "pm_Categories (update_totals d m) = pm_Categories m"
  "pm_Checks (update_totals d m) = pm_Checks m" "pm_Workers (update_totals d m) = pm_Workers m"
  by (simp_all add: update_totals_def Let_def)

lemma update_category_count [simp]: "cm_Count (update_category d c) = cm_Count c + 1"
  by (simp add: update_category_def Let_def)

lemma updateMetrics_ok: "profile_ok m \<Longrightarrow> profile_ok (updateMetrics t m)"
  by (simp add: profile_ok_def updateMetrics_def Let_def)

text \<open>
  \<open>counted\<close> lists the categories of the operations that the metrics count. The entry that \<^verbatim>\<open>captureBaseline\<close>
  overwrites is the only one that loses some.
\<close>

definition category_count :: "string \<Rightarrow> (string, CategoryMetrics) gomap \<Rightarrow> int" where
  "category_count k m = (case map_of m k of None \<Rightarrow> 0 | Some c \<Rightarrow> cm_Count c)"

definition counts_balance :: "string list \<Rightarrow> ProfileMetrics \<Rightarrow> bool" where
  "counts_balance counted m \<longleftrightarrow> TotalOperations m = int (length counted) \<and>
     operations_in (pm_Categories m) + int (count_list counted ''baseline'') = TotalOperations m \<and>
     (\<forall>k. k \<noteq> ''baseline'' \<longrightarrow> category_count k (pm_Categories m) = int (count_list counted k))"

lemma category_count_update [simp]:
  "category_count k (AList.update k' c m) = (if k = k' then cm_Count c else category_count k m)"
  by (simp add: category_count_def update_conv')

lemma counts_balance_update:
  assumes "profile_ok m" "counts_balance counted m"
  shows "counts_balance (td_Category t # counted) (updateMetrics t m)"
proof -
  have c: "cm_Count (case map_of (pm_Categories m) k of Some c \<Rightarrow> c | None \<Rightarrow> zero_category) =
      category_count k (pm_Categories m)" for k
    by (simp add: category_count_def zero_category_def split: option.split)
  have "gomap_ok (pm_Categories m)" using assms(1) by (simp add: profile_ok_def)
  then show ?thesis
    using assms(2) by (simp add: counts_balance_def updateMetrics_def Let_def operations_in_update c
        category_count_def [symmetric])
qed

lemma counts_balance_baseline:
  "profile_ok m \<Longrightarrow> counts_balance counted m \<Longrightarrow>
   counts_balance counted (m\<lparr>pm_Categories := AList.update ''baseline'' c (pm_Categories m)\<rparr>)"
  by (simp add: counts_balance_def profile_ok_def operations_in_update)

lemma list_all_update:
  "list_all (\<lambda>(k, c). P c) m \<Longrightarrow> P c \<Longrightarrow> list_all (\<lambda>(k, c). P c) (AList.update k c m)"
  by (induction m) auto

lemma updateCheckMetrics_ok: "profile_ok m \<Longrightarrow> profile_ok (updateCheckMetrics now name success m)"
proof -
  assume ok: "profile_ok m"
  have "check_metrics_ok (case map_of (pm_Checks m) name of Some c \<Rightarrow> c | None \<Rightarrow> new_check_metrics name)"
    using ok by (auto simp: profile_ok_def list_all_iff new_check_metrics_ok split: option.split dest: map_of_SomeD)
  then show ?thesis
    using ok count_execution_ok by (auto simp: profile_ok_def updateCheckMetrics_def Let_def intro: list_all_update)
qed

lemma updateWorkerMetrics_ok: "profile_ok m \<Longrightarrow> profile_ok (updateWorkerMetrics now w m)"
proof -
  assume ok: "profile_ok m"
  have "worker_metrics_ok (case map_of (pm_Workers m) w of Some c \<Rightarrow> c | None \<Rightarrow> new_worker_metrics w)"
    using ok by (auto simp: profile_ok_def list_all_iff worker_metrics_ok_def new_worker_metrics_def
        split: option.split dest!: map_of_SomeD)
  then show ?thesis
    using ok by (auto simp: profile_ok_def updateWorkerMetrics_def worker_metrics_ok_def Let_def intro: list_all_update)
qed

lemma captureBaseline_ok: "profile_ok (pp_metrics p) \<Longrightarrow> profile_ok (pp_metrics (captureBaseline snapshot p))"
  by (simp add: profile_ok_def captureBaseline_def set_profile_def)

text \<open>Without a check index there is nothing to take percentiles of.\<close>

lemma check_percentiles_id: "byCheck ts = [] \<Longrightarrow> check_percentiles oor ts c = c"
  by (cases c) (simp add: check_percentiles_def GetCheckDurations_def idx_def)

lemma slice_byCheck:
  "byCheck (removeTimingFromSlice s t (CategoryKey k) ts) = byCheck ts"
  "byCheck (removeTimingFromSlice s t (WorkerKey w) ts) = byCheck ts"
  "removeTimingFromSlice (idx [] k) t key ts = ts"
  by (simp_all add: removeTimingFromSlice_def idx_def Let_def split: option.split)

lemma removeFromIndexes_byCheck: "byCheck ts = [] \<Longrightarrow> byCheck (removeFromIndexes t ts) = []"
  by (simp add: removeFromIndexes_def Let_def slice_byCheck if_distrib [where f = byCheck])

lemma Store_byCheck: "byCheck ts = [] \<Longrightarrow> CheckName t = [] \<Longrightarrow> byCheck (Store (Some t) ts) = []"
  by (simp add: Store_def addToIndexes_def Let_def removeFromIndexes_byCheck)

lemma store_timing_ok: "profiler_ok p \<Longrightarrow> CheckName t = [] \<Longrightarrow> profiler_ok (store_timing t p)"
  by (simp add: profiler_ok_def store_timing_def Store_ring Store_byCheck)

lemma retag_ring: "ring_inv (retag a name w ts) = ring_inv ts" "maxSize (retag a name w ts) = maxSize ts"
  "byCheck ts = [] \<Longrightarrow> byCheck (retag a name w ts) = []"
  by (simp_all add: ring_inv_def retag_def)

lemma Clear_ring: "ring_inv ts \<Longrightarrow> ring_inv (Clear ts) \<and> maxSize (Clear ts) = maxSize ts \<and> byCheck (Clear ts) = []"
  by (simp add: ring_inv_def Clear_def)

lemma profiler_part_ok: "profiler_part l p p' \<Longrightarrow> profiler_ok p \<Longrightarrow> profiler_ok p'"
proof (induction rule: profiler_part.induct)
  case (pr_store p env name category success)
  then show ?case by (simp add: store_timing_ok new_timing_def)
next
  case (pr_baseline p snapshot)
  then show ?case
    using captureBaseline_ok [of p snapshot] by (simp add: profiler_ok_def captureBaseline_def set_profile_def)
next
  case (pr_check_percentiles p i oor)
  then have "check_percentiles oor (pp_measurements p) c = c" for c
    by (simp add: profiler_ok_def check_percentiles_id)
  then show ?case using pr_check_percentiles by (simp add: set_profile_def)
next
  case (pr_reset p)
  then show ?case by (simp add: profiler_ok_def profile_ok_def empty_profile_def)
qed (simp_all add: profiler_ok_def set_profile_def launch_collector_def start_collector_def add_overhead_def
    profiler_Enable_def profiler_Disable_def SetIntegration_def updateMetrics_ok updateCheckMetrics_ok
    updateWorkerMetrics_ok retag_ring Clear_ring, simp_all add: profile_ok_def overall_percentiles_def)

lemma profiler_steps_ok: "profiler_step\<^sup>*\<^sup>* p p' \<Longrightarrow> profiler_ok p \<Longrightarrow> profiler_ok p'"
  by (induction rule: rtranclp_induct) (auto simp: profiler_step_def dest: profiler_part_ok)

text \<open>What the parts do with the counts of the operations.\<close>

definition counted_by :: "part \<Rightarrow> string list \<Rightarrow> string list" where
  "counted_by l counted = (case l of Counting k \<Rightarrow> k # counted | Replacing \<Rightarrow> [] | _ \<Rightarrow> counted)"

lemma part_balance:
  "profiler_part l p p' \<Longrightarrow> profiler_ok p \<Longrightarrow> counts_balance counted (pp_metrics p) \<Longrightarrow>
   counts_balance (counted_by l counted) (pp_metrics p')"
proof (induction rule: profiler_part.induct)
  case (pr_baseline p snapshot)
  then show ?case
    by (simp add: profiler_ok_def captureBaseline_def set_profile_def counts_balance_baseline counted_by_def)
next
  case (pr_update timing p)
  then show ?case by (simp add: profiler_ok_def set_profile_def counts_balance_update counted_by_def)
next
  case (pr_reset p)
  then show ?case
    by (simp add: counts_balance_def empty_profile_def operations_in_def category_count_def counted_by_def)
qed (simp_all add: counted_by_def set_profile_def launch_collector_def start_collector_def add_overhead_def
    store_timing_def profiler_Enable_def profiler_Disable_def SetIntegration_def updateCheckMetrics_def
    updateWorkerMetrics_def overall_percentiles_def counts_balance_def Let_def)

definition run_ok :: "profiling \<Rightarrow> bool" where
  "run_ok s \<longleftrightarrow> profiler_ok (pg_profiler s) \<and> counts_balance (pg_counted s) (pp_metrics (pg_profiler s))"

lemma profiling_step_ok: "profiling_step s s' \<Longrightarrow> \<not> pg_torn s' \<Longrightarrow> run_ok s \<Longrightarrow> run_ok s'"
proof (induction rule: profiling_step.induct)
  case (pg_unlocked s p)
  then show ?case using part_balance profiler_part_ok by (fastforce simp: run_ok_def counted_by_def)
next
  case (pg_section s p)
  then show ?case using part_balance profiler_part_ok by (fastforce simp: run_ok_def counted_by_def)
next
  case (pg_count k s p)
  then show ?case using part_balance profiler_part_ok by (fastforce simp: run_ok_def counted_by_def)
next
  case (pg_finishing s p)
  then show ?case using part_balance profiler_part_ok by (fastforce simp: run_ok_def counted_by_def)
next
  case (pg_replace s p)
  then show ?case using part_balance profiler_part_ok by (fastforce simp: run_ok_def counted_by_def)
qed (simp_all add: run_ok_def)

lemma NewPerformanceProfiler_ok: "profiler_ok (NewPerformanceProfiler config)"
  by (simp add: profiler_ok_def profile_ok_def NewPerformanceProfiler_def NewTimingStorage_def empty_profile_def
      ring_inv_def MaxProfileDataPoints_def Let_def)

lemma profiling_ok:
  "profiling_step\<^sup>*\<^sup>* (fresh_profiling config) s \<Longrightarrow> \<not> pg_torn s \<Longrightarrow> run_ok s"
proof (induction rule: rtranclp_induct)
  case base
  then show ?case
    by (simp add: run_ok_def fresh_profiling_def NewPerformanceProfiler_ok)
      (simp add: counts_balance_def NewPerformanceProfiler_def empty_profile_def operations_in_def category_count_def Let_def)
next
  case (step s s')
  then show ?case using profiling_parts profiling_step_ok by blast
qed

section \<open>Percentiles and accuracy\<close>

text \<open>The quotient by 100 is rounded, but not as far as the next integer.\<close>

lemma hundredth_floor:
  assumes "0 \<le> q" "q < 2 ^ 47"
  shows "\<exists>r. rnd (of_int q / 100) = Fin r \<and> 0 \<le> r \<and> \<lfloor>r\<rfloor> = q div 100"
proof (cases "q = 0")
  case False
  let ?x = "of_int q / 100 :: rat" and ?k = "q div 100"
  have pos: "0 < ?x" using assms False by simp
  have k: "0 \<le> ?k" "?k < 2 ^ 41" using assms by simp_all
  have "(of_int q :: rat) \<le> of_int (100 * ?k + 99)" by (simp only: of_int_le_iff)
  then have up: "?x \<le> of_int (128 * ?k + 127) * pow2 (- 7)" by (simp add: pow2_def)
  have "\<bar>128 * ?k + 127\<bar> \<le> 2 ^ 53" using k by simp
  then have "representable (of_int (128 * ?k + 127) * pow2 (- 7))"
    unfolding representable_def by (intro exI [of _ "128 * ?k + 127"] exI [of _ "- 7"]) simp
  then have below: "rnd_pos ?x \<le> of_int (128 * ?k + 127) * pow2 (- 7)" using rnd_pos_le [OF pos] up by blast
  also have "\<dots> < of_int (?k + 1)" by (simp add: pow2_def)
  finally have less: "rnd_pos ?x < of_int (?k + 1)" .
  have "of_int ?k \<le> rnd_pos ?x"
  proof (cases "?k = 0")
    case True
    then show ?thesis using rnd_pos_nonneg [OF pos] by simp
  next
    case False
    have "(of_int (100 * ?k) :: rat) \<le> of_int q" by (simp only: of_int_le_iff)
    then have "of_int ?k \<le> ?x" by simp
    then show ?thesis using False k rnd_pos_ge [of "of_int ?k" ?x] representable_int [of ?k] by simp
  qed
  then have "\<lfloor>rnd_pos ?x\<rfloor> = ?k" using less by (simp add: floor_eq_iff)
  moreover have "rnd_pos ?x < pow2 1024"
    using less pow2_53_less [of "?k + 1"] k by simp
  ultimately show ?thesis using pos rnd_pos_nonneg [OF pos] by (auto simp: rnd_def)
qed auto

lemma percentile_position:
  assumes "0 \<le> n" "n < 2 ^ 40" "0 \<le> p" "p \<le> 100"
  shows "to_int64 oor (f_div (f_mul (float64 n) (float64 p)) (flit 100)) = n * p div 100"
proof -
  have p: "\<bar>p\<bar> \<le> 2 ^ 53" "\<bar>n\<bar> \<le> 2 ^ 53" using assms by simp_all
  have "n * p \<le> n * 100" using assms by (intro mult_left_mono) simp_all
  then have q: "0 \<le> n * p" "n * p < 2 ^ 47" using assms by simp_all
  have "flit 100 = Fin 100" using float64_exact [of 100] by (simp add: flit_def float64_def)
  moreover have "rnd (of_int n * of_int p) = Fin (of_int (n * p))"
    using float64_exact [of "n * p"] q by (simp add: float64_def)
  moreover have "0 \<le> n * p div 100" "n * p div 100 < 2 ^ 63" using q by simp_all
  moreover obtain r where r: "rnd (of_int (n * p) / 100) = Fin r" "0 \<le> r" "\<lfloor>r\<rfloor> = n * p div 100"
    using hundredth_floor [OF q] by blast
  ultimately show ?thesis
    using p q by (simp add: float64_exact to_int64_def trunc_def in_int64_def)
qed

text \<open>The lowest difference is the largest \<^verbatim>\<open>int64\<close> when no duration exceeds the one before it.\<close>

lemma no_increase_accuracy:
  assumes "2 \<le> length (measurements ts)" "precision \<le> 2 ^ 63 - 1"
    "list_all (\<lambda>(a, b). wrap64 (b - a) \<le> 0) (zip (GetAllDurations ts) (tl (GetAllDurations ts)))"
  shows "calculateAccuracyAchieved precision ts = 2 ^ 63 - 1"
proof -
  have "list_all (\<lambda>(a, b). wrap64 (b - a) \<le> 0) ps \<Longrightarrow>
      fold (\<lambda>(a, b) m. let diff = wrap64 (b - a) in if diff > 0 \<and> diff < m then diff else m) ps x = x"
    for ps and x :: int
    by (induction ps) (auto simp: Let_def)
  then show ?thesis
    using assms by (simp add: calculateAccuracyAchieved_def min_difference_def GetAllDurations_def)
qed

section \<open>Stale indexes\<close>

lemma idx_map: "idx (map (\<lambda>(k, l). (k, map g l)) m) k = map g (idx m k)"
  by (induction m) (auto simp: idx_def split: option.split)

lemma GetLatest_stored: "ring_inv ts \<Longrightarrow> GetLatest (Store (Some t) ts) = Some t"
  by (auto simp: GetLatest_def Store_def ring_inv_def Let_def)

text \<open>
  What jobs of worker \<open>w\<close> make of the storage: all its measurements carry \<open>w\<close>, and all of them, the
  overwritten ones included, are indexed under worker 0.
\<close>

definition stale :: "int \<Rightarrow> nat \<Rightarrow> TimingStorage \<Rightarrow> bool" where
  "stale w n ts \<longleftrightarrow> ring_inv ts \<and> list_all (\<lambda>t. WorkerID t = w) (measurements ts) \<and> byCheck ts = [] \<and>
     idx (byWorker ts) w = [] \<and> length (idx (byWorker ts) 0) = n"

lemma remove_category_workers:
  "byWorker (removeTimingFromSlice s t (CategoryKey k) ts) = byWorker ts"
  by (simp add: removeTimingFromSlice_def Let_def split: option.split)

lemma remove_from_empty [simp]: "removeTimingFromSlice [] t key ts = ts"
  by (simp add: removeTimingFromSlice_def)

lemma remove_stale:
  assumes "byCheck ts = []" "idx (byWorker ts) (WorkerID t) = []"
  shows "byWorker (removeFromIndexes t ts) = byWorker ts"
proof -
  let ?ts = "if td_Category t \<noteq> [] then removeTimingFromSlice (idx (byCategory ts) (td_Category t)) t
               (CategoryKey (td_Category t)) ts else ts"
  have "byCheck ?ts = []" "byWorker ?ts = byWorker ts"
    using assms by (simp_all add: slice_byCheck remove_category_workers)
  moreover have "idx [] k = []" for k :: string by (simp add: idx_def)
  ultimately show ?thesis using assms(2) unfolding removeFromIndexes_def Let_def by simp
qed

lemma Store_workers:
  assumes "stale w n ts" "WorkerID t = 0"
  shows "byWorker (Store (Some t) ts) = AList.update 0 (idx (byWorker ts) 0 @ [t]) (byWorker ts)"
proof (cases "length (measurements ts) < maxSize ts")
  case True
  then show ?thesis using assms by (simp add: Store_def addToIndexes_def Let_def)
next
  case False
  let ?i = "(currentIndex ts + 1) mod maxSize ts"
  have "?i < length (measurements ts)" using assms False by (simp add: stale_def ring_inv_def)
  then have "WorkerID (measurements ts ! ?i) = w" using assms by (simp add: stale_def list_all_length)
  then have "byWorker (removeFromIndexes (measurements ts ! ?i) (ts\<lparr>currentIndex := ?i\<rparr>)) = byWorker ts"
    using assms by (simp add: stale_def remove_stale)
  then show ?thesis using False assms by (simp add: Store_def addToIndexes_def Let_def)
qed

lemma Store_measurements: "set (measurements (Store (Some t) ts)) \<subseteq> insert t (set (measurements ts))"
proof (cases "length (measurements ts) < maxSize ts")
  case False
  then show ?thesis using set_update_subset_insert [of "measurements ts"] by (simp add: Store_def Let_def)
qed (simp add: Store_def Let_def)

lemma retag_stale:
  assumes "stale w n ts" "0 < w" "WorkerID t = 0" "CheckName t = []"
  shows "stale w (n + 1) (retag (addr t) name w (Store (Some t) ts))"
proof -
  let ?ts = "Store (Some t) ts"
  have ok: "ring_inv ts" "byCheck ts = []" using assms(1) by (simp_all add: stale_def)
  have "WorkerID (retag_timing (addr t) name w x) = w" if "x \<in> set (measurements ?ts)" for x
    using that Store_measurements [of t ts] assms(1) by (auto simp: stale_def list_all_iff retag_timing_def)
  moreover have "idx (byWorker ?ts) w = []" "length (idx (byWorker ?ts) 0) = n + 1"
    using assms by (simp_all add: Store_workers idx_update) (simp_all add: stale_def)
  ultimately show ?thesis
    using ok assms(4) Store_ring(1) [OF ok(1), of t] Store_byCheck [of ts t]
    by (simp add: stale_def retag_ring list_all_iff) (simp add: retag_def idx_map)
qed

text \<open>Jobs of one worker, one after the other, each with a result.\<close>

definition run_worker ::
    "int \<Rightarrow> (measure_env \<times> Job \<times> CheckResult \<times> goerror option) list \<Rightarrow> PerformanceProfiler \<Rightarrow> PerformanceProfiler" where
  "run_worker w = fold (\<lambda>(env, job, result, err) p. fst (ProfileWorkerJob env w job (Returns (Some result) err) p))"

lemma profiled_job:
  assumes "pp_enabled p" "pp_started p" "ring_inv (pp_measurements p)"
  obtains t where
    "pp_measurements (fst (ProfileWorkerJob env w job (Returns (Some result) err) p)) =
       retag (addr t) (c_Name (job_Check job)) w (Store (Some t) (pp_measurements p))"
    "WorkerID t = 0" "CheckName t = []"
    "pp_enabled (fst (ProfileWorkerJob env w job (Returns (Some result) err) p))"
    "pp_started (fst (ProfileWorkerJob env w job (Returns (Some result) err) p))"
proof -
  let ?t = "new_timing env (''worker_'' @ show_int w @ ''_job_'' @ show_int (job_ID job)) ''worker_job'' (err = None)
              (add_overhead (snd (measured env)) p)"
  have "WorkerID ?t = 0" "CheckName ?t = []" by (simp_all add: new_timing_def)
  then show ?thesis
    using assms GetLatest_stored [of "pp_measurements p" ?t] that [of ?t]
    by (simp add: ProfileWorkerJob_def ProfileOperation_def set_profile_def store_timing_def add_overhead_def
        tag_latest_def Let_def)
qed

lemma run_worker_stale:
  "stale w n (pp_measurements p) \<Longrightarrow> 0 < w \<Longrightarrow> pp_enabled p \<Longrightarrow> pp_started p \<Longrightarrow>
   stale w (n + length xs) (pp_measurements (run_worker w xs p)) \<and>
   maxSize (pp_measurements (run_worker w xs p)) = maxSize (pp_measurements p)"
proof (induction xs arbitrary: n p)
  case (Cons x xs)
  obtain env job result err where x: "x = (env, job, result, err)" by (cases x) auto
  let ?p = "fst (ProfileWorkerJob env w job (Returns (Some result) err) p)"
  have "ring_inv (pp_measurements p)" using Cons.prems by (simp add: stale_def)
  then obtain t where t: "pp_measurements ?p = retag (addr t) (c_Name (job_Check job)) w (Store (Some t) (pp_measurements p))"
    "WorkerID t = 0" "CheckName t = []" "pp_enabled ?p" "pp_started ?p"
    using profiled_job [OF Cons.prems(3, 4)] by blast
  have "stale w (n + 1) (pp_measurements ?p)"
    unfolding t(1) using Cons.prems t by (intro retag_stale) simp_all
  moreover have "maxSize (pp_measurements ?p) = maxSize (pp_measurements p)"
    using t(1) Store_ring(2) \<open>ring_inv (pp_measurements p)\<close> by (simp add: retag_ring)
  ultimately show ?case using Cons.IH [of "n + 1" ?p] Cons.prems t x by (simp add: run_worker_def)
qed (simp add: run_worker_def)

section \<open>The lock that is replaced\<close>

text \<open>
  \<^verbatim>\<open>Reset\<close> replaces the metrics while it holds the mutex that is a part of them. Every method that
  writes the metrics evaluates \<^verbatim>\<open>p.metrics.mu\<close> twice: when it asks for the lock, and again for its deferred
  \<^verbatim>\<open>Unlock\<close>. Mutexes are numbered by the metrics they belong to, of which \<open>version\<close> is current;
  unlocking a mutex that is not locked is fatal.
\<close>

datatype lock_phase =
    Ready | Queued nat | Acquired nat | Holding nat | Swapped nat | Finished

record metrics_lock =
  version :: nat
  locked :: "nat set"
  phases :: "(bool \<times> lock_phase) list"
  crashed :: bool

text \<open>The calls: \<^term>\<open>True\<close> for a call of \<^verbatim>\<open>Reset\<close>, \<^term>\<open>False\<close> for a method that updates.\<close>

definition lock_start :: "bool list \<Rightarrow> metrics_lock" where
  "lock_start calls = \<lparr>version = 0, locked = {}, phases = map (\<lambda>r. (r, Ready)) calls, crashed = False\<rparr>"

definition enter :: "nat \<Rightarrow> lock_phase \<Rightarrow> metrics_lock \<Rightarrow> metrics_lock" where
  "enter i ph s = s\<lparr>phases := (phases s)[i := (fst (phases s ! i), ph)]\<rparr>"

definition unlock :: "nat \<Rightarrow> metrics_lock \<Rightarrow> metrics_lock" where
  "unlock u s = (if u \<in> locked s then s\<lparr>locked := locked s - {u}\<rparr> else s\<lparr>crashed := True\<rparr>)"

inductive lock_step :: "metrics_lock \<Rightarrow> metrics_lock \<Rightarrow> bool" where
  lk_request: "i < length (phases s) \<Longrightarrow> phases s ! i = (r, Ready) \<Longrightarrow> \<not> crashed s \<Longrightarrow>
     lock_step s (enter i (Queued (version s)) s)"
| lk_acquire: "i < length (phases s) \<Longrightarrow> phases s ! i = (r, Queued v) \<Longrightarrow> v \<notin> locked s \<Longrightarrow> \<not> crashed s \<Longrightarrow>
     lock_step s (enter i (Acquired v) (s\<lparr>locked := insert v (locked s)\<rparr>))"
| lk_defer: "i < length (phases s) \<Longrightarrow> phases s ! i = (r, Acquired v) \<Longrightarrow> \<not> crashed s \<Longrightarrow>
     lock_step s (enter i (Holding (version s)) s)"
| lk_swap: "i < length (phases s) \<Longrightarrow> phases s ! i = (True, Holding u) \<Longrightarrow> \<not> crashed s \<Longrightarrow>
     lock_step s (enter i (Swapped u) (s\<lparr>version := version s + 1\<rparr>))"
| lk_unlock: "i < length (phases s) \<Longrightarrow> phases s ! i \<in> {(True, Swapped u), (False, Holding u)} \<Longrightarrow> \<not> crashed s \<Longrightarrow>
     lock_step s (enter i Finished (unlock u s))"

fun in_section :: "lock_phase \<Rightarrow> bool" where
  "in_section (Acquired v) = True"
| "in_section (Holding u) = True"
| "in_section (Swapped u) = True"
| "in_section _ = False"

text \<open>Without a call of \<^verbatim>\<open>Reset\<close> there is one mutex, and it is locked by the one call in its section.\<close>

definition one_mutex :: "metrics_lock \<Rightarrow> bool" where
  "one_mutex s \<longleftrightarrow> version s = 0 \<and> \<not> crashed s \<and>
     (\<forall>i < length (phases s). phases s ! i \<in> {False} \<times> {Ready, Queued 0, Acquired 0, Holding 0, Finished} \<and>
        (in_section (snd (phases s ! i)) \<longrightarrow> 0 \<in> locked s)) \<and>
     (\<forall>i j. i < length (phases s) \<and> j < length (phases s) \<and> in_section (snd (phases s ! i)) \<and>
        in_section (snd (phases s ! j)) \<longrightarrow> i = j)"

lemma one_mutex_step: "lock_step s s' \<Longrightarrow> one_mutex s \<Longrightarrow> one_mutex s'"
proof (induction rule: lock_step.induct)
  case (lk_request i s r)
  then show ?case by (auto simp: one_mutex_def enter_def nth_list_update)
next
  case (lk_acquire i s r v)
  moreover have "v = 0" using lk_acquire by (auto simp: one_mutex_def)
  ultimately show ?case by (auto simp: one_mutex_def enter_def nth_list_update)
next
  case (lk_defer i s r v)
  then show ?case
    by (auto simp: one_mutex_def enter_def nth_list_update split: if_splits)
next
  case (lk_swap i s u)
  then show ?case by (auto simp: one_mutex_def)
next
  case (lk_unlock i s u)
  moreover have "u = 0" "0 \<in> locked s" "in_section (snd (phases s ! i))" using lk_unlock by (auto simp: one_mutex_def)
  ultimately show ?case by (auto simp: one_mutex_def enter_def unlock_def nth_list_update split: if_splits)
qed

lemma one_mutex_start: "one_mutex (lock_start (replicate n False))"
  by (auto simp: one_mutex_def lock_start_def)

lemma one_mutex_steps: "lock_step\<^sup>*\<^sup>* s s' \<Longrightarrow> one_mutex s \<Longrightarrow> one_mutex s'"
  by (induction rule: rtranclp_induct) (auto dest: one_mutex_step)

text \<open>The update waits for the old mutex, but unlocks the new one.\<close>

lemma lock_steps:
  "lock_step s t \<Longrightarrow> lock_step\<^sup>*\<^sup>* t u \<Longrightarrow> lock_step\<^sup>*\<^sup>* s u"
  by (rule converse_rtranclp_into_rtranclp)

lemma reset_crashes: "\<exists>s. lock_step\<^sup>*\<^sup>* (lock_start [True, False]) s \<and> crashed s"
proof -
  let ?s = "\<lambda>ver l p q. \<lparr>version = ver, locked = l, phases = [(True, p), (False, q)], crashed = False\<rparr>"
  have "lock_step (?s 0 {} Ready Ready) (?s 0 {} (Queued 0) Ready)"
    using lk_request [of 0 "?s 0 {} Ready Ready"] by (simp add: enter_def)
  moreover have "lock_step (?s 0 {} (Queued 0) Ready) (?s 0 {0} (Acquired 0) Ready)"
    using lk_acquire [of 0 "?s 0 {} (Queued 0) Ready"] by (simp add: enter_def)
  moreover have "lock_step (?s 0 {0} (Acquired 0) Ready) (?s 0 {0} (Holding 0) Ready)"
    using lk_defer [of 0 "?s 0 {0} (Acquired 0) Ready"] by (simp add: enter_def)
  moreover have "lock_step (?s 0 {0} (Holding 0) Ready) (?s 0 {0} (Holding 0) (Queued 0))"
    using lk_request [of 1 "?s 0 {0} (Holding 0) Ready" False] by (simp add: enter_def)
  moreover have "lock_step (?s 0 {0} (Holding 0) (Queued 0)) (?s 1 {0} (Swapped 0) (Queued 0))"
    using lk_swap [of 0 "?s 0 {0} (Holding 0) (Queued 0)"] by (simp add: enter_def)
  moreover have "lock_step (?s 1 {0} (Swapped 0) (Queued 0)) (?s 1 {} Finished (Queued 0))"
    using lk_unlock [of 0 "?s 1 {0} (Swapped 0) (Queued 0)" 0] by (simp add: enter_def unlock_def)
  moreover have "lock_step (?s 1 {} Finished (Queued 0)) (?s 1 {0} Finished (Acquired 0))"
    using lk_acquire [of 1 "?s 1 {} Finished (Queued 0)" False] by (simp add: enter_def)
  moreover have "lock_step (?s 1 {0} Finished (Acquired 0)) (?s 1 {0} Finished (Holding 1))"
    using lk_defer [of 1 "?s 1 {0} Finished (Acquired 0)" False] by (simp add: enter_def)
  moreover have "lock_step (?s 1 {0} Finished (Holding 1)) ((?s 1 {0} Finished Finished)\<lparr>crashed := True\<rparr>)"
    using lk_unlock [of 1 "?s 1 {0} Finished (Holding 1)" 1] by (simp add: enter_def unlock_def)
  ultimately have "lock_step\<^sup>*\<^sup>* (?s 0 {} Ready Ready) ((?s 1 {0} Finished Finished)\<lparr>crashed := True\<rparr>)"
    by (meson lock_steps rtranclp.rtrancl_refl)
  then show ?thesis
    by (intro exI [of _ "(?s 1 {0} Finished Finished)\<lparr>crashed := True\<rparr>"] conjI) (simp_all add: lock_start_def)
qed

section \<open>Properties\<close>

text \<open>
  C32: However the atomic parts of profiled operations, checks, jobs, starts, stops, readers and resets
  interleave, as long as no \<^verbatim>\<open>Reset\<close> replaces the metrics while another call waits for their mutex: the total is
  the number of operations counted since the metrics were made, every category but \<^verbatim>\<open>baseline\<close> has
  the number of its own, and together they sum to the total less the operations that callers profiled
  under the name \<^verbatim>\<open>baseline\<close>, whose entry \<^verbatim>\<open>Start\<close> overwrites. The storage stays within its capacity, and
  no success rate leaves the unit interval (up to \<open>2 ^ 53\<close> executions of a check, where a \<^verbatim>\<open>float64\<close> counts
  exactly). But what the reports are made of is never set: the percentiles and the average of every check
  and the busy time and utilization of every worker are zero in every such state.
\<close>

theorem profiler_accounting:
  assumes "profiling_step\<^sup>*\<^sup>* (fresh_profiling config) s" "\<not> pg_torn s"
    "p = pg_profiler s"
  shows "TotalOperations (pp_metrics p) = int (length (pg_counted s)) \<and>
     (\<forall>k. k \<noteq> ''baseline'' \<longrightarrow> category_count k (pm_Categories (pp_metrics p)) = int (count_list (pg_counted s) k)) \<and>
     operations_in (pm_Categories (pp_metrics p)) =
       TotalOperations (pp_metrics p) - int (count_list (pg_counted s) ''baseline'') \<and>
     length (measurements (pp_measurements p)) \<le> maxSize (pp_measurements p) \<and>
     list_all (\<lambda>(name, c). ExecutionCount c \<le> 2 ^ 53 \<longrightarrow> unit_rate (cp_SuccessRate c)) (pm_Checks (pp_metrics p)) \<and>
     list_all (\<lambda>(name, c). P50Duration c = 0 \<and> P95Duration c = 0 \<and> P99Duration c = 0 \<and> cp_AverageDuration c = 0)
       (pm_Checks (pp_metrics p)) \<and>
     list_all (\<lambda>(w, m). 0 < JobsProcessed m \<and> TotalBusyTime m = 0 \<and> Utilization m = Fin 0) (pm_Workers (pp_metrics p))"
  using profiling_ok [OF assms(1, 2)] assms(3)
  by (auto simp: run_ok_def counts_balance_def profiler_ok_def profile_ok_def check_metrics_ok_def
      worker_metrics_ok_def ring_inv_def list_all_iff)

text \<open>Two operations wait for the mutex at the same time; a caller has named one of them \<^verbatim>\<open>baseline\<close>.\<close>

definition idle_env :: measure_env where
  "idle_env = \<lparr>me_clk = (\<lambda>n. 0), me_reading = 0, me_start = 0, me_end = 0, me_now = 0\<rparr>"

definition idle_snapshot :: ResourceSnapshot where
  "idle_snapshot = captureResourceSnapshot 7 1 1 0"

definition idle_timing :: "string \<Rightarrow> TimingData" where
  "idle_timing category = new_timing idle_env ''op'' category True (NewPerformanceProfiler None)"

definition two_operations :: profiling where
  "two_operations =
     (fresh_profiling None)\<lparr>pg_counted := [''baseline'', ''docker_api''],
       pg_profiler := set_profile (updateMetrics (idle_timing ''baseline''))
         (set_profile (updateMetrics (idle_timing ''docker_api'')) (NewPerformanceProfiler None))\<rparr>"

lemma two_operations_run: "profiling_step\<^sup>*\<^sup>* (fresh_profiling None) two_operations"
proof -
  let ?s0 = "fresh_profiling None"
  let ?p1 = "set_profile (updateMetrics (idle_timing ''docker_api'')) (NewPerformanceProfiler None)"
  let ?s1 = "?s0\<lparr>pg_waiting := 1\<rparr>" and ?s2 = "?s0\<lparr>pg_waiting := 2\<rparr>"
  let ?s3 = "?s0\<lparr>pg_profiler := ?p1, pg_waiting := 1, pg_counted := [''docker_api'']\<rparr>"
  have cat: "td_Category (idle_timing k) = k" for k by (simp add: idle_timing_def new_timing_def)
  have "profiling_step ?s0 ?s1" using pg_lock [of ?s0] by (simp add: fresh_profiling_def)
  moreover have "profiling_step ?s1 ?s2" using pg_lock [of ?s1] by (simp add: fresh_profiling_def numeral_2_eq_2)
  moreover have "profiling_step ?s2 ?s3"
    using pg_count [OF pr_update [of "idle_timing ''docker_api''" "pg_profiler ?s2", unfolded cat]]
    by (simp add: fresh_profiling_def)
  moreover have "profiling_step ?s3 two_operations"
    using pg_count [OF pr_update [of "idle_timing ''baseline''" "pg_profiler ?s3", unfolded cat]]
    by (simp add: fresh_profiling_def two_operations_def)
  ultimately show ?thesis by (meson converse_rtranclp_into_rtranclp r_into_rtranclp)
qed

theorem profiler_accounting_witness:
  "TotalOperations (pp_metrics (pg_profiler two_operations)) = 2 \<and>
   operations_in (pm_Categories (pp_metrics (pg_profiler two_operations))) = 1 \<and>
   category_count ''docker_api'' (pm_Categories (pp_metrics (pg_profiler two_operations))) = 1"
  using profiler_accounting [OF two_operations_run _ refl]
  by (simp add: two_operations_def fresh_profiling_def)

text \<open>
  C33: \<^verbatim>\<open>ProfileWorkerJob\<close> changes the worker of a measurement after it has been indexed, so jobs of a
  worker other than 0 are never found under it: they stay indexed under worker 0, the overwritten ones
  too. The buffer keeps its limit while the index grows with every job.
\<close>

theorem worker_index_grows:
  assumes "0 < w" "pc_Enabled config"
    "p = run_worker w xs (fst (profiler_Start snapshot (NewPerformanceProfiler (Some config))))"
  shows "GetByWorker w (pp_measurements p) = [] \<and>
     length (GetByWorker 0 (pp_measurements p)) = length xs \<and>
     length (measurements (pp_measurements p)) \<le> nat (if MaxDataPoints config \<le> 0 then 10000 else MaxDataPoints config)"
proof -
  let ?p0 = "fst (profiler_Start snapshot (NewPerformanceProfiler (Some config)))"
  have "stale w 0 (pp_measurements ?p0)" "pp_enabled ?p0" "pp_started ?p0"
    "maxSize (pp_measurements ?p0) = nat (if MaxDataPoints config \<le> 0 then 10000 else MaxDataPoints config)"
    using assms(2) by (simp_all add: profiler_Start_def launch_collector_def captureBaseline_def set_profile_def NewPerformanceProfiler_def
        NewTimingStorage_def stale_def ring_inv_def idx_def MaxProfileDataPoints_def Let_def)
  then have "stale w (length xs) (pp_measurements p)"
    "maxSize (pp_measurements p) = nat (if MaxDataPoints config \<le> 0 then 10000 else MaxDataPoints config)"
    using run_worker_stale [of w 0 ?p0 xs] assms(1, 3) by simp_all
  then show ?thesis by (simp add: stale_def GetByWorker_def ring_inv_def)
qed

definition worker_config :: ProfileConfig where
  "worker_config = default_profile_config\<lparr>MaxDataPoints := 2\<rparr>"

definition dns_job :: Job where
  "dns_job = \<lparr>job_ID = 1, job_Check = \<lparr>c_Name = ''dns'', c_Description = [], c_Severity = SeverityWarning\<rparr>, job_ctx = 0\<rparr>"

definition five_jobs :: PerformanceProfiler where
  "five_jobs = run_worker 3 (replicate 5 (idle_env, dns_job, failed_result 0 ''dns'' [], None))
                 (fst (profiler_Start idle_snapshot (NewPerformanceProfiler (Some worker_config))))"

theorem worker_index_grows_witness:
  "length (GetByWorker 0 (pp_measurements five_jobs)) = 5 \<and> length (measurements (pp_measurements five_jobs)) \<le> 2"
  using worker_index_grows [OF _ _ five_jobs_def] by (simp add: worker_config_def default_profile_config_def)

text \<open>
  C34: A profiler with real-time metrics cannot be used twice. Its first \<^verbatim>\<open>Stop\<close> closes the channel of its
  collector for good; \<^verbatim>\<open>Start\<close> then succeeds again, but once its goroutine has started the collector the
  next \<^verbatim>\<open>Stop\<close> panics.
\<close>

theorem profiler_restart_panics:
  assumes "pc_Enabled config" "RealtimeMetrics config"
    "p = start_collector (fst (profiler_Start snapshot (NewPerformanceProfiler (Some config))))"
  shows "\<exists>p1. profiler_Stop oor p = Some (p1, None) \<and> snd (profiler_Start snapshot' p1) = None \<and>
     profiler_Stop oor (start_collector (fst (profiler_Start snapshot' p1))) = None"
proof -
  have new: "pp_enabled p" "pp_started p" "pp_config p = config" "mc_running (pp_collector p)"
    "\<not> stopChan_closed (pp_collector p)"
    using assms by (simp_all add: profiler_Start_def launch_collector_def captureBaseline_def set_profile_def NewPerformanceProfiler_def
        start_collector_def collector_calls NewMetricsCollector_def Let_def)
  then obtain p1 where p1: "profiler_Stop oor p = Some (p1, None)" "pp_enabled p1" "\<not> pp_started p1"
    "pp_config p1 = config" "\<not> mc_running (pp_collector p1)" "stopChan_closed (pp_collector p1)"
    by (simp add: profiler_Stop_def stop_collector_def collector_calls calculateFinalMetrics_def Let_def)
  then have "snd (profiler_Start snapshot' p1) = None"
    "profiler_Stop oor (start_collector (fst (profiler_Start snapshot' p1))) = None"
    using assms(2) by (simp_all add: profiler_Start_def launch_collector_def captureBaseline_def set_profile_def
        start_collector_def collector_calls profiler_Stop_def stop_collector_def Let_def)
  with p1(1) show ?thesis by blast
qed

theorem profiler_restart_panics_witness:
  "\<exists>p1. profiler_Stop (\<lambda>x. 0) (start_collector (fst (profiler_Start idle_snapshot (NewPerformanceProfiler (Some worker_config))))) =
     Some (p1, None)"
  using profiler_restart_panics [of worker_config _ idle_snapshot, OF _ _ refl]
  by (auto simp: worker_config_def default_profile_config_def)

text \<open>
  C35: \<^verbatim>\<open>Stop\<close> computes the percentiles exactly: although the index is a rounded \<^verbatim>\<open>float64\<close> product, the 50th,
  95th and 99th percentiles are the elements of the sorted durations at the truncated positions.
\<close>

theorem percentiles_exact:
  assumes "profiler_Stop oor p = Some (p', None)" "EnablePercentiles (pp_config p)"
    "ds = GetAllDurations (pp_measurements p)" "ds \<noteq> []" "length ds < 2 ^ 40" "k \<in> {50, 95, 99}"
  shows "map_of (Percentiles (pp_metrics p')) k = Some (sort ds ! nat ((int (length ds) - 1) * k div 100))"
proof -
  have n: "int (length ds) - 1 < 2 ^ 40" "0 \<le> int (length ds) - 1" using assms(4, 5) by (cases ds; simp)+
  have "calculatePercentile oor ds k = sort ds ! nat ((int (length ds) - 1) * k div 100)" if "0 \<le> k" "k \<le> 100" for k
    using percentile_position [OF n(2, 1) that] assms(4) by (simp add: calculatePercentile_def sort_samples_sort)
  moreover have "map_of (Percentiles (pp_metrics p')) k = Some (calculatePercentile oor ds k)"
    using assms by (auto simp: profiler_Stop_def stop_collector_def calculateFinalMetrics_def
        calculatePercentiles_def overall_percentiles_def update_conv' Let_def
        split: if_splits option.splits)
  ultimately show ?thesis using assms(6) by auto
qed

definition one_measurement :: PerformanceProfiler where
  "one_measurement =
     fst (ProfileOperation idle_env ''op'' ''c'' None (fst (profiler_Start idle_snapshot (NewPerformanceProfiler None))))"

theorem percentiles_exact_witness:
  "\<exists>p'. profiler_Stop (\<lambda>x. 0) one_measurement = Some (p', None) \<and>
     map_of (Percentiles (pp_metrics p')) 50 = Some (fst (measured idle_env))"
proof -
  have d: "GetAllDurations (pp_measurements one_measurement) = [fst (measured idle_env)]"
    "EnablePercentiles (pp_config one_measurement)" "pp_started one_measurement"
    "\<not> mc_running (pp_collector one_measurement)"
    by (simp_all add: one_measurement_def ProfileOperation_def profiler_Start_def launch_collector_def captureBaseline_def set_profile_def
        NewPerformanceProfiler_def default_profile_config_def store_timing_def new_timing_def add_overhead_def
        GetAllDurations_def NewTimingStorage_def Store_def MaxProfileDataPoints_def NewMetricsCollector_def Let_def)
  then obtain p' where p': "profiler_Stop (\<lambda>x. 0) one_measurement = Some (p', None)"
    by (simp add: profiler_Stop_def stop_collector_def collector_calls)
  then show ?thesis using percentiles_exact [OF p' d(2) d(1) [symmetric], of 50] by simp
qed

text \<open>
  C36: As long as \<^verbatim>\<open>Reset\<close> is not called, any number of concurrent updates exclude each other and none
  crashes. But a single \<^verbatim>\<open>Reset\<close> beside a single update can end the program: the update that was waiting for
  the old mutex unlocks the new one, which is not locked.
\<close>

theorem metrics_lock_races:
  assumes "lock_step\<^sup>*\<^sup>* (lock_start (replicate n False)) s"
  shows "\<not> crashed s \<and>
     (\<forall>i j. i < length (phases s) \<and> j < length (phases s) \<and> in_section (snd (phases s ! i)) \<and>
        in_section (snd (phases s ! j)) \<longrightarrow> i = j) \<and>
     (\<exists>s'. lock_step\<^sup>*\<^sup>* (lock_start [True, False]) s' \<and> crashed s')"
  using one_mutex_steps [OF assms one_mutex_start] reset_crashes by (simp add: one_mutex_def)

theorem metrics_lock_races_witness:
  "\<not> crashed (enter 0 (Queued 0) (lock_start (replicate 2 False)))"
proof -
  have "lock_step (lock_start (replicate 2 False)) (enter 0 (Queued 0) (lock_start (replicate 2 False)))"
    using lk_request [of 0 "lock_start (replicate 2 False)" False] by (simp add: lock_start_def)
  then show ?thesis using metrics_lock_races [OF r_into_rtranclp] by blast
qed

end
