(* ===== verification/Profile_Reporter.thy ===== *)
theory Profile_Reporter
  imports Performance_Profiler
begin

text \<open>
  The reports of the profiler, \<^verbatim>\<open>internal/diagnostics/profile_reporter.go\<close>. A report is rendered from a
  copy of the metrics and from what the profiler and its collector hold, all read at one moment. The
  order in which a map is iterated and the formatted time are arguments. \<^term>\<open>None\<close> is the panic of a
  division by zero.
\<close>

section \<open>Padding\<close>

text \<open>
  A width pads with blanks up to a number of runes. \<^verbatim>\<open>utf8.RuneCountInString\<close> counts every byte that
  does not begin a valid sequence as one rune.
\<close>

definition continuation :: "nat \<Rightarrow> bool" where
  "continuation b \<longleftrightarrow> 0x80 \<le> b \<and> b \<le> 0xBF"

definition rune_width :: "nat list \<Rightarrow> nat" where
  "rune_width bs =
     (case bs of
        b0 # b1 # rest \<Rightarrow>
          if 0xC2 \<le> b0 \<and> b0 \<le> 0xDF \<and> continuation b1 then 2
          else (case rest of
                  b2 # rest \<Rightarrow>
                    if 0xE0 \<le> b0 \<and> b0 \<le> 0xEF \<and> (if b0 = 0xE0 then 0xA0 else 0x80) \<le> b1 \<and>
                       b1 \<le> (if b0 = 0xED then 0x9F else 0xBF) \<and> continuation b2 then 3
                    else (case rest of
                            b3 # _ \<Rightarrow>
                              if 0xF0 \<le> b0 \<and> b0 \<le> 0xF4 \<and> (if b0 = 0xF0 then 0x90 else 0x80) \<le> b1 \<and>
                                 b1 \<le> (if b0 = 0xF4 then 0x8F else 0xBF) \<and> continuation b2 \<and> continuation b3
                              then 4 else 1
                          | [] \<Rightarrow> 1)
                | [] \<Rightarrow> 1)
      | _ \<Rightarrow> 1)"

function rune_count :: "nat list \<Rightarrow> nat" where
  "rune_count [] = 0"
| "rune_count (b # bs) = 1 + rune_count (drop (rune_width (b # bs) - 1) bs)"
  by pat_completeness auto
termination by (relation "measure length") (auto simp: le_imp_less_Suc)

definition padding :: "nat \<Rightarrow> string \<Rightarrow> string" where
  "padding w s = replicate (w - rune_count (map of_char s)) CHR '' ''"

definition pad_left :: "nat \<Rightarrow> string \<Rightarrow> string" where
  "pad_left w s = padding w s @ s"

definition pad_right :: "nat \<Rightarrow> string \<Rightarrow> string" where
  "pad_right w s = s @ padding w s"

definition line :: "string list \<Rightarrow> string" where
  "line parts = concat parts @ [CHR 0x0A]"

definition rule_line :: string where
  "rule_line = line [replicate 79 CHR ''-'']"

definition table_line :: string where
  "table_line = line [replicate 80 CHR ''-'']"

definition columns :: "string list \<Rightarrow> string" where
  "columns cells = line [concat (map (\<lambda>(i, c). (if i = 0 then [] else '' '') @ c) (enumerate 0 cells))]"

text \<open>Bytes \<open>s[:n]\<close>, which may cut a rune in two.\<close>

definition truncateString :: "string \<Rightarrow> nat \<Rightarrow> string" where
  "truncateString s maxLen =
     (if length s \<le> maxLen then s
      else if maxLen \<le> 3 then take maxLen s
      else take (maxLen - 3) s @ ''...'')"

text \<open>
  \<^verbatim>\<open>sort.Slice\<close>: insertion for at most twelve elements; a longer slice that is already sorted is left alone,
  and in any other the elements none of which comes before another end up in some order, here that of an
  insertion sort of the slice rearranged as \<open>ties\<close> says. That is every sorted arrangement when \<open>before\<close> is a
  strict weak order, as it is on durations and on utilizations that are not NaN.
\<close>

definition insert_slice :: "('a \<Rightarrow> 'a \<Rightarrow> bool) \<Rightarrow> 'a list \<Rightarrow> 'a \<Rightarrow> 'a list" where
  "insert_slice before xs x =
     (let later = rev (takeWhile (\<lambda>y. before x y) (rev xs))
      in take (length xs - length later) xs @ [x] @ later)"

definition insertion_sort :: "('a \<Rightarrow> 'a \<Rightarrow> bool) \<Rightarrow> 'a list \<Rightarrow> 'a list" where
  "insertion_sort before xs = foldl (insert_slice before) [] xs"

definition arranged :: "nat list \<Rightarrow> 'a list \<Rightarrow> 'a list" where
  "arranged ties xs =
     (let n = length xs in map ((!) xs) (remdups (filter (\<lambda>i. i < n) ties @ [0..<n])))"

definition sort_slice :: "nat list \<Rightarrow> ('a \<Rightarrow> 'a \<Rightarrow> bool) \<Rightarrow> 'a list \<Rightarrow> 'a list" where
  "sort_slice ties before xs =
     (if length xs \<le> 12 \<or> successively (\<lambda>a b. \<not> before b a) xs then insertion_sort before xs
      else insertion_sort before (arranged ties xs))"

section \<open>The assessment\<close>

text \<open>What a report reads besides the metrics.\<close>

record report_env =
  re_generated :: string
  re_now :: Time
  re_checks :: "string list"
  re_workers :: "int list"
  re_categories :: "string list"
  re_slow :: "string list"
  re_check_ties :: "nat list"
  re_worker_ties :: "nat list"
  re_category_ties :: "nat list"

definition percentile :: "ProfileMetrics \<Rightarrow> int \<Rightarrow> Duration" where
  "percentile m k = count_of (Percentiles m) k"

text \<open>The ratings: five stars, filled or not.\<close>

definition stars :: "nat \<Rightarrow> string" where
  "stars n = concat (replicate n [CHR 0xE2, CHR 0x98, CHR 0x85] @ replicate (5 - n) [CHR 0xE2, CHR 0x98, CHR 0x86])"

definition performance_score :: "f64 \<Rightarrow> ProfileMetrics \<Rightarrow> f64" where
  "performance_score overhead m =
     (let score = flit 100;
          score = (if pm_AverageDuration m > 100 * Millisecond then f_sub score (flit 20)
                   else if pm_AverageDuration m > 50 * Millisecond then f_sub score (flit 10) else score);
          score = (case map_of (Percentiles m) 95 of
              None \<Rightarrow> score
            | Some p95 \<Rightarrow> if p95 > 500 * Millisecond then f_sub score (flit 20)
                          else if p95 > 200 * Millisecond then f_sub score (flit 10) else score);
          score = (if AccuracyAchieved m > 5 * Millisecond then f_sub score (flit 15) else score)
      in if f_gt overhead (flit 10) then f_sub score (flit 20)
         else if f_gt overhead (flit 5) then f_sub score (flit 10) else score)"

definition calculatePerformanceRating :: "PerformanceProfiler \<Rightarrow> ProfileMetrics \<Rightarrow> string" where
  "calculatePerformanceRating p m =
     (let score = performance_score (GetOverheadPercentage p) m
      in if f_le (flit 90) score then stars 5 @ '' Excellent''
         else if f_le (flit 75) score then stars 4 @ '' Good''
         else if f_le (flit 60) score then stars 3 @ '' Fair''
         else if f_le (flit 40) score then stars 2 @ '' Poor''
         else stars 1 @ '' Critical'')"

record Bottleneck =
  bn_Description :: string
  Impact :: string
  Recommendation :: string

definition slow_check :: "string \<times> CheckProfileMetrics \<Rightarrow> Bottleneck option" where
  "slow_check c =
     (case c of (name, check) \<Rightarrow>
        if cp_AverageDuration check > 200 * Millisecond
        then Some \<lparr>bn_Description = ''Check '' @ [CHR 0x27] @ name @ [CHR 0x27] @ '' is slow (avg: '' @
                     Duration_String (cp_AverageDuration check) @ '')'',
                   Impact = ''High - Significantly impacts overall diagnostic time'',
                   Recommendation = ''Optimize check implementation or run in parallel''\<rparr>
        else None)"

definition high_latency :: "Duration \<Rightarrow> Bottleneck" where
  "high_latency p99 =
     \<lparr>bn_Description = ''High P99 latency detected: '' @ Duration_String p99,
      Impact = ''Medium - Occasional slow operations'',
      Recommendation = ''Investigate outliers and add timeouts''\<rparr>"

definition imbalance :: Bottleneck where
  "imbalance =
     \<lparr>bn_Description = ''Worker load imbalance detected'',
      Impact = ''Medium - Inefficient resource utilization'',
      Recommendation = ''Review work distribution algorithm''\<rparr>"

text \<open>The extremes of the utilization do not depend on the order in which the workers are visited.\<close>

definition utilization_range :: "(int, WorkerProfileMetrics) gomap \<Rightarrow> f64 \<times> f64" where
  "utilization_range ws =
     fold (\<lambda>(_, w) (maxUtil, minUtil).
             (if f_gt (Utilization w) maxUtil then Utilization w else maxUtil,
              if f_lt (Utilization w) minUtil then Utilization w else minUtil)) ws (Fin 0, Fin 1)"

definition identifyBottlenecks :: "report_env \<Rightarrow> ProfileMetrics \<Rightarrow> Bottleneck list" where
  "identifyBottlenecks env m =
     List.map_filter slow_check (range_over (re_slow env) (pm_Checks m)) @
     (case map_of (Percentiles m) 99 of
        Some p99 \<Rightarrow> if p99 > 1 * Second then [high_latency p99] else []
      | None \<Rightarrow> []) @
     (if length (pm_Workers m) > 1
      then case utilization_range (pm_Workers m) of
             (maxUtil, minUtil) \<Rightarrow> if f_gt (f_sub maxUtil minUtil) (flit (3 / 10)) then [imbalance] else []
      else [])"

definition bullets :: "string \<Rightarrow> string list \<Rightarrow> string" where
  "bullets title items =
     title @ concat (map (\<lambda>i. [CHR 0x0A] @ ''   '' @ [CHR 0xE2, CHR 0x80, CHR 0xA2] @ '' '' @ i) items)"

definition failing_checks :: "ProfileMetrics \<Rightarrow> int" where
  "failing_checks m = int (length (filter (\<lambda>(_, c). f_lt (cp_SuccessRate c) (flit (9 / 10))) (pm_Checks m)))"

definition generateRecommendations :: "PerformanceProfiler \<Rightarrow> ProfileMetrics \<Rightarrow> string list" where
  "generateRecommendations p m =
     (if pm_AverageDuration m > 100 * Millisecond
      then [bullets ''Average operation duration is high. Consider:''
              [''Increasing parallelism'', ''Caching frequently accessed data'', ''Optimizing slow checks'']] else []) @
     (if AccuracyAchieved m > 5 * Millisecond
      then [bullets ''Timing accuracy is below target. Consider:''
              [''Using higher precision timers'', ''Reducing system load during profiling'', ''Adjusting sampling rate'']]
      else []) @
     (if f_gt (GetOverheadPercentage p) (flit 5)
      then [bullets ''Profiling overhead is high. Consider:''
              [''Reducing profiling detail level'', ''Sampling instead of full profiling'', ''Disabling call stack capture'']]
      else []) @
     (if failing_checks m > 0
      then [bullets (show_int (failing_checks m) @ '' checks have high failure rates. Consider:'')
              [''Adding retry logic'', ''Improving error handling'', ''Investigating root causes'']]
      else [])"

section \<open>The sections of the report\<close>

definition writeExecutiveSummary :: "PerformanceProfiler \<Rightarrow> ProfileMetrics \<Rightarrow> string" where
  "writeExecutiveSummary p m =
     line [''EXECUTIVE SUMMARY''] @ rule_line @
     line [''Total Operations:     '', show_int (TotalOperations m)] @
     line [''Total Duration:       '', Duration_String (pm_TotalDuration m)] @
     line [''Average Duration:     '', Duration_String (pm_AverageDuration m)] @
     line [''Accuracy Achieved:    '', Duration_String (AccuracyAchieved m), '' (target: 1ms)''] @
     line [''Performance Rating:   '', calculatePerformanceRating p m] @ line []"

definition writeTimingAnalysis :: "ProfileMetrics \<Rightarrow> string" where
  "writeTimingAnalysis m =
     line [''TIMING ANALYSIS''] @ rule_line @
     line [''Minimum Duration:     '', Duration_String (pm_MinDuration m)] @
     line [''Maximum Duration:     '', Duration_String (pm_MaxDuration m)] @
     line [''Average Duration:     '', Duration_String (pm_AverageDuration m)] @
     (if Percentiles m \<noteq> []
      then line [] @ line [''Percentiles:''] @
           line [''  P50 (Median):       '', Duration_String (percentile m 50)] @
           line [''  P95:                '', Duration_String (percentile m 95)] @
           line [''  P99:                '', Duration_String (percentile m 99)]
      else []) @ line []"

definition percent :: "nat \<Rightarrow> f64 \<Rightarrow> string" where
  "percent w rate = pad_left w (fmt_fixed 1 (f_mul rate (flit 100))) @ ''%''"

definition check_row :: "CheckProfileMetrics \<Rightarrow> string" where
  "check_row c =
     columns [pad_right 30 (truncateString (cp_Name c) 30), pad_left 10 (show_int (ExecutionCount c)),
              pad_left 12 (Duration_String (cp_AverageDuration c)), pad_left 12 (Duration_String (cp_MinDuration c)),
              pad_left 12 (Duration_String (cp_MaxDuration c)), percent 7 (cp_SuccessRate c)]"

definition writeCheckPerformance :: "report_env \<Rightarrow> ProfileMetrics \<Rightarrow> string" where
  "writeCheckPerformance env m =
     (if pm_Checks m = [] then []
      else let checks = sort_slice (re_check_ties env) (\<lambda>a b. cp_AverageDuration a > cp_AverageDuration b)
                          (map snd (range_over (re_checks env) (pm_Checks m)))
           in line [''CHECK PERFORMANCE''] @ rule_line @
              columns [pad_right 30 ''Check Name'', pad_left 10 ''Count'', pad_left 12 ''Avg'', pad_left 12 ''Min'',
                       pad_left 12 ''Max'', pad_left 8 ''Success%''] @ table_line @
              concat (map check_row checks) @ line [])"

definition worker_row :: "WorkerProfileMetrics \<Rightarrow> string" where
  "worker_row w =
     columns [pad_right 10 (show_int (wp_WorkerID w)), pad_left 12 (show_int (JobsProcessed w)),
              pad_left 12 (Duration_String (TotalBusyTime w)), pad_left 12 (Duration_String (TotalIdleTime w)),
              pad_left 12 (Duration_String (AverageJobTime w)), percent 11 (Utilization w)]"

definition worker_totals :: "WorkerProfileMetrics list \<Rightarrow> int \<times> Duration \<times> f64" where
  "worker_totals ws =
     fold (\<lambda>w (jobs, busy, util). (jobs + JobsProcessed w, wrap64 (busy + TotalBusyTime w), f_add util (Utilization w)))
       ws (0, 0, Fin 0)"

definition total_row :: "WorkerProfileMetrics list \<Rightarrow> string option" where
  "total_row ws =
     (case worker_totals ws of
        (totalJobs, totalBusyTime, totalUtilization) \<Rightarrow>
          if totalJobs = 0 then None
          else Some (table_line @
            columns [pad_right 10 ''TOTAL'', pad_left 12 (show_int totalJobs), pad_left 12 (Duration_String totalBusyTime),
                     pad_left 12 ''-'', pad_left 12 (Duration_String (go_quot totalBusyTime totalJobs)),
                     percent 11 (f_div totalUtilization (float64 (int (length ws))))]))"

definition writeWorkerPerformance :: "report_env \<Rightarrow> ProfileMetrics \<Rightarrow> string option" where
  "writeWorkerPerformance env m =
     (if pm_Workers m = [] then Some []
      else let ws = sort_slice (re_worker_ties env) (\<lambda>a b. f_gt (Utilization a) (Utilization b))
                           (map snd (range_over (re_workers env) (pm_Workers m)))
           in case total_row ws of
                None \<Rightarrow> None
              | Some totals \<Rightarrow> Some (line [''WORKER PERFORMANCE''] @ rule_line @
                  columns [pad_right 10 ''Worker ID'', pad_left 12 ''Jobs'', pad_left 12 ''Busy Time'',
                           pad_left 12 ''Idle Time'', pad_left 12 ''Avg Job'', pad_left 12 ''Utilization''] @ table_line @
                  concat (map worker_row ws) @ totals @ line []))"

definition category_row :: "ProfileMetrics \<Rightarrow> string \<times> CategoryMetrics \<Rightarrow> string" where
  "category_row m c =
     (case c of (name, cat) \<Rightarrow>
        let percentage = f_mul (f_div (float64 (cm_TotalDuration cat)) (float64 (pm_TotalDuration m))) (flit 100)
        in columns [pad_right 25 (truncateString name 25), pad_left 10 (show_int (cm_Count cat)),
                    pad_left 12 (Duration_String (cm_TotalDuration cat)),
                    pad_left 12 (Duration_String (cm_AverageDuration cat)),
                    pad_left 12 (Duration_String (cm_MinDuration cat)),
                    pad_left 12 (Duration_String (cm_MaxDuration cat))] @
           line [''  '', [CHR 0xE2, CHR 0x94, CHR 0x94, CHR 0xE2, CHR 0x94, CHR 0x80], '' '', fmt_fixed 1 percentage,
                 ''% of total execution time''])"

definition writeCategoryBreakdown :: "report_env \<Rightarrow> ProfileMetrics \<Rightarrow> string" where
  "writeCategoryBreakdown env m =
     (if pm_Categories m = [] then []
      else let categories = sort_slice (re_category_ties env) (\<lambda>a b. cm_TotalDuration (snd a) > cm_TotalDuration (snd b))
                              (range_over (re_categories env) (pm_Categories m))
           in line [''CATEGORY BREAKDOWN''] @ rule_line @
              columns [pad_right 25 ''Category'', pad_left 10 ''Count'', pad_left 12 ''Total'', pad_left 12 ''Average'',
                       pad_left 12 ''Min'', pad_left 10 ''Max''] @ table_line @
              concat (map (category_row m) categories) @ line [])"

text \<open>A numbered list, with a blank line between the entries.\<close>

definition numbered :: "(nat \<Rightarrow> 'a \<Rightarrow> string) \<Rightarrow> 'a list \<Rightarrow> string" where
  "numbered entry xs =
     concat (map (\<lambda>(i, x). entry (i + 1) x @ (if i < length xs - 1 then line [] else [])) (enumerate 0 xs))"

definition bottleneck_entry :: "nat \<Rightarrow> Bottleneck \<Rightarrow> string" where
  "bottleneck_entry n b =
     line [show_nat n, ''. '', bn_Description b] @ line [''   Impact: '', Impact b] @
     line [''   Recommendation: '', Recommendation b]"

definition writeBottleneckAnalysis :: "report_env \<Rightarrow> ProfileMetrics \<Rightarrow> string" where
  "writeBottleneckAnalysis env m =
     (let bottlenecks = identifyBottlenecks env m
      in line [''BOTTLENECK ANALYSIS''] @ rule_line @
         (if bottlenecks = [] then line [''No significant bottlenecks detected.'']
          else line [''Identified Bottlenecks:''] @ line [] @ numbered bottleneck_entry bottlenecks) @ line [])"

definition latest_lines :: "MetricsSample \<Rightarrow> string" where
  "latest_lines s =
     line [''CPU Usage:            '', fmt_fixed 1 (CPUPercent s), ''%''] @
     line [''Memory Usage:         '', fmt_fixed 2 (MemoryMB s), '' MB''] @
     line [''Goroutines:           '', show_int (Goroutines s)] @
     line [''Active Jobs:          '', show_int (sa_ActiveJobs s)] @
     line [''Completed Jobs:       '', show_int (sa_CompletedJobs s)] @
     line [''Error Rate:           '', fmt_fixed 1 (f_mul (sa_ErrorRate s) (flit 100)), ''%'']"

definition average_lines :: "AverageMetrics \<Rightarrow> string" where
  "average_lines a =
     line [] @ line [''Averages (last minute):''] @
     line [''  CPU:                '', fmt_fixed 1 (AvgCPU a), ''%''] @
     line [''  Memory:             '', fmt_fixed 2 (AvgMemoryMB a), '' MB''] @
     line [''  Goroutines:         '', show_int (AvgGoroutines a)]"

definition writeResourceUsage :: "report_env \<Rightarrow> PerformanceProfiler \<Rightarrow> string" where
  "writeResourceUsage env p =
     line [''RESOURCE USAGE''] @ rule_line @
     (case GetLatestSample (pp_collector p) of Some s \<Rightarrow> latest_lines s | None \<Rightarrow> []) @
     (case GetAverageMetrics (re_now env) (1 * Minute) (pp_collector p) of Some a \<Rightarrow> average_lines a | None \<Rightarrow> []) @
     line []"

definition writeProfilingOverhead :: "PerformanceProfiler \<Rightarrow> ProfileMetrics \<Rightarrow> string" where
  "writeProfilingOverhead p m =
     line [''PROFILING OVERHEAD''] @ rule_line @
     line [''Total Overhead:       '', Duration_String (OverheadNanos m)] @
     line [''Overhead Percentage:  '', fmt_fixed 2 (GetOverheadPercentage p), ''%''] @
     line [''Target Limit:         '', fmt_fixed 1 (f_mul (MaxOverhead (pp_config p)) (flit 100)), ''%''] @
     (if IsWithinOverheadLimit p
      then line [''Status:               '', [CHR 0xE2, CHR 0x9C, CHR 0x93], '' Within acceptable limits'']
      else line [''Status:               '', [CHR 0xE2, CHR 0x9C, CHR 0x97], '' Exceeds acceptable limits''] @
           line [''                      Consider reducing profiling detail level'']) @ line []"

definition writeRecommendations :: "PerformanceProfiler \<Rightarrow> ProfileMetrics \<Rightarrow> string" where
  "writeRecommendations p m =
     (let recommendations = generateRecommendations p m
      in line [''RECOMMENDATIONS''] @ rule_line @
         (if recommendations = [] then line [''Performance is optimal. No recommendations at this time.'']
          else numbered (\<lambda>n rec. line [show_nat n, ''. '', rec]) recommendations) @ line [])"

section \<open>Reports\<close>

definition reporter_GenerateReport :: "report_env \<Rightarrow> PerformanceProfiler option \<Rightarrow> string option" where
  "reporter_GenerateReport env profiler =
     (case profiler of
        None \<Rightarrow> Some ''No profiler configured''
      | Some p \<Rightarrow>
          let m = GetMetrics p
          in case writeWorkerPerformance env m of
               None \<Rightarrow> None
             | Some workerSection \<Rightarrow> Some (
                 line [replicate 80 CHR ''=''] @
                 line [pad_right 40 '' PERFORMANCE PROFILING REPORT'', pad_left 40 (''Generated: '' @ re_generated env @ '' '')] @
                 line [replicate 80 CHR ''=''] @ line [] @
                 writeExecutiveSummary p m @ writeTimingAnalysis m @ writeCheckPerformance env m @ workerSection @
                 writeCategoryBreakdown env m @ writeBottleneckAnalysis env m @ writeResourceUsage env p @
                 writeProfilingOverhead p m @ writeRecommendations p m))"

text \<open>
  The call stack of a measurement is attached to it when it is made: \<open>callStack\<close> gives it by address.
\<close>

fun Join :: "string list \<Rightarrow> string \<Rightarrow> string" where
  "Join [] sep = []"
| "Join [x] sep = x"
| "Join (x # y # ys) sep = x @ sep @ Join (y # ys) sep"

definition stack_counts :: "(nat \<Rightarrow> string list) \<Rightarrow> TimingData list \<Rightarrow> (string, int) gomap" where
  "stack_counts callStack timings =
     fold (\<lambda>t m. if callStack (addr t) = [] then m
                 else incr_key (Join (callStack (addr t)) '';'') m) timings []"

definition reporter_GenerateFlameGraph ::
    "(nat \<Rightarrow> string list) \<Rightarrow> string list \<Rightarrow> PerformanceProfiler option \<Rightarrow> goerror + string" where
  "reporter_GenerateFlameGraph callStack ord profiler =
     (case profiler of
        None \<Rightarrow> Inl (ErrorString ''no profiling data available'')
      | Some p \<Rightarrow>
          Inr (line [''# Flame Graph Data''] @ line [''# Format: stack_trace count''] @ line [] @
               concat (map (\<lambda>(stack, n). line [stack, '' '', show_int n])
                 (range_over ord (stack_counts callStack (GetAll (pp_measurements p)))))))"

definition GenerateSummary :: "PerformanceProfiler option \<Rightarrow> string" where
  "GenerateSummary profiler =
     (case profiler of
        None \<Rightarrow> ''No profiling data available''
      | Some p \<Rightarrow>
          let m = GetMetrics p
          in ''Profiling Summary: '' @ show_int (TotalOperations m) @ '' ops in '' @ Duration_String (pm_TotalDuration m) @
             '' (avg: '' @ Duration_String (pm_AverageDuration m) @ '', P95: '' @ Duration_String (percentile m 95) @
             '') | Overhead: '' @ fmt_fixed 2 (GetOverheadPercentage p) @ ''% | Accuracy: '' @
             Duration_String (AccuracyAchieved m))"

text \<open>The methods of the profiler; a profiler always has a reporter, which knows it.\<close>

definition profiler_GenerateReport :: "report_env \<Rightarrow> PerformanceProfiler \<Rightarrow> string option" where
  "profiler_GenerateReport env p = reporter_GenerateReport env (Some p)"

definition profiler_GenerateFlameGraph ::
    "(nat \<Rightarrow> string list) \<Rightarrow> string list \<Rightarrow> PerformanceProfiler \<Rightarrow> goerror + string" where
  "profiler_GenerateFlameGraph callStack ord p =
     (if \<not> EnableFlameGraph (pp_config p) then Inl (ErrorString ''flame graph generation is disabled'')
      else reporter_GenerateFlameGraph callStack ord (Some p))"

section \<open>Sorting\<close>

lemma mset_insert_slice: "mset (insert_slice before xs x) = add_mset x (mset xs)"
proof -
  let ?later = "rev (takeWhile (before x) (rev xs))"
  have "xs = rev (dropWhile (before x) (rev xs)) @ ?later"
    by (metis rev_append rev_rev_ident takeWhile_dropWhile_id)
  then have "take (length xs - length ?later) xs @ ?later = xs"
    by (metis append_eq_conv_conj diff_add_inverse2 length_append)
  then have "mset (take (length xs - length ?later) xs) + mset ?later = mset xs" by (metis mset_append)
  then show ?thesis by (simp add: insert_slice_def Let_def)
qed

lemma mset_insertion_sort: "mset (insertion_sort before xs) = mset xs"
proof -
  have "mset (foldl (insert_slice before) ys xs) = mset ys + mset xs" for ys
    by (induction xs arbitrary: ys) (simp_all add: mset_insert_slice)
  then show ?thesis by (simp add: insertion_sort_def)
qed

lemma mset_arranged: "mset (arranged ties xs) = mset xs"
proof -
  have "mset (remdups (filter (\<lambda>i. i < length xs) ties @ [0..<length xs])) = mset [0..<length xs]"
    by (subst set_eq_iff_mset_eq_distinct [symmetric]) auto
  then have "mset (arranged ties xs) = mset (map ((!) xs) [0..<length xs])"
    unfolding arranged_def Let_def mset_map by simp
  then show ?thesis by (simp only: map_nth)
qed

lemma mset_sort_slice: "mset (sort_slice ties before xs) = mset xs"
  by (simp add: sort_slice_def mset_insertion_sort mset_arranged)

text \<open>Elements none of which comes before another are left in their order.\<close>

lemma insertion_sort_ties:
  assumes "\<forall>x \<in> set xs. \<forall>y \<in> set xs. \<not> before x y"
  shows "insertion_sort before xs = xs"
proof -
  have "foldl (insert_slice before) ys zs = ys @ zs" if "set ys \<union> set zs \<subseteq> set xs" for ys zs
    using that
  proof (induction zs arbitrary: ys)
    case (Cons z zs)
    have "\<not> before z y" if "y \<in> set ys" for y using Cons.prems that assms by auto
    then have "takeWhile (before z) (rev ys) = []" by (cases "rev ys") (auto simp: takeWhile_eq_Nil_iff)
    then show ?case using Cons by (simp add: insert_slice_def)
  qed simp
  from this [of "[]" xs] show ?thesis by (simp add: insertion_sort_def)
qed

lemma sort_slice_ties:
  assumes "\<forall>x \<in> set xs. \<forall>y \<in> set xs. \<not> before x y"
  shows "sort_slice ties before xs = xs"
proof -
  have "successively (\<lambda>a b. \<not> before b a) xs"
    using assms by (simp add: successively_conv_nth)
  then show ?thesis using insertion_sort_ties [OF assms] by (simp add: sort_slice_def)
qed

section \<open>The score\<close>

definition points :: "f64 \<Rightarrow> ProfileMetrics \<Rightarrow> int" where
  "points overhead m =
     100 - (if pm_AverageDuration m > 100 * Millisecond then 20 else if pm_AverageDuration m > 50 * Millisecond then 10 else 0)
         - (case map_of (Percentiles m) 95 of None \<Rightarrow> 0
            | Some p95 \<Rightarrow> if p95 > 500 * Millisecond then 20 else if p95 > 200 * Millisecond then 10 else 0)
         - (if AccuracyAchieved m > 5 * Millisecond then 15 else 0)
         - (if f_gt overhead (flit 10) then 20 else if f_gt overhead (flit 5) then 10 else 0)"

lemma rnd_numeral: "(numeral k :: int) \<le> 2 ^ 53 \<Longrightarrow> rnd (numeral k) = Fin (numeral k)"
  using float64_exact [of "numeral k"] by (simp add: float64_def)

text \<open>The floating-point score is the number of points.\<close>

lemma performance_score_points: "performance_score overhead m = Fin (of_int (points overhead m))"
  by (simp add: performance_score_def points_def Let_def flit_def f_sub_def rnd_numeral split: option.split)

lemma points_range: "25 \<le> points overhead m \<and> points overhead m \<le> 100"
  by (simp add: points_def split: option.split)

text \<open>When no duration exceeds the one before it, the profiler is never rated excellent.\<close>

lemma flat_durations_not_excellent:
  "AccuracyAchieved m = 2 ^ 63 - 1 \<Longrightarrow> \<not> f_le (flit 90) (performance_score overhead m)"
  by (simp add: performance_score_points points_def flit_def rnd_numeral split: option.split)

section \<open>Every reachable profiler can be reported\<close>

lemma worker_totals_fold:
  "fst (fold (\<lambda>w (jobs, busy, util). (jobs + JobsProcessed w, wrap64 (busy + TotalBusyTime w), f_add util (Utilization w)))
     ws (j, b, u)) = j + sum_list (map JobsProcessed ws)"
  by (induction ws arbitrary: j b u) simp_all

lemma total_row_returns:
  assumes "ws \<noteq> []" "list_all (\<lambda>w. 0 < JobsProcessed w) ws"
  shows "total_row ws \<noteq> None"
proof -
  have "0 < sum_list (map JobsProcessed ws)"
    using assms by (induction ws rule: list_nonempty_induct) (auto intro: add_pos_pos)
  then have "fst (worker_totals ws) \<noteq> 0" by (simp add: worker_totals_def worker_totals_fold)
  then show ?thesis by (auto simp: total_row_def split: prod.split)
qed

lemma utilization_zero:
  "list_all (\<lambda>(_, w). Utilization w = Fin 0) ws \<Longrightarrow> ws \<noteq> [] \<Longrightarrow> utilization_range ws = (Fin 0, Fin 0)"
proof -
  have "list_all (\<lambda>(_, w). Utilization w = Fin 0) ws \<Longrightarrow>
      fold (\<lambda>(_, w) (maxUtil, minUtil).
             (if f_gt (Utilization w) maxUtil then Utilization w else maxUtil,
              if f_lt (Utilization w) minUtil then Utilization w else minUtil)) ws (Fin 0, Fin 0) = (Fin 0, Fin 0)" for ws
    by (induction ws) auto
  then show "list_all (\<lambda>(_, w). Utilization w = Fin 0) ws \<Longrightarrow> ws \<noteq> [] \<Longrightarrow> ?thesis"
    by (cases ws) (auto simp: utilization_range_def)
qed

lemma range_over_subset: "set (range_over ord m) \<subseteq> set m"
proof
  fix x
  assume "x \<in> set (range_over ord m)"
  then obtain k where k: "k \<in> set (range_keys ord m)" "x = (k, the (map_of m k))" by (auto simp: range_over_def)
  then have "k \<in> fst ` set m" by simp
  then obtain v where "map_of m k = Some v" by (metis map_of_eq_None_iff option.exhaust)
  then show "x \<in> set m" using k(2) map_of_SomeD by fastforce
qed

lemma range_over_empty: "range_over ord m = [] \<longleftrightarrow> m = []"
proof -
  have "range_keys ord m = [] \<longleftrightarrow> set (range_keys ord m) = {}" by (simp only: set_empty)
  then show ?thesis by (simp add: range_over_def)
qed

lemma workers_section_returns:
  assumes "list_all (\<lambda>(w, m). 0 < JobsProcessed m) (pm_Workers m)"
  shows "\<exists>r. writeWorkerPerformance env m = Some r"
proof (cases "pm_Workers m = []")
  case False
  let ?ws = "sort_slice (re_worker_ties env) (\<lambda>a b. f_gt (Utilization a) (Utilization b)) (map snd (range_over (re_workers env) (pm_Workers m)))"
  have ws: "set ?ws = snd ` set (range_over (re_workers env) (pm_Workers m))"
    using mset_sort_slice mset_eq_setD by (metis set_map)
  have "?ws \<noteq> []" using ws False range_over_empty [of "re_workers env" "pm_Workers m"] by (metis image_is_empty list.set(1) set_empty)
  moreover have "list_all (\<lambda>w. 0 < JobsProcessed w) ?ws"
    using assms range_over_subset [of "re_workers env" "pm_Workers m"] ws by (fastforce simp: list_all_iff)
  ultimately obtain t where "total_row ?ws = Some t" using total_row_returns by fastforce
  then show ?thesis using False by (simp add: writeWorkerPerformance_def Let_def)
qed (simp add: writeWorkerPerformance_def)

lemma no_slow_checks:
  assumes "list_all (\<lambda>(name, c). cp_AverageDuration c = 0) (pm_Checks m)"
  shows "List.map_filter slow_check (range_over ord (pm_Checks m)) = []"
proof -
  have "\<forall>c \<in> set (range_over ord (pm_Checks m)). slow_check c = None"
    using assms range_over_subset [of ord "pm_Checks m"] by (fastforce simp: list_all_iff slow_check_def)
  then show ?thesis by (simp add: map_filter_def filter_empty_conv)
qed

lemma report_returns:
  "writeWorkerPerformance env (GetMetrics p) = Some r \<Longrightarrow> \<exists>s. reporter_GenerateReport env (Some p) = Some s"
  unfolding reporter_GenerateReport_def Let_def by (simp only: option.case option.inject ex_simps simp_thms)

lemma no_imbalance:
  assumes "list_all (\<lambda>(_, w). Utilization w = Fin 0) ws"
  shows "(if length ws > 1
      then case utilization_range ws of
             (maxUtil, minUtil) \<Rightarrow> if f_gt (f_sub maxUtil minUtil) (flit (3 / 10)) then [imbalance] else []
      else []) = []"
proof (cases "ws = []")
  case False
  have "\<not> f_gt (Fin 0) (flit (3 / 10))"
    by (rule flit_tenths [of 3]) simp_all
  then show ?thesis using utilization_zero [OF assms False] by (simp add: f_sub_def)
qed simp

lemma bottlenecks_reachable:
  assumes "profile_ok m"
  shows "identifyBottlenecks env m =
    (case map_of (Percentiles m) 99 of Some p99 \<Rightarrow> if p99 > 1 * Second then [high_latency p99] else [] | None \<Rightarrow> [])"
proof -
  have "list_all (\<lambda>(name, c). cp_AverageDuration c = 0) (pm_Checks m)"
    "list_all (\<lambda>(_, w). Utilization w = Fin 0) (pm_Workers m)"
    using assms by (auto simp: profile_ok_def worker_metrics_ok_def check_metrics_ok_def list_all_iff)
  then show ?thesis unfolding identifyBottlenecks_def by (simp only: no_slow_checks no_imbalance append_Nil append_Nil2)
qed

lemma checks_unsorted:
  assumes "profile_ok m"
  shows "sort_slice ties (\<lambda>a b. cp_AverageDuration a > cp_AverageDuration b) (map snd (range_over ord (pm_Checks m))) =
    map snd (range_over ord (pm_Checks m))"
proof -
  have "\<forall>x \<in> set (map snd (range_over ord (pm_Checks m))). cp_AverageDuration x = 0"
    using assms range_over_subset [of ord "pm_Checks m"]
    by (fastforce simp: profile_ok_def check_metrics_ok_def list_all_iff)
  then show ?thesis by (intro sort_slice_ties) auto
qed

section \<open>Properties\<close>

text \<open>
  C38: Every profiler that can be reached can be reported, whatever order its maps are iterated in and
  \<^verbatim>\<open>sort.Slice\<close> leaves ties in. Reached are the profilers that any sequence of the atomic parts of the calls
  leads to, which are those of the runs that no \<^verbatim>\<open>Reset\<close> tears. The division by the number of jobs never panics. But the only bottleneck a report can ever name is a high
  99th percentile. Slow checks and an imbalance of the workers are looked for in fields that are always
  zero; for the same reason the checks are not sorted by their duration but listed in the order of the
  map, and a rating is between 25 and 100 points.
\<close>

theorem reports_complete:
  assumes "profiler_step\<^sup>*\<^sup>* (NewPerformanceProfiler config) p"
  shows "(\<exists>r. profiler_GenerateReport env p = Some r) \<and>
     identifyBottlenecks env (GetMetrics p) =
       (case map_of (Percentiles (GetMetrics p)) 99 of
          Some p99 \<Rightarrow> if p99 > 1 * Second then [high_latency p99] else [] | None \<Rightarrow> []) \<and>
     sort_slice ties (\<lambda>a b. cp_AverageDuration a > cp_AverageDuration b) (map snd (range_over ord (pm_Checks (GetMetrics p)))) =
       map snd (range_over ord (pm_Checks (GetMetrics p))) \<and>
     (\<exists>score. performance_score (GetOverheadPercentage p) (GetMetrics p) = Fin score \<and> 25 \<le> score \<and> score \<le> 100)"
proof -
  have ok: "profile_ok (GetMetrics p)"
    using profiler_steps_ok [OF assms NewPerformanceProfiler_ok] by (simp add: profiler_ok_def GetMetrics_def)
  then have "list_all (\<lambda>(w, m). 0 < JobsProcessed m) (pm_Workers (GetMetrics p))"
    by (auto simp: profile_ok_def list_all_iff)
  then obtain r where "writeWorkerPerformance env (GetMetrics p) = Some r" using workers_section_returns by blast
  then have "\<exists>r. profiler_GenerateReport env p = Some r"
    unfolding profiler_GenerateReport_def by (rule report_returns)
  moreover have "\<exists>score. performance_score (GetOverheadPercentage p) (GetMetrics p) = Fin score \<and> 25 \<le> score \<and> score \<le> 100"
    using points_range [of "GetOverheadPercentage p" "GetMetrics p"] by (simp add: performance_score_points)
  moreover note bottlenecks_reachable [OF ok] checks_unsorted [OF ok]
  ultimately show ?thesis by blast
qed

definition plain_env :: report_env where
  "plain_env = \<lparr>re_generated = ''2024-01-01 00:00:00'', re_now = 0, re_checks = [], re_workers = [], re_categories = [],
                re_slow = [], re_check_ties = [], re_worker_ties = [], re_category_ties = []\<rparr>"

theorem reports_complete_witness:
  "\<exists>r. profiler_GenerateReport plain_env five_jobs = Some r"
proof -
  have run: "profiler_step\<^sup>*\<^sup>* q (run_worker w ys q)" for q w ys
  proof (induction ys arbitrary: q)
    case (Cons y ys)
    obtain env job result err where y: "y = (env, job, result, err)" by (cases y) auto
    have "profiler_step\<^sup>*\<^sup>* q (fst (ProfileWorkerJob env w job (Returns (Some result) err) q))"
      by (rule ProfileWorkerJob_steps)
    also note Cons.IH
    finally show ?case by (simp add: run_worker_def y)
  qed (simp add: run_worker_def)
  from rtranclp_trans [OF profiler_Start_steps run]
  have "profiler_step\<^sup>*\<^sup>* (NewPerformanceProfiler (Some worker_config)) five_jobs" by (simp add: five_jobs_def)
  from reports_complete [OF this] show ?thesis by blast
qed

end
