(* ===== verification/Graceful_Degradation.thy ===== *)
theory Graceful_Degradation
  imports Security_Validator Go_Fmt "HOL-Library.Monad_Syntax"
begin

text \<open>
  The degradation controller of \<^verbatim>\<open>internal/diagnostics/graceful_degradation.go\<close>: health indicators, the
  score computed from them, the level derived from the score and the checks that a level allows.
  The mutex is part of the state, because one method asks for it twice: an operation is
  \<^term>\<open>None\<close> when it blocks on its own lock. Map iterations take their order as an argument.
\<close>

section \<open>State\<close>

type_synonym DegradationLevel = int

abbreviation (input) DegradationNormal :: DegradationLevel where "DegradationNormal \<equiv> 0"
abbreviation (input) DegradationReduced :: DegradationLevel where "DegradationReduced \<equiv> 1"
abbreviation (input) DegradationMinimal :: DegradationLevel where "DegradationMinimal \<equiv> 2"
abbreviation (input) DegradationEmergency :: DegradationLevel where "DegradationEmergency \<equiv> 3"

definition DegradationLevel_String :: "DegradationLevel \<Rightarrow> string" where
  "DegradationLevel_String dl =
     (if dl = DegradationNormal then ''NORMAL''
      else if dl = DegradationReduced then ''REDUCED''
      else if dl = DegradationMinimal then ''MINIMAL''
      else if dl = DegradationEmergency then ''EMERGENCY''
      else ''UNKNOWN'')"

datatype HealthTrend = TrendStable | TrendImproving | TrendDegrading | TrendCritical

record HealthIndicator =
  hi_Name :: string
  hi_Value :: f64
  hi_Threshold :: f64
  hi_Critical :: bool
  hi_LastUpdated :: Time
  hi_Trend :: HealthTrend
  hi_Description :: string

record ResourceThresholds =
  MaxCPUPercent :: f64
  MaxMemoryPercent :: f64
  MaxDiskPercent :: f64
  MaxOpenFiles :: int
  MaxConnections :: int

record DegradationThresholds =
  dt_ErrorRate :: f64
  dt_ResponseTime :: Duration
  dt_CircuitBreakerOpen :: bool
  dt_ResourceExhaustion :: bool
  dt_ConnectionFailures :: int
  dt_ConsecutiveFailures :: int

record LevelTransition =
  lt_FromLevel :: DegradationLevel
  lt_ToLevel :: DegradationLevel
  lt_Timestamp :: Time
  lt_Reason :: string
  lt_Automatic :: bool
  lt_HealthScore :: f64

record DegradationMetrics =
  dm_CurrentLevel :: DegradationLevel
  dm_TimeInCurrentLevel :: Duration
  dm_LastLevelChange :: Time
  dm_TimeInEachLevel :: "(DegradationLevel, Duration) gomap"
  dm_TransitionsCount :: "(string, int) gomap"
  dm_OverallHealthScore :: f64
  dm_HealthIndicators :: "(string, HealthIndicator) gomap"
  dm_ChecksSkipped :: int
  dm_ChecksExecuted :: int
  dm_ResourcesSaved :: "(string, f64) gomap"
  dm_AutoRecoveries :: int
  dm_ManualOverrides :: int
  dm_FailedRecoveries :: int

text \<open>A nil map of the configuration is \<^term>\<open>None\<close>.\<close>

record DegradationConfig =
  dc_EnableAutoDetection :: bool
  dc_DefaultLevel :: DegradationLevel
  dc_ManualOverrideAllowed :: bool
  dc_HealthCheckInterval :: Duration
  dc_RecoveryCheckInterval :: Duration
  dc_StabilityPeriod :: Duration
  dc_ErrorRateThresholds :: "(DegradationLevel, f64) gomap option"
  dc_ResourceThresholds :: "(DegradationLevel, ResourceThresholds) gomap option"
  dc_ResponseTimeThresholds :: "(DegradationLevel, Duration) gomap option"
  dc_EnableAutoRecovery :: bool
  dc_RecoveryStabilityPeriod :: Duration
  dc_ConservativeRecovery :: bool

record GracefulDegradation =
  gd_config :: DegradationConfig
  gd_currentLevel :: DegradationLevel
  gd_lastLevelChange :: Time
  gd_degradationReason :: string
  gd_healthIndicators :: "(string, HealthIndicator) gomap"
  gd_thresholds :: "(DegradationLevel, DegradationThresholds) gomap"
  gd_levelHistory :: "LevelTransition list"
  gd_metrics :: DegradationMetrics
  gd_manualOverride :: "DegradationLevel option"
  gd_autoDetection :: bool
  gd_mu :: rw_mutex
  gd_stopped :: bool

record DegradationStatus =
  ds_Level :: DegradationLevel
  ds_Reason :: string
  ds_HealthScore :: f64
  ds_IsHealthy :: bool
  ds_Automatic :: bool
  ds_TimeInLevel :: Duration
  ds_Indicators :: "(string, HealthIndicator) gomap"
  ds_Capabilities :: "(string, bool) gomap"

section \<open>Construction\<close>

definition initializeThresholds :: "(DegradationLevel, DegradationThresholds) gomap" where
  "initializeThresholds =
     [(DegradationNormal,
       \<lparr>dt_ErrorRate = flit (5 / 100), dt_ResponseTime = 2 * Second, dt_CircuitBreakerOpen = False,
        dt_ResourceExhaustion = False, dt_ConnectionFailures = 2, dt_ConsecutiveFailures = 3\<rparr>),
      (DegradationReduced,
       \<lparr>dt_ErrorRate = flit (15 / 100), dt_ResponseTime = 5 * Second, dt_CircuitBreakerOpen = True,
        dt_ResourceExhaustion = False, dt_ConnectionFailures = 5, dt_ConsecutiveFailures = 5\<rparr>),
      (DegradationMinimal,
       \<lparr>dt_ErrorRate = flit (30 / 100), dt_ResponseTime = 10 * Second, dt_CircuitBreakerOpen = True,
        dt_ResourceExhaustion = True, dt_ConnectionFailures = 10, dt_ConsecutiveFailures = 8\<rparr>),
      (DegradationEmergency,
       \<lparr>dt_ErrorRate = flit (50 / 100), dt_ResponseTime = 30 * Second, dt_CircuitBreakerOpen = True,
        dt_ResourceExhaustion = True, dt_ConnectionFailures = 20, dt_ConsecutiveFailures = 15\<rparr>)]"

definition new_indicator :: "Time \<Rightarrow> string \<Rightarrow> rat \<Rightarrow> string \<Rightarrow> string \<times> HealthIndicator" where
  "new_indicator now name threshold description =
     (name, \<lparr>hi_Name = name, hi_Value = Fin 0, hi_Threshold = flit threshold, hi_Critical = False,
             hi_LastUpdated = now, hi_Trend = TrendStable, hi_Description = description\<rparr>)"

definition initializeHealthIndicators :: "Time \<Rightarrow> (string, HealthIndicator) gomap" where
  "initializeHealthIndicators now =
     [new_indicator now ''error_rate'' (1 / 10) ''Overall system error rate'',
      new_indicator now ''response_time'' 5 ''Average system response time in seconds'',
      new_indicator now ''docker_connectivity'' (1 / 2) ''Docker daemon connectivity health (0-1)'',
      new_indicator now ''resource_usage'' (8 / 10) ''Overall system resource usage (0-1)'',
      new_indicator now ''circuit_breaker_health'' (1 / 2) ''Circuit breaker system health (0-1)'']"

definition default_degradation_config :: DegradationConfig where
  "default_degradation_config =
     \<lparr>dc_EnableAutoDetection = True, dc_DefaultLevel = DegradationNormal, dc_ManualOverrideAllowed = True,
      dc_HealthCheckInterval = 30 * Second, dc_RecoveryCheckInterval = 60 * Second,
      dc_StabilityPeriod = 5 * Minute, dc_ErrorRateThresholds = None, dc_ResourceThresholds = None,
      dc_ResponseTimeThresholds = None, dc_EnableAutoRecovery = True,
      dc_RecoveryStabilityPeriod = 10 * Minute, dc_ConservativeRecovery = True\<rparr>"

definition degradation_defaults :: "DegradationConfig \<Rightarrow> DegradationConfig" where
  "degradation_defaults c =
     (let c = (if dc_ErrorRateThresholds c = None
               then c\<lparr>dc_ErrorRateThresholds := Some [(DegradationNormal, flit (5 / 100)), (DegradationReduced, flit (15 / 100)),
                        (DegradationMinimal, flit (30 / 100)), (DegradationEmergency, flit (50 / 100))]\<rparr> else c);
          c = (if dc_ResponseTimeThresholds c = None
               then c\<lparr>dc_ResponseTimeThresholds := Some [(DegradationNormal, 2 * Second), (DegradationReduced, 5 * Second),
                        (DegradationMinimal, 10 * Second), (DegradationEmergency, 30 * Second)]\<rparr> else c);
          c = (if dc_HealthCheckInterval c \<le> 0 then c\<lparr>dc_HealthCheckInterval := 30 * Second\<rparr> else c);
          c = (if dc_RecoveryCheckInterval c \<le> 0 then c\<lparr>dc_RecoveryCheckInterval := 60 * Second\<rparr> else c);
          c = (if dc_StabilityPeriod c \<le> 0 then c\<lparr>dc_StabilityPeriod := 5 * Minute\<rparr> else c)
      in if dc_RecoveryStabilityPeriod c \<le> 0 then c\<lparr>dc_RecoveryStabilityPeriod := 10 * Minute\<rparr> else c)"

definition NewGracefulDegradation :: "Time \<Rightarrow> Time \<Rightarrow> DegradationConfig option \<Rightarrow> GracefulDegradation" where
  "NewGracefulDegradation now now' config =
     (let config = degradation_defaults (case config of None \<Rightarrow> default_degradation_config | Some c \<Rightarrow> c)
      in \<lparr>gd_config = config, gd_currentLevel = dc_DefaultLevel config, gd_lastLevelChange = now,
          gd_degradationReason = [], gd_healthIndicators = initializeHealthIndicators now',
          gd_thresholds = initializeThresholds, gd_levelHistory = [],
          gd_metrics = \<lparr>dm_CurrentLevel = dc_DefaultLevel config, dm_TimeInCurrentLevel = 0,
            dm_LastLevelChange = zero_time, dm_TimeInEachLevel = [], dm_TransitionsCount = [],
            dm_OverallHealthScore = Fin 0, dm_HealthIndicators = [], dm_ChecksSkipped = 0, dm_ChecksExecuted = 0,
            dm_ResourcesSaved = [], dm_AutoRecoveries = 0, dm_ManualOverrides = 0, dm_FailedRecoveries = 0\<rparr>,
          gd_manualOverride = None, gd_autoDetection = dc_EnableAutoDetection config, gd_mu = mutex_free,
          gd_stopped = False\<rparr>)"

section \<open>Health score and level\<close>

definition indicator_score :: "HealthIndicator \<Rightarrow> f64" where
  "indicator_score i =
     (if f_gt (hi_Value i) (hi_Threshold i)
      then let overage = f_sub (hi_Value i) (hi_Threshold i);
               maxOverage = f_mul (hi_Threshold i) (Fin 2)
           in if f_gt maxOverage (Fin 0)
              then let degradation = f_div overage maxOverage;
                       degradation = (if f_gt degradation (Fin 1) then Fin 1 else degradation)
                   in f_sub (Fin 1) degradation
              else Fin 0
      else Fin 1)"

definition indicator_weight :: "HealthIndicator \<Rightarrow> f64" where
  "indicator_weight i = (if hi_Critical i then Fin 2 else Fin 1)"

definition add_indicator :: "HealthIndicator \<Rightarrow> f64 \<times> f64 \<Rightarrow> f64 \<times> f64" where
  "add_indicator i acc =
     (f_add (fst acc) (f_mul (indicator_score i) (indicator_weight i)), f_add (snd acc) (indicator_weight i))"

definition calculateHealthScore :: "string list \<Rightarrow> GracefulDegradation \<Rightarrow> f64" where
  "calculateHealthScore ord gd =
     (if gd_healthIndicators gd = [] then Fin 1
      else let (totalScore, totalWeight) =
                 fold add_indicator (map snd (range_over ord (gd_healthIndicators gd))) (Fin 0, Fin 0)
           in if totalWeight = Fin 0 then Fin 1 else f_div totalScore totalWeight)"

definition indicator_unhealthy :: "HealthIndicator \<Rightarrow> bool" where
  "indicator_unhealthy i \<longleftrightarrow> hi_Critical i \<or> f_ge (hi_Value i) (hi_Threshold i)"

definition allIndicatorsHealthy :: "GracefulDegradation \<Rightarrow> bool" where
  "allIndicatorsHealthy gd \<longleftrightarrow> list_all (\<lambda>(name, i). \<not> indicator_unhealthy i) (gd_healthIndicators gd)"

definition criticalIndicatorsHealthy :: "GracefulDegradation \<Rightarrow> bool" where
  "criticalIndicatorsHealthy gd \<longleftrightarrow>
     list_all (\<lambda>name. case map_of (gd_healthIndicators gd) name of
                       Some i \<Rightarrow> \<not> indicator_unhealthy i | None \<Rightarrow> True)
       [''docker_connectivity'', ''error_rate'']"

definition determineAppropriateLevel :: "string list \<Rightarrow> GracefulDegradation \<Rightarrow> DegradationLevel" where
  "determineAppropriateLevel ord gd =
     (let healthScore = calculateHealthScore ord gd
      in if f_ge healthScore (flit (8 / 10)) \<and> allIndicatorsHealthy gd then DegradationNormal
         else if f_ge healthScore (flit (6 / 10)) \<and> criticalIndicatorsHealthy gd then DegradationReduced
         else if f_ge healthScore (flit (3 / 10)) then DegradationMinimal
         else DegradationEmergency)"

section \<open>Transitions\<close>

definition recordTransition :: "LevelTransition \<Rightarrow> GracefulDegradation \<Rightarrow> GracefulDegradation" where
  "recordTransition tr gd =
     (let gd = gd\<lparr>gd_levelHistory := gd_levelHistory gd @ [tr]\<rparr>;
          gd = (if length (gd_levelHistory gd) > 100
                then gd\<lparr>gd_levelHistory := drop (length (gd_levelHistory gd) - 100) (gd_levelHistory gd)\<rparr> else gd);
          transitionKey = DegradationLevel_String (lt_FromLevel tr) @ ''->'' @ DegradationLevel_String (lt_ToLevel tr)
      in gd\<lparr>gd_metrics := (gd_metrics gd)\<lparr>dm_TransitionsCount := incr_key transitionKey (dm_TransitionsCount (gd_metrics gd))\<rparr>\<rparr>)"

definition changeDegradationLevel ::
    "string list \<Rightarrow> Time \<Rightarrow> Time \<Rightarrow> DegradationLevel \<Rightarrow> string \<Rightarrow> GracefulDegradation \<Rightarrow> GracefulDegradation" where
  "changeDegradationLevel ord now now' newLevel reason gd =
     (let oldLevel = gd_currentLevel gd;
          gd = gd\<lparr>gd_currentLevel := newLevel, gd_lastLevelChange := now, gd_degradationReason := reason\<rparr>;
          gd = recordTransition \<lparr>lt_FromLevel = oldLevel, lt_ToLevel = newLevel, lt_Timestamp = now', lt_Reason = reason,
                 lt_Automatic = True, lt_HealthScore = calculateHealthScore ord gd\<rparr> gd
      in if newLevel > oldLevel
         then gd\<lparr>gd_metrics := (gd_metrics gd)\<lparr>dm_AutoRecoveries := dm_AutoRecoveries (gd_metrics gd) + 1\<rparr>\<rparr>
         else gd)"

definition generateLevelChangeReason :: "string list \<Rightarrow> string list \<Rightarrow> GracefulDegradation \<Rightarrow> string" where
  "generateLevelChangeReason ord ord' gd =
     (let healthScore = calculateHealthScore ord gd;
          criticalIndicators = map fst (filter (\<lambda>(name, i). hi_Critical i) (range_over ord' (gd_healthIndicators gd)))
      in if length criticalIndicators > 0
         then ''Health score '' @ fmt_fixed 2 healthScore @ '', critical indicators: '' @ show_strings criticalIndicators
         else ''Health score '' @ fmt_fixed 2 healthScore @ '', automatic level adjustment'')"

text \<open>
  \<open>now\<close> is the time of the stability test, \<open>now'\<close> and \<open>now''\<close> those of the change and of its record;
  \<open>ord\<close> gives the iteration orders of the four loops over the indicators.
\<close>

definition performHealthCheck ::
    "(nat \<Rightarrow> string list) \<Rightarrow> Time \<Rightarrow> Time \<Rightarrow> Time \<Rightarrow> GracefulDegradation \<Rightarrow> GracefulDegradation option" where
  "performHealthCheck ord now now' now'' gd = do {
     m \<leftarrow> Lock (gd_mu gd);
     let gd = gd\<lparr>gd_mu := m\<rparr>;
     let gd = (if gd_manualOverride gd \<noteq> None then gd
               else let appropriateLevel = determineAppropriateLevel (ord 0) gd
                    in if appropriateLevel = gd_currentLevel gd then gd
                       else if Sub now (gd_lastLevelChange gd) < dc_StabilityPeriod (gd_config gd) then gd
                       else changeDegradationLevel (ord 3) now' now'' appropriateLevel
                              (generateLevelChangeReason (ord 1) (ord 2) gd) gd);
     Some (gd\<lparr>gd_mu := Unlock m\<rparr>)
   }"

text \<open>
  One round of \<^verbatim>\<open>healthMonitoringLoop\<close> at a tick: the loop ends when the stop channel is closed and the
  \<^verbatim>\<open>select\<close> picks it, which it need not while a tick is ready too (\<open>pick_stop\<close>); otherwise it checks and
  goes on. The flag tells whether it goes on. The interval is positive, so the ticker does not panic.
\<close>

definition healthMonitoringLoop ::
    "bool \<Rightarrow> (nat \<Rightarrow> string list) \<Rightarrow> Time \<Rightarrow> Time \<Rightarrow> Time \<Rightarrow> GracefulDegradation \<Rightarrow> (GracefulDegradation \<times> bool) option" where
  "healthMonitoringLoop pick_stop ord now now' now'' gd =
     (if gd_stopped gd \<and> pick_stop then Some (gd, False)
      else map_option (\<lambda>gd. (gd, True)) (performHealthCheck ord now now' now'' gd))"

definition gd_Stop :: "GracefulDegradation \<Rightarrow> GracefulDegradation" where
  "gd_Stop gd = gd\<lparr>gd_stopped := True\<rparr>"

section \<open>Operations\<close>

definition GetCurrentLevel :: "GracefulDegradation \<Rightarrow> DegradationLevel option" where
  "GetCurrentLevel gd = do {
     m \<leftarrow> RLock (gd_mu gd);
     Some (case gd_manualOverride gd of Some level \<Rightarrow> level | None \<Rightarrow> gd_currentLevel gd)
   }"

definition SetManualLevel ::
    "string list \<Rightarrow> Time \<Rightarrow> DegradationLevel \<Rightarrow> string \<Rightarrow> GracefulDegradation \<Rightarrow> (GracefulDegradation \<times> goerror option) option" where
  "SetManualLevel ord now level reason gd =
     (if \<not> dc_ManualOverrideAllowed (gd_config gd) then Some (gd, Some (ErrorString ''manual override not allowed''))
      else do {
        m \<leftarrow> Lock (gd_mu gd);
        let gd = gd\<lparr>gd_mu := m\<rparr>;
        oldLevel \<leftarrow> GetCurrentLevel gd;
        let gd = gd\<lparr>gd_manualOverride := Some level\<rparr>;
        let gd = recordTransition \<lparr>lt_FromLevel = oldLevel, lt_ToLevel = level, lt_Timestamp = now, lt_Reason = reason,
                   lt_Automatic = False, lt_HealthScore = calculateHealthScore ord gd\<rparr> gd;
        let gd = gd\<lparr>gd_metrics := (gd_metrics gd)\<lparr>dm_ManualOverrides := dm_ManualOverrides (gd_metrics gd) + 1\<rparr>\<rparr>;
        Some (gd\<lparr>gd_mu := Unlock m\<rparr>, None)
      })"

definition ClearManualOverride :: "(nat \<Rightarrow> string list) \<Rightarrow> Time \<Rightarrow> GracefulDegradation \<Rightarrow> GracefulDegradation option" where
  "ClearManualOverride ord now gd = do {
     m \<leftarrow> Lock (gd_mu gd);
     let gd = gd\<lparr>gd_mu := m\<rparr>;
     let gd = (case gd_manualOverride gd of
                 None \<Rightarrow> gd
               | Some oldLevel \<Rightarrow>
                   let gd = gd\<lparr>gd_manualOverride := None\<rparr>;
                       newLevel = determineAppropriateLevel (ord 0) gd
                   in if newLevel = oldLevel then gd
                      else recordTransition \<lparr>lt_FromLevel = oldLevel, lt_ToLevel = newLevel, lt_Timestamp = now,
                             lt_Reason = ''Manual override cleared, returning to automatic detection'',
                             lt_Automatic = True, lt_HealthScore = calculateHealthScore (ord 1) gd\<rparr>
                             (gd\<lparr>gd_currentLevel := newLevel\<rparr>));
     Some (gd\<lparr>gd_mu := Unlock m\<rparr>)
   }"

definition isLowPriorityCheck :: "string \<Rightarrow> bool" where
  "isLowPriorityCheck checkName \<longleftrightarrow> checkName \<in> set [''subnet_overlap'', ''mtu_consistency'']"

definition isCriticalCheck :: "string \<Rightarrow> bool" where
  "isCriticalCheck checkName \<longleftrightarrow> checkName \<in> set [''daemon_connectivity'', ''bridge_network'', ''dns_resolution'']"

definition isEssentialCheck :: "string \<Rightarrow> bool" where
  "isEssentialCheck checkName \<longleftrightarrow> checkName \<in> set [''daemon_connectivity'']"

definition shouldExecuteCheck :: "DegradationLevel \<Rightarrow> Check \<Rightarrow> bool" where
  "shouldExecuteCheck level check =
     (if level = DegradationNormal then True
      else if level = DegradationReduced then \<not> isLowPriorityCheck (c_Name check)
      else if level = DegradationMinimal then c_Severity check = SeverityCritical \<or> isCriticalCheck (c_Name check)
      else if level = DegradationEmergency then isEssentialCheck (c_Name check)
      else False)"

definition FilterChecks :: "Check list \<Rightarrow> GracefulDegradation \<Rightarrow> (GracefulDegradation \<times> Check list) option" where
  "FilterChecks cs gd = do {
     level \<leftarrow> GetCurrentLevel gd;
     let filteredChecks = filter (shouldExecuteCheck level) cs;
     let skipped = filter (\<lambda>c. \<not> shouldExecuteCheck level c) cs;
     let m = gd_metrics gd;
     Some (gd\<lparr>gd_metrics := m\<lparr>dm_ChecksSkipped := dm_ChecksSkipped m + int (length skipped),
                              dm_ChecksExecuted := dm_ChecksExecuted m + int (length filteredChecks)\<rparr>\<rparr>, filteredChecks)
   }"

definition update_indicator :: "Time \<Rightarrow> f64 \<Rightarrow> HealthIndicator \<Rightarrow> HealthIndicator" where
  "update_indicator now v i =
     (let oldValue = hi_Value i;
          i = i\<lparr>hi_Value := v, hi_LastUpdated := now\<rparr>;
          i = i\<lparr>hi_Trend := if f_gt v (f_mul oldValue (flit (11 / 10))) then TrendDegrading
                            else if f_lt v (f_mul oldValue (flit (9 / 10))) then TrendImproving
                            else TrendStable\<rparr>
      in if f_ge v (hi_Threshold i) then i\<lparr>hi_Critical := True, hi_Trend := TrendCritical\<rparr>
         else i\<lparr>hi_Critical := False\<rparr>)"

definition UpdateHealthIndicator :: "Time \<Rightarrow> string \<Rightarrow> f64 \<Rightarrow> GracefulDegradation \<Rightarrow> GracefulDegradation option" where
  "UpdateHealthIndicator now name v gd = do {
     m \<leftarrow> Lock (gd_mu gd);
     let gd = gd\<lparr>gd_mu := m\<rparr>;
     let gd = (case map_of (gd_healthIndicators gd) name of
                 None \<Rightarrow> gd
               | Some i \<Rightarrow> gd\<lparr>gd_healthIndicators := AList.update name (update_indicator now v i) (gd_healthIndicators gd)\<rparr>);
     Some (gd\<lparr>gd_mu := Unlock m\<rparr>)
   }"

definition getHealthSummary :: "GracefulDegradation \<Rightarrow> (string, HealthIndicator) gomap" where
  "getHealthSummary gd = gd_healthIndicators gd"

definition getCapabilitiesDescription :: "DegradationLevel \<Rightarrow> (string, bool) gomap" where
  "getCapabilitiesDescription level =
     (let caps = (\<lambda>full exec network perf. [(''full_diagnostics'', full), (''container_exec'', exec),
                    (''network_analysis'', network), (''performance_tests'', perf)])
      in if level = DegradationNormal then caps True True True True
         else if level = DegradationReduced then caps False True True False
         else if level = DegradationMinimal then caps False False True False
         else if level = DegradationEmergency then caps False False False False
         else [])"

text \<open>
  \<^verbatim>\<open>GetDegradationStatus\<close> takes the read lock and then calls \<^verbatim>\<open>GetCurrentLevel\<close>, which takes it
  again; \<open>writer\<close> says whether another goroutine asks for the write lock in between.
\<close>

definition GetDegradationStatus ::
    "string list \<Rightarrow> Time \<Rightarrow> bool \<Rightarrow> GracefulDegradation \<Rightarrow> DegradationStatus option" where
  "GetDegradationStatus ord now writer gd = do {
     m \<leftarrow> RLock (gd_mu gd);
     let m = m\<lparr>w_waiting := w_waiting m \<or> writer\<rparr>;
     level \<leftarrow> GetCurrentLevel (gd\<lparr>gd_mu := m\<rparr>);
     let healthScore = calculateHealthScore ord gd;
     Some \<lparr>ds_Level = level, ds_Reason = gd_degradationReason gd, ds_HealthScore = healthScore,
           ds_IsHealthy = f_gt healthScore (flit (7 / 10)), ds_Automatic = (gd_manualOverride gd = None),
           ds_TimeInLevel = Sub now (gd_lastLevelChange gd), ds_Indicators = getHealthSummary gd,
           ds_Capabilities = getCapabilitiesDescription level\<rparr>
   }"

definition GracefulDegradation_GetMetrics ::
    "string list \<Rightarrow> Time \<Rightarrow> GracefulDegradation \<Rightarrow> (GracefulDegradation \<times> DegradationMetrics) option" where
  "GracefulDegradation_GetMetrics ord now gd = do {
     m \<leftarrow> RLock (gd_mu gd);
     let dm = (gd_metrics gd)\<lparr>dm_TimeInCurrentLevel := Sub now (gd_lastLevelChange gd),
                dm_OverallHealthScore := calculateHealthScore ord gd,
                dm_HealthIndicators := gd_healthIndicators gd\<rparr>;
     Some (gd\<lparr>gd_metrics := dm\<rparr>, dm)
   }"

section \<open>The score lies in the unit interval\<close>

definition good_threshold :: "HealthIndicator \<Rightarrow> bool" where
  "good_threshold i \<longleftrightarrow> (\<exists>q. hi_Threshold i = Fin q \<and> 1 / 16 \<le> q \<and> q \<le> 8)"

lemma rnd_between:
  assumes "- 1074 \<le> e" "pow2 e \<le> x" "x \<le> of_int n" "n \<le> 2 ^ 53"
  shows "\<exists>q. rnd x = Fin q \<and> pow2 e \<le> q \<and> q \<le> of_int n"
proof -
  have x: "0 < x" using assms(2) pow2_pos [of e] by (rule order_less_le_trans [rotated])
  then obtain q where q: "rnd x = Fin q" "q \<le> of_int n" using rnd_bounded_int [of x n] assms by auto
  then have "q = rnd_pos x" using x by (auto simp: rnd_def split: if_splits)
  with q show ?thesis using rnd_pos_ge [of "pow2 e" x] representable_pow2 [OF assms(1)] assms(2) by simp
qed

lemma indicator_score_unit:
  assumes "good_threshold i"
  shows "\<exists>r. indicator_score i = Fin r \<and> 0 \<le> r \<and> r \<le> 1"
proof (cases "f_gt (hi_Value i) (hi_Threshold i)")
  case True
  obtain q where q: "hi_Threshold i = Fin q" "1 / 16 \<le> q" "q \<le> 8" using assms by (auto simp: good_threshold_def)
  have p: "pow2 (- 3) = 1 / 8" by (simp add: pow2_def)
  obtain m where m: "rnd (q * 2) = Fin m" "0 < m"
    using rnd_between [of "- 3" "q * 2" 16] q p by auto
  have over: "f_sub (hi_Value i) (Fin q) = PInf \<or> (\<exists>r. f_sub (hi_Value i) (Fin q) = Fin r \<and> 0 \<le> r)"
  proof (cases "hi_Value i")
    case (Fin v)
    then have "0 \<le> v - q" using True q(1) by simp
    then show ?thesis using Fin by (cases rule: rnd_nonneg_cases) (auto simp: f_sub_def)
  qed (use True q(1) in \<open>auto simp: f_sub_def\<close>)
  define d where "d = f_div (f_sub (hi_Value i) (Fin q)) (Fin m)"
  have "d = PInf \<or> (\<exists>r. d = Fin r \<and> 0 \<le> r)"
    using over
  proof (elim disjE exE conjE)
    fix r assume "f_sub (hi_Value i) (Fin q) = Fin r" "0 \<le> r"
    then have "d = rnd (r / m)" "0 \<le> r / m" using m(2) by (simp_all add: d_def)
    then show ?thesis using rnd_nonneg_cases [of "r / m"] by metis
  qed (use m(2) in \<open>simp add: d_def inf_of_sign_def\<close>)
  then obtain c where c: "(if f_gt d (Fin 1) then Fin 1 else d) = Fin c" "0 \<le> c" "c \<le> 1"
    by (cases "f_gt d (Fin 1)") auto
  have "indicator_score i = f_sub (Fin 1) (Fin c)"
    using True q(1) m c(1) unfolding d_def by (auto simp: indicator_score_def Let_def split: if_splits)
  then show ?thesis using c rnd_unit_interval [of "1 - c"] by (simp add: f_sub_def)
qed (simp add: indicator_score_def)

definition partial_score :: "f64 \<times> f64 \<Rightarrow> nat \<Rightarrow> bool" where
  "partial_score acc n \<longleftrightarrow> (\<exists>s w. acc = (Fin s, Fin (of_int w)) \<and> 0 \<le> s \<and> s \<le> of_int w \<and> int n \<le> w \<and> w \<le> 2 * int n)"

lemma add_indicator_partial:
  assumes "partial_score acc n" "good_threshold i" "n < 1000"
  shows "partial_score (add_indicator i acc) (n + 1)"
proof -
  obtain s w where acc: "acc = (Fin s, Fin (of_int w))" "0 \<le> s" "s \<le> of_int w" "int n \<le> w" "w \<le> 2 * int n"
    using assms(1) by (auto simp: partial_score_def)
  obtain x where x: "indicator_score i = Fin x" "0 \<le> x" "x \<le> 1" using indicator_score_unit [OF assms(2)] by blast
  define k :: int where "k = (if hi_Critical i then 2 else 1)"
  have k: "indicator_weight i = Fin (of_int k)" "1 \<le> k" "k \<le> 2" by (simp_all add: indicator_weight_def k_def)
  have "0 \<le> x * of_int k" "x * of_int k \<le> of_int k" using x k by (simp_all add: mult_left_le_one_le)
  then obtain y where y: "rnd (x * of_int k) = Fin y" "0 \<le> y" "y \<le> of_int k"
    using rnd_bounded_int [of "x * of_int k" k] k(3) by auto
  have "0 \<le> s + y" "s + y \<le> of_int (w + k)" using acc y by simp_all
  then obtain z where z: "rnd (s + y) = Fin z" "0 \<le> z" "z \<le> of_int (w + k)"
    using rnd_bounded_int [of "s + y" "w + k"] acc(5) k(3) assms(3) by auto
  have "float64 (w + k) = Fin (of_int (w + k))" using acc(4, 5) k assms(3) by (intro float64_exact) simp
  then have "rnd (of_int w + of_int k) = Fin (of_int (w + k))" by (simp add: float64_def)
  then have "add_indicator i acc = (Fin z, Fin (of_int (w + k)))"
    using acc(1) x(1) k(1) y(1) z(1) by (simp add: add_indicator_def)
  then show ?thesis using z acc(4, 5) k
    by (auto simp: partial_score_def intro!: exI [of _ z] exI [of _ "w + k"])
qed

lemma fold_add_indicator:
  "list_all good_threshold is \<Longrightarrow> partial_score acc n \<Longrightarrow> n + length is \<le> 1000 \<Longrightarrow>
   partial_score (fold add_indicator is acc) (n + length is)"
proof (induction "is" arbitrary: acc n)
  case (Cons i "is")
  then show ?case using add_indicator_partial [of acc n i] Cons.IH [of "add_indicator i acc" "n + 1"] by simp
qed simp

definition indicators_ok :: "(string, HealthIndicator) gomap \<Rightarrow> bool" where
  "indicators_ok m \<longleftrightarrow> gomap_ok m \<and> map fst m = map fst (initializeHealthIndicators 0) \<and>
     (\<forall>(name, i) \<in> set m. good_threshold i)"

lemma health_score_unit:
  assumes "indicators_ok (gd_healthIndicators gd)"
  shows "\<exists>r. calculateHealthScore ord gd = Fin r \<and> 0 \<le> r \<and> r \<le> 1"
proof -
  let ?m = "gd_healthIndicators gd" and ?is = "map snd (range_over ord (gd_healthIndicators gd))"
  have m: "gomap_ok ?m" "length ?m = 5" "\<forall>(name, i) \<in> set ?m. good_threshold i"
    using assms arg_cong [of "map fst ?m" "map fst (initializeHealthIndicators 0)" length]
    by (auto simp: indicators_ok_def initializeHealthIndicators_def)
  have "partial_score (fold add_indicator ?is (Fin 0, Fin 0)) (0 + length ?is)"
    using m by (intro fold_add_indicator)
      (auto simp: list_all_iff length_range_over partial_score_def intro: exI [of _ 0])
  then obtain s w where sw: "fold add_indicator ?is (Fin 0, Fin 0) = (Fin s, Fin (of_int w))" "0 \<le> s" "s \<le> of_int w" "5 \<le> w"
    using m by (auto simp: partial_score_def length_range_over)
  then have "0 \<le> s / of_int w" "s / of_int w \<le> 1" by simp_all
  moreover have "calculateHealthScore ord gd = rnd (s / of_int w)"
    using sw m(2) by (auto simp: calculateHealthScore_def)
  ultimately show ?thesis using rnd_unit_interval by simp
qed

section \<open>Runs\<close>

text \<open>
  What happens to a controller over time: the clock advances, and the methods run, each when the lock
  is free. A health check reads the clock up to three times.
\<close>

inductive gd_step :: "GracefulDegradation \<times> Time \<Rightarrow> GracefulDegradation \<times> Time \<Rightarrow> bool" where
  clock_ticks: "t \<le> t' \<Longrightarrow> gd_step (gd, t) (gd, t')"
| loop_ticks: "t \<le> t' \<Longrightarrow> t' \<le> t'' \<Longrightarrow> healthMonitoringLoop pick_stop ord t t' t'' gd = Some (gd', goes_on) \<Longrightarrow> gd_step (gd, t) (gd', t'')"
| health_updated: "UpdateHealthIndicator t name v gd = Some gd' \<Longrightarrow> gd_step (gd, t) (gd', t)"
| level_set: "SetManualLevel ord' t level reason gd = Some (gd', err) \<Longrightarrow> gd_step (gd, t) (gd', t)"
| override_cleared: "ClearManualOverride ord t gd = Some gd' \<Longrightarrow> gd_step (gd, t) (gd', t)"
| checks_filtered: "FilterChecks cs gd = Some (gd', cs') \<Longrightarrow> gd_step (gd, t) (gd', t)"
| metrics_read: "GracefulDegradation_GetMetrics ord' t gd = Some (gd', dm) \<Longrightarrow> gd_step (gd, t) (gd', t)"
| stopped: "gd_step (gd, t) (gd_Stop gd, t)"

lemma recordTransition_fields [simp]:
  "gd_config (recordTransition tr gd) = gd_config gd" "gd_currentLevel (recordTransition tr gd) = gd_currentLevel gd"
  "gd_lastLevelChange (recordTransition tr gd) = gd_lastLevelChange gd"
  "gd_healthIndicators (recordTransition tr gd) = gd_healthIndicators gd"
  "gd_manualOverride (recordTransition tr gd) = gd_manualOverride gd" "gd_mu (recordTransition tr gd) = gd_mu gd"
  "gd_levelHistory (recordTransition tr gd) = last_n 100 (gd_levelHistory gd @ [tr])"
  by (simp_all add: recordTransition_def Let_def last_n_def)

lemma recordTransition_count:
  "dm_TransitionsCount (gd_metrics (recordTransition tr gd)) =
     incr_key (DegradationLevel_String (lt_FromLevel tr) @ ''->'' @ DegradationLevel_String (lt_ToLevel tr))
       (dm_TransitionsCount (gd_metrics gd))"
  by (simp add: recordTransition_def Let_def)

interpretation level_history: bounded_history recordTransition gd_levelHistory "\<lambda>_. 100" "\<lambda>gd. length (gd_levelHistory gd) \<le> 100"
  by unfold_locales simp_all

lemma change_fields [simp]:
  "gd_config (changeDegradationLevel ord now now' l reason gd) = gd_config gd"
  "gd_currentLevel (changeDegradationLevel ord now now' l reason gd) = l"
  "gd_lastLevelChange (changeDegradationLevel ord now now' l reason gd) = now"
  "gd_healthIndicators (changeDegradationLevel ord now now' l reason gd) = gd_healthIndicators gd"
  "gd_manualOverride (changeDegradationLevel ord now now' l reason gd) = gd_manualOverride gd"
  "gd_mu (changeDegradationLevel ord now now' l reason gd) = gd_mu gd"
  "length (gd_levelHistory (changeDegradationLevel ord now now' l reason gd)) \<le> 100"
  by (simp_all add: changeDegradationLevel_def Let_def)

lemma change_count:
  "gomap_ok (dm_TransitionsCount (gd_metrics gd)) \<Longrightarrow>
   gomap_ok (dm_TransitionsCount (gd_metrics (changeDegradationLevel ord now now' l reason gd))) \<and>
   total_count (dm_TransitionsCount (gd_metrics (changeDegradationLevel ord now now' l reason gd))) =
     total_count (dm_TransitionsCount (gd_metrics gd)) + 1"
  by (simp add: changeDegradationLevel_def Let_def recordTransition_count total_count_incr)

text \<open>A run with the clock readings of the steps that changed the level.\<close>

inductive gd_run :: "GracefulDegradation \<times> Time \<Rightarrow> Time list \<Rightarrow> GracefulDegradation \<times> Time \<Rightarrow> bool" where
  run_start: "gd_run s [] s"
| run_step: "gd_run s ts (gd, t) \<Longrightarrow> gd_step (gd, t) (gd', t') \<Longrightarrow>
    gd_run s (if gd_currentLevel gd' = gd_currentLevel gd then ts else ts @ [t]) (gd', t')"

definition apart :: "Duration \<Rightarrow> Time list \<Rightarrow> bool" where
  "apart d ts \<longleftrightarrow> sorted_wrt (\<lambda>a b. a + d \<le> b) ts"

lemma apart_snoc:
  assumes "apart d (t0 # ts)" "last (t0 # ts) + d \<le> t" "0 \<le> d"
  shows "apart d (t0 # ts @ [t])"
proof -
  have "x \<le> last (t0 # ts)" if "x \<in> set (t0 # ts)" for x
  proof (cases "x = last (t0 # ts)")
    case False
    obtain us where us: "t0 # ts = us @ [last (t0 # ts)]" by (metis append_butlast_last_id list.distinct(1))
    then have "x \<in> set us" using that False by (metis UnE empty_iff list.set set_append singletonD)
    then have "x + d \<le> last (t0 # ts)" using assms(1) us unfolding apart_def by (metis list.set_intros(1) sorted_wrt_append)
    then show ?thesis using assms(3) by simp
  qed simp
  then have "\<forall>x \<in> set (t0 # ts). x + d \<le> t" using assms(2) by fastforce
  then show ?thesis using assms(1) sorted_wrt_append [of "\<lambda>a b. a + d \<le> b" "t0 # ts" "[t]"] by (simp add: apart_def)
qed

text \<open>
  The invariant of a controller made at time \<open>t0\<close> whose level changed at the times \<open>ts\<close>: nobody holds the
  lock between calls, no level is ever set by hand, and the automatic changes are at least a stability
  period apart.
\<close>

definition gd_inv :: "DegradationConfig \<Rightarrow> Time \<Rightarrow> Time list \<Rightarrow> GracefulDegradation \<times> Time \<Rightarrow> bool" where
  "gd_inv cfg t0 ts s \<longleftrightarrow> (case s of (gd, now) \<Rightarrow>
     gd_config gd = cfg \<and> gd_mu gd = mutex_free \<and> gd_manualOverride gd = None \<and> indicators_ok (gd_healthIndicators gd) \<and>
     length (gd_levelHistory gd) \<le> 100 \<and> gomap_ok (dm_TransitionsCount (gd_metrics gd)) \<and>
     gd_lastLevelChange gd \<le> now \<and>
     total_count (dm_TransitionsCount (gd_metrics gd)) = int (length ts) \<and>
     apart (dc_StabilityPeriod cfg) (t0 # ts) \<and> last (t0 # ts) \<le> gd_lastLevelChange gd)"

lemma manual_level_blocks:
  "dc_ManualOverrideAllowed (gd_config gd) \<Longrightarrow> SetManualLevel ord now level reason gd = None"
  by (cases "Lock (gd_mu gd)")
    (auto simp: SetManualLevel_def GetCurrentLevel_def dest: lock_not_reentrant)

lemma indicators_ok_update:
  assumes "indicators_ok m" "map_of m name = Some i"
  shows "indicators_ok (AList.update name (update_indicator now v i) m)"
proof -
  have "good_threshold i" using assms by (fastforce simp: indicators_ok_def dest: map_of_SomeD)
  then have "good_threshold (update_indicator now v i)"
    by (simp add: good_threshold_def update_indicator_def Let_def)
  moreover have "name \<in> fst ` set m" using assms(2) by (force dest: map_of_SomeD)
  then have "map fst (AList.update name (update_indicator now v i) m) = map fst m"
    by (simp add: update_keys)
  moreover have "set (AList.update name (update_indicator now v i) m) \<subseteq> insert (name, update_indicator now v i) (set m)"
    by (induction m) auto
  ultimately show ?thesis using assms(1) by (auto simp: indicators_ok_def)
qed

definition next_times :: "GracefulDegradation \<Rightarrow> GracefulDegradation \<Rightarrow> Time \<Rightarrow> Time list \<Rightarrow> Time list" where
  "next_times gd gd' t ts = (if gd_currentLevel gd' = gd_currentLevel gd then ts else ts @ [t])"

lemma health_check_inv:
  assumes "performHealthCheck ord t t' t'' gd = Some gd'" "gd_inv cfg t0 ts (gd, t)" "t \<le> t'" "t' \<le> t''"
    "0 < dc_StabilityPeriod cfg" "dc_StabilityPeriod cfg \<le> max_duration"
  shows "gd_inv cfg t0 (next_times gd gd' t ts) (gd', t'')"
proof -
  define g where "g = gd\<lparr>gd_mu := mutex_free\<lparr>w_held := True\<rparr>\<rparr>"
  define l where "l = determineAppropriateLevel (ord 0) g"
  have g: "gd_config g = cfg" "gd_manualOverride g = None" "gd_lastLevelChange g = gd_lastLevelChange gd"
    "gd_healthIndicators g = gd_healthIndicators gd" "gd_levelHistory g = gd_levelHistory gd" "gd_metrics g = gd_metrics gd"
    "gd_mu g = mutex_free\<lparr>w_held := True\<rparr>" "gd_currentLevel g = gd_currentLevel gd"
    using assms(2) by (simp_all add: g_def gd_inv_def)
  have gd': "gd' = (if l = gd_currentLevel g \<or> Sub t (gd_lastLevelChange g) < dc_StabilityPeriod cfg then g
      else changeDegradationLevel (ord 3) t' t'' l (generateLevelChangeReason (ord 1) (ord 2) g) g)\<lparr>gd_mu := mutex_free\<rparr>"
    unfolding g_def l_def using assms(1, 2) by (auto simp: performHealthCheck_def gd_inv_def Let_def)
  show ?thesis
  proof (cases "l = gd_currentLevel g \<or> Sub t (gd_lastLevelChange g) < dc_StabilityPeriod cfg")
    case True
    then show ?thesis using assms(2-4) g by (simp add: gd' gd_inv_def next_times_def)
  next
    case False
    then have "gd_lastLevelChange gd + dc_StabilityPeriod cfg \<le> t"
      using Sub_ge_iff [of "dc_StabilityPeriod cfg" t "gd_lastLevelChange gd"] assms(5, 6) g(3) by simp
    moreover have i: "last (t0 # ts) \<le> gd_lastLevelChange gd" "apart (dc_StabilityPeriod cfg) (t0 # ts)"
      "gomap_ok (dm_TransitionsCount (gd_metrics gd))" using assms(2) by (simp_all add: gd_inv_def)
    ultimately have "apart (dc_StabilityPeriod cfg) (t0 # ts @ [t])"
      using assms(5) by (intro apart_snoc) linarith+
    moreover have "next_times gd gd' t ts = ts @ [t]" using False g by (simp add: gd' next_times_def)
    ultimately show ?thesis using False assms(2-4) g i change_count [of g] by (simp add: gd' gd_inv_def)
  qed
qed

lemma gd_inv_same:
  "gd_inv cfg t0 ts (gd', t') \<Longrightarrow> gd_currentLevel gd' = gd_currentLevel gd \<Longrightarrow>
   gd_inv cfg t0 (next_times gd gd' t ts) (gd', t')"
  by (simp add: next_times_def)

lemma gd_step_inv:
  assumes "gd_step (gd, t) (gd', t')" "gd_inv cfg t0 ts (gd, t)" "0 < dc_StabilityPeriod cfg"
    "dc_StabilityPeriod cfg \<le> max_duration"
  shows "gd_inv cfg t0 (next_times gd gd' t ts) (gd', t')"
  using assms(1)
proof cases
  case (loop_ticks t'' pick_stop ord goes_on)
  show ?thesis
  proof (cases "gd_stopped gd \<and> pick_stop")
    case True
    with loop_ticks show ?thesis using assms(2) by (auto simp: healthMonitoringLoop_def gd_inv_def next_times_def)
  next
    case False
    with loop_ticks have "performHealthCheck ord t t'' t' gd = Some gd'" by (auto simp: healthMonitoringLoop_def)
    from health_check_inv [OF this assms(2) loop_ticks(1, 2) assms(3, 4)] show ?thesis .
  qed
next
  case (health_updated name v)
  then show ?thesis
    using assms(2) by (intro gd_inv_same; cases "map_of (gd_healthIndicators gd) name")
      (auto simp: UpdateHealthIndicator_def gd_inv_def Let_def intro: indicators_ok_update)
next
  case (level_set ord' level reason err)
  then show ?thesis using assms(2) manual_level_blocks [of gd ord' t level reason]
    by (cases "dc_ManualOverrideAllowed (gd_config gd)") (auto simp: SetManualLevel_def next_times_def)
qed (use assms(2) in \<open>auto simp: gd_inv_def next_times_def ClearManualOverride_def FilterChecks_def
    GracefulDegradation_GetMetrics_def gd_Stop_def Let_def bind_eq_Some_conv\<close>)

lemma gd_new_inv:
  "gd_inv (gd_config (NewGracefulDegradation t0 t1 cfg)) t0 [] (NewGracefulDegradation t0 t1 cfg, t0)"
proof -
  have p: "pow2 (- 4) = 1 / 16" by (simp add: pow2_def)
  have "\<exists>q. flit x = Fin q \<and> 1 / 16 \<le> q \<and> q \<le> 8" if "1 / 16 \<le> x" "x \<le> 8" for x
    using rnd_between [of "- 4" x 8] that p by (simp add: flit_def)
  then have "indicators_ok (initializeHealthIndicators t1)"
    by (simp add: indicators_ok_def initializeHealthIndicators_def new_indicator_def good_threshold_def gomap_ok_def
        del: flit_half)
  then show ?thesis
    by (simp add: gd_inv_def apart_def NewGracefulDegradation_def Let_def total_count_def)
qed

lemma stability_period_pos: "0 < dc_StabilityPeriod (degradation_defaults c)"
  by (simp add: degradation_defaults_def Let_def)

section \<open>Properties\<close>

text \<open>
  C15: Automatic degradation does not flap: after any run of the controller, whatever indicator values
  were reported (infinities and NaN included) and in whatever order the maps were visited, the clock
  readings at which the level was changed, \<open>ts\<close>, are at least a stability period apart from each other
  and from the construction, each of them is counted as one transition, the history holds at most a
  hundred transitions, the level is the automatic one, and the health score is a float64 between 0 and 1.
\<close>

theorem degradation_levels_stable:
  assumes "gd_run (NewGracefulDegradation t0 t1 cfg, t0) ts (gd, now)"
    "dc_StabilityPeriod (gd_config (NewGracefulDegradation t0 t1 cfg)) \<le> max_duration"
  shows "sorted_wrt (\<lambda>a b. a + dc_StabilityPeriod (gd_config gd) \<le> b) (t0 # ts) \<and>
         total_count (dm_TransitionsCount (gd_metrics gd)) = int (length ts) \<and>
         length (gd_levelHistory gd) \<le> 100 \<and> GetCurrentLevel gd = Some (gd_currentLevel gd) \<and>
         (\<exists>r. calculateHealthScore ord gd = Fin r \<and> 0 \<le> r \<and> r \<le> 1)"
proof -
  let ?cfg = "gd_config (NewGracefulDegradation t0 t1 cfg)"
  have pos: "0 < dc_StabilityPeriod ?cfg"
    by (simp add: NewGracefulDegradation_def Let_def stability_period_pos)
  have "gd_inv ?cfg t0 ts s" if "gd_run (NewGracefulDegradation t0 t1 cfg, t0) ts s" for s
    using that
  proof (induction "(NewGracefulDegradation t0 t1 cfg, t0)" ts s rule: gd_run.induct)
    case run_start
    show ?case by (rule gd_new_inv)
  next
    case (run_step ts gd t gd' t')
    then show ?case using gd_step_inv [of gd t gd' t' ?cfg t0 ts] pos assms(2) by (simp add: next_times_def)
  qed
  from this [OF assms(1)] show ?thesis
    using health_score_unit [of gd ord] by (auto simp: gd_inv_def GetCurrentLevel_def apart_def)
qed

text \<open>
  A level cannot be set by hand: whenever manual overrides are allowed, \<^verbatim>\<open>SetManualLevel\<close> takes the
  write lock and then waits for itself in \<^verbatim>\<open>GetCurrentLevel\<close>, and from then on every other method
  blocks too. \<^verbatim>\<open>GetDegradationStatus\<close> blocks for the same reason when a writer arrives between its two
  read locks.
\<close>

lemma manual_level_deadlocks:
  assumes "dc_ManualOverrideAllowed (gd_config gd)" "Lock (gd_mu gd) = Some m"
  shows "SetManualLevel ord now level reason gd = None \<and>
         GetCurrentLevel (gd\<lparr>gd_mu := m\<rparr>) = None \<and> FilterChecks cs (gd\<lparr>gd_mu := m\<rparr>) = None \<and>
         UpdateHealthIndicator now name v (gd\<lparr>gd_mu := m\<rparr>) = None \<and>
         performHealthCheck ords now now' now'' (gd\<lparr>gd_mu := m\<rparr>) = None \<and>
         ClearManualOverride ords now (gd\<lparr>gd_mu := m\<rparr>) = None \<and>
         GracefulDegradation_GetMetrics ord now (gd\<lparr>gd_mu := m\<rparr>) = None \<and>
         GetDegradationStatus ord now True gd = None"
proof -
  have "RLock m = None" "Lock m = None" using lock_not_reentrant [OF assms(2)] by auto
  moreover have "GetDegradationStatus ord now True gd = None"
    by (auto simp: GetDegradationStatus_def GetCurrentLevel_def RLock_def bind_eq_None_conv Let_def split: if_splits)
  ultimately show ?thesis
    using manual_level_blocks [OF assms(1)]
    by (simp add: GetCurrentLevel_def FilterChecks_def UpdateHealthIndicator_def performHealthCheck_def
        ClearManualOverride_def GracefulDegradation_GetMetrics_def)
qed

text \<open>
  Reporting full Docker connectivity degrades the system: the indicator is documented as a health
  between 0 and 1, but it is compared like an error rate, so the value 1 marks it critical and the
  level derived from the indicators is minimal or worse, in every iteration order and whatever the
  other indicators say.
\<close>

lemma full_connectivity_degrades:
  assumes "gd_mu gd = mutex_free" "map_of (gd_healthIndicators gd) ''docker_connectivity'' = Some i"
    "hi_Threshold i = flit (1 / 2)"
    "UpdateHealthIndicator now ''docker_connectivity'' (Fin 1) gd = Some gd'"
  shows "(\<exists>i'. map_of (gd_healthIndicators gd') ''docker_connectivity'' = Some i' \<and>
            hi_Critical i' \<and> hi_Trend i' = TrendCritical) \<and>
         determineAppropriateLevel ord gd' \<in> {DegradationMinimal, DegradationEmergency}"
proof -
  let ?i = "update_indicator now (Fin 1) i"
  have gd': "gd_healthIndicators gd' = AList.update ''docker_connectivity'' ?i (gd_healthIndicators gd)"
    using assms(1, 2, 4) by (auto simp: UpdateHealthIndicator_def Let_def)
  then have m: "map_of (gd_healthIndicators gd') ''docker_connectivity'' = Some ?i" by (simp add: update_conv)
  have i: "hi_Critical ?i" "hi_Trend ?i = TrendCritical"
    using assms(3) by (simp_all add: update_indicator_def Let_def)
  then have "\<not> criticalIndicatorsHealthy gd'" using m by (simp add: criticalIndicatorsHealthy_def indicator_unhealthy_def)
  moreover have "\<not> allIndicatorsHealthy gd'"
    using map_of_SomeD [OF m] i by (auto simp: allIndicatorsHealthy_def indicator_unhealthy_def list_all_iff)
  ultimately show ?thesis using m i by (auto simp: determineAppropriateLevel_def Let_def)
qed

text \<open>A controller that changes its level once, at the first tick after the stability period.\<close>

theorem degradation_levels_stable_witness:
  "\<exists>gd. gd_run (NewGracefulDegradation 5 6 None, 5) [5 + 5 * Minute] (gd, 7 + 5 * Minute) \<and>
        total_count (dm_TransitionsCount (gd_metrics gd)) = 1"
proof -
  let ?g = "NewGracefulDegradation 5 6 None" and ?t = "5 + 5 * Minute"
  have cfg: "dc_StabilityPeriod (gd_config ?g) = 5 * Minute" "gd_mu ?g = mutex_free" "gd_currentLevel ?g = DegradationNormal"
    "gd_manualOverride ?g = None" "gd_lastLevelChange ?g = 5" "\<not> gd_stopped ?g"
    by (simp_all add: NewGracefulDegradation_def default_degradation_config_def degradation_defaults_def Let_def)
  obtain i where i: "map_of (gd_healthIndicators ?g) ''docker_connectivity'' = Some i" "hi_Threshold i = flit (1 / 2)"
    by (simp add: NewGracefulDegradation_def initializeHealthIndicators_def new_indicator_def Let_def)
  define g1 where "g1 = ?g\<lparr>gd_healthIndicators :=
      AList.update ''docker_connectivity'' (update_indicator 5 (Fin 1) i) (gd_healthIndicators ?g)\<rparr>"
  have u: "UpdateHealthIndicator 5 ''docker_connectivity'' (Fin 1) ?g = Some g1"
    using cfg i by (simp add: UpdateHealthIndicator_def g1_def Let_def)
  define l where "l = determineAppropriateLevel [] (g1\<lparr>gd_mu := mutex_free\<lparr>w_held := True\<rparr>\<rparr>)"
  have "determineAppropriateLevel [] g1 \<in> {DegradationMinimal, DegradationEmergency}"
    using full_connectivity_degrades [OF cfg(2) i u] by blast
  moreover have "l = determineAppropriateLevel [] g1"
    by (simp add: l_def determineAppropriateLevel_def calculateHealthScore_def allIndicatorsHealthy_def
        criticalIndicatorsHealthy_def Let_def)
  ultimately have l: "l \<noteq> DegradationNormal" by auto
  define g2 where "g2 = (changeDegradationLevel [] (?t + 1) (?t + 2) l (generateLevelChangeReason [] []
      (g1\<lparr>gd_mu := mutex_free\<lparr>w_held := True\<rparr>\<rparr>)) (g1\<lparr>gd_mu := mutex_free\<lparr>w_held := True\<rparr>\<rparr>))\<lparr>gd_mu := mutex_free\<rparr>"
  have "performHealthCheck (\<lambda>_. []) ?t (?t + 1) (?t + 2) g1 = Some g2"
    using l cfg by (simp add: performHealthCheck_def g2_def g1_def l_def Let_def Sub_def max_duration_def min_duration_def)
  then have "healthMonitoringLoop False (\<lambda>_. []) ?t (?t + 1) (?t + 2) g1 = Some (g2, True)"
    by (simp add: healthMonitoringLoop_def)
  then have tick: "gd_step (g1, ?t) (g2, ?t + 2)" by (intro loop_ticks) simp_all
  have lv: "gd_currentLevel g1 = gd_currentLevel ?g" "gd_currentLevel g2 \<noteq> gd_currentLevel g1"
    using l cfg by (simp_all add: g1_def g2_def)
  have "gd_run (?g, 5) [] (g1, 5)" using run_step [OF run_start health_updated [OF u]] lv by simp
  then have "gd_run (?g, 5) [] (g1, ?t)" using run_step clock_ticks [of 5 ?t g1] by fastforce
  from run_step [OF this tick] lv have run: "gd_run (?g, 5) [?t] (g2, 7 + 5 * Minute)" by (simp add: add.commute)
  with degradation_levels_stable [OF run, of "[]"] cfg show ?thesis by (auto simp: max_duration_def)
qed

text \<open>
  Filtering follows the level: the checks that \<^verbatim>\<open>FilterChecks\<close> returns are those of the list that the
  level allows, in order, every check is counted once as executed or skipped, and a check that runs at a
  level also runs at every milder one, unless it is a low-priority check of critical severity; the
  daemon check runs at every level.
\<close>

lemma filter_follows_level:
  assumes "FilterChecks cs gd = Some (gd', cs')" "GetCurrentLevel gd = Some level" "0 \<le> level" "level \<le> 3"
  shows "cs' = filter (shouldExecuteCheck level) cs \<and>
         dm_ChecksExecuted (gd_metrics gd') + dm_ChecksSkipped (gd_metrics gd') =
           dm_ChecksExecuted (gd_metrics gd) + dm_ChecksSkipped (gd_metrics gd) + int (length cs) \<and>
         (\<forall>c \<in> set cs'. \<forall>milder. 0 \<le> milder \<and> milder \<le> level \<and>
            \<not> (isLowPriorityCheck (c_Name c) \<and> c_Severity c = SeverityCritical) \<longrightarrow> shouldExecuteCheck milder c) \<and>
         (\<forall>c \<in> set cs. c_Name c = ''daemon_connectivity'' \<longrightarrow> c \<in> set cs')"
proof -
  have l: "level = 0 \<or> level = 1 \<or> level = 2 \<or> level = 3" using assms(3, 4) by auto
  have cs': "cs' = filter (shouldExecuteCheck level) cs"
    "dm_ChecksExecuted (gd_metrics gd') = dm_ChecksExecuted (gd_metrics gd) + int (length cs')"
    "dm_ChecksSkipped (gd_metrics gd') = dm_ChecksSkipped (gd_metrics gd) +
       int (length (filter (\<lambda>c. \<not> shouldExecuteCheck level c) cs))"
    using assms(1, 2) by (auto simp: FilterChecks_def Let_def)
  have "int (length (filter (shouldExecuteCheck level) cs)) + int (length (filter (\<lambda>c. \<not> shouldExecuteCheck level c) cs))
      = int (length cs)"
    using sum_length_filter_compl [of "shouldExecuteCheck level" cs] by linarith
  moreover have "shouldExecuteCheck milder c" if "shouldExecuteCheck level c" "0 \<le> milder" "milder \<le> level"
    "\<not> (isLowPriorityCheck (c_Name c) \<and> c_Severity c = SeverityCritical)" for milder c
  proof -
    have "milder = 0 \<or> milder = 1 \<or> milder = 2 \<or> milder = 3" using that assms(4) by auto
    then show ?thesis using that l
      by (auto simp: shouldExecuteCheck_def isLowPriorityCheck_def isCriticalCheck_def isEssentialCheck_def)
  qed
  moreover have "shouldExecuteCheck level c" if "c_Name c = ''daemon_connectivity''" for c
    using that l by (auto simp: shouldExecuteCheck_def isLowPriorityCheck_def isCriticalCheck_def isEssentialCheck_def)
  ultimately show ?thesis using cs' by auto
qed

text \<open>
  The counter of automatic recoveries counts the opposite: a change to a worse level increments it, a
  recovery does not.
\<close>

lemma recoveries_count_degradations:
  "dm_AutoRecoveries (gd_metrics (changeDegradationLevel ord now now' l reason gd)) =
     dm_AutoRecoveries (gd_metrics gd) + (if gd_currentLevel gd < l then 1 else 0)"
  by (simp add: changeDegradationLevel_def recordTransition_def Let_def)

end
