(* ===== verification/Circuit_Breaker.thy ===== *)
theory Circuit_Breaker
  imports Go_Float
begin

text \<open>
  The circuit breaker of \<^verbatim>\<open>internal/diagnostics/circuit_breaker.go\<close>: its configuration and
  state as records, one definition per method, and the step relation of a breaker whose
  methods are called in any order. The mutex makes each method atomic, so an interleaving
  of callers is a sequence of method calls. Methods that read the clock twice take two
  clock arguments.
\<close>

section \<open>State and configuration\<close>

datatype CircuitState = CircuitStateClosed | CircuitStateOpen | CircuitStateHalfOpen

fun CircuitState_String :: "CircuitState \<Rightarrow> string" where
  "CircuitState_String CircuitStateClosed = ''CLOSED''"
| "CircuitState_String CircuitStateOpen = ''OPEN''"
| "CircuitState_String CircuitStateHalfOpen = ''HALF_OPEN''"

record CircuitBreakerConfig =
  FailureThreshold :: int
  FailureRate :: f64
  MinRequestsThreshold :: int
  RecoveryTimeout :: Duration
  ConsecutiveSuccesses :: int
  HalfOpenMaxRequests :: int
  ResetTimeout :: Duration
  AdaptiveThresholds :: bool
  RequestVolumeThreshold :: int

record CircuitBreaker =
  cb_config :: CircuitBreakerConfig
  cb_state :: CircuitState
  lastFailTime :: Time
  lastStateChange :: Time
  failureCount :: int
  successCount :: int
  halfOpenRequestCount :: int
  consecutiveFailures :: int
  totalRequests :: int
  totalFailures :: int
  totalSuccesses :: int
  lastRequestTime :: Time
  stateTransitions :: "(CircuitState, int) gomap"

definition default_cb_config :: CircuitBreakerConfig where
  "default_cb_config =
     \<lparr>FailureThreshold = 5, FailureRate = Fin 0, MinRequestsThreshold = 10,
      RecoveryTimeout = 30 * Second, ConsecutiveSuccesses = 3, HalfOpenMaxRequests = 2,
      ResetTimeout = 60 * Second, AdaptiveThresholds = False, RequestVolumeThreshold = 20\<rparr>"

definition cb_defaults :: "CircuitBreakerConfig \<Rightarrow> CircuitBreakerConfig" where
  "cb_defaults c =
     (let c = (if ConsecutiveSuccesses c = 0 then c\<lparr>ConsecutiveSuccesses := 3\<rparr> else c);
          c = (if HalfOpenMaxRequests c = 0 then c\<lparr>HalfOpenMaxRequests := 2\<rparr> else c);
          c = (if RecoveryTimeout c = 0 then c\<lparr>RecoveryTimeout := 30 * Second\<rparr> else c);
          c = (if ResetTimeout c = 0 then c\<lparr>ResetTimeout := 60 * Second\<rparr> else c)
      in c)"

definition NewCircuitBreaker :: "Time \<Rightarrow> CircuitBreakerConfig option \<Rightarrow> CircuitBreaker" where
  "NewCircuitBreaker now config =
     \<lparr>cb_config = cb_defaults (case config of None \<Rightarrow> default_cb_config | Some c \<Rightarrow> c),
      cb_state = CircuitStateClosed, lastFailTime = zero_time, lastStateChange = now,
      failureCount = 0, successCount = 0, halfOpenRequestCount = 0, consecutiveFailures = 0,
      totalRequests = 0, totalFailures = 0, totalSuccesses = 0,
      lastRequestTime = zero_time, stateTransitions = []\<rparr>"

section \<open>Internal methods\<close>

definition resetFailureCount :: "CircuitBreaker \<Rightarrow> CircuitBreaker" where
  "resetFailureCount cb = cb\<lparr>failureCount := 0, consecutiveFailures := 0\<rparr>"

definition transitionToOpen :: "Time \<Rightarrow> CircuitBreaker \<Rightarrow> CircuitBreaker" where
  "transitionToOpen now cb =
     (if cb_state cb \<noteq> CircuitStateOpen
      then cb\<lparr>cb_state := CircuitStateOpen, lastStateChange := now,
              stateTransitions := incr_key CircuitStateOpen (stateTransitions cb)\<rparr>
      else cb)"

definition transitionToClosed :: "Time \<Rightarrow> CircuitBreaker \<Rightarrow> CircuitBreaker" where
  "transitionToClosed now cb =
     (if cb_state cb \<noteq> CircuitStateClosed
      then (resetFailureCount (cb\<lparr>cb_state := CircuitStateClosed, lastStateChange := now\<rparr>))
             \<lparr>successCount := 0, halfOpenRequestCount := 0,
              stateTransitions := incr_key CircuitStateClosed (stateTransitions cb)\<rparr>
      else cb)"

definition transitionToHalfOpen :: "Time \<Rightarrow> CircuitBreaker \<Rightarrow> CircuitBreaker" where
  "transitionToHalfOpen now cb =
     (if cb_state cb \<noteq> CircuitStateHalfOpen
      then cb\<lparr>cb_state := CircuitStateHalfOpen, lastStateChange := now,
              successCount := 0, halfOpenRequestCount := 0,
              stateTransitions := incr_key CircuitStateHalfOpen (stateTransitions cb)\<rparr>
      else cb)"

definition shouldOpenWithAdaptiveThreshold :: "CircuitBreaker \<Rightarrow> bool" where
  "shouldOpenWithAdaptiveThreshold cb =
     (let cfg = cb_config cb in
      if totalRequests cb < RequestVolumeThreshold cfg then False
      else
        let adjusted = FailureThreshold cfg;
            adjusted = (if totalRequests cb > wrap64 (RequestVolumeThreshold cfg * 2)
                        then go_quot (wrap64 (adjusted * 2)) 3 else adjusted);
            recentFailureRate = f_div (float64 (consecutiveFailures cb)) (float64 adjusted)
        in f_ge recentFailureRate (flit (8 / 10)))"

definition shouldOpenCircuit :: "CircuitBreaker \<Rightarrow> bool" where
  "shouldOpenCircuit cb =
     (let cfg = cb_config cb in
      if failureCount cb \<ge> FailureThreshold cfg then True
      else if f_gt (FailureRate cfg) (Fin 0) \<and> totalRequests cb \<ge> MinRequestsThreshold cfg \<and>
              f_ge (f_div (float64 (totalFailures cb)) (float64 (totalRequests cb))) (FailureRate cfg)
      then True
      else AdaptiveThresholds cfg \<and> shouldOpenWithAdaptiveThreshold cb)"

definition isHealthyInternal :: "CircuitBreaker \<Rightarrow> bool" where
  "isHealthyInternal cb =
     (let cfg = cb_config cb in
      case cb_state cb of
        CircuitStateClosed \<Rightarrow>
          (if totalRequests cb \<ge> MinRequestsThreshold cfg
           then f_lt (f_div (float64 (totalFailures cb)) (float64 (totalRequests cb))) (flit (1 / 2))
           else consecutiveFailures cb < go_quot (FailureThreshold cfg) 2)
      | CircuitStateHalfOpen \<Rightarrow> successCount cb > 0
      | CircuitStateOpen \<Rightarrow> False)"

section \<open>Public methods\<close>

definition CanExecute :: "Time \<Rightarrow> Time \<Rightarrow> CircuitBreaker \<Rightarrow> CircuitBreaker \<times> bool" where
  "CanExecute now now' cb =
     (let cb = cb\<lparr>lastRequestTime := now, totalRequests := totalRequests cb + 1\<rparr>;
          cfg = cb_config cb
      in case cb_state cb of
           CircuitStateClosed \<Rightarrow>
             (if ResetTimeout cfg > 0 \<and> Sub now (lastFailTime cb) > ResetTimeout cfg
              then resetFailureCount cb else cb, True)
         | CircuitStateOpen \<Rightarrow>
             (if Sub now (lastStateChange cb) \<ge> RecoveryTimeout cfg
              then (let cb = transitionToHalfOpen now' cb
                    in (cb\<lparr>halfOpenRequestCount := halfOpenRequestCount cb + 1\<rparr>, True))
              else (cb, False))
         | CircuitStateHalfOpen \<Rightarrow>
             (if halfOpenRequestCount cb < HalfOpenMaxRequests cfg
              then (cb\<lparr>halfOpenRequestCount := halfOpenRequestCount cb + 1\<rparr>, True)
              else (cb, False)))"

definition RecordSuccess :: "Time \<Rightarrow> CircuitBreaker \<Rightarrow> CircuitBreaker" where
  "RecordSuccess now cb =
     (let cb = cb\<lparr>totalSuccesses := totalSuccesses cb + 1, consecutiveFailures := 0\<rparr>
      in case cb_state cb of
           CircuitStateClosed \<Rightarrow> if shouldOpenCircuit cb then transitionToOpen now cb else cb
         | CircuitStateHalfOpen \<Rightarrow>
             (let cb = cb\<lparr>successCount := successCount cb + 1\<rparr>
              in if successCount cb \<ge> ConsecutiveSuccesses (cb_config cb)
                 then transitionToClosed now cb else cb)
         | CircuitStateOpen \<Rightarrow> transitionToHalfOpen now cb)"

definition RecordFailure :: "Time \<Rightarrow> Time \<Rightarrow> CircuitBreaker \<Rightarrow> CircuitBreaker" where
  "RecordFailure now now' cb =
     (let cb = cb\<lparr>failureCount := failureCount cb + 1, totalFailures := totalFailures cb + 1,
                  consecutiveFailures := consecutiveFailures cb + 1, lastFailTime := now\<rparr>
      in case cb_state cb of
           CircuitStateClosed \<Rightarrow> if shouldOpenCircuit cb then transitionToOpen now' cb else cb
         | CircuitStateHalfOpen \<Rightarrow> transitionToOpen now' cb
         | CircuitStateOpen \<Rightarrow> cb)"

definition GetState :: "CircuitBreaker \<Rightarrow> CircuitState" where
  "GetState cb = cb_state cb"

definition GetFailureCount :: "CircuitBreaker \<Rightarrow> int" where
  "GetFailureCount cb = failureCount cb"

definition CircuitBreaker_Reset :: "Time \<Rightarrow> CircuitBreaker \<Rightarrow> CircuitBreaker" where
  "CircuitBreaker_Reset now cb =
     cb\<lparr>cb_state := CircuitStateClosed, failureCount := 0, successCount := 0,
        halfOpenRequestCount := 0, consecutiveFailures := 0, totalRequests := 0,
        totalFailures := 0, totalSuccesses := 0, lastStateChange := now,
        lastFailTime := zero_time, lastRequestTime := zero_time,
        stateTransitions := map (\<lambda>(k, _). (k, 0)) (stateTransitions cb)\<rparr>"

definition CircuitBreaker_IsHealthy :: "CircuitBreaker \<Rightarrow> bool" where
  "CircuitBreaker_IsHealthy cb = isHealthyInternal cb"

definition CircuitBreaker_UpdateConfig ::
    "CircuitBreakerConfig option \<Rightarrow> CircuitBreaker \<Rightarrow> CircuitBreaker" where
  "CircuitBreaker_UpdateConfig config cb =
     (case config of None \<Rightarrow> cb
      | Some c \<Rightarrow>
          (let c = (if ConsecutiveSuccesses c = 0 then c\<lparr>ConsecutiveSuccesses := 3\<rparr> else c);
               c = (if HalfOpenMaxRequests c = 0 then c\<lparr>HalfOpenMaxRequests := 2\<rparr> else c)
           in cb\<lparr>cb_config := c\<rparr>))"

definition ForceOpen :: "Time \<Rightarrow> CircuitBreaker \<Rightarrow> CircuitBreaker" where
  "ForceOpen now cb = transitionToOpen now cb"

definition ForceClose :: "Time \<Rightarrow> CircuitBreaker \<Rightarrow> CircuitBreaker" where
  "ForceClose now cb = transitionToClosed now cb"

definition GetStateHistory :: "CircuitBreaker \<Rightarrow> (CircuitState, int) gomap" where
  "GetStateHistory cb = stateTransitions cb"

definition GetHealthScore :: "CircuitBreaker \<Rightarrow> f64" where
  "GetHealthScore cb =
     (case cb_state cb of
        CircuitStateClosed \<Rightarrow>
          (if totalRequests cb = 0 then Fin 1
           else let successRate = f_div (float64 (totalSuccesses cb)) (float64 (totalRequests cb));
                    failurePenalty = f_div (float64 (consecutiveFailures cb))
                                           (float64 (FailureThreshold (cb_config cb)))
                in f_mul successRate (f_sub (Fin 1) (f_mul failurePenalty (flit (1 / 2)))))
      | CircuitStateHalfOpen \<Rightarrow>
          (if successCount cb = 0 then flit (3 / 10)
           else f_add (flit (3 / 10))
                  (f_div (f_mul (flit (4 / 10)) (float64 (successCount cb)))
                         (float64 (ConsecutiveSuccesses (cb_config cb)))))
      | CircuitStateOpen \<Rightarrow> Fin 0)"

record CircuitBreakerMetrics =
  m_State :: CircuitState
  m_FailureCount :: int
  m_SuccessCount :: int
  m_HalfOpenRequestCount :: int
  m_ConsecutiveFailures :: int
  m_TotalRequests :: int
  m_TotalFailures :: int
  m_TotalSuccesses :: int
  m_LastFailTime :: Time
  m_LastStateChange :: Time
  m_LastRequestTime :: Time
  m_StateTransitions :: "(CircuitState, int) gomap"
  m_FailureRate :: f64
  m_RequestRate :: f64
  m_TimeInCurrentState :: Duration
  m_IsHealthy :: bool
  m_EstimatedRecoveryTime :: Time

definition CircuitBreaker_GetMetrics :: "Time \<Rightarrow> CircuitBreaker \<Rightarrow> CircuitBreakerMetrics" where
  "CircuitBreaker_GetMetrics now cb =
     \<lparr>m_State = cb_state cb, m_FailureCount = failureCount cb,
      m_SuccessCount = successCount cb, m_HalfOpenRequestCount = halfOpenRequestCount cb,
      m_ConsecutiveFailures = consecutiveFailures cb, m_TotalRequests = totalRequests cb,
      m_TotalFailures = totalFailures cb, m_TotalSuccesses = totalSuccesses cb,
      m_LastFailTime = lastFailTime cb, m_LastStateChange = lastStateChange cb,
      m_LastRequestTime = lastRequestTime cb, m_StateTransitions = stateTransitions cb,
      m_FailureRate =
        (if totalRequests cb > 0
         then f_div (float64 (totalFailures cb)) (float64 (totalRequests cb)) else Fin 0),
      m_RequestRate =
        (let duration = Sub now (lastStateChange cb)
         in if \<not> IsZero (lastRequestTime cb) \<and> duration > 0
            then f_div (float64 (totalRequests cb)) (Seconds duration) else Fin 0),
      m_TimeInCurrentState = Sub now (lastStateChange cb),
      m_IsHealthy = isHealthyInternal cb,
      m_EstimatedRecoveryTime =
        (if cb_state cb = CircuitStateOpen
         then lastStateChange cb + RecoveryTimeout (cb_config cb) else zero_time)\<rparr>"

lemmas cb_transition_defs = transitionToOpen_def transitionToClosed_def transitionToHalfOpen_def
  resetFailureCount_def
lemmas cb_method_defs = CanExecute_def RecordSuccess_def RecordFailure_def
  CircuitBreaker_Reset_def ForceOpen_def ForceClose_def CircuitBreaker_UpdateConfig_def

section \<open>Calls in any order\<close>

datatype cb_call =
    CallCanExecute Time Time
  | CallRecordSuccess Time
  | CallRecordFailure Time Time
  | CallReset Time
  | CallForceOpen Time
  | CallForceClose Time
  | CallUpdateConfig "CircuitBreakerConfig option"

fun cb_step :: "cb_call \<Rightarrow> CircuitBreaker \<Rightarrow> CircuitBreaker" where
  "cb_step (CallCanExecute t t') cb = fst (CanExecute t t' cb)"
| "cb_step (CallRecordSuccess t) cb = RecordSuccess t cb"
| "cb_step (CallRecordFailure t t') cb = RecordFailure t t' cb"
| "cb_step (CallReset t) cb = CircuitBreaker_Reset t cb"
| "cb_step (CallForceOpen t) cb = ForceOpen t cb"
| "cb_step (CallForceClose t) cb = ForceClose t cb"
| "cb_step (CallUpdateConfig c) cb = CircuitBreaker_UpdateConfig c cb"

fun is_update_config :: "cb_call \<Rightarrow> bool" where
  "is_update_config (CallUpdateConfig c) = True"
| "is_update_config _ = False"

subsection \<open>Counter invariant\<close>

definition cb_inv :: "CircuitBreaker \<Rightarrow> bool" where
  "cb_inv cb \<longleftrightarrow>
     0 \<le> consecutiveFailures cb \<and> consecutiveFailures cb \<le> failureCount cb \<and>
     failureCount cb \<le> totalFailures cb \<and>
     0 \<le> totalRequests cb \<and> 0 \<le> totalSuccesses cb \<and>
     0 \<le> successCount cb \<and> 0 \<le> halfOpenRequestCount cb \<and>
     (cb_state cb = CircuitStateClosed \<longrightarrow> successCount cb = 0 \<and> halfOpenRequestCount cb = 0)"

definition cb_config_ok :: "CircuitBreakerConfig \<Rightarrow> bool" where
  "cb_config_ok c \<longleftrightarrow> 1 \<le> FailureThreshold c \<and> 1 \<le> ConsecutiveSuccesses c \<and> 1 \<le> HalfOpenMaxRequests c"

text \<open>
  The thresholds of the configuration are respected in every state. A threshold below one acts as
  one: the constructor replaces only zero, and it has no default for the failure threshold.
\<close>

definition cb_cap_inv :: "CircuitBreaker \<Rightarrow> bool" where
  "cb_cap_inv cb \<longleftrightarrow>
     (cb_state cb = CircuitStateClosed \<longrightarrow> failureCount cb < max 1 (FailureThreshold (cb_config cb))) \<and>
     (cb_state cb = CircuitStateHalfOpen \<longrightarrow>
        successCount cb < max 1 (ConsecutiveSuccesses (cb_config cb)) \<and>
        halfOpenRequestCount cb \<le> max 1 (HalfOpenMaxRequests (cb_config cb)))"

definition cb_threshold_inv :: "CircuitBreaker \<Rightarrow> bool" where
  "cb_threshold_inv cb \<longleftrightarrow>
     cb_config_ok (cb_config cb) \<and>
     (cb_state cb = CircuitStateClosed \<longrightarrow> failureCount cb < FailureThreshold (cb_config cb)) \<and>
     (cb_state cb = CircuitStateHalfOpen \<longrightarrow>
        successCount cb < ConsecutiveSuccesses (cb_config cb) \<and>
        halfOpenRequestCount cb \<le> HalfOpenMaxRequests (cb_config cb))"

lemma threshold_cap: "cb_threshold_inv cb \<longleftrightarrow> cb_config_ok (cb_config cb) \<and> cb_cap_inv cb"
  by (auto simp: cb_threshold_inv_def cb_cap_inv_def cb_config_ok_def)

lemma cb_inv_New: "cb_inv (NewCircuitBreaker now config)"
  by (simp add: NewCircuitBreaker_def cb_inv_def)

lemma cb_inv_CanExecute: "cb_inv cb \<Longrightarrow> cb_inv (fst (CanExecute t t' cb))"
  by (cases "cb_state cb") (auto simp: CanExecute_def cb_transition_defs cb_inv_def Let_def)

lemma cb_inv_RecordSuccess: "cb_inv cb \<Longrightarrow> cb_inv (RecordSuccess t cb)"
  by (cases "cb_state cb") (auto simp: RecordSuccess_def cb_transition_defs cb_inv_def Let_def)

lemma cb_inv_RecordFailure: "cb_inv cb \<Longrightarrow> cb_inv (RecordFailure t t' cb)"
  by (cases "cb_state cb") (auto simp: RecordFailure_def cb_transition_defs cb_inv_def Let_def)

lemma cb_inv_step: "cb_inv cb \<Longrightarrow> cb_inv (cb_step c cb)"
proof (cases c)
  case (CallReset t)
  assume "cb_inv cb"
  with CallReset show ?thesis by (simp add: CircuitBreaker_Reset_def cb_inv_def)
next
  case (CallForceOpen t)
  assume "cb_inv cb"
  with CallForceOpen show ?thesis by (auto simp: ForceOpen_def cb_transition_defs cb_inv_def)
next
  case (CallForceClose t)
  assume "cb_inv cb"
  with CallForceClose show ?thesis by (auto simp: ForceClose_def cb_transition_defs cb_inv_def)
next
  case (CallUpdateConfig co)
  assume "cb_inv cb"
  with CallUpdateConfig show ?thesis
    by (auto simp: CircuitBreaker_UpdateConfig_def cb_inv_def Let_def split: option.splits)
qed (simp_all add: cb_inv_CanExecute cb_inv_RecordSuccess cb_inv_RecordFailure)

lemma cb_inv_run: "cb_inv cb \<Longrightarrow> cb_inv (fold cb_step cs cb)"
  by (induction cs arbitrary: cb) (simp_all add: cb_inv_step)

lemma cb_step_config: "\<not> is_update_config c \<Longrightarrow> cb_config (cb_step c cb) = cb_config cb"
  by (cases c; cases "cb_state cb")
    (simp_all add: cb_method_defs cb_transition_defs Let_def)

lemma not_shouldOpen: "\<not> shouldOpenCircuit cb \<Longrightarrow> failureCount cb < FailureThreshold (cb_config cb)"
  by (auto simp: shouldOpenCircuit_def Let_def split: if_splits)

lemma shouldOpen_count: "FailureThreshold (cb_config cb) \<le> failureCount cb \<Longrightarrow> shouldOpenCircuit cb"
  by (simp add: shouldOpenCircuit_def)

lemma cb_defaults_FailureThreshold [simp]: "FailureThreshold (cb_defaults c) = FailureThreshold c"
  by (simp add: cb_defaults_def Let_def)

lemma cap_New: "cb_cap_inv (NewCircuitBreaker now config)"
  by (simp add: NewCircuitBreaker_def cb_cap_inv_def)

lemma cap_step: "cb_cap_inv cb \<Longrightarrow> \<not> is_update_config c \<Longrightarrow> cb_cap_inv (cb_step c cb)"
  by (cases c; cases "cb_state cb")
    (auto simp: cb_method_defs cb_transition_defs cb_cap_inv_def Let_def dest!: not_shouldOpen)

lemma cap_run: "cb_cap_inv cb \<Longrightarrow> \<forall>c \<in> set cs. \<not> is_update_config c \<Longrightarrow> cb_cap_inv (fold cb_step cs cb)"
  by (induction cs arbitrary: cb) (simp_all add: cap_step)

lemma threshold_New:
  "cb_config_ok (cb_defaults c) \<Longrightarrow> cb_threshold_inv (NewCircuitBreaker now (Some c))"
  using cap_New [of now "Some c"] by (simp add: threshold_cap NewCircuitBreaker_def)

lemma threshold_step:
  "cb_threshold_inv cb \<Longrightarrow> \<not> is_update_config c \<Longrightarrow> cb_threshold_inv (cb_step c cb)"
  by (simp add: threshold_cap cap_step cb_step_config)

lemma threshold_CanExecute: "cb_threshold_inv cb \<Longrightarrow> cb_threshold_inv (fst (CanExecute t t' cb))"
  using threshold_step [of cb "CallCanExecute t t'"] by simp

lemma threshold_RecordSuccess: "cb_threshold_inv cb \<Longrightarrow> cb_threshold_inv (RecordSuccess t cb)"
  using threshold_step [of cb "CallRecordSuccess t"] by simp

lemma threshold_RecordFailure: "cb_threshold_inv cb \<Longrightarrow> cb_threshold_inv (RecordFailure t t' cb)"
  using threshold_step [of cb "CallRecordFailure t t'"] by simp

subsection \<open>The state machine\<close>

text \<open>
  The abstract breaker keeps what matters in each state: the failures since the last reset, newest
  first, while it is closed, the time it opened, and the admissions and successes of a half-open
  period. Its moves follow the comments of \<^verbatim>\<open>CanExecute\<close>, \<^verbatim>\<open>RecordFailure\<close> and \<^verbatim>\<open>RecordSuccess\<close>, with
  one departure: the comment of \<^verbatim>\<open>RecordSuccess\<close> promises no action in the open state, while the code
  starts a half-open period there (clause \<open>CallRecordSuccess\<close>, \<open>BOpen\<close>).
\<close>

datatype breaker = BClosed "Time list" | BOpen Time | BHalfOpen int int

definition breaker_fails :: "CircuitBreakerConfig \<Rightarrow> Time \<Rightarrow> Time \<Rightarrow> Time list \<Rightarrow> breaker" where
  "breaker_fails cfg t t' fs =
     (if int (length fs) + 1 < FailureThreshold cfg then BClosed (t # fs) else BOpen t')"

definition breaker_forgets :: "CircuitBreakerConfig \<Rightarrow> Time \<Rightarrow> Time list \<Rightarrow> Time list" where
  "breaker_forgets cfg t fs =
     (case fs of [] \<Rightarrow> []
      | f # _ \<Rightarrow> if 0 < ResetTimeout cfg \<and> ResetTimeout cfg < Sub t f then [] else fs)"

fun breaker_admits :: "CircuitBreakerConfig \<Rightarrow> Time \<Rightarrow> breaker \<Rightarrow> bool" where
  "breaker_admits cfg t (BClosed fs) = True"
| "breaker_admits cfg t (BOpen since) = (RecoveryTimeout cfg \<le> Sub t since)"
| "breaker_admits cfg t (BHalfOpen admitted successes) = (admitted < HalfOpenMaxRequests cfg)"

fun breaker_move :: "CircuitBreakerConfig \<Rightarrow> cb_call \<Rightarrow> breaker \<Rightarrow> breaker" where
  "breaker_move cfg (CallCanExecute t t') b =
     (if \<not> breaker_admits cfg t b then b
      else case b of BClosed fs \<Rightarrow> BClosed (breaker_forgets cfg t fs)
           | BOpen since \<Rightarrow> BHalfOpen 1 0
           | BHalfOpen admitted successes \<Rightarrow> BHalfOpen (admitted + 1) successes)"
| "breaker_move cfg (CallRecordSuccess t) b =
     (case b of BClosed fs \<Rightarrow> b
      | BOpen since \<Rightarrow> BHalfOpen 0 0
      | BHalfOpen admitted successes \<Rightarrow>
          if successes + 1 < ConsecutiveSuccesses cfg then BHalfOpen admitted (successes + 1) else BClosed [])"
| "breaker_move cfg (CallRecordFailure t t') b =
     (case b of BClosed fs \<Rightarrow> breaker_fails cfg t t' fs | BOpen since \<Rightarrow> b | BHalfOpen admitted successes \<Rightarrow> BOpen t')"
| "breaker_move cfg (CallReset t) b = BClosed []"
| "breaker_move cfg (CallForceOpen t) b = (case b of BOpen since \<Rightarrow> b | _ \<Rightarrow> BOpen t)"
| "breaker_move cfg (CallForceClose t) b = (case b of BClosed fs \<Rightarrow> b | _ \<Rightarrow> BClosed [])"
| "breaker_move cfg (CallUpdateConfig c) b = b"

text \<open>A breaker that counts failures only: no failure rate and no adaptive threshold.\<close>

definition counts_failures :: "CircuitBreakerConfig \<Rightarrow> bool" where
  "counts_failures cfg \<longleftrightarrow>
     1 \<le> FailureThreshold cfg \<and> \<not> f_gt (FailureRate cfg) (Fin 0) \<and> \<not> AdaptiveThresholds cfg"

fun shows_breaker :: "CircuitBreaker \<Rightarrow> breaker \<Rightarrow> bool" where
  "shows_breaker cb (BClosed fs) \<longleftrightarrow>
     cb_state cb = CircuitStateClosed \<and> failureCount cb = int (length fs) \<and>
     (case fs of [] \<Rightarrow> True | f # _ \<Rightarrow> lastFailTime cb = f) \<and>
     failureCount cb < FailureThreshold (cb_config cb)"
| "shows_breaker cb (BOpen since) \<longleftrightarrow> cb_state cb = CircuitStateOpen \<and> lastStateChange cb = since"
| "shows_breaker cb (BHalfOpen admitted successes) \<longleftrightarrow>
     cb_state cb = CircuitStateHalfOpen \<and> halfOpenRequestCount cb = admitted \<and> successCount cb = successes"

lemma shouldOpen_counting:
  "counts_failures (cb_config cb) \<Longrightarrow> shouldOpenCircuit cb \<longleftrightarrow> FailureThreshold (cb_config cb) \<le> failureCount cb"
  by (simp add: shouldOpenCircuit_def counts_failures_def Let_def)

lemma shows_admits:
  "shows_breaker cb b \<Longrightarrow> snd (CanExecute t t' cb) = breaker_admits (cb_config cb) t b"
  by (cases b) (simp_all add: CanExecute_def Let_def)

lemma shows_CanExecute:
  "shows_breaker cb b \<Longrightarrow> counts_failures (cb_config cb) \<Longrightarrow>
   shows_breaker (fst (CanExecute t t' cb)) (breaker_move (cb_config cb) (CallCanExecute t t') b)"
  by (cases b)
    (auto simp: CanExecute_def cb_transition_defs breaker_forgets_def counts_failures_def Let_def split: list.splits)

lemma shows_RecordSuccess:
  "shows_breaker cb b \<Longrightarrow> counts_failures (cb_config cb) \<Longrightarrow>
   shows_breaker (RecordSuccess t cb) (breaker_move (cb_config cb) (CallRecordSuccess t) b)"
  by (cases b)
    (auto simp: RecordSuccess_def cb_transition_defs shouldOpen_counting counts_failures_def Let_def
      split: list.splits)

lemma shows_RecordFailure:
  "shows_breaker cb b \<Longrightarrow> counts_failures (cb_config cb) \<Longrightarrow>
   shows_breaker (RecordFailure t t' cb) (breaker_move (cb_config cb) (CallRecordFailure t t') b)"
  by (cases b)
    (auto simp: RecordFailure_def cb_transition_defs shouldOpen_counting breaker_fails_def Let_def)

lemma shows_operator:
  "shows_breaker cb b \<Longrightarrow> counts_failures (cb_config cb) \<Longrightarrow>
   shows_breaker (CircuitBreaker_Reset t cb) (BClosed []) \<and>
   shows_breaker (ForceOpen t cb) (breaker_move (cb_config cb) (CallForceOpen t) b) \<and>
   shows_breaker (ForceClose t cb) (breaker_move (cb_config cb) (CallForceClose t) b)"
  by (cases b)
    (auto simp: CircuitBreaker_Reset_def ForceOpen_def ForceClose_def cb_transition_defs counts_failures_def
      split: list.splits)

lemma shows_step:
  assumes "shows_breaker cb b" "counts_failures (cb_config cb)" "\<not> is_update_config c"
  shows "shows_breaker (cb_step c cb) (breaker_move (cb_config cb) c b)"
  using assms shows_CanExecute [of cb b] shows_RecordSuccess [of cb b] shows_RecordFailure [of cb b]
    shows_operator [of cb b]
  by (cases c) (simp_all del: breaker_move.simps shows_breaker.simps add: breaker_move.simps(4))

lemma shows_run:
  "shows_breaker cb b \<Longrightarrow> counts_failures (cb_config cb) \<Longrightarrow> \<forall>c \<in> set cs. \<not> is_update_config c \<Longrightarrow>
   shows_breaker (fold cb_step cs cb) (fold (breaker_move (cb_config cb)) cs b)"
proof (induction cs arbitrary: cb b)
  case (Cons c cs)
  then show ?case
    using Cons.IH [of "cb_step c cb" "breaker_move (cb_config cb) c b"] shows_step [of cb b c]
    by (simp add: cb_step_config)
qed simp

lemma cb_run_config:
  "\<forall>c \<in> set cs. \<not> is_update_config c \<Longrightarrow> cb_config (fold cb_step cs cb) = cb_config cb"
  by (induction cs arbitrary: cb) (simp_all add: cb_step_config)

section \<open>A sequential client\<close>

text \<open>
  The protocol of the file's usage example: ask, run the operation if admitted, report its
  outcome, and only then issue the next request. A request carries the clock readings of
  the two calls and the outcome of the operation.
\<close>

record request =
  rq_t0 :: Time
  rq_t1 :: Time
  rq_t2 :: Time
  rq_t3 :: Time
  rq_ok :: bool

definition cb_request :: "request \<Rightarrow> CircuitBreaker \<Rightarrow> CircuitBreaker" where
  "cb_request r cb =
     (case CanExecute (rq_t0 r) (rq_t1 r) cb of
        (cb', admitted) \<Rightarrow>
          if \<not> admitted then cb'
          else if rq_ok r then RecordSuccess (rq_t2 r) cb'
          else RecordFailure (rq_t2 r) (rq_t3 r) cb')"

text \<open>
  What such a client keeps: an invariant that holds between requests, and a second one
  that holds while an admitted operation runs.
\<close>

locale sequential_client =
  fixes idle :: "CircuitBreaker \<Rightarrow> bool" and pending :: "CircuitBreaker \<Rightarrow> bool"
  assumes admitted: "idle cb \<Longrightarrow> CanExecute t t' cb = (cb', True) \<Longrightarrow> pending cb'"
    and rejected: "idle cb \<Longrightarrow> CanExecute t t' cb = (cb', False) \<Longrightarrow> idle cb'"
    and success: "pending cb \<Longrightarrow> idle (RecordSuccess u cb)"
    and failure: "pending cb \<Longrightarrow> idle (RecordFailure u u' cb)"
begin

lemma request: "idle cb \<Longrightarrow> idle (cb_request r cb)"
proof -
  assume i: "idle cb"
  obtain cb' b where c: "CanExecute (rq_t0 r) (rq_t1 r) cb = (cb', b)" by fastforce
  show ?thesis
    using admitted [OF i] rejected [OF i] success failure c
    by (cases b) (simp_all add: cb_request_def)
qed

lemma requests: "idle cb \<Longrightarrow> idle (fold cb_request rs cb)"
  by (induction rs arbitrary: cb) (simp_all add: request)

end

subsection \<open>Accounting\<close>

definition acct_idle :: "CircuitBreaker \<Rightarrow> bool" where
  "acct_idle cb \<longleftrightarrow> cb_inv cb \<and> cb_threshold_inv cb \<and>
     totalSuccesses cb + totalFailures cb \<le> totalRequests cb"

definition acct_pending :: "CircuitBreaker \<Rightarrow> bool" where
  "acct_pending cb \<longleftrightarrow> cb_inv cb \<and> cb_threshold_inv cb \<and>
     totalSuccesses cb + totalFailures cb < totalRequests cb"

lemma CanExecute_totals:
  "totalRequests (fst (CanExecute t t' cb)) = totalRequests cb + 1"
  "totalSuccesses (fst (CanExecute t t' cb)) = totalSuccesses cb"
  "totalFailures (fst (CanExecute t t' cb)) = totalFailures cb"
  by (cases "cb_state cb"; simp add: CanExecute_def cb_transition_defs Let_def)+

lemma RecordSuccess_totals:
  "totalRequests (RecordSuccess t cb) = totalRequests cb"
  "totalSuccesses (RecordSuccess t cb) = totalSuccesses cb + 1"
  "totalFailures (RecordSuccess t cb) = totalFailures cb"
  by (cases "cb_state cb"; simp add: RecordSuccess_def cb_transition_defs Let_def)+

lemma RecordFailure_totals:
  "totalRequests (RecordFailure t t' cb) = totalRequests cb"
  "totalSuccesses (RecordFailure t t' cb) = totalSuccesses cb"
  "totalFailures (RecordFailure t t' cb) = totalFailures cb + 1"
  by (cases "cb_state cb"; simp add: RecordFailure_def cb_transition_defs Let_def)+

lemmas cb_totals = CanExecute_totals RecordSuccess_totals RecordFailure_totals
lemmas cb_inv_methods = cb_inv_CanExecute cb_inv_RecordSuccess cb_inv_RecordFailure
lemmas threshold_methods = threshold_CanExecute threshold_RecordSuccess threshold_RecordFailure

lemma acct_CanExecute: "acct_idle cb \<Longrightarrow> acct_pending (fst (CanExecute t t' cb))"
  by (simp add: acct_idle_def acct_pending_def cb_totals cb_inv_methods threshold_methods)

interpretation acct: sequential_client acct_idle acct_pending
proof unfold_locales
  fix cb t t' cb'
  assume "acct_idle cb"
  then have p: "acct_pending (fst (CanExecute t t' cb))" by (rule acct_CanExecute)
  show "CanExecute t t' cb = (cb', True) \<Longrightarrow> acct_pending cb'" using p by simp
  show "CanExecute t t' cb = (cb', False) \<Longrightarrow> acct_idle cb'"
    using p by (simp add: acct_idle_def acct_pending_def)
qed (simp_all add: acct_idle_def acct_pending_def cb_totals cb_inv_methods threshold_methods)

lemma requests_totalRequests:
  "totalRequests (fold cb_request rs cb) = totalRequests cb + int (length rs)"
proof (induction rs arbitrary: cb)
  case (Cons r rs)
  have "totalRequests (cb_request r cb) = totalRequests cb + 1"
    using CanExecute_totals(1) [of "rq_t0 r" "rq_t1 r" cb]
    by (cases "CanExecute (rq_t0 r) (rq_t1 r) cb") (simp add: cb_request_def cb_totals)
  with Cons.IH [of "cb_request r cb"] show ?case by simp
qed simp

subsection \<open>A half-open breaker that cannot close\<close>

definition starved_idle :: "CircuitBreaker \<Rightarrow> bool" where
  "starved_idle cb \<longleftrightarrow>
     1 \<le> HalfOpenMaxRequests (cb_config cb) \<and>
     HalfOpenMaxRequests (cb_config cb) < ConsecutiveSuccesses (cb_config cb) \<and>
     cb_state cb \<noteq> CircuitStateClosed \<and>
     (cb_state cb = CircuitStateHalfOpen \<longrightarrow>
        successCount cb \<le> halfOpenRequestCount cb \<and>
        halfOpenRequestCount cb \<le> HalfOpenMaxRequests (cb_config cb))"

definition starved_pending :: "CircuitBreaker \<Rightarrow> bool" where
  "starved_pending cb \<longleftrightarrow>
     HalfOpenMaxRequests (cb_config cb) < ConsecutiveSuccesses (cb_config cb) \<and>
     1 \<le> HalfOpenMaxRequests (cb_config cb) \<and>
     cb_state cb = CircuitStateHalfOpen \<and>
     successCount cb < halfOpenRequestCount cb \<and>
     halfOpenRequestCount cb \<le> HalfOpenMaxRequests (cb_config cb)"

interpretation starved: sequential_client starved_idle starved_pending
proof unfold_locales
  fix cb t t' cb'
  assume i: "starved_idle cb"
  show "CanExecute t t' cb = (cb', True) \<Longrightarrow> starved_pending cb'"
    using i by (cases "cb_state cb")
      (auto simp: starved_idle_def starved_pending_def CanExecute_def cb_transition_defs Let_def
        split: if_splits)
  show "CanExecute t t' cb = (cb', False) \<Longrightarrow> starved_idle cb'"
    using i by (cases "cb_state cb")
      (auto simp: starved_idle_def CanExecute_def cb_transition_defs Let_def split: if_splits)
qed (auto simp: starved_idle_def starved_pending_def RecordSuccess_def RecordFailure_def
      cb_transition_defs Let_def)

subsection \<open>A half-open breaker that recovers\<close>

text \<open>\<open>n\<close> successes into the half-open phase.\<close>

definition probing :: "nat \<Rightarrow> CircuitBreaker \<Rightarrow> bool" where
  "probing n cb \<longleftrightarrow> cb_state cb = CircuitStateHalfOpen \<and>
     successCount cb = int n \<and> halfOpenRequestCount cb = int n"

lemma cb_request_config [simp]: "cb_config (cb_request r cb) = cb_config cb"
proof -
  have "cb_config (fst (CanExecute t t' cb)) = cb_config cb" for t t'
    using cb_step_config [of "CallCanExecute t t'" cb] by simp
  moreover have "cb_config (RecordSuccess u c) = cb_config c" for u c
    using cb_step_config [of "CallRecordSuccess u" c] by simp
  moreover have "cb_config (RecordFailure u u' c) = cb_config c" for u u' c
    using cb_step_config [of "CallRecordFailure u u'" c] by simp
  ultimately show ?thesis
    unfolding cb_request_def by (auto split: prod.split) (metis fst_conv)+
qed

lemma requests_config [simp]: "cb_config (fold cb_request rs cb) = cb_config cb"
  by (induction rs arbitrary: cb) simp_all

lemma probe_first:
  assumes "cb_state cb = CircuitStateOpen" "rq_ok r"
    and "RecoveryTimeout (cb_config cb) \<le> Sub (rq_t0 r) (lastStateChange cb)"
    and "1 < ConsecutiveSuccesses (cb_config cb)"
  shows "probing 1 (cb_request r cb)"
  using assms
  by (simp add: cb_request_def CanExecute_def RecordSuccess_def cb_transition_defs probing_def Let_def)

lemma probe_next:
  assumes "probing n cb" "rq_ok r" "int n < HalfOpenMaxRequests (cb_config cb)"
    and "int n + 1 < ConsecutiveSuccesses (cb_config cb)"
  shows "probing (Suc n) (cb_request r cb)"
  using assms
  by (simp add: cb_request_def CanExecute_def RecordSuccess_def cb_transition_defs probing_def Let_def)

lemma probes:
  assumes "probing n cb" "\<forall>r \<in> set rs. rq_ok r"
    and "int (n + length rs) \<le> HalfOpenMaxRequests (cb_config cb)"
    and "int (n + length rs) < ConsecutiveSuccesses (cb_config cb)"
  shows "probing (n + length rs) (fold cb_request rs cb)"
  using assms
proof (induction rs arbitrary: n cb)
  case (Cons r rs)
  then have "probing (Suc n) (cb_request r cb)" by (intro probe_next) simp_all
  then show ?case using Cons.prems Cons.IH [of "Suc n" "cb_request r cb"] by simp
qed simp

lemma probe_last:
  assumes "probing n cb" "rq_ok r" "int n < HalfOpenMaxRequests (cb_config cb)"
    and "int n + 1 = ConsecutiveSuccesses (cb_config cb)"
  shows "cb_state (cb_request r cb) = CircuitStateClosed \<and> failureCount (cb_request r cb) = 0"
  using assms
  by (simp add: cb_request_def CanExecute_def RecordSuccess_def cb_transition_defs probing_def Let_def)

lemma probe_only:
  assumes "cb_state cb = CircuitStateOpen" "rq_ok r"
    and "RecoveryTimeout (cb_config cb) \<le> Sub (rq_t0 r) (lastStateChange cb)"
    and "ConsecutiveSuccesses (cb_config cb) = 1"
  shows "cb_state (cb_request r cb) = CircuitStateClosed \<and> failureCount (cb_request r cb) = 0"
  using assms
  by (simp add: cb_request_def CanExecute_def RecordSuccess_def cb_transition_defs Let_def)

subsection \<open>Health scores\<close>

lemma GetHealthScore_closed:
  assumes "cb_state cb = CircuitStateClosed"
    and "0 \<le> totalSuccesses cb" "totalSuccesses cb \<le> totalRequests cb" "totalRequests cb < 2 ^ 63"
    and "0 \<le> consecutiveFailures cb" "consecutiveFailures cb \<le> FailureThreshold (cb_config cb)"
    and "1 \<le> FailureThreshold (cb_config cb)" "FailureThreshold (cb_config cb) < 2 ^ 63"
  shows "\<exists>r. GetHealthScore cb = Fin r \<and> 0 \<le> r \<and> r \<le> 1"
proof (cases "totalRequests cb = 0")
  case False
  then obtain s where s: "f_div (float64 (totalSuccesses cb)) (float64 (totalRequests cb)) = Fin s"
    "0 \<le> s" "s \<le> 1"
    using rate_unit_interval [of "totalSuccesses cb" "totalRequests cb"] assms by auto
  obtain p where p: "f_div (float64 (consecutiveFailures cb)) (float64 (FailureThreshold (cb_config cb))) = Fin p"
    "0 \<le> p" "p \<le> 1"
    using rate_unit_interval [of "consecutiveFailures cb" "FailureThreshold (cb_config cb)"] assms by auto
  obtain h where h: "rnd (p * (1 / 2)) = Fin h" "0 \<le> h" "h \<le> 1"
    using rnd_unit_interval [of "p * (1 / 2)"] p by auto
  obtain q where q: "rnd (1 - h) = Fin q" "0 \<le> q" "q \<le> 1"
    using rnd_unit_interval [of "1 - h"] h by auto
  have "0 \<le> s * q" "s * q \<le> 1" using s q by (simp_all add: mult_le_one)
  from rnd_unit_interval [OF this] show ?thesis
    using False assms(1) s p h q by (simp add: GetHealthScore_def f_sub_def)
qed (simp add: GetHealthScore_def assms(1))

lemma GetHealthScore_half_open:
  assumes "cb_state cb = CircuitStateHalfOpen"
    and "0 \<le> successCount cb" "successCount cb \<le> ConsecutiveSuccesses (cb_config cb)"
    and "ConsecutiveSuccesses (cb_config cb) \<le> 2 ^ 49"
  shows "\<exists>r. GetHealthScore cb = Fin r \<and> 0 \<le> r \<and> r \<le> 1"
proof -
  obtain a where a: "flit (3 / 10) = Fin a" "0 < a" "a \<le> 3 / 10 + 1 / 8"
    using flit_tenths [of 3] by auto
  obtain b where b: "flit (4 / 10) = Fin b" "0 < b" "b \<le> 4 / 10 + 1 / 8"
    using flit_tenths [of 4] by auto
  show ?thesis
  proof (cases "successCount cb = 0")
    case True
    then show ?thesis using a assms(1) by (simp add: GetHealthScore_def)
  next
    case False
    define n c where "n = successCount cb" and "c = ConsecutiveSuccesses (cb_config cb)"
    have nc: "0 < n" "n \<le> c" "c \<le> 2 ^ 49" using False assms by (simp_all add: n_def c_def)
    have fl: "float64 n = Fin (of_int n)" "float64 c = Fin (of_int c)"
      using nc by (simp_all add: float64_exact)
    have p4: "pow2 (- 4) = (1 / 16 :: rat)" by (simp add: pow2_def)
    have y: "0 < b * of_int n" using b nc by simp
    have "b * of_int n \<le> of_int (9 * n) * pow2 (- 4)"
      using mult_right_mono [OF b(3), of "of_int n"] nc(1) by (simp add: p4)
    moreover have "representable (of_int (9 * n) * pow2 (- 4))"
      unfolding representable_def using nc by (intro exI [of _ "9 * n"] exI [of _ "- 4"]) simp
    ultimately have ry: "rnd_pos (b * of_int n) \<le> of_int (9 * n) * pow2 (- 4)"
      by (intro rnd_pos_le y)
    have n49: "(of_int n :: rat) \<le> of_int (2 ^ 49)" using nc by (simp only: of_int_le_iff)
    have big: "of_int (9 * n) * pow2 (- 4) \<le> pow2 1023"
      using n49 pow2_mono [of 49 1023] by (simp add: p4 pow2_def [of 49])
    have fy: "rnd (b * of_int n) = Fin (rnd_pos (b * of_int n))"
      using y ry big by (rule rnd_pos_Fin)
    define z where "z = rnd_pos (b * of_int n) / of_int c"
    have z: "0 \<le> z" using rnd_pos_nonneg [OF y] nc by (simp add: z_def)
    have "(of_int n :: rat) \<le> of_int c" using nc by simp
    then have "z \<le> 9 / 16" using ry nc by (simp add: z_def p4 field_simps)
    moreover have "representable (9 / 16)"
      unfolding representable_def by (intro exI [of _ 9] exI [of _ "- 4"]) (simp add: p4)
    ultimately have rz: "z \<noteq> 0 \<Longrightarrow> rnd_pos z \<le> 9 / 16" using z by (intro rnd_pos_le) simp_all
    obtain w where w: "rnd z = Fin w" "0 \<le> w" "w \<le> 9 / 16"
    proof (cases "z = 0")
      case False
      then have zp: "0 < z" using z by simp
      have "9 / 16 \<le> pow2 1023" using pow2_mono [of 0 1023] by simp
      then have "rnd z = Fin (rnd_pos z)" using rnd_pos_Fin [OF zp] rz [OF False] by blast
      then show ?thesis using that rz [OF False] rnd_pos_nonneg [OF zp] by blast
    qed (simp add: that)
    have "0 \<le> a + w" "a + w \<le> 1" using a w by simp_all
    moreover have "GetHealthScore cb = rnd (a + w)"
      using assms(1) False a b fl fy w nc
      by (simp add: GetHealthScore_def n_def [symmetric] c_def [symmetric] z_def)
    ultimately show ?thesis using rnd_unit_interval by presburger
  qed
qed

section \<open>Properties\<close>

lemma open_request_rejected:
  assumes "cb_state cb = CircuitStateOpen"
    and "Sub (rq_t0 r) (lastStateChange cb) < RecoveryTimeout (cb_config cb)"
  shows "cb_request r cb = cb\<lparr>lastRequestTime := rq_t0 r, totalRequests := totalRequests cb + 1\<rparr>"
  using assms by (simp add: cb_request_def CanExecute_def Let_def)

text \<open>
  C1: Whatever configuration a breaker is built from, unset thresholds included, and whatever
  sequence of calls other than configuration updates it sees: a closed breaker has fewer recorded
  failures than its failure threshold, a half-open one has admitted no more requests than its
  half-open limit and has not yet reached the number of successes that closes it, where a threshold
  or limit below one counts as one, and the consecutive failures never exceed the failure count.
\<close>

theorem cb_thresholds_respected:
  assumes "\<forall>call \<in> set calls. \<not> is_update_config call"
    and "cb = fold cb_step calls (NewCircuitBreaker now config)"
  shows "(cb_state cb = CircuitStateClosed \<longrightarrow> failureCount cb < max 1 (FailureThreshold (cb_config cb))) \<and>
         (cb_state cb = CircuitStateHalfOpen \<longrightarrow>
            halfOpenRequestCount cb \<le> max 1 (HalfOpenMaxRequests (cb_config cb)) \<and>
            successCount cb < max 1 (ConsecutiveSuccesses (cb_config cb))) \<and>
         0 \<le> consecutiveFailures cb \<and> consecutiveFailures cb \<le> failureCount cb"
proof -
  have "cb_cap_inv cb" using assms cap_New cap_run by blast
  moreover have "cb_inv cb" using assms(2) cb_inv_New cb_inv_run by blast
  ultimately show ?thesis by (simp add: cb_cap_inv_def cb_inv_def)
qed

theorem cb_thresholds_respected_witness:
  "let cb = fold cb_step [CallRecordFailure 5 5, CallCanExecute 6 6]
              (NewCircuitBreaker 0 (Some (default_cb_config\<lparr>FailureThreshold := 0\<rparr>)))
   in 0 \<le> consecutiveFailures cb \<and> consecutiveFailures cb \<le> failureCount cb"
proof -
  have "\<forall>call \<in> set [CallRecordFailure 5 5, CallCanExecute 6 6]. \<not> is_update_config call" by simp
  then show ?thesis
    using cb_thresholds_respected [OF _ refl, of "[CallRecordFailure 5 5, CallCanExecute 6 6]" 0
        "Some (default_cb_config\<lparr>FailureThreshold := 0\<rparr>)"] by (simp only: Let_def)
qed



text \<open>
  While the recovery timeout has not elapsed an open breaker runs no operation: a
  sequential client's requests are all rejected, the breaker stays open, its opening time
  does not move, and no outcome is recorded.
\<close>

lemma open_breaker_fails_fast:
  assumes "cb_state cb = CircuitStateOpen"
    and "\<forall>r \<in> set rs. Sub (rq_t0 r) (lastStateChange cb) < RecoveryTimeout (cb_config cb)"
  shows "cb_state (fold cb_request rs cb) = CircuitStateOpen \<and>
         lastStateChange (fold cb_request rs cb) = lastStateChange cb \<and>
         totalSuccesses (fold cb_request rs cb) = totalSuccesses cb \<and>
         totalFailures (fold cb_request rs cb) = totalFailures cb \<and>
         totalRequests (fold cb_request rs cb) = totalRequests cb + int (length rs)"
  using assms
proof (induction rs arbitrary: cb)
  case (Cons r rs)
  then show ?case using Cons.IH [of "cb_request r cb"] by (simp add: open_request_rejected)
qed simp

text \<open>
  When fewer requests are admitted in the half-open state than successes are needed to
  leave it, which is the case for the default configuration (2 against 3), a breaker that
  has opened never closes again under a sequential client: no sequence of requests, even
  one in which every operation succeeds, brings it back to the closed state.
\<close>

lemma starved_breaker_never_closes:
  assumes "cb_state cb = CircuitStateOpen"
    and "1 \<le> HalfOpenMaxRequests (cb_config cb)"
    and "HalfOpenMaxRequests (cb_config cb) < ConsecutiveSuccesses (cb_config cb)"
  shows "cb_state (fold cb_request rs cb) \<noteq> CircuitStateClosed"
proof -
  have "starved_idle cb" using assms by (simp add: starved_idle_def)
  then have "starved_idle (fold cb_request rs cb)" by (rule starved.requests)
  then show ?thesis by (simp add: starved_idle_def)
qed

text \<open>
  C19: When the half-open limit admits as many requests as successes are needed, an open
  breaker recovers: once the recovery timeout has elapsed, that many successful requests in
  a row close it and clear its failure count.
\<close>

theorem breaker_recovers:
  assumes "cb_state cb = CircuitStateOpen" "\<forall>r \<in> set (r # rs). rq_ok r"
    and "RecoveryTimeout (cb_config cb) \<le> Sub (rq_t0 r) (lastStateChange cb)"
    and "int (length (r # rs)) = ConsecutiveSuccesses (cb_config cb)"
    and "ConsecutiveSuccesses (cb_config cb) \<le> HalfOpenMaxRequests (cb_config cb)"
  shows "cb_state (fold cb_request (r # rs) cb) = CircuitStateClosed \<and>
         failureCount (fold cb_request (r # rs) cb) = 0"
proof (cases rs rule: rev_cases)
  case Nil
  with assms probe_only [of cb r] show ?thesis by simp
next
  case (snoc ms l)
  have "probing 1 (cb_request r cb)" using assms snoc by (intro probe_first) simp_all
  then have "probing (1 + length ms) (fold cb_request ms (cb_request r cb))"
    using assms snoc by (intro probes) simp_all
  then show ?thesis
    using probe_last [of "1 + length ms" "fold cb_request ms (cb_request r cb)" l] assms snoc by simp
qed

theorem breaker_recovers_witness:
  "cb_state (fold cb_request
      [\<lparr>rq_t0 = 40 * Second, rq_t1 = 0, rq_t2 = 0, rq_t3 = 0, rq_ok = True\<rparr>,
       \<lparr>rq_t0 = 41 * Second, rq_t1 = 0, rq_t2 = 0, rq_t3 = 0, rq_ok = True\<rparr>]
      (ForceOpen 5 (NewCircuitBreaker 0 (Some (default_cb_config\<lparr>ConsecutiveSuccesses := 2\<rparr>)))))
     = CircuitStateClosed"
  by (rule breaker_recovers [THEN conjunct1])
    (simp_all add: ForceOpen_def transitionToOpen_def NewCircuitBreaker_def cb_defaults_def
      default_cb_config_def Sub_def max_duration_def min_duration_def)

text \<open>
  The health score a sequential client reads is a number between 0 and 1, rounding
  included, for every history of requests.
\<close>

lemma health_score_in_unit_interval:
  assumes "cb_config_ok (cb_defaults c)" "FailureThreshold c < 2 ^ 63"
    and "ConsecutiveSuccesses (cb_defaults c) \<le> 2 ^ 49" "int (length rs) < 2 ^ 63"
  shows "\<exists>x. GetHealthScore (fold cb_request rs (NewCircuitBreaker now (Some c))) = Fin x \<and> 0 \<le> x \<and> x \<le> 1"
proof -
  define cb0 where "cb0 = NewCircuitBreaker now (Some c)"
  define cb where "cb = fold cb_request rs cb0"
  have "acct_idle cb0"
    using assms(1) cb_inv_New threshold_New by (simp add: acct_idle_def cb0_def) (simp add: NewCircuitBreaker_def)
  then have i: "acct_idle cb" unfolding cb_def by (rule acct.requests)
  have cfg: "cb_config cb = cb_defaults c" by (simp add: cb_def cb0_def NewCircuitBreaker_def)
  have tr: "totalRequests cb = int (length rs)"
    unfolding cb_def requests_totalRequests by (simp add: cb0_def NewCircuitBreaker_def)
  note inv = i [unfolded acct_idle_def cb_inv_def cb_threshold_inv_def cb_config_ok_def]
  show ?thesis
  proof (cases "cb_state cb")
    case CircuitStateClosed
    with inv cfg tr assms have "\<exists>x. GetHealthScore cb = Fin x \<and> 0 \<le> x \<and> x \<le> 1"
      by (intro GetHealthScore_closed) auto
    then show ?thesis by (simp add: cb_def cb0_def)
  next
    case CircuitStateHalfOpen
    with inv cfg assms have "\<exists>x. GetHealthScore cb = Fin x \<and> 0 \<le> x \<and> x \<le> 1"
      by (intro GetHealthScore_half_open) auto
    then show ?thesis by (simp add: cb_def cb0_def)
  next
    case CircuitStateOpen
    then show ?thesis by (simp add: cb_def cb0_def GetHealthScore_def)
  qed
qed

text \<open>
  The failure threshold has no default. A breaker built from a configuration that leaves
  it at zero opens on the very first outcome it records, a success.
\<close>

lemma unset_threshold_opens_on_success:
  assumes "FailureThreshold c \<le> 0"
  shows "cb_state (RecordSuccess t2 (fst (CanExecute t0 t1 (NewCircuitBreaker now (Some c))))) = CircuitStateOpen"
proof -
  define cb where "cb = fst (CanExecute t0 t1 (NewCircuitBreaker now (Some c)))"
  have "cb_state cb = CircuitStateClosed" "failureCount cb = 0" "cb_config cb = cb_defaults c"
    by (simp_all add: cb_def CanExecute_def NewCircuitBreaker_def resetFailureCount_def Let_def)
  moreover from this have "shouldOpenCircuit (cb\<lparr>totalSuccesses := n, consecutiveFailures := 0\<rparr>)" for n
    using assms by (intro shouldOpen_count) simp
  ultimately have "cb_state (RecordSuccess t2 cb) = CircuitStateOpen"
    by (simp add: RecordSuccess_def transitionToOpen_def Let_def)
  then show ?thesis by (simp only: cb_def)
qed

end
