(* ===== verification/Resource_Cleanup.thy ===== *)
theory Resource_Cleanup
  imports Error_Types
begin

text \<open>
  The cleanup manager of \<^verbatim>\<open>internal/diagnostics/resource_cleanup.go\<close>: the tracked resources, which of
  them a strategy selects, the batches in which they are processed, the history and the metrics.
  The goroutines of a batch only share the tracking maps, under the mutex; the order in which they
  finish is an argument. An operation is \<^term>\<open>None\<close> when the Go code panics (a negative batch size or
  semaphore size).
\<close>

section \<open>State\<close>

type_synonym ResourceType = int

abbreviation (input) ResourceTypeContainer :: ResourceType where "ResourceTypeContainer \<equiv> 0"
abbreviation (input) ResourceTypeNetwork :: ResourceType where "ResourceTypeNetwork \<equiv> 1"
abbreviation (input) ResourceTypeVolume :: ResourceType where "ResourceTypeVolume \<equiv> 2"

definition ResourceType_String :: "ResourceType \<Rightarrow> string" where
  "ResourceType_String rt =
     (if rt = ResourceTypeContainer then ''container'' else if rt = ResourceTypeNetwork then ''network''
      else if rt = ResourceTypeVolume then ''volume'' else if rt = 3 then ''image''
      else if rt = 4 then ''secret'' else if rt = 5 then ''config'' else ''unknown'')"

datatype CleanupTrigger = TriggerErrorRecovery | TriggerPeriodic | TriggerManual | TriggerEmergency | TriggerShutdown

fun CleanupTrigger_String :: "CleanupTrigger \<Rightarrow> string" where
  "CleanupTrigger_String TriggerErrorRecovery = ''error_recovery''"
| "CleanupTrigger_String TriggerPeriodic = ''periodic''"
| "CleanupTrigger_String TriggerManual = ''manual''"
| "CleanupTrigger_String TriggerEmergency = ''emergency''"
| "CleanupTrigger_String TriggerShutdown = ''shutdown''"

datatype CleanupAction = ActionRemoved | ActionStopped | ActionSkipped | ActionFailed | ActionBackedUp

fun CleanupAction_String :: "CleanupAction \<Rightarrow> string" where
  "CleanupAction_String ActionRemoved = ''removed''"
| "CleanupAction_String ActionStopped = ''stopped''"
| "CleanupAction_String ActionSkipped = ''skipped''"
| "CleanupAction_String ActionFailed = ''failed''"
| "CleanupAction_String ActionBackedUp = ''backed_up''"

record CleanupConfig =
  cc_Timeout :: Duration
  cc_AutoCleanup :: bool
  cc_DryRun :: bool
  cc_PreserveDebugData :: bool
  cc_CleanupRetention :: Duration
  cc_ResourceMaxAge :: Duration
  cc_RequireConfirmation :: bool
  cc_AllowForceCleanup :: bool
  cc_BackupBeforeCleanup :: bool
  cc_MaxConcurrentCleanups :: int
  cc_CleanupBatchSize :: int
  cc_EnablePeriodicCleanup :: bool
  cc_PeriodicCleanupInterval :: Duration

record TrackedResource =
  tr_ID :: string
  tr_Name :: string
  tr_Type :: ResourceType
  tr_CreatedAt :: Time
  tr_LastUsed :: Time
  tr_Tags :: "(string, string) gomap"
  tr_Protected :: bool
  tr_Diagnostic :: bool
  tr_Temporary :: bool
  tr_CreatedBy :: string
  tr_DependsOn :: "string list"
  tr_DependedBy :: "string list"

record CleanupStrategy =
  CleanupTemporary :: bool
  CleanupOrphaned :: bool
  CleanupExpired :: bool
  CleanupRunning :: bool
  IgnoreProtected :: bool
  PreserveDiagnostic :: bool

record ResourceCleanupResult =
  rr_Resource :: TrackedResource
  rr_Success :: bool
  rr_Error :: string
  rr_Action :: CleanupAction
  rr_TimeTaken :: Duration
  rr_SizeFreed :: int

record CleanupOperation =
  co_ID :: string
  co_StartTime :: Time
  co_EndTime :: Time
  co_Duration :: Duration
  co_Trigger :: CleanupTrigger
  co_Resources :: "TrackedResource list"
  co_Results :: "ResourceCleanupResult list"
  co_Success :: bool
  co_Error :: string
  co_DryRun :: bool

record CleanupMetrics =
  cm_TotalCleanups :: int
  cm_SuccessfulCleanups :: int
  cm_FailedCleanups :: int
  cm_ResourcesTracked :: int
  cm_ResourcesCleanedUp :: int
  cm_ResourcesSkipped :: int
  cm_TotalCleanupTime :: Duration
  cm_AverageCleanupTime :: Duration
  cm_MaxCleanupTime :: Duration
  cm_CleanupsByType :: "(ResourceType, int) gomap"
  cm_StorageFreed :: int
  cm_CleanupEfficiency :: f64
  cm_IsHealthy :: bool
  cm_LastSuccessfulCleanup :: Time

text \<open>\<^verbatim>\<open>rcm_client\<close> says whether the manager has a Docker client; the constructor sets none.\<close>

record ResourceCleanupManager =
  rcm_client :: bool
  rcm_config :: CleanupConfig
  trackedContainers :: "(string, TrackedResource) gomap"
  trackedNetworks :: "(string, TrackedResource) gomap"
  trackedVolumes :: "(string, TrackedResource) gomap"
  cleanupHistory :: "CleanupOperation list"
  rcm_metrics :: CleanupMetrics
  rcm_stopped :: bool

definition default_cleanup_config :: CleanupConfig where
  "default_cleanup_config =
     \<lparr>cc_Timeout = 30 * Second, cc_AutoCleanup = True, cc_DryRun = False, cc_PreserveDebugData = False,
      cc_CleanupRetention = 24 * Hour, cc_ResourceMaxAge = 2 * Hour, cc_RequireConfirmation = False,
      cc_AllowForceCleanup = False, cc_BackupBeforeCleanup = False, cc_MaxConcurrentCleanups = 3,
      cc_CleanupBatchSize = 10, cc_EnablePeriodicCleanup = True, cc_PeriodicCleanupInterval = 1 * Hour\<rparr>"

definition NewResourceCleanupManager :: "CleanupConfig option \<Rightarrow> ResourceCleanupManager" where
  "NewResourceCleanupManager config =
     \<lparr>rcm_client = False, rcm_config = (case config of None \<Rightarrow> default_cleanup_config | Some c \<Rightarrow> c),
      trackedContainers = [], trackedNetworks = [], trackedVolumes = [], cleanupHistory = [],
      rcm_metrics = \<lparr>cm_TotalCleanups = 0, cm_SuccessfulCleanups = 0, cm_FailedCleanups = 0, cm_ResourcesTracked = 0,
        cm_ResourcesCleanedUp = 0, cm_ResourcesSkipped = 0, cm_TotalCleanupTime = 0, cm_AverageCleanupTime = 0,
        cm_MaxCleanupTime = 0, cm_CleanupsByType = [], cm_StorageFreed = 0, cm_CleanupEfficiency = Fin 0,
        cm_IsHealthy = False, cm_LastSuccessfulCleanup = zero_time\<rparr>,
      rcm_stopped = False\<rparr>"

section \<open>Tracking\<close>

definition TrackResource :: "TrackedResource \<Rightarrow> ResourceCleanupManager \<Rightarrow> ResourceCleanupManager" where
  "TrackResource r rcm =
     (let rcm = (if tr_Type r = ResourceTypeContainer then rcm\<lparr>trackedContainers := AList.update (tr_ID r) r (trackedContainers rcm)\<rparr>
                 else if tr_Type r = ResourceTypeNetwork then rcm\<lparr>trackedNetworks := AList.update (tr_ID r) r (trackedNetworks rcm)\<rparr>
                 else if tr_Type r = ResourceTypeVolume then rcm\<lparr>trackedVolumes := AList.update (tr_ID r) r (trackedVolumes rcm)\<rparr>
                 else rcm)
      in rcm\<lparr>rcm_metrics := (rcm_metrics rcm)\<lparr>cm_ResourcesTracked := cm_ResourcesTracked (rcm_metrics rcm) + 1\<rparr>\<rparr>)"

definition UntrackResource :: "string \<Rightarrow> ResourceType \<Rightarrow> ResourceCleanupManager \<Rightarrow> ResourceCleanupManager" where
  "UntrackResource resourceID resourceType rcm =
     (if resourceType = ResourceTypeContainer then rcm\<lparr>trackedContainers := AList.delete resourceID (trackedContainers rcm)\<rparr>
      else if resourceType = ResourceTypeNetwork then rcm\<lparr>trackedNetworks := AList.delete resourceID (trackedNetworks rcm)\<rparr>
      else if resourceType = ResourceTypeVolume then rcm\<lparr>trackedVolumes := AList.delete resourceID (trackedVolumes rcm)\<rparr>
      else rcm)"

text \<open>\<open>ord\<close> gives the iteration orders of the three maps.\<close>

definition getAllTrackedResourcesInternal :: "(nat \<Rightarrow> string list) \<Rightarrow> ResourceCleanupManager \<Rightarrow> TrackedResource list" where
  "getAllTrackedResourcesInternal ord rcm =
     map snd (range_over (ord 0) (trackedContainers rcm)) @ map snd (range_over (ord 1) (trackedNetworks rcm)) @
     map snd (range_over (ord 2) (trackedVolumes rcm))"

definition getAllTrackedResources :: "(nat \<Rightarrow> string list) \<Rightarrow> ResourceCleanupManager \<Rightarrow> TrackedResource list" where
  "getAllTrackedResources ord rcm = getAllTrackedResourcesInternal ord rcm"

definition getTemporaryResources :: "(nat \<Rightarrow> string list) \<Rightarrow> ResourceCleanupManager \<Rightarrow> TrackedResource list" where
  "getTemporaryResources ord rcm = filter tr_Temporary (getAllTrackedResources ord rcm)"

definition resourceExists :: "string \<Rightarrow> ResourceCleanupManager \<Rightarrow> bool" where
  "resourceExists resourceID rcm \<longleftrightarrow>
     map_of (trackedContainers rcm) resourceID \<noteq> None \<or> map_of (trackedNetworks rcm) resourceID \<noteq> None \<or>
     map_of (trackedVolumes rcm) resourceID \<noteq> None"

definition isOrphanedResource :: "Time \<Rightarrow> ResourceCleanupManager \<Rightarrow> TrackedResource \<Rightarrow> bool" where
  "isOrphanedResource now rcm r \<longleftrightarrow>
     Sub now (tr_LastUsed r) > cc_ResourceMaxAge (rcm_config rcm) \<or>
     list_ex (\<lambda>depID. \<not> resourceExists depID rcm) (tr_DependsOn r)"

section \<open>Selection\<close>

definition selectCleanupStrategy :: "DiagnosticError \<Rightarrow> ResourceCleanupManager \<Rightarrow> CleanupStrategy" where
  "selectCleanupStrategy d rcm =
     (let strategy = \<lparr>CleanupTemporary = True, CleanupOrphaned = False, CleanupExpired = False, CleanupRunning = False,
                      IgnoreProtected = False, PreserveDiagnostic = cc_PreserveDebugData (rcm_config rcm)\<rparr>
      in case err_Type d of
           ErrTypeResource \<Rightarrow>
             (let strategy = strategy\<lparr>CleanupOrphaned := True, CleanupExpired := True\<rparr>
              in if Code d = ErrCodeResourceExhaustion then strategy\<lparr>CleanupRunning := True\<rparr> else strategy)
         | ErrTypeConnection \<Rightarrow> strategy\<lparr>CleanupOrphaned := True\<rparr>
         | ErrTypeNetwork \<Rightarrow> strategy\<lparr>CleanupOrphaned := True, CleanupExpired := True\<rparr>
         | _ \<Rightarrow> strategy\<lparr>CleanupExpired := True\<rparr>)"

text \<open>\<open>now\<close> is the time of the loop, \<open>now'\<close> the clock of the orphan test for this resource.\<close>

definition should_clean ::
    "Time \<Rightarrow> Time \<Rightarrow> CleanupStrategy \<Rightarrow> ResourceCleanupManager \<Rightarrow> TrackedResource \<Rightarrow> bool" where
  "should_clean now now' strategy rcm r =
     (let shouldClean = False;
          shouldClean = (if CleanupTemporary strategy \<and> tr_Temporary r then True else shouldClean);
          shouldClean = (if CleanupExpired strategy \<and> cc_ResourceMaxAge (rcm_config rcm) > 0 \<and>
                            Sub now (tr_CreatedAt r) > cc_ResourceMaxAge (rcm_config rcm) then True else shouldClean);
          shouldClean = (if CleanupOrphaned strategy \<and> isOrphanedResource now' rcm r then True else shouldClean);
          shouldClean = (if tr_Protected r \<and> \<not> IgnoreProtected strategy then False else shouldClean);
          shouldClean = (if tr_Diagnostic r \<and> PreserveDiagnostic strategy then False else shouldClean)
      in shouldClean)"

definition getResourcesForCleanup ::
    "(nat \<Rightarrow> string list) \<Rightarrow> Time \<Rightarrow> (nat \<Rightarrow> Time) \<Rightarrow> CleanupStrategy \<Rightarrow> ResourceCleanupManager \<Rightarrow> TrackedResource list" where
  "getResourcesForCleanup ord now clock strategy rcm =
     map snd (filter (\<lambda>(i, r). should_clean now (clock i) strategy rcm r)
       (enumerate 0 (getAllTrackedResourcesInternal ord rcm)))"

section \<open>Cleaning\<close>

definition no_client_error :: "ResourceCleanupManager \<Rightarrow> goerror option" where
  "no_client_error rcm = (if \<not> rcm_client rcm then Some (ErrorString ''docker client not available'') else None)"

definition cleanupContainer :: "CleanupStrategy \<Rightarrow> TrackedResource \<Rightarrow> ResourceCleanupManager \<Rightarrow> goerror option" where
  "cleanupContainer strategy r rcm = no_client_error rcm"

definition cleanupNetwork :: "TrackedResource \<Rightarrow> ResourceCleanupManager \<Rightarrow> goerror option" where
  "cleanupNetwork r rcm = no_client_error rcm"

definition cleanupVolume :: "TrackedResource \<Rightarrow> ResourceCleanupManager \<Rightarrow> goerror option" where
  "cleanupVolume r rcm = no_client_error rcm"

definition backupResource :: "TrackedResource \<Rightarrow> ResourceCleanupManager \<Rightarrow> goerror option" where
  "backupResource r rcm = None"

definition removal_result :: "goerror option \<Rightarrow> ResourceCleanupResult \<Rightarrow> ResourceCleanupResult" where
  "removal_result err result =
     (case err of
        Some e \<Rightarrow> result\<lparr>rr_Success := False, rr_Error := Error e, rr_Action := ActionFailed\<rparr>
      | None \<Rightarrow> result\<lparr>rr_Success := True, rr_Action := ActionRemoved\<rparr>)"

text \<open>
  \<^verbatim>\<open>TimeTaken\<close> is set by a deferred function after the result has been copied to the caller, so the
  caller always sees 0.
\<close>

definition cleanup_by_type ::
    "CleanupStrategy \<Rightarrow> TrackedResource \<Rightarrow> ResourceCleanupResult \<Rightarrow> ResourceCleanupManager \<Rightarrow>
     ResourceCleanupManager \<times> ResourceCleanupResult" where
  "cleanup_by_type strategy r result rcm =
     (let result =
        (if tr_Type r = ResourceTypeContainer then removal_result (cleanupContainer strategy r rcm) result
         else if tr_Type r = ResourceTypeNetwork then removal_result (cleanupNetwork r rcm) result
         else if tr_Type r = ResourceTypeVolume then removal_result (cleanupVolume r rcm) result
         else result\<lparr>rr_Success := False, rr_Error := ''unsupported resource type'', rr_Action := ActionSkipped\<rparr>)
      in if rr_Success result \<and> rr_Action result = ActionRemoved
         then (UntrackResource (tr_ID r) (tr_Type r) rcm, result) else (rcm, result))"

definition cleanupResource ::
    "CleanupStrategy \<Rightarrow> TrackedResource \<Rightarrow> ResourceCleanupManager \<Rightarrow> ResourceCleanupManager \<times> ResourceCleanupResult" where
  "cleanupResource strategy r rcm =
     (let result = \<lparr>rr_Resource = r, rr_Success = False, rr_Error = [], rr_Action = ActionRemoved, rr_TimeTaken = 0,
                    rr_SizeFreed = 0\<rparr>
      in if cc_DryRun (rcm_config rcm) then (rcm, result\<lparr>rr_Success := True, rr_Action := ActionSkipped\<rparr>)
         else if cc_BackupBeforeCleanup (rcm_config rcm)
         then (case backupResource r rcm of
                 Some err \<Rightarrow> (rcm, result\<lparr>rr_Success := False, rr_Error := ''backup failed: '' @ Error err, rr_Action := ActionFailed\<rparr>)
               | None \<Rightarrow> cleanup_by_type strategy r (result\<lparr>rr_Action := ActionBackedUp\<rparr>) rcm)
         else cleanup_by_type strategy r result rcm)"

text \<open>
  The goroutines of a batch clean the resources in the order \<open>ord\<close> and their errors arrive in the
  order \<open>ord'\<close>.
\<close>

fun clean_each ::
    "CleanupStrategy \<Rightarrow> TrackedResource list \<Rightarrow> ResourceCleanupManager \<Rightarrow> ResourceCleanupManager \<times> ResourceCleanupResult list" where
  "clean_each strategy [] rcm = (rcm, [])"
| "clean_each strategy (r # rs) rcm =
     (case cleanupResource strategy r rcm of
        (rcm, result) \<Rightarrow> (case clean_each strategy rs rcm of (rcm, results) \<Rightarrow> (rcm, result # results)))"

definition cleanup_error :: "ResourceCleanupResult \<Rightarrow> goerror" where
  "cleanup_error x = ErrorString (''failed to cleanup '' @ ResourceType_String (tr_Type (rr_Resource x)) @ '' '' @
     tr_ID (rr_Resource x) @ '': '' @ rr_Error x)"

definition processBatch ::
    "nat list \<Rightarrow> nat list \<Rightarrow> CleanupStrategy \<Rightarrow> TrackedResource list \<Rightarrow> ResourceCleanupManager \<Rightarrow>
     (ResourceCleanupManager \<times> ResourceCleanupResult list \<times> goerror list) option" where
  "processBatch ord ord' strategy resources rcm =
     (let maxConcurrent = (if cc_MaxConcurrentCleanups (rcm_config rcm) = 0 then 3 else cc_MaxConcurrentCleanups (rcm_config rcm))
      in if maxConcurrent < 0 then None
         else case clean_each strategy (arrange ord resources) rcm of
                (rcm, results) \<Rightarrow>
                  Some (rcm, results, arrange ord' (map cleanup_error (filter (\<lambda>x. \<not> rr_Success x \<and> rr_Error x \<noteq> []) results))))"

text \<open>
  What the environment decides for the batch with number \<open>i\<close>: the two arrival orders and whether the
  context is done after the batch.
\<close>

record cleanup_env =
  ce_results :: "nat \<Rightarrow> nat list"
  ce_errors :: "nat \<Rightarrow> nat list"
  ce_done :: "nat \<Rightarrow> goerror option"

function batch_loop ::
    "cleanup_env \<Rightarrow> int \<Rightarrow> nat \<Rightarrow> CleanupStrategy \<Rightarrow> TrackedResource list \<Rightarrow> ResourceCleanupManager \<Rightarrow>
     (ResourceCleanupManager \<times> ResourceCleanupResult list \<times> goerror list \<times> goerror option) option" where
  "batch_loop env batchSize i strategy resources rcm =
     (if resources = [] then Some (rcm, [], [], None)
      else if batchSize \<le> 0 then None
      else case processBatch (ce_results env i) (ce_errors env i) strategy (take (nat batchSize) resources) rcm of
             None \<Rightarrow> None
           | Some (rcm, results, errors) \<Rightarrow>
               (case ce_done env i of
                  Some err \<Rightarrow> Some (rcm, results, errors, Some err)
                | None \<Rightarrow>
                    map_option (\<lambda>(rcm, results', errors', err). (rcm, results @ results', errors @ errors', err))
                      (batch_loop env batchSize (i + 1) strategy (drop (nat batchSize) resources) rcm)))"
  by pat_completeness auto
termination
  by (relation "measure (\<lambda>(env, b, i, s, rs, rcm). length rs)") auto

declare batch_loop.simps [simp del]

section \<open>Metrics and history\<close>

definition count_cleanup :: "ResourceCleanupResult \<Rightarrow> CleanupMetrics \<Rightarrow> CleanupMetrics" where
  "count_cleanup x m =
     (if rr_Success x
      then m\<lparr>cm_ResourcesCleanedUp := cm_ResourcesCleanedUp m + 1,
             cm_CleanupsByType := incr_key (tr_Type (rr_Resource x)) (cm_CleanupsByType m),
             cm_StorageFreed := wrap64 (cm_StorageFreed m + rr_SizeFreed x)\<rparr>
      else m\<lparr>cm_ResourcesSkipped := cm_ResourcesSkipped m + 1\<rparr>)"

definition updateCleanupMetrics :: "Time \<Rightarrow> ResourceCleanupResult list \<Rightarrow> ResourceCleanupManager \<Rightarrow> ResourceCleanupManager" where
  "updateCleanupMetrics now results rcm =
     (let m = (rcm_metrics rcm)\<lparr>cm_TotalCleanups := cm_TotalCleanups (rcm_metrics rcm) + 1\<rparr>;
          m = fold count_cleanup results m;
          m = (if length (filter rr_Success results) = length results
               then m\<lparr>cm_SuccessfulCleanups := cm_SuccessfulCleanups m + 1, cm_LastSuccessfulCleanup := now\<rparr>
               else m\<lparr>cm_FailedCleanups := cm_FailedCleanups m + 1\<rparr>)
      in rcm\<lparr>rcm_metrics := m\<rparr>)"

definition executeCleanup ::
    "cleanup_env \<Rightarrow> Time \<Rightarrow> TrackedResource list \<Rightarrow> CleanupStrategy \<Rightarrow> ResourceCleanupManager \<Rightarrow>
     (ResourceCleanupManager \<times> ResourceCleanupResult list \<times> goerror option) option" where
  "executeCleanup env now resources strategy rcm =
     (let batchSize = (if cc_CleanupBatchSize (rcm_config rcm) = 0 then 10 else cc_CleanupBatchSize (rcm_config rcm))
      in case batch_loop env batchSize 0 strategy resources rcm of
           None \<Rightarrow> None
         | Some (rcm, results, errors, Some err) \<Rightarrow> Some (rcm, results, Some err)
         | Some (rcm, results, errors, None) \<Rightarrow>
             let rcm = updateCleanupMetrics now results rcm
             in Some (rcm, results,
                  if errors = [] then None
                  else Some (ErrorString (''cleanup completed with '' @ show_int (int (length errors)) @ '' errors: '' @
                               Error (hd errors)))))"

definition recordCleanupOperation :: "CleanupOperation \<Rightarrow> ResourceCleanupManager \<Rightarrow> ResourceCleanupManager" where
  "recordCleanupOperation operation rcm =
     (let rcm = rcm\<lparr>cleanupHistory := cleanupHistory rcm @ [operation]\<rparr>
      in if length (cleanupHistory rcm) > 100
         then rcm\<lparr>cleanupHistory := drop (length (cleanupHistory rcm) - 100) (cleanupHistory rcm)\<rparr> else rcm)"

section \<open>Operations\<close>

text \<open>
  The four cleanup operations differ in identifier, trigger, dry-run flag, strategy and selection, and
  share the rest. \<open>start\<close> is the clock of the identifier and of the start time, \<open>mid\<close> that of the
  metrics, \<open>stop\<close> the end time.
\<close>

record op_clock =
  oc_id :: Time
  oc_start :: Time
  oc_mid :: Time
  oc_end :: Time

definition perform_operation ::
    "string \<Rightarrow> CleanupTrigger \<Rightarrow> bool \<Rightarrow> op_clock \<Rightarrow> cleanup_env \<Rightarrow> TrackedResource list \<Rightarrow> CleanupStrategy \<Rightarrow>
     ResourceCleanupManager \<Rightarrow> (ResourceCleanupManager \<times> goerror option) option" where
  "perform_operation name trigger dry clk env resourcesToClean strategy rcm =
     (case executeCleanup env (oc_mid clk) resourcesToClean strategy rcm of
        None \<Rightarrow> None
      | Some (rcm, results, err) \<Rightarrow>
          Some (recordCleanupOperation
                  \<lparr>co_ID = name @ show_int (Unix (oc_id clk)), co_StartTime = oc_start clk, co_EndTime = oc_end clk,
                   co_Duration = Sub (oc_end clk) (oc_start clk), co_Trigger = trigger, co_Resources = resourcesToClean,
                   co_Results = results, co_Success = (err = None),
                   co_Error = (case err of Some e \<Rightarrow> Error e | None \<Rightarrow> []), co_DryRun = dry\<rparr> rcm, err))"

record select_env =
  se_ord :: "nat \<Rightarrow> string list"
  se_now :: Time
  se_clock :: "nat \<Rightarrow> Time"

definition CleanupAfterError ::
    "op_clock \<Rightarrow> select_env \<Rightarrow> cleanup_env \<Rightarrow> DiagnosticError \<Rightarrow> ResourceCleanupManager \<Rightarrow>
     (ResourceCleanupManager \<times> goerror option) option" where
  "CleanupAfterError clk sel env diagError rcm =
     (if \<not> cc_AutoCleanup (rcm_config rcm) then Some (rcm, None)
      else let strategy = selectCleanupStrategy diagError rcm
           in perform_operation ''error-recovery-'' TriggerErrorRecovery (cc_DryRun (rcm_config rcm)) clk env
                (getResourcesForCleanup (se_ord sel) (se_now sel) (se_clock sel) strategy rcm) strategy rcm)"

definition manual_strategy :: "ResourceCleanupManager \<Rightarrow> CleanupStrategy" where
  "manual_strategy rcm =
     \<lparr>CleanupTemporary = True, CleanupOrphaned = True, CleanupExpired = True, CleanupRunning = False,
      IgnoreProtected = False, PreserveDiagnostic = cc_PreserveDebugData (rcm_config rcm)\<rparr>"

definition PerformCleanup ::
    "op_clock \<Rightarrow> select_env \<Rightarrow> cleanup_env \<Rightarrow> ResourceCleanupManager \<Rightarrow> (ResourceCleanupManager \<times> goerror option) option" where
  "PerformCleanup clk sel env rcm =
     perform_operation ''manual-'' TriggerManual (cc_DryRun (rcm_config rcm)) clk env
       (getResourcesForCleanup (se_ord sel) (se_now sel) (se_clock sel) (manual_strategy rcm) rcm) (manual_strategy rcm) rcm"

definition aggressive_strategy :: CleanupStrategy where
  "aggressive_strategy =
     \<lparr>CleanupTemporary = True, CleanupOrphaned = True, CleanupExpired = True, CleanupRunning = True,
      IgnoreProtected = True, PreserveDiagnostic = False\<rparr>"

definition PerformAggressiveCleanup ::
    "op_clock \<Rightarrow> select_env \<Rightarrow> cleanup_env \<Rightarrow> ResourceCleanupManager \<Rightarrow> (ResourceCleanupManager \<times> goerror option) option" where
  "PerformAggressiveCleanup clk sel env rcm =
     perform_operation ''aggressive-'' TriggerEmergency (cc_DryRun (rcm_config rcm)) clk env
       (getAllTrackedResources (se_ord sel) rcm) aggressive_strategy rcm"

definition final_strategy :: "ResourceCleanupManager \<Rightarrow> CleanupStrategy" where
  "final_strategy rcm =
     \<lparr>CleanupTemporary = True, CleanupOrphaned = True, CleanupExpired = False, CleanupRunning = True,
      IgnoreProtected = False, PreserveDiagnostic = cc_PreserveDebugData (rcm_config rcm)\<rparr>"

definition PerformFinalCleanup ::
    "op_clock \<Rightarrow> select_env \<Rightarrow> cleanup_env \<Rightarrow> ResourceCleanupManager \<Rightarrow> (ResourceCleanupManager \<times> goerror option) option" where
  "PerformFinalCleanup clk sel env rcm =
     perform_operation ''final-'' TriggerShutdown False clk env
       (getTemporaryResources (se_ord sel) rcm) (final_strategy rcm) rcm"

definition rcm_Shutdown ::
    "op_clock \<Rightarrow> select_env \<Rightarrow> cleanup_env \<Rightarrow> ResourceCleanupManager \<Rightarrow> (ResourceCleanupManager \<times> goerror option) option" where
  "rcm_Shutdown clk sel env rcm =
     (if rcm_stopped rcm then Some (rcm, None)
      else PerformFinalCleanup clk sel env (rcm\<lparr>rcm_stopped := True\<rparr>))"

text \<open>One tick of \<^verbatim>\<open>periodicCleanupLoop\<close>; the error is dropped.\<close>

definition periodicCleanupLoop ::
    "op_clock \<Rightarrow> select_env \<Rightarrow> cleanup_env \<Rightarrow> ResourceCleanupManager \<Rightarrow> ResourceCleanupManager option" where
  "periodicCleanupLoop clk sel env rcm =
     (if rcm_stopped rcm then Some rcm else map_option fst (PerformCleanup clk sel env rcm))"

definition rcm_isHealthyInternal :: "Time \<Rightarrow> ResourceCleanupManager \<Rightarrow> bool" where
  "rcm_isHealthyInternal now rcm =
     (let m = rcm_metrics rcm in
      if cm_TotalCleanups m = 0 then True
      else if f_lt (f_div (float64 (cm_SuccessfulCleanups m)) (float64 (cm_TotalCleanups m))) (flit (7 / 10)) then False
      else if cc_EnablePeriodicCleanup (rcm_config rcm) \<and>
              Sub now (cm_LastSuccessfulCleanup m) > wrap64 (cc_PeriodicCleanupInterval (rcm_config rcm) * 2) then False
      else True)"

definition rcm_GetMetrics :: "Time \<Rightarrow> ResourceCleanupManager \<Rightarrow> CleanupMetrics" where
  "rcm_GetMetrics now rcm =
     (let m = rcm_metrics rcm;
          m = (if cm_TotalCleanups m > 0
               then m\<lparr>cm_AverageCleanupTime := go_quot (cm_TotalCleanupTime m) (cm_TotalCleanups m),
                      cm_CleanupEfficiency := f_div (float64 (cm_SuccessfulCleanups m)) (float64 (cm_TotalCleanups m))\<rparr>
               else m)
      in m\<lparr>cm_IsHealthy := rcm_isHealthyInternal now rcm\<rparr>)"

section \<open>One result per resource\<close>

text \<open>Cleaning only ever takes entries out of the three maps and leaves the rest of the manager alone.\<close>

definition submap :: "('k, 'v) gomap \<Rightarrow> ('k, 'v) gomap \<Rightarrow> bool" where
  "submap m' m \<longleftrightarrow> set m' \<subseteq> set m \<and> (gomap_ok m \<longrightarrow> gomap_ok m')"

lemma submap_refl [simp]: "submap m m"
  by (simp add: submap_def)

lemma submap_delete [simp]: "submap (AList.delete k m) m"
  by (simp add: submap_def) (auto simp: AList.delete_eq)

definition same_frame :: "ResourceCleanupManager \<Rightarrow> ResourceCleanupManager \<Rightarrow> bool" where
  "same_frame rcm rcm' \<longleftrightarrow> rcm_config rcm' = rcm_config rcm \<and> rcm_client rcm' = rcm_client rcm \<and>
     rcm_metrics rcm' = rcm_metrics rcm \<and> cleanupHistory rcm' = cleanupHistory rcm \<and> rcm_stopped rcm' = rcm_stopped rcm \<and>
     submap (trackedContainers rcm') (trackedContainers rcm) \<and> submap (trackedNetworks rcm') (trackedNetworks rcm) \<and>
     submap (trackedVolumes rcm') (trackedVolumes rcm)"

lemma same_frame_refl [simp]: "same_frame rcm rcm"
  by (simp add: same_frame_def)

lemma same_frame_trans: "same_frame a b \<Longrightarrow> same_frame b c \<Longrightarrow> same_frame a c"
  by (auto simp: same_frame_def submap_def)

definition honest_result :: "ResourceCleanupResult \<Rightarrow> bool" where
  "honest_result x \<longleftrightarrow> (rr_Success x \<or> rr_Error x \<noteq> [])"

lemma cleanupResource_outcome:
  assumes "cleanupResource strategy r rcm = (rcm', x)"
  shows "rr_Resource x = r \<and> honest_result x \<and> same_frame rcm rcm' \<and>
    (rcm' = rcm \<or> rcm' = UntrackResource (tr_ID r) (tr_Type r) rcm) \<and>
    (\<not> rcm_client rcm \<longrightarrow> rcm' = rcm \<and> rr_Success x = cc_DryRun (rcm_config rcm))"
  using assms
  by (auto simp: cleanupResource_def cleanup_by_type_def backupResource_def removal_result_def cleanupContainer_def
      cleanupNetwork_def cleanupVolume_def no_client_error_def UntrackResource_def honest_result_def same_frame_def Let_def
      split: if_splits)

lemma clean_each_outcome:
  assumes "clean_each strategy rs rcm = (rcm', xs)"
  shows "map rr_Resource xs = rs \<and> list_all honest_result xs \<and> same_frame rcm rcm' \<and>
    (\<not> rcm_client rcm \<longrightarrow> rcm' = rcm \<and> list_all (\<lambda>x. rr_Success x = cc_DryRun (rcm_config rcm)) xs)"
  using assms
proof (induction rs arbitrary: rcm rcm' xs)
  case (Cons r rs)
  obtain rcm1 x where 1: "cleanupResource strategy r rcm = (rcm1, x)" by fastforce
  obtain rcm2 ys where 2: "clean_each strategy rs rcm1 = (rcm2, ys)" by fastforce
  have "rcm' = rcm2" "xs = x # ys" using Cons.prems 1 2 by auto
  moreover have "rcm_client rcm1 = rcm_client rcm" "rcm_config rcm1 = rcm_config rcm"
    using cleanupResource_outcome [OF 1] by (simp_all add: same_frame_def)
  ultimately show ?case using cleanupResource_outcome [OF 1] Cons.IH [OF 2] by (auto intro: same_frame_trans)
qed simp

definition batch_outcome ::
    "TrackedResource list \<Rightarrow> ResourceCleanupManager \<Rightarrow> ResourceCleanupManager \<Rightarrow> ResourceCleanupResult list \<Rightarrow> goerror list \<Rightarrow> bool" where
  "batch_outcome rs rcm rcm' xs errors \<longleftrightarrow>
     mset (map rr_Resource xs) \<subseteq># mset rs \<and> list_all honest_result xs \<and> same_frame rcm rcm' \<and>
     length errors = length (filter (\<lambda>x. \<not> rr_Success x) xs) \<and>
     (\<not> rcm_client rcm \<longrightarrow> rcm' = rcm \<and> list_all (\<lambda>x. rr_Success x = cc_DryRun (rcm_config rcm)) xs)"

lemma processBatch_outcome:
  assumes "processBatch ord ord' strategy rs rcm = Some (rcm', xs, errors)"
  shows "batch_outcome rs rcm rcm' xs errors \<and> mset (map rr_Resource xs) = mset rs"
proof -
  have c: "clean_each strategy (arrange ord rs) rcm = (rcm', xs)"
    "errors = arrange ord' (map cleanup_error (filter (\<lambda>x. \<not> rr_Success x \<and> rr_Error x \<noteq> []) xs))"
    using assms by (auto simp: processBatch_def Let_def split: if_splits prod.splits)
  note o = clean_each_outcome [OF c(1)]
  then have "filter (\<lambda>x. \<not> rr_Success x \<and> rr_Error x \<noteq> []) xs = filter (\<lambda>x. \<not> rr_Success x) xs"
    by (intro filter_cong) (auto simp: list_all_iff honest_result_def)
  moreover have "mset (map rr_Resource xs) = mset rs" using o by (metis mset_arrange)
  ultimately show ?thesis using o c(2) by (simp add: batch_outcome_def del: mset_map)
qed

lemma processBatch_total:
  assumes "0 \<le> cc_MaxConcurrentCleanups (rcm_config rcm)"
  shows "\<exists>rcm' xs errors. processBatch ord ord' strategy rs rcm = Some (rcm', xs, errors)"
  using assms by (cases "clean_each strategy (arrange ord rs) rcm") (simp add: processBatch_def Let_def)

lemma batch_loop_outcome:
  assumes "batch_loop env b i strategy rs rcm = Some (rcm', xs, errors, err)"
  shows "batch_outcome rs rcm rcm' xs errors \<and> (err = None \<longrightarrow> mset (map rr_Resource xs) = mset rs) \<and>
    ((\<forall>j. ce_done env j = None) \<longrightarrow> err = None)"
  using assms
proof (induction env b i strategy rs rcm arbitrary: xs errors rule: batch_loop.induct)
  case (1 env b i strategy rs rcm)
  show ?case
  proof (cases "rs = [] \<or> b \<le> 0")
    case True
    then show ?thesis using "1.prems" by (auto simp: batch_loop.simps [of env b i strategy rs] batch_outcome_def split: if_splits)
  next
    case False
    then obtain rcm1 ys es where p: "processBatch (ce_results env i) (ce_errors env i) strategy (take (nat b) rs) rcm = Some (rcm1, ys, es)"
      using "1.prems" by (auto simp: batch_loop.simps [of env b i strategy rs] split: option.splits prod.splits)
    note o = processBatch_outcome [OF p]
    have split: "mset rs = mset (take (nat b) rs) + mset (drop (nat b) rs)"
      by (metis append_take_drop_id mset_append)
    show ?thesis
    proof (cases "ce_done env i")
      case (Some e)
      then have "xs = ys" "errors = es" "rcm' = rcm1" "err = Some e"
        using "1.prems" False p by (auto simp: batch_loop.simps [of env b i strategy rs])
      then show ?thesis using o split Some by (auto simp: batch_outcome_def)
    next
      case None
      then obtain zs fs where z: "batch_loop env b (i + 1) strategy (drop (nat b) rs) rcm1 = Some (rcm', zs, fs, err)"
        "xs = ys @ zs" "errors = es @ fs"
        using "1.prems" False p by (auto simp: batch_loop.simps [of env b i strategy rs])
      have "batch_outcome (drop (nat b) rs) rcm1 rcm' zs fs \<and> (err = None \<longrightarrow> mset (map rr_Resource zs) = mset (drop (nat b) rs)) \<and>
          ((\<forall>j. ce_done env j = None) \<longrightarrow> err = None)"
        using "1.IH" [of "(rcm1, ys, es)" rcm1 "(ys, es)" ys es] False p None z(1) by auto
      then show ?thesis using o split z(2, 3)
        by (auto simp: batch_outcome_def intro: same_frame_trans subset_mset.add_mono)
    qed
  qed
qed

lemma batch_loop_total:
  assumes "0 < b" "0 \<le> cc_MaxConcurrentCleanups (rcm_config rcm)"
  shows "\<exists>res. batch_loop env b i strategy rs rcm = Some res"
  using assms
proof (induction env b i strategy rs rcm rule: batch_loop.induct)
  case (1 env b i strategy rs rcm)
  show ?case
  proof (cases "rs = []")
    case False
    obtain rcm1 ys es where p: "processBatch (ce_results env i) (ce_errors env i) strategy (take (nat b) rs) rcm = Some (rcm1, ys, es)"
      using processBatch_total "1.prems"(2) by blast
    then have "0 \<le> cc_MaxConcurrentCleanups (rcm_config rcm1)"
      using processBatch_outcome [OF p] "1.prems"(2) by (simp add: batch_outcome_def same_frame_def)
    then show ?thesis
      using "1.IH" [of "(rcm1, ys, es)" rcm1 "(ys, es)" ys es] False p "1.prems"(1)
      by (cases "ce_done env i") (fastforce simp: batch_loop.simps [of env b i strategy rs])+
  qed (simp add: batch_loop.simps)
qed

section \<open>Whole operations\<close>

definition sizes_ok :: "ResourceCleanupManager \<Rightarrow> bool" where
  "sizes_ok rcm \<longleftrightarrow> 0 \<le> cc_CleanupBatchSize (rcm_config rcm) \<and> 0 \<le> cc_MaxConcurrentCleanups (rcm_config rcm)"

lemma fold_count_cleanup:
  "cm_ResourcesCleanedUp (fold count_cleanup xs m) = cm_ResourcesCleanedUp m + int (length (filter rr_Success xs)) \<and>
   cm_ResourcesSkipped (fold count_cleanup xs m) = cm_ResourcesSkipped m + int (length (filter (\<lambda>x. \<not> rr_Success x) xs)) \<and>
   cm_TotalCleanups (fold count_cleanup xs m) = cm_TotalCleanups m \<and>
   cm_SuccessfulCleanups (fold count_cleanup xs m) = cm_SuccessfulCleanups m \<and>
   cm_FailedCleanups (fold count_cleanup xs m) = cm_FailedCleanups m \<and>
   cm_TotalCleanupTime (fold count_cleanup xs m) = cm_TotalCleanupTime m \<and>
   cm_AverageCleanupTime (fold count_cleanup xs m) = cm_AverageCleanupTime m"
  by (induction xs arbitrary: m) (simp_all add: count_cleanup_def)

lemma updateCleanupMetrics_fields [simp]:
  "rcm_config (updateCleanupMetrics now xs rcm) = rcm_config rcm"
  "rcm_client (updateCleanupMetrics now xs rcm) = rcm_client rcm"
  "cleanupHistory (updateCleanupMetrics now xs rcm) = cleanupHistory rcm"
  "trackedContainers (updateCleanupMetrics now xs rcm) = trackedContainers rcm"
  "trackedNetworks (updateCleanupMetrics now xs rcm) = trackedNetworks rcm"
  "trackedVolumes (updateCleanupMetrics now xs rcm) = trackedVolumes rcm"
  by (simp_all add: updateCleanupMetrics_def Let_def)

lemma recordCleanupOperation_fields [simp]:
  "rcm_config (recordCleanupOperation x rcm) = rcm_config rcm"
  "rcm_client (recordCleanupOperation x rcm) = rcm_client rcm"
  "rcm_metrics (recordCleanupOperation x rcm) = rcm_metrics rcm"
  "trackedContainers (recordCleanupOperation x rcm) = trackedContainers rcm"
  "trackedNetworks (recordCleanupOperation x rcm) = trackedNetworks rcm"
  "trackedVolumes (recordCleanupOperation x rcm) = trackedVolumes rcm"
  "cleanupHistory (recordCleanupOperation x rcm) = last_n 100 (cleanupHistory rcm @ [x])"
  by (simp_all add: recordCleanupOperation_def Let_def last_n_def)

interpretation cleanup_history: bounded_history recordCleanupOperation cleanupHistory "\<lambda>_. 100"
  "\<lambda>rcm. length (cleanupHistory rcm) \<le> 100"
  by unfold_locales simp_all

text \<open>What one of the four operations does to the manager and to its history.\<close>

lemma perform_operation_outcome:
  assumes "perform_operation name trigger dry clk env rs strategy rcm = Some (rcm', err)"
    "length (cleanupHistory rcm) \<le> 100"
  obtains rcm1 xs errors cerr where
    "batch_outcome rs rcm rcm1 xs errors" "cerr = None \<longrightarrow> mset (map rr_Resource xs) = mset rs"
    "rcm' = recordCleanupOperation (last (cleanupHistory rcm'))
       (if cerr = None then updateCleanupMetrics (oc_mid clk) xs rcm1 else rcm1)"
    "co_Results (last (cleanupHistory rcm')) = xs" "co_Success (last (cleanupHistory rcm')) = (err = None)"
    "co_Trigger (last (cleanupHistory rcm')) = trigger" "co_Resources (last (cleanupHistory rcm')) = rs"
    "cerr = None \<longrightarrow> (err = None) = list_all rr_Success xs" "cerr \<noteq> None \<longrightarrow> err = cerr"
    "(\<forall>j. ce_done env j = None) \<longrightarrow> cerr = None" "rs = [] \<longrightarrow> cerr = None"
proof -
  obtain rcm2 xs where ex: "executeCleanup env (oc_mid clk) rs strategy rcm = Some (rcm2, xs, err)"
    using assms(1) by (auto simp: perform_operation_def split: option.splits)
  define b where "b = (if cc_CleanupBatchSize (rcm_config rcm) = 0 then 10 else cc_CleanupBatchSize (rcm_config rcm))"
  obtain rcm1 errors cerr where bl: "batch_loop env b 0 strategy rs rcm = Some (rcm1, xs, errors, cerr)"
    "rcm2 = (if cerr = None then updateCleanupMetrics (oc_mid clk) xs rcm1 else rcm1)"
    "cerr = None \<longrightarrow> (err = None) = (errors = [])" "cerr \<noteq> None \<longrightarrow> err = cerr"
    using ex by (auto simp: executeCleanup_def Let_def simp flip: b_def split: option.splits prod.splits)
  note o = batch_loop_outcome [OF bl(1)]
  have "(errors = []) = list_all rr_Success xs"
  proof -
    have "length errors = length (filter (\<lambda>x. \<not> rr_Success x) xs)" using o by (simp add: batch_outcome_def)
    then have "(errors = []) = (filter (\<lambda>x. \<not> rr_Success x) xs = [])" by (metis length_0_conv)
    then show ?thesis by (simp add: filter_empty_conv list_all_iff)
  qed
  moreover have "\<exists>x. rcm' = recordCleanupOperation x rcm2 \<and> co_Results x = xs \<and> co_Success x = (err = None) \<and> co_Trigger x = trigger \<and> co_Resources x = rs"
    using assms(1) ex by (fastforce simp: perform_operation_def)
  then obtain x where x: "rcm' = recordCleanupOperation x rcm2" "co_Results x = xs" "co_Success x = (err = None)"
    "co_Trigger x = trigger" "co_Resources x = rs" by blast
  moreover have "length (cleanupHistory rcm2) \<le> 100" using o bl(2) assms(2) by (simp add: batch_outcome_def same_frame_def)
  then have "last (cleanupHistory rcm') = x" using x(1) cleanup_history.push_keeps_newest by simp
  moreover have "cerr = None" if "rs = []" using bl(1) that by (simp add: batch_loop.simps)
  ultimately show ?thesis using bl o by (intro that [of rcm1 xs errors cerr]) auto
qed

lemma perform_operation_total:
  assumes "sizes_ok rcm"
  shows "\<exists>rcm' err. perform_operation name trigger dry clk env rs strategy rcm = Some (rcm', err)"
proof -
  define b where "b = (if cc_CleanupBatchSize (rcm_config rcm) = 0 then 10 else cc_CleanupBatchSize (rcm_config rcm))"
  have "0 < b" "0 \<le> cc_MaxConcurrentCleanups (rcm_config rcm)" using assms by (simp_all add: sizes_ok_def b_def)
  then obtain rcm1 xs errors cerr where "batch_loop env b 0 strategy rs rcm = Some (rcm1, xs, errors, cerr)"
    using batch_loop_total by (metis prod_cases4)
  then show ?thesis
    by (cases cerr) (simp_all add: perform_operation_def executeCleanup_def Let_def flip: b_def)
qed

section \<open>Runs\<close>

inductive rcm_step :: "ResourceCleanupManager \<Rightarrow> ResourceCleanupManager \<Rightarrow> bool" where
  tracks: "rcm_step rcm (TrackResource r rcm)"
| untracks: "rcm_step rcm (UntrackResource n ty rcm)"
| after_error: "CleanupAfterError clk sel env d rcm = Some (rcm', err) \<Longrightarrow> rcm_step rcm rcm'"
| cleans: "PerformCleanup clk sel env rcm = Some (rcm', err) \<Longrightarrow> rcm_step rcm rcm'"
| cleans_all: "PerformAggressiveCleanup clk sel env rcm = Some (rcm', err) \<Longrightarrow> rcm_step rcm rcm'"
| cleans_finally: "PerformFinalCleanup clk sel env rcm = Some (rcm', err) \<Longrightarrow> rcm_step rcm rcm'"
| shuts_down: "rcm_Shutdown clk sel env rcm = Some (rcm', err) \<Longrightarrow> rcm_step rcm rcm'"
| ticks: "periodicCleanupLoop clk sel env rcm = Some rcm' \<Longrightarrow> rcm_step rcm rcm'"

text \<open>Each operation is a tracking call, leaves the manager alone, or is one cleanup operation.\<close>

lemma rcm_step_cases:
  assumes "rcm_step rcm rcm'"
  obtains r where "rcm' = TrackResource r rcm" | n ty where "rcm' = UntrackResource n ty rcm" | "rcm' = rcm"
  | name trigger dry clk env rs strategy err where
      "perform_operation name trigger dry clk env rs strategy rcm = Some (rcm', err)"
  | name trigger dry clk env rs strategy err where
      "perform_operation name trigger dry clk env rs strategy (rcm\<lparr>rcm_stopped := True\<rparr>) = Some (rcm', err)"
  using assms
  by (cases rule: rcm_step.cases)
    (auto simp: CleanupAfterError_def PerformCleanup_def PerformAggressiveCleanup_def PerformFinalCleanup_def
      rcm_Shutdown_def periodicCleanupLoop_def Let_def split: if_splits)

definition keyed :: "ResourceType \<Rightarrow> (string, TrackedResource) gomap \<Rightarrow> bool" where
  "keyed ty m \<longleftrightarrow> gomap_ok m \<and> (\<forall>(k, r) \<in> set m. tr_ID r = k \<and> tr_Type r = ty)"

definition metrics_sum :: "CleanupMetrics \<Rightarrow> bool" where
  "metrics_sum m \<longleftrightarrow> cm_TotalCleanups m = cm_SuccessfulCleanups m + cm_FailedCleanups m \<and>
     0 \<le> cm_SuccessfulCleanups m \<and> 0 \<le> cm_FailedCleanups m \<and> 0 \<le> cm_ResourcesCleanedUp m \<and> 0 \<le> cm_ResourcesSkipped m \<and>
     cm_TotalCleanupTime m = 0 \<and> cm_AverageCleanupTime m = 0"

definition rcm_inv :: "ResourceCleanupManager \<Rightarrow> bool" where
  "rcm_inv rcm \<longleftrightarrow> keyed ResourceTypeContainer (trackedContainers rcm) \<and> keyed ResourceTypeNetwork (trackedNetworks rcm) \<and>
     keyed ResourceTypeVolume (trackedVolumes rcm) \<and> length (cleanupHistory rcm) \<le> 100 \<and> metrics_sum (rcm_metrics rcm)"

lemma keyed_submap: "keyed ty m \<Longrightarrow> submap m' m \<Longrightarrow> keyed ty m'"
  by (auto simp: keyed_def submap_def)

lemma keyed_update: "keyed ty m \<Longrightarrow> tr_Type r = ty \<Longrightarrow> keyed ty (AList.update (tr_ID r) r m)"
proof -
  assume m: "keyed ty m" "tr_Type r = ty"
  have "set (AList.update (tr_ID r) r m) \<subseteq> insert (tr_ID r, r) (set m)" by (induction m) auto
  with m show ?thesis by (auto simp: keyed_def)
qed

lemma updateCleanupMetrics_sum: "metrics_sum (rcm_metrics rcm) \<Longrightarrow> metrics_sum (rcm_metrics (updateCleanupMetrics now xs rcm))"
  using fold_count_cleanup [of xs "(rcm_metrics rcm)\<lparr>cm_TotalCleanups := cm_TotalCleanups (rcm_metrics rcm) + 1\<rparr>"]
  by (simp add: updateCleanupMetrics_def metrics_sum_def Let_def)

lemma perform_operation_inv:
  assumes "perform_operation name trigger dry clk env rs strategy rcm = Some (rcm', err)" "rcm_inv rcm"
  shows "rcm_inv rcm'"
proof -
  have h: "length (cleanupHistory rcm) \<le> 100" using assms(2) by (simp add: rcm_inv_def)
  obtain rcm1 xs errors and cerr :: "goerror option" where o: "batch_outcome rs rcm rcm1 xs errors"
    "rcm' = recordCleanupOperation (last (cleanupHistory rcm'))
       (if cerr = None then updateCleanupMetrics (oc_mid clk) xs rcm1 else rcm1)"
    by (rule perform_operation_outcome [OF assms(1) h], rule that)
  have f: "same_frame rcm rcm1" using o(1) by (simp add: batch_outcome_def)
  then have "rcm_inv rcm1" using assms(2) by (auto simp: rcm_inv_def same_frame_def intro: keyed_submap)
  then have "rcm_inv (if cerr = None then updateCleanupMetrics (oc_mid clk) xs rcm1 else rcm1)"
    using updateCleanupMetrics_sum by (simp add: rcm_inv_def)
  then have "rcm_inv (recordCleanupOperation (last (cleanupHistory rcm'))
      (if cerr = None then updateCleanupMetrics (oc_mid clk) xs rcm1 else rcm1))"
    by (simp add: rcm_inv_def)
  then show ?thesis using o(2) by simp
qed

lemma rcm_step_inv:
  assumes "rcm_step rcm rcm'" "rcm_inv rcm"
  shows "rcm_inv rcm'"
  using assms(1)
proof (cases rule: rcm_step_cases)
  case (1 r)
  then show ?thesis using assms(2) by (auto simp: TrackResource_def rcm_inv_def metrics_sum_def Let_def intro: keyed_update)
next
  case (2 n ty)
  then show ?thesis using assms(2)
    by (auto simp: UntrackResource_def rcm_inv_def intro: keyed_submap)
next
  case 3
  then show ?thesis using assms(2) by simp
next
  case 4
  then show ?thesis using perform_operation_inv assms(2) by blast
next
  case 5
  moreover have "rcm_inv (rcm\<lparr>rcm_stopped := True\<rparr>)" using assms(2) by (simp add: rcm_inv_def)
  ultimately show ?thesis using perform_operation_inv by blast
qed

lemma rcm_steps_inv: "rcm_step\<^sup>*\<^sup>* rcm rcm' \<Longrightarrow> rcm_inv rcm \<Longrightarrow> rcm_inv rcm'"
  by (induction rule: rtranclp_induct) (auto intro: rcm_step_inv)

lemma new_rcm_inv: "rcm_inv (NewResourceCleanupManager config)"
  by (simp add: rcm_inv_def NewResourceCleanupManager_def keyed_def metrics_sum_def)

section \<open>Selection\<close>

definition tracked :: "ResourceCleanupManager \<Rightarrow> TrackedResource set" where
  "tracked rcm = snd ` (set (trackedContainers rcm) \<union> set (trackedNetworks rcm) \<union> set (trackedVolumes rcm))"

lemma set_all_tracked:
  assumes "rcm_inv rcm"
  shows "set (getAllTrackedResourcesInternal ord rcm) = tracked rcm"
  using assms by (auto simp: getAllTrackedResourcesInternal_def tracked_def rcm_inv_def keyed_def)

lemma selected_iff:
  "should_clean now now' strategy rcm r \<longleftrightarrow>
     (CleanupTemporary strategy \<and> tr_Temporary r \<or>
      CleanupExpired strategy \<and> cc_ResourceMaxAge (rcm_config rcm) > 0 \<and>
        Sub now (tr_CreatedAt r) > cc_ResourceMaxAge (rcm_config rcm) \<or>
      CleanupOrphaned strategy \<and> isOrphanedResource now' rcm r) \<and>
     (tr_Protected r \<longrightarrow> IgnoreProtected strategy) \<and> (tr_Diagnostic r \<longrightarrow> \<not> PreserveDiagnostic strategy)"
  by (simp add: should_clean_def Let_def)

lemma selected_tracked:
  assumes "r \<in> set (getResourcesForCleanup ord now clock strategy rcm)"
  obtains i where "r \<in> set (getAllTrackedResourcesInternal ord rcm)" "should_clean now (clock i) strategy rcm r"
  using assms by (auto simp: getResourcesForCleanup_def in_set_enumerate_eq)

lemma tracked_selected:
  assumes "r \<in> set (getAllTrackedResourcesInternal ord rcm)" "\<forall>i. should_clean now (clock i) strategy rcm r"
  shows "r \<in> set (getResourcesForCleanup ord now clock strategy rcm)"
proof -
  obtain i where "i < length (getAllTrackedResourcesInternal ord rcm)" "getAllTrackedResourcesInternal ord rcm ! i = r"
    using assms(1) by (auto simp: in_set_conv_nth)
  then have "(i, r) \<in> set (enumerate 0 (getAllTrackedResourcesInternal ord rcm))" by (auto simp: in_set_enumerate_eq)
  then show ?thesis using assms(2) by (force simp: getResourcesForCleanup_def)
qed

section \<open>Properties\<close>

text \<open>
  A cleanup processes its whole selection exactly once: with non-negative sizes and a live context
  \<^verbatim>\<open>PerformCleanup\<close> returns for every batch size and every order in which the goroutines finish, its
  results are those of the selected resources, each once, the operation is the newest of at most a
  hundred in the history, and it reports an error exactly when some resource was not cleaned.
\<close>

lemma cleanup_covers_selection:
  assumes "sizes_ok rcm" "rcm_inv rcm" "\<forall>i. ce_done env i = None"
  shows "\<exists>rcm' err. PerformCleanup clk sel env rcm = Some (rcm', err) \<and> length (cleanupHistory rcm') \<le> 100 \<and>
     co_Resources (last (cleanupHistory rcm')) =
       getResourcesForCleanup (se_ord sel) (se_now sel) (se_clock sel) (manual_strategy rcm) rcm \<and>
     mset (map rr_Resource (co_Results (last (cleanupHistory rcm')))) = mset (co_Resources (last (cleanupHistory rcm'))) \<and>
     (err = None \<longleftrightarrow> list_all rr_Success (co_Results (last (cleanupHistory rcm')))) \<and>
     cm_TotalCleanups (rcm_metrics rcm') = cm_TotalCleanups (rcm_metrics rcm) + 1"
proof -
  let ?rs = "getResourcesForCleanup (se_ord sel) (se_now sel) (se_clock sel) (manual_strategy rcm) rcm"
  obtain rcm' err where run: "PerformCleanup clk sel env rcm = Some (rcm', err)"
    using perform_operation_total [OF assms(1)] by (metis PerformCleanup_def)
  note p = run [unfolded PerformCleanup_def]
  have h: "length (cleanupHistory rcm) \<le> 100" using assms(2) by (simp add: rcm_inv_def)
  obtain rcm1 xs errors and cerr :: "goerror option" where o: "batch_outcome ?rs rcm rcm1 xs errors" "cerr = None"
    "mset (map rr_Resource xs) = mset ?rs"
    "rcm' = recordCleanupOperation (last (cleanupHistory rcm')) (updateCleanupMetrics (oc_mid clk) xs rcm1)"
    "co_Results (last (cleanupHistory rcm')) = xs" "co_Resources (last (cleanupHistory rcm')) = ?rs"
    "(err = None) = list_all rr_Success xs"
    by (rule perform_operation_outcome [OF p h]) (use assms(3) in simp)
  have "rcm_metrics rcm' = rcm_metrics (updateCleanupMetrics (oc_mid clk) xs rcm1)" using o(4) by (metis recordCleanupOperation_fields(3))
  moreover have "cm_TotalCleanups (rcm_metrics (updateCleanupMetrics (oc_mid clk) xs rcm1)) = cm_TotalCleanups (rcm_metrics rcm) + 1"
    using o(1) fold_count_cleanup by (simp add: updateCleanupMetrics_def batch_outcome_def same_frame_def Let_def)
  moreover have "length (cleanupHistory rcm') \<le> 100" using perform_operation_inv [OF p assms(2)] by (simp add: rcm_inv_def)
  ultimately show ?thesis using run o by auto
qed

definition idle_env :: cleanup_env where
  "idle_env = \<lparr>ce_results = (\<lambda>_. []), ce_errors = (\<lambda>_. []), ce_done = (\<lambda>_. None)\<rparr>"

definition noon :: op_clock where
  "noon = \<lparr>oc_id = 0, oc_start = 0, oc_mid = 1, oc_end = 2\<rparr>"

definition plain_select :: select_env where
  "plain_select = \<lparr>se_ord = (\<lambda>_. []), se_now = 0, se_clock = (\<lambda>_. 0)\<rparr>"

text \<open>
  C14: Protected resources are safe from ordinary cleanups: what \<^verbatim>\<open>PerformCleanup\<close> and
  \<^verbatim>\<open>CleanupAfterError\<close> select is tracked, never protected, and never diagnostic while debug data is
  preserved, for every error, clock and iteration order; and every temporary resource without such
  protection is selected.
\<close>

theorem cleanup_respects_protection:
  assumes "rcm_inv rcm" "strategy = manual_strategy rcm \<or> strategy = selectCleanupStrategy d rcm"
  shows "(\<forall>r \<in> set (getResourcesForCleanup ord now clock strategy rcm).
           r \<in> tracked rcm \<and> \<not> tr_Protected r \<and> \<not> (tr_Diagnostic r \<and> cc_PreserveDebugData (rcm_config rcm))) \<and>
         (\<forall>r \<in> tracked rcm. tr_Temporary r \<and> \<not> tr_Protected r \<and> \<not> (tr_Diagnostic r \<and> cc_PreserveDebugData (rcm_config rcm)) \<longrightarrow>
           r \<in> set (getResourcesForCleanup ord now clock strategy rcm))"
proof -
  have s: "CleanupTemporary strategy" "\<not> IgnoreProtected strategy" "PreserveDiagnostic strategy = cc_PreserveDebugData (rcm_config rcm)"
    using assms(2) by (auto simp: manual_strategy_def selectCleanupStrategy_def Let_def split: ErrorType.splits if_splits)
  have A: "\<forall>r \<in> set (getResourcesForCleanup ord now clock strategy rcm).
           r \<in> tracked rcm \<and> \<not> tr_Protected r \<and> \<not> (tr_Diagnostic r \<and> cc_PreserveDebugData (rcm_config rcm))"
    using s set_all_tracked [OF assms(1), of ord] by (auto elim!: selected_tracked simp: selected_iff)
  have "\<forall>r \<in> tracked rcm. tr_Temporary r \<and> \<not> tr_Protected r \<and> \<not> (tr_Diagnostic r \<and> cc_PreserveDebugData (rcm_config rcm)) \<longrightarrow>
           r \<in> set (getResourcesForCleanup ord now clock strategy rcm)"
    using s set_all_tracked [OF assms(1), of ord] by (auto intro!: tracked_selected simp: selected_iff)
  with A show ?thesis by blast
qed

definition scratch_container :: TrackedResource where
  "scratch_container =
     \<lparr>tr_ID = ''c1'', tr_Name = ''probe'', tr_Type = ResourceTypeContainer, tr_CreatedAt = 0, tr_LastUsed = 0, tr_Tags = [],
      tr_Protected = False, tr_Diagnostic = True, tr_Temporary = True, tr_CreatedBy = ''dns'', tr_DependsOn = [],
      tr_DependedBy = []\<rparr>"

theorem cleanup_respects_protection_witness:
  "scratch_container \<in> set (getResourcesForCleanup (\<lambda>_. []) 5 (\<lambda>_. 5)
     (manual_strategy (TrackResource scratch_container (NewResourceCleanupManager None)))
     (TrackResource scratch_container (NewResourceCleanupManager None)))"
proof -
  let ?m = "TrackResource scratch_container (NewResourceCleanupManager None)"
  have "rcm_inv ?m" using rcm_step_inv [OF tracks] new_rcm_inv by blast
  moreover have "scratch_container \<in> tracked ?m" "\<not> cc_PreserveDebugData (rcm_config ?m)"
    by (simp_all add: tracked_def TrackResource_def NewResourceCleanupManager_def scratch_container_def
        default_cleanup_config_def)
  ultimately show ?thesis
    using cleanup_respects_protection [of ?m "manual_strategy ?m"] by (fastforce simp: scratch_container_def)
qed

text \<open>
  The bookkeeping of cleanups is consistent after any history of tracking and cleanup calls: every
  counted cleanup succeeded or failed, the efficiency is between 0 and 1, the history is bounded, and
  every tracked resource is found under its own identifier. The average cleanup time is always 0,
  because nothing adds to the total time it is computed from.
\<close>

lemma cleanup_metrics_consistent:
  assumes "rcm_step\<^sup>*\<^sup>* (NewResourceCleanupManager config) rcm" "cm_TotalCleanups (rcm_metrics rcm) < 2 ^ 63"
  shows "cm_TotalCleanups (rcm_GetMetrics now rcm) =
           cm_SuccessfulCleanups (rcm_GetMetrics now rcm) + cm_FailedCleanups (rcm_GetMetrics now rcm) \<and>
         (0 < cm_TotalCleanups (rcm_GetMetrics now rcm) \<longrightarrow>
            (\<exists>r. cm_CleanupEfficiency (rcm_GetMetrics now rcm) = Fin r \<and> 0 \<le> r \<and> r \<le> 1)) \<and>
         cm_AverageCleanupTime (rcm_GetMetrics now rcm) = 0 \<and>
         length (cleanupHistory rcm) \<le> 100 \<and> (\<forall>r \<in> tracked rcm. resourceExists (tr_ID r) rcm)"
proof -
  have inv: "rcm_inv rcm" using rcm_steps_inv [OF assms(1) new_rcm_inv] .
  let ?m = "rcm_metrics rcm"
  have m: "metrics_sum ?m" using inv by (simp add: rcm_inv_def)
  have "\<exists>r. f_div (float64 (cm_SuccessfulCleanups ?m)) (float64 (cm_TotalCleanups ?m)) = Fin r \<and> 0 \<le> r \<and> r \<le> 1"
    if "0 < cm_TotalCleanups ?m"
    using m that assms(2) by (intro rate_unit_interval) (simp_all add: metrics_sum_def)
  moreover have "resourceExists (tr_ID r) rcm" if "r \<in> tracked rcm" for r
  proof -
    have "map_of x (tr_ID r) \<noteq> None" if x: "keyed ty x" "r \<in> snd ` set x" for ty x
    proof -
      obtain k where k: "(k, r) \<in> set x" using x(2) by auto
      then have "k = tr_ID r" using x(1) by (auto simp: keyed_def)
      then show ?thesis using k by (auto simp: map_of_eq_None_iff intro: rev_image_eqI)
    qed
    then show ?thesis using that inv unfolding resourceExists_def tracked_def rcm_inv_def by blast
  qed
  ultimately show ?thesis using m inv by (auto simp: rcm_GetMetrics_def metrics_sum_def rcm_inv_def go_quot_def Let_def)
qed

lemma perform_operation_client:
  assumes "perform_operation name trigger dry clk env rs strategy rcm = Some (rcm', err)" "length (cleanupHistory rcm) \<le> 100"
  shows "rcm_client rcm' = rcm_client rcm \<and> rcm_config rcm' = rcm_config rcm"
proof -
  obtain rcm1 xs errors and cerr :: "goerror option" where o: "batch_outcome rs rcm rcm1 xs errors"
    "rcm' = recordCleanupOperation (last (cleanupHistory rcm'))
       (if cerr = None then updateCleanupMetrics (oc_mid clk) xs rcm1 else rcm1)"
    by (rule perform_operation_outcome [OF assms]) blast
  have "rcm_client (recordCleanupOperation x (if cerr = None then updateCleanupMetrics t xs rcm1 else rcm1)) = rcm_client rcm1"
    "rcm_config (recordCleanupOperation x (if cerr = None then updateCleanupMetrics t xs rcm1 else rcm1)) = rcm_config rcm1" for x t
    by simp_all
  then have "rcm_client rcm' = rcm_client rcm1" "rcm_config rcm' = rcm_config rcm1" using o(2) by metis+
  then show ?thesis using o(1) by (simp add: batch_outcome_def same_frame_def)
qed

lemma client_const:
  assumes "rcm_step rcm rcm'" "rcm_inv rcm"
  shows "rcm_client rcm' = rcm_client rcm \<and> rcm_config rcm' = rcm_config rcm"
  using assms(1)
proof (cases rule: rcm_step_cases)
  case 4
  then show ?thesis using perform_operation_client assms(2) by (simp add: rcm_inv_def)
next
  case 5
  from perform_operation_client [OF 5] assms(2) show ?thesis by (simp add: rcm_inv_def)
qed (simp_all add: TrackResource_def UntrackResource_def Let_def)

lemma no_client_run:
  assumes "rcm_step\<^sup>*\<^sup>* (NewResourceCleanupManager config) rcm"
  shows "\<not> rcm_client rcm \<and> rcm_inv rcm \<and> rcm_config rcm = rcm_config (NewResourceCleanupManager config)"
  using assms
proof (induction rule: rtranclp_induct)
  case base
  then show ?case using new_rcm_inv by (simp add: NewResourceCleanupManager_def)
next
  case (step y z)
  then show ?case using client_const rcm_step_inv by metis
qed

text \<open>
  No cleanup ever removes anything: the constructor leaves the manager without a Docker client
  and nothing sets one, so outside dry-run mode even the aggressive cleanup of a manager that tracks a
  resource ends in an error and tracks exactly the same resources afterwards.
\<close>

lemma cleanup_removes_nothing:
  assumes "rcm_step\<^sup>*\<^sup>* (NewResourceCleanupManager config) rcm" "\<not> cc_DryRun (rcm_config rcm)" "r \<in> tracked rcm"
    "PerformAggressiveCleanup clk sel env rcm = Some (rcm', err)"
  shows "err \<noteq> None \<and> tracked rcm' = tracked rcm"
proof -
  note nc = no_client_run [OF assms(1)]
  have h: "length (cleanupHistory rcm) \<le> 100" using nc by (simp add: rcm_inv_def)
  note p = assms(4) [unfolded PerformAggressiveCleanup_def]
  let ?rs = "getAllTrackedResources (se_ord sel) rcm"
  obtain rcm1 xs errors and cerr :: "goerror option" where o: "batch_outcome ?rs rcm rcm1 xs errors"
    "cerr = None \<longrightarrow> mset (map rr_Resource xs) = mset ?rs"
    "rcm' = recordCleanupOperation (last (cleanupHistory rcm')) (if cerr = None then updateCleanupMetrics (oc_mid clk) xs rcm1 else rcm1)"
    "cerr = None \<longrightarrow> (err = None) = list_all rr_Success xs" "cerr \<noteq> None \<longrightarrow> err = cerr"
    by (rule perform_operation_outcome [OF p h]) blast
  have rs: "rcm1 = rcm" "list_all (\<lambda>x. \<not> rr_Success x) xs" using o(1) nc assms(2) by (simp_all add: batch_outcome_def)
  have "r \<in> set ?rs" using assms(3) set_all_tracked nc by (auto simp: getAllTrackedResources_def)
  then have "err \<noteq> None" using o(2, 4, 5) rs(2) by (cases xs; cases cerr) auto
  moreover have "tracked (recordCleanupOperation x (if cerr = None then updateCleanupMetrics t xs rcm else rcm)) = tracked rcm" for x t
    by (simp add: tracked_def)
  then have "tracked rcm' = tracked rcm" using o(3) rs(1) by metis
  ultimately show ?thesis by blast
qed

text \<open>
  A maximal age of zero, which switches the age test off, makes every resource that was not used at
  this very moment an orphan.
\<close>

lemma zero_age_orphans:
  "cc_ResourceMaxAge (rcm_config rcm) = 0 \<Longrightarrow> tr_LastUsed r < now \<Longrightarrow> isOrphanedResource now rcm r"
  by (simp add: isOrphanedResource_def Sub_gt_iff max_duration_def)

text \<open>Shutting down also takes the protected temporary resources.\<close>

lemma shutdown_ignores_protection:
  "rcm_inv rcm \<Longrightarrow> r \<in> tracked rcm \<Longrightarrow> tr_Temporary r \<Longrightarrow> r \<in> set (getTemporaryResources ord rcm)"
  by (simp add: getTemporaryResources_def getAllTrackedResources_def set_all_tracked)

end
