(* ===== verification/Error_Recovery.thy ===== *)
theory Error_Recovery
  imports Circuit_Breaker Retry_Policy Resource_Cleanup
begin

text \<open>
  The error recovery system of \<^verbatim>\<open>internal/diagnostics/error_recovery.go\<close>, which puts the circuit
  breaker, the retry policy and the cleanup manager together, with the \<^verbatim>\<open>RecoveryMetrics\<close> of
  \<^verbatim>\<open>error_types.go\<close>. A call of \<^verbatim>\<open>ExecuteWithRecovery\<close> has an environment: the clock at each place
  where the call reads it, the environment of the retried operation, the answers of the Docker
  daemon to a ping, and the environments of the cleanups it may start. As in the cleanup manager,
  \<^term>\<open>None\<close> is a panic.
\<close>

section \<open>State\<close>

record RecoveryConfig =
  rc_MaxRetries :: int
  rc_BaseDelay :: Duration
  rc_MaxDelay :: Duration
  rc_BackoffStrategy :: BackoffStrategy
  rc_FailureThreshold :: int
  rc_RecoveryTimeout :: Duration
  rc_ConsecutiveSuccesses :: int
  rc_CleanupTimeout :: Duration
  rc_AutoCleanup :: bool
  rc_PreserveDebugData :: bool
  rc_EnableDegradation :: bool
  rc_MinimalChecksOnly :: bool
  rc_PartialResultsOK :: bool

record RecoveryMetrics =
  rm_TotalOperations :: int
  rm_TotalSuccesses :: int
  rm_TotalFailures :: int
  rm_SuccessfulRecoveries :: int
  rm_FailedRecoveries :: int
  rm_TotalExecutionTime :: Duration
  rm_AverageExecutionTime :: Duration
  rm_MaxExecutionTime :: Duration
  rm_ErrorsByType :: "(ErrorType, int) gomap"
  rm_ErrorsByCode :: "(ErrorCode, int) gomap"
  rm_ErrorsBySeverity :: "(Severity, int) gomap"
  rm_CircuitBreakerState :: CircuitState
  rm_CircuitBreakerFailures :: int
  rm_CircuitBreakerBlocks :: int
  rm_RecoveryRate :: f64
  rm_HealthScore :: f64
  rm_DegradationEnabled :: bool

text \<open>\<open>er_client\<close> says whether the system was given a Docker client.\<close>

record ErrorRecovery =
  er_client :: bool
  er_config :: RecoveryConfig
  er_circuitBreaker :: CircuitBreaker
  er_retryPolicy :: RetryPolicy
  er_cleanupManager :: ResourceCleanupManager
  er_metrics :: RecoveryMetrics

definition default_recovery_config :: RecoveryConfig where
  "default_recovery_config =
     \<lparr>rc_MaxRetries = 3, rc_BaseDelay = 500 * Millisecond, rc_MaxDelay = 30 * Second,
      rc_BackoffStrategy = ExponentialBackoff, rc_FailureThreshold = 5, rc_RecoveryTimeout = 30 * Second,
      rc_ConsecutiveSuccesses = 3, rc_CleanupTimeout = 10 * Second, rc_AutoCleanup = True,
      rc_PreserveDebugData = False, rc_EnableDegradation = True, rc_MinimalChecksOnly = False,
      rc_PartialResultsOK = True\<rparr>"

definition new_recovery_metrics :: RecoveryMetrics where
  "new_recovery_metrics =
     \<lparr>rm_TotalOperations = 0, rm_TotalSuccesses = 0, rm_TotalFailures = 0, rm_SuccessfulRecoveries = 0,
      rm_FailedRecoveries = 0, rm_TotalExecutionTime = 0, rm_AverageExecutionTime = 0, rm_MaxExecutionTime = 0,
      rm_ErrorsByType = [], rm_ErrorsByCode = [], rm_ErrorsBySeverity = [],
      rm_CircuitBreakerState = CircuitStateClosed, rm_CircuitBreakerFailures = 0, rm_CircuitBreakerBlocks = 0,
      rm_RecoveryRate = Fin 0, rm_HealthScore = Fin 0, rm_DegradationEnabled = False\<rparr>"

text \<open>The configurations handed to the three parts; the fields left out have Go's zero value.\<close>

definition recovery_breaker_config :: "RecoveryConfig \<Rightarrow> CircuitBreakerConfig" where
  "recovery_breaker_config c =
     \<lparr>FailureThreshold = rc_FailureThreshold c, FailureRate = Fin 0, MinRequestsThreshold = 0,
      RecoveryTimeout = rc_RecoveryTimeout c, ConsecutiveSuccesses = rc_ConsecutiveSuccesses c,
      HalfOpenMaxRequests = 0, ResetTimeout = 0, AdaptiveThresholds = False, RequestVolumeThreshold = 0\<rparr>"

definition recovery_retry_config :: "RecoveryConfig \<Rightarrow> RetryPolicyConfig" where
  "recovery_retry_config c =
     \<lparr>MaxRetries = rc_MaxRetries c, MaxDelay = rc_MaxDelay c, BaseDelay = rc_BaseDelay c,
      rp_BackoffStrategy = rc_BackoffStrategy c, BackoffMultiplier = Fin 0, JitterFactor = Fin 0,
      RetryableErrors = [], NonRetryableErrors = [], MaxRetryBudget = 0, RespectContext = False\<rparr>"

definition recovery_cleanup_config :: "RecoveryConfig \<Rightarrow> CleanupConfig" where
  "recovery_cleanup_config c =
     \<lparr>cc_Timeout = rc_CleanupTimeout c, cc_AutoCleanup = rc_AutoCleanup c, cc_DryRun = False,
      cc_PreserveDebugData = rc_PreserveDebugData c, cc_CleanupRetention = 0, cc_ResourceMaxAge = 0,
      cc_RequireConfirmation = False, cc_AllowForceCleanup = False, cc_BackupBeforeCleanup = False,
      cc_MaxConcurrentCleanups = 0, cc_CleanupBatchSize = 0, cc_EnablePeriodicCleanup = False,
      cc_PeriodicCleanupInterval = 0\<rparr>"

definition NewErrorRecovery :: "Time \<Rightarrow> bool \<Rightarrow> RecoveryConfig option \<Rightarrow> ErrorRecovery" where
  "NewErrorRecovery now client config =
     (let config = (case config of None \<Rightarrow> default_recovery_config | Some c \<Rightarrow> c)
      in \<lparr>er_client = client, er_config = config,
          er_circuitBreaker = NewCircuitBreaker now (Some (recovery_breaker_config config)),
          er_retryPolicy = NewRetryPolicy (Some (recovery_retry_config config)),
          er_cleanupManager = NewResourceCleanupManager (Some (recovery_cleanup_config config)),
          er_metrics = new_recovery_metrics\<rparr>)"

section \<open>Reading error texts\<close>

definition indexSubstring :: "string \<Rightarrow> string \<Rightarrow> int" where
  "indexSubstring s substr =
     (case find (\<lambda>i. slice s (nat i) (nat i + length substr) = substr) [0..int (length s) - int (length substr)] of
        Some i \<Rightarrow> i | None \<Rightarrow> - 1)"

definition containsString :: "string \<Rightarrow> string \<Rightarrow> bool" where
  "containsString s substr \<longleftrightarrow>
     length s \<ge> length substr \<and>
     (s = substr \<or>
      length s > length substr \<and>
      (slice s 0 (length substr) = substr \<or> slice s (length s - length substr) (length s) = substr \<or>
       indexSubstring s substr \<ge> 0))"

definition isDockerConnectionError :: "string \<Rightarrow> bool" where
  "isDockerConnectionError errorMsg = any_pattern containsString
     [''cannot connect to Docker daemon'', ''connection refused'', ''dial unix'', ''daemon not running'',
      ''permission denied''] errorMsg"

definition isResourceExhaustionError :: "string \<Rightarrow> bool" where
  "isResourceExhaustionError errorMsg = any_pattern containsString
     [''out of memory'', ''no space left'', ''resource temporarily unavailable'', ''too many open files'',
      ''cannot allocate memory''] errorMsg"

definition isNetworkError :: "string \<Rightarrow> bool" where
  "isNetworkError errorMsg = any_pattern containsString
     [''network not found'', ''no route to host'', ''connection timed out'', ''network unreachable'',
      ''dns resolution failed''] errorMsg"

definition detectResourceType :: "string \<Rightarrow> string" where
  "detectResourceType errorMsg =
     (if containsString errorMsg ''memory'' then ''memory''
      else if containsString errorMsg ''disk'' \<or> containsString errorMsg ''space'' then ''disk''
      else if containsString errorMsg ''files'' \<or> containsString errorMsg ''descriptors'' then ''file_descriptors''
      else ''unknown'')"

definition detectNetworkIssueType :: "string \<Rightarrow> string" where
  "detectNetworkIssueType errorMsg =
     (if containsString errorMsg ''dns'' then ''dns''
      else if containsString errorMsg ''route'' then ''routing''
      else if containsString errorMsg ''timeout'' then ''connectivity''
      else ''configuration'')"

section \<open>Classification and strategy\<close>

definition advice :: "string list \<Rightarrow> string list \<Rightarrow> RecoveryStrategy option" where
  "advice immediate longterm = Some (empty_strategy\<lparr>Immediate := immediate, LongTerm := longterm\<rparr>)"

definition classify_by_text :: "Time \<Rightarrow> goerror \<Rightarrow> DiagnosticError" where
  "classify_by_text now err =
     (let errorMsg = Error err in
      if isDockerConnectionError errorMsg
      then mk_diag ErrCodeDockerDaemonUnreachable ErrTypeConnection ''Docker daemon is unreachable'' (Some err)
             SeverityCritical [(''error_message'', CtxString errorMsg), (''timestamp'', CtxTime now)] zero_time
             (advice [''Check if Docker daemon is running'', ''Verify Docker socket permissions'',
                      ''Test Docker connectivity with '' @ [CHR 39] @ ''docker version'' @ [CHR 39]]
                     [''Monitor Docker daemon health'', ''Configure automatic Docker service restart''])
      else if errors_Is Canceled err \<or> errors_Is DeadlineExceeded err
      then mk_diag ErrCodeTimeout ErrTypeContext ''Operation cancelled or timed out'' (Some err) SeverityWarning
             [(''error_type'', CtxString ''context''), (''timeout'', CtxBool True)] zero_time
             (advice [''Retry with increased timeout'', ''Check system performance'']
                     [''Optimize diagnostic operations'', ''Consider running diagnostics during low load''])
      else if isResourceExhaustionError errorMsg
      then mk_diag ErrCodeResourceExhaustion ErrTypeResource ''System resources exhausted'' (Some err) SeverityCritical
             [(''error_message'', CtxString errorMsg), (''resource_type'', CtxString (detectResourceType errorMsg))] zero_time
             (advice [''Free up system resources'', ''Stop unnecessary containers'', ''Check disk space and memory usage'']
                     [''Monitor resource usage patterns'', ''Implement resource limits'', ''Scale system resources if needed''])
      else if isNetworkError errorMsg
      then mk_diag ErrCodeNetworkConfiguration ErrTypeNetwork ''Network configuration error'' (Some err) SeverityWarning
             [(''error_message'', CtxString errorMsg), (''network_type'', CtxString (detectNetworkIssueType errorMsg))] zero_time
             (advice [''Check network connectivity'', ''Verify network configuration'', ''Test DNS resolution'']
                     [''Review network architecture'', ''Monitor network performance''])
      else mk_diag ErrCodeGeneric ErrTypeSystem ''Unexpected error occurred'' (Some err) SeverityWarning
             [(''error_message'', CtxString errorMsg), (''timestamp'', CtxTime now)] zero_time
             (advice [''Retry the operation'', ''Check system health'']
                     [''Review logs for patterns'', ''Consider system maintenance'']))"

definition classifyError :: "Time \<Rightarrow> goerror \<Rightarrow> DiagnosticError" where
  "classifyError now err = (case err of Diag d \<Rightarrow> d | _ \<Rightarrow> classify_by_text now err)"

definition selectRecoveryStrategy :: "DiagnosticError \<Rightarrow> ErrorRecovery \<Rightarrow> RecoveryStrategy option" where
  "selectRecoveryStrategy d er =
     (if Recovery d \<noteq> None then Recovery d
      else case err_Type d of
             ErrTypeConnection \<Rightarrow>
               Some (empty_strategy\<lparr>RetryWithBackoff := True, rs_BackoffMultiplier := flit 2,
                 rs_MaxRetries := rc_MaxRetries (er_config er),
                 Immediate := [''Attempt to reconnect to Docker daemon'', ''Wait for daemon to become available'']\<rparr>)
           | ErrTypeResource \<Rightarrow>
               Some (empty_strategy\<lparr>CleanupResources := True, GracefulDegrade := rc_EnableDegradation (er_config er),
                 Immediate := [''Clean up unused resources'', ''Run minimal diagnostic checks'']\<rparr>)
           | ErrTypeNetwork \<Rightarrow>
               Some (empty_strategy\<lparr>RetryWithBackoff := True, NetworkRecovery := True,
                 Immediate := [''Reset network connections'', ''Verify network configuration'']\<rparr>)
           | _ \<Rightarrow> Some (empty_strategy\<lparr>RetryWithBackoff := True, rs_MaxRetries := 1\<rparr>))"

section \<open>Recovery actions\<close>

text \<open>
  The environment of one cleanup, and that of one call of \<^verbatim>\<open>HandleError\<close>: the clock of the
  classification, the cleanups it may start, the answers to the two pings, and whether the context
  ends the wait between them.
\<close>

record run_env =
  rn_clock :: op_clock
  rn_select :: select_env
  rn_cleanup :: cleanup_env

record handle_env =
  he_now :: Time
  he_manual :: run_env
  he_aggressive :: run_env
  he_after :: run_env
  he_ping :: "nat \<Rightarrow> goerror option"
  he_done :: "goerror option"

definition recoverDockerConnection :: "handle_env \<Rightarrow> ErrorRecovery \<Rightarrow> goerror option" where
  "recoverDockerConnection env er =
     (if er_client er \<and> he_ping env 0 = None then None
      else case he_done env of
             Some cerr \<Rightarrow> Some cerr
           | None \<Rightarrow> (if er_client er then he_ping env 1
                     else Some (ErrorString ''docker connection recovery failed'')))"

definition recoverFromResourceExhaustion ::
    "handle_env \<Rightarrow> ErrorRecovery \<Rightarrow> (ErrorRecovery \<times> goerror option) option" where
  "recoverFromResourceExhaustion env er =
     map_option (\<lambda>(rcm, err). (er\<lparr>er_cleanupManager := rcm\<rparr>, err))
       (PerformAggressiveCleanup (rn_clock (he_aggressive env)) (rn_select (he_aggressive env))
          (rn_cleanup (he_aggressive env)) (er_cleanupManager er))"

definition performNetworkRecovery :: "ErrorRecovery \<Rightarrow> goerror option" where
  "performNetworkRecovery er = None"

definition recoverNetworkConfiguration :: "ErrorRecovery \<Rightarrow> goerror option" where
  "recoverNetworkConfiguration er = performNetworkRecovery er"

definition enableGracefulDegradation :: "ErrorRecovery \<Rightarrow> ErrorRecovery" where
  "enableGracefulDegradation er = er\<lparr>er_metrics := (er_metrics er)\<lparr>rm_DegradationEnabled := True\<rparr>\<rparr>"

definition strategy_cleanup ::
    "handle_env \<Rightarrow> RecoveryStrategy \<Rightarrow> ErrorRecovery \<Rightarrow> (ErrorRecovery \<times> goerror option) option" where
  "strategy_cleanup env strategy er =
     (if CleanupResources strategy
      then map_option (\<lambda>(rcm, err). (er\<lparr>er_cleanupManager := rcm\<rparr>, err))
             (PerformCleanup (rn_clock (he_manual env)) (rn_select (he_manual env)) (rn_cleanup (he_manual env))
                (er_cleanupManager er))
      else Some (er, None))"

definition executeRecoveryStrategy ::
    "handle_env \<Rightarrow> RecoveryStrategy \<Rightarrow> DiagnosticError \<Rightarrow> ErrorRecovery \<Rightarrow> (ErrorRecovery \<times> goerror option) option" where
  "executeRecoveryStrategy env strategy d er =
     (case strategy_cleanup env strategy er of
        None \<Rightarrow> None
      | Some (er, Some err) \<Rightarrow> Some (er, Some (Errorf ''resource cleanup failed: '' err []))
      | Some (er, None) \<Rightarrow>
          (case (if NetworkRecovery strategy then performNetworkRecovery er else None) of
             Some err \<Rightarrow> Some (er, Some (Errorf ''network recovery failed: '' err []))
           | None \<Rightarrow>
               let er = (if GracefulDegrade strategy \<and> rc_EnableDegradation (er_config er)
                         then enableGracefulDegradation er else er)
               in if Code d = ErrCodeDockerDaemonUnreachable then Some (er, recoverDockerConnection env er)
                  else if Code d = ErrCodeResourceExhaustion then recoverFromResourceExhaustion env er
                  else if Code d = ErrCodeNetworkConfiguration then Some (er, recoverNetworkConfiguration er)
                  else Some (er, None)))"

definition cleanup_after ::
    "handle_env \<Rightarrow> DiagnosticError \<Rightarrow> ErrorRecovery \<Rightarrow> ErrorRecovery option" where
  "cleanup_after env d er =
     (if rc_AutoCleanup (er_config er)
      then map_option (\<lambda>(rcm, _). er\<lparr>er_cleanupManager := rcm\<rparr>)
             (CleanupAfterError (rn_clock (he_after env)) (rn_select (he_after env)) (rn_cleanup (he_after env)) d
                (er_cleanupManager er))
      else Some er)"

definition HandleError :: "handle_env \<Rightarrow> goerror option \<Rightarrow> ErrorRecovery \<Rightarrow> (ErrorRecovery \<times> goerror option) option" where
  "HandleError env err er =
     (case err of
        None \<Rightarrow> Some (er, None)
      | Some err \<Rightarrow>
          let d = classifyError (he_now env) err;
              er = er\<lparr>er_metrics := (er_metrics er)\<lparr>rm_ErrorsByType := incr_key (err_Type d) (rm_ErrorsByType (er_metrics er))\<rparr>\<rparr>
          in case selectRecoveryStrategy d er of
               None \<Rightarrow> Some (er, Some (ErrorString (''no recovery strategy available for error type '' @
                                   show_int (ErrorType_num (err_Type d)))))
             | Some strategy \<Rightarrow>
                 (case executeRecoveryStrategy env strategy d er of
                    None \<Rightarrow> None
                  | Some (er, Some err) \<Rightarrow>
                      Some (er\<lparr>er_metrics := (er_metrics er)\<lparr>rm_FailedRecoveries := rm_FailedRecoveries (er_metrics er) + 1\<rparr>\<rparr>,
                            Some (Errorf ''recovery strategy failed: '' err []))
                  | Some (er, None) \<Rightarrow> map_option (\<lambda>er. (er, None)) (cleanup_after env d er)))"

section \<open>Running an operation\<close>

fun CircuitState_num :: "CircuitState \<Rightarrow> int" where
  "CircuitState_num CircuitStateClosed = 0"
| "CircuitState_num CircuitStateOpen = 1"
| "CircuitState_num CircuitStateHalfOpen = 2"

definition blocked_error :: "CircuitBreaker \<Rightarrow> DiagnosticError" where
  "blocked_error cb =
     mk_diag ErrCodeCircuitBreakerOpen ErrTypeSystem ''Circuit breaker is open, operation blocked'' None SeverityCritical
       [(''circuit_state'', CtxInt (CircuitState_num (GetState cb))), (''failures'', CtxInt (GetFailureCount cb))] zero_time
       (advice [''Wait for circuit breaker to reset'', ''Check Docker daemon connectivity'']
               [''Investigate root cause of repeated failures'', ''Consider increasing circuit breaker thresholds''])"

fun mark_attempted :: "string \<Rightarrow> DiagnosticError \<Rightarrow> DiagnosticError" where
  "mark_attempted msg (DiagnosticError c t m orig sev cat ctx ts src rec att rerr tags ua ref) =
     DiagnosticError c t m orig sev cat ctx ts src rec True msg tags ua ref"

definition recovery_failed_error :: "goerror \<Rightarrow> goerror \<Rightarrow> goerror" where
  "recovery_failed_error err recoveryErr =
     (case err of
        Diag d \<Rightarrow> Diag (mark_attempted (Error recoveryErr) d)
      | _ \<Rightarrow> Errorf ''operation failed and recovery unsuccessful: '' err ('' (recovery: '' @ Error recoveryErr @ '')''))"

record 'a exec_env =
  xe_t0 :: Time
  xe_t1 :: Time
  xe_retry :: "'a retry_env"
  xe_start :: Time
  xe_end :: Time
  xe_t2 :: Time
  xe_t3 :: Time
  xe_handle :: handle_env

definition count_time :: "Duration \<Rightarrow> RecoveryMetrics \<Rightarrow> RecoveryMetrics" where
  "count_time duration m =
     (let m = m\<lparr>rm_TotalExecutionTime := wrap64 (rm_TotalExecutionTime m + duration)\<rparr>
      in if duration > rm_MaxExecutionTime m then m\<lparr>rm_MaxExecutionTime := duration\<rparr> else m)"

definition record_outcome ::
    "'a exec_env \<Rightarrow> goerror + 'a \<Rightarrow> ErrorRecovery \<Rightarrow> (ErrorRecovery \<times> (goerror + 'a)) option" where
  "record_outcome env res er =
     (case res of
        Inl err \<Rightarrow>
          let er = er\<lparr>er_circuitBreaker := RecordFailure (xe_t2 env) (xe_t3 env) (er_circuitBreaker er),
                      er_metrics := (er_metrics er)\<lparr>rm_TotalFailures := rm_TotalFailures (er_metrics er) + 1\<rparr>\<rparr>
          in (case HandleError (xe_handle env) (Some err) er of
                None \<Rightarrow> None
              | Some (er, Some recoveryErr) \<Rightarrow> Some (er, Inl (recovery_failed_error err recoveryErr))
              | Some (er, None) \<Rightarrow>
                  Some (er\<lparr>er_metrics := (er_metrics er)\<lparr>rm_SuccessfulRecoveries := rm_SuccessfulRecoveries (er_metrics er) + 1\<rparr>\<rparr>,
                        Inl err))
      | Inr v \<Rightarrow>
          Some (er\<lparr>er_circuitBreaker := RecordSuccess (xe_t2 env) (er_circuitBreaker er),
                   er_metrics := (er_metrics er)\<lparr>rm_TotalSuccesses := rm_TotalSuccesses (er_metrics er) + 1\<rparr>\<rparr>, Inr v))"

definition ExecuteWithRecovery ::
    "'a exec_env \<Rightarrow> ErrorRecovery \<Rightarrow> (ErrorRecovery \<times> (goerror + 'a)) option" where
  "ExecuteWithRecovery env er =
     (let er = er\<lparr>er_metrics := (er_metrics er)\<lparr>rm_TotalOperations := rm_TotalOperations (er_metrics er) + 1\<rparr>\<rparr>
      in case CanExecute (xe_t0 env) (xe_t1 env) (er_circuitBreaker er) of
           (cb, False) \<Rightarrow>
             Some (er\<lparr>er_circuitBreaker := cb,
                      er_metrics := (er_metrics er)\<lparr>rm_CircuitBreakerBlocks := rm_CircuitBreakerBlocks (er_metrics er) + 1\<rparr>\<rparr>,
                   Inl (Diag (blocked_error cb)))
         | (cb, True) \<Rightarrow>
             (case Execute (xe_retry env) (er_retryPolicy er) of
                (rp, res) \<Rightarrow>
                  record_outcome env res
                    (er\<lparr>er_circuitBreaker := cb, er_retryPolicy := rp,
                        er_metrics := count_time (Sub (xe_end env) (xe_start env)) (er_metrics er)\<rparr>)))"

definition er_GetMetrics :: "ErrorRecovery \<Rightarrow> RecoveryMetrics" where
  "er_GetMetrics er =
     (er_metrics er)\<lparr>rm_CircuitBreakerState := GetState (er_circuitBreaker er),
                     rm_CircuitBreakerFailures := GetFailureCount (er_circuitBreaker er)\<rparr>"

definition er_IsHealthy :: "ErrorRecovery \<Rightarrow> bool" where
  "er_IsHealthy er =
     (if GetState (er_circuitBreaker er) = CircuitStateOpen then False
      else if rm_TotalOperations (er_metrics er) > 10
      then \<not> f_gt (f_div (float64 (rm_TotalFailures (er_metrics er))) (float64 (rm_TotalOperations (er_metrics er)))) (flit (1 / 2))
      else True)"

definition er_Shutdown :: "run_env \<Rightarrow> run_env \<Rightarrow> ErrorRecovery \<Rightarrow> (ErrorRecovery \<times> goerror option) option" where
  "er_Shutdown env env' er =
     (case rcm_Shutdown (rn_clock env) (rn_select env) (rn_cleanup env) (er_cleanupManager er) of
        None \<Rightarrow> None
      | Some (rcm, err) \<Rightarrow>
          let errors = (case err of Some e \<Rightarrow> [Errorf ''cleanup manager shutdown failed: '' e []] | None \<Rightarrow> []);
              final = (if rc_AutoCleanup (er_config er)
                       then PerformFinalCleanup (rn_clock env') (rn_select env') (rn_cleanup env') rcm else Some (rcm, None))
          in (case final of
                None \<Rightarrow> None
              | Some (rcm, err) \<Rightarrow>
                  let errors = errors @ (case err of Some e \<Rightarrow> [Errorf ''final cleanup failed: '' e []] | None \<Rightarrow> [])
                  in Some (er\<lparr>er_cleanupManager := rcm\<rparr>,
                       if length errors > 0 then Some (ErrorString (''shutdown errors: '' @ show_strings (map Error errors)))
                       else None)))"

section \<open>The substring test meets the contract\<close>

lemma indexSubstring_iff: "0 \<le> indexSubstring s t \<longleftrightarrow> sublist t s"
proof
  assume "0 \<le> indexSubstring s t"
  then show "sublist t s"
    by (auto simp: indexSubstring_def find_Some_iff split: option.splits intro: slice_sublist)
next
  assume "sublist t s"
  then obtain ps ss where s: "s = ps @ t @ ss" by (auto simp: sublist_def)
  then have "slice s (nat (int (length ps))) (nat (int (length ps)) + length t) = t" by (simp add: slice_def)
  moreover have "int (length ps) \<in> set [0..int (length s) - int (length t)]" by (simp add: s)
  ultimately have "find (\<lambda>i. slice s (nat i) (nat i + length t) = t) [0..int (length s) - int (length t)] \<noteq> None"
    unfolding find_None_iff by blast
  then obtain i where i: "find (\<lambda>i. slice s (nat i) (nat i + length t) = t) [0..int (length s) - int (length t)] = Some i"
    by blast
  then have "i \<in> set [0..int (length s) - int (length t)]" by (auto simp only: find_Some_iff intro: nth_mem)
  then show "0 \<le> indexSubstring s t" using i by (simp add: indexSubstring_def)
qed

interpretation recovery: substring_test containsString
proof unfold_locales
  fix s t :: string
  have "sublist t s \<Longrightarrow> length t \<le> length s \<and> (s = t \<or> length t < length s)" by (auto simp: sublist_def)
  then show "containsString s t \<longleftrightarrow> sublist t s"
    unfolding containsString_def indexSubstring_iff using slice_sublist [of s _ _ t] by auto
qed

section \<open>Handling an error\<close>

lemma selectRecoveryStrategy_Some: "\<exists>strategy. selectRecoveryStrategy d er = Some strategy"
  by (auto simp: selectRecoveryStrategy_def split: ErrorType.splits)

text \<open>What handling an error leaves alone, and what it does to the cleanup manager.\<close>

definition cleanup_frame :: "ErrorRecovery \<Rightarrow> ErrorRecovery \<Rightarrow> bool" where
  "cleanup_frame er er' \<longleftrightarrow> er_client er' = er_client er \<and> er_config er' = er_config er \<and>
     er_circuitBreaker er' = er_circuitBreaker er \<and> er_retryPolicy er' = er_retryPolicy er \<and>
     rcm_step\<^sup>*\<^sup>* (er_cleanupManager er) (er_cleanupManager er')"

lemma cleanup_frame_refl [simp]: "cleanup_frame er er"
  by (simp add: cleanup_frame_def)

lemma cleanup_frame_trans: "cleanup_frame a b \<Longrightarrow> cleanup_frame b c \<Longrightarrow> cleanup_frame a c"
  by (auto simp: cleanup_frame_def)

lemmas rcm_reaches = r_into_rtranclp [of rcm_step, OF cleans] r_into_rtranclp [of rcm_step, OF cleans_all]
  r_into_rtranclp [of rcm_step, OF after_error]

lemma strategy_cleanup_outcome:
  "strategy_cleanup env strategy er = Some (er', err) \<Longrightarrow> cleanup_frame er er' \<and> er_metrics er' = er_metrics er \<and>
   (\<not> CleanupResources strategy \<longrightarrow> er' = er \<and> err = None)"
  by (auto simp: strategy_cleanup_def cleanup_frame_def intro: rcm_reaches split: if_splits)

lemma exhaustion_outcome:
  "recoverFromResourceExhaustion env er = Some (er', err) \<Longrightarrow> cleanup_frame er er' \<and> er_metrics er' = er_metrics er"
  by (auto simp: recoverFromResourceExhaustion_def cleanup_frame_def intro: rcm_reaches)

lemma cleanup_after_outcome:
  "cleanup_after env d er = Some er' \<Longrightarrow> cleanup_frame er er' \<and> er_metrics er' = er_metrics er"
  by (auto simp: cleanup_after_def cleanup_frame_def intro: rcm_reaches split: if_splits)

lemma enableGracefulDegradation_frame [simp]: "cleanup_frame er (enableGracefulDegradation er)"
  by (simp add: enableGracefulDegradation_def cleanup_frame_def)

lemma executeRecoveryStrategy_outcome:
  assumes "executeRecoveryStrategy env strategy d er = Some (er', err)"
  shows "cleanup_frame er er' \<and>
    (er_metrics er' = er_metrics er \<or>
     GracefulDegrade strategy \<and> er_metrics er' = (er_metrics er)\<lparr>rm_DegradationEnabled := True\<rparr>)"
proof -
  obtain er1 e1 where 1: "strategy_cleanup env strategy er = Some (er1, e1)"
    using assms by (auto simp: executeRecoveryStrategy_def split: option.splits)
  note o = strategy_cleanup_outcome [OF 1]
  define er2 where "er2 = (if GracefulDegrade strategy \<and> rc_EnableDegradation (er_config er1)
                           then enableGracefulDegradation er1 else er1)"
  have f2: "cleanup_frame er er2" using o cleanup_frame_trans [OF _ enableGracefulDegradation_frame] by (auto simp: er2_def)
  have "er' = er1 \<or> er' = er2 \<or> recoverFromResourceExhaustion env er2 = Some (er', err)"
  proof (cases e1)
    case None
    then have "executeRecoveryStrategy env strategy d er =
        (if Code d = ErrCodeDockerDaemonUnreachable then Some (er2, recoverDockerConnection env er2)
         else if Code d = ErrCodeResourceExhaustion then recoverFromResourceExhaustion env er2
         else if Code d = ErrCodeNetworkConfiguration then Some (er2, recoverNetworkConfiguration er2) else Some (er2, None))"
      using 1 by (simp add: executeRecoveryStrategy_def performNetworkRecovery_def Let_def er2_def del: if_split)
    with assms show ?thesis by (metis option.inject prod.inject)
  qed (use assms 1 in \<open>simp add: executeRecoveryStrategy_def\<close>)
  then have "cleanup_frame er er' \<and> (er_metrics er' = er_metrics er1 \<or> er_metrics er' = er_metrics er2)"
  proof (elim disjE)
    assume "recoverFromResourceExhaustion env er2 = Some (er', err)"
    note x = exhaustion_outcome [OF this]
    then show ?thesis using cleanup_frame_trans [OF f2] by simp
  qed (use o f2 in simp_all)
  moreover have "er_metrics er2 = er_metrics er \<or>
      GracefulDegrade strategy \<and> er_metrics er2 = (er_metrics er)\<lparr>rm_DegradationEnabled := True\<rparr>"
    using o by (simp add: er2_def enableGracefulDegradation_def)
  ultimately show ?thesis using o by metis
qed

text \<open>The counters of the metrics that handling an error may not touch.\<close>

definition outcome_counts :: "RecoveryMetrics \<Rightarrow> int list" where
  "outcome_counts m = [rm_TotalOperations m, rm_TotalSuccesses m, rm_TotalFailures m, rm_SuccessfulRecoveries m,
     rm_CircuitBreakerBlocks m]"

lemma HandleError_outcome:
  assumes "HandleError env (Some err) er = Some (er', rerr)"
  shows "cleanup_frame er er' \<and> outcome_counts (er_metrics er') = outcome_counts (er_metrics er) \<and>
    rm_ErrorsByType (er_metrics er') = incr_key (err_Type (classifyError (he_now env) err)) (rm_ErrorsByType (er_metrics er)) \<and>
    rm_FailedRecoveries (er_metrics er') = rm_FailedRecoveries (er_metrics er) + (if rerr = None then 0 else 1) \<and>
    (rm_DegradationEnabled (er_metrics er') \<longrightarrow> rm_DegradationEnabled (er_metrics er) \<or>
       GracefulDegrade (the (selectRecoveryStrategy (classifyError (he_now env) err) er)))"
proof -
  let ?d = "classifyError (he_now env) err"
  define er0 where "er0 = er\<lparr>er_metrics := (er_metrics er)\<lparr>rm_ErrorsByType := incr_key (err_Type ?d) (rm_ErrorsByType (er_metrics er))\<rparr>\<rparr>"
  have f0: "cleanup_frame er er0" by (simp add: er0_def cleanup_frame_def)
  have sel: "selectRecoveryStrategy ?d er0 = selectRecoveryStrategy ?d er" by (simp add: er0_def selectRecoveryStrategy_def split: ErrorType.split)
  obtain st where st: "selectRecoveryStrategy ?d er = Some st" using selectRecoveryStrategy_Some by blast
  obtain er1 e1 where 1: "executeRecoveryStrategy env st ?d er0 = Some (er1, e1)"
    using assms st sel by (auto simp: HandleError_def Let_def simp flip: er0_def split: option.splits)
  note o = executeRecoveryStrategy_outcome [OF 1]
  have m1: "outcome_counts (er_metrics er1) = outcome_counts (er_metrics er)"
    "rm_ErrorsByType (er_metrics er1) = incr_key (err_Type ?d) (rm_ErrorsByType (er_metrics er))"
    "rm_FailedRecoveries (er_metrics er1) = rm_FailedRecoveries (er_metrics er)"
    "rm_DegradationEnabled (er_metrics er1) \<longrightarrow> rm_DegradationEnabled (er_metrics er) \<or> GracefulDegrade st"
    using o by (auto simp: er0_def outcome_counts_def)
  show ?thesis
  proof (cases e1)
    case None
    then have "cleanup_after env ?d er1 = Some er' \<and> rerr = None"
      using assms st sel 1 by (auto simp: HandleError_def Let_def simp flip: er0_def)
    moreover from this have "cleanup_frame er er'" "er_metrics er' = er_metrics er1"
      using o f0 cleanup_after_outcome [of env ?d er1 er'] cleanup_frame_trans by blast+
    ultimately show ?thesis using m1 st by simp
  next
    case (Some e)
    then have "er' = er1\<lparr>er_metrics := (er_metrics er1)\<lparr>rm_FailedRecoveries := rm_FailedRecoveries (er_metrics er1) + 1\<rparr>\<rparr>"
      "rerr \<noteq> None"
      using assms st sel 1 by (auto simp: HandleError_def Let_def simp flip: er0_def)
    then show ?thesis using m1 o f0 st by (auto simp: outcome_counts_def cleanup_frame_def)
  qed
qed

lemma cleanups_total:
  assumes "sizes_ok rcm"
  shows "PerformCleanup clk sel env rcm \<noteq> None" "PerformAggressiveCleanup clk sel env rcm \<noteq> None"
    "CleanupAfterError clk sel env d rcm \<noteq> None" "PerformFinalCleanup clk sel env rcm \<noteq> None"
  using perform_operation_total [OF assms]
  by (simp_all add: PerformCleanup_def PerformAggressiveCleanup_def CleanupAfterError_def PerformFinalCleanup_def Let_def)

lemma cleanups_keep:
  assumes "rcm_step\<^sup>*\<^sup>* rcm rcm'" "sizes_ok rcm \<and> rcm_inv rcm"
  shows "sizes_ok rcm' \<and> rcm_inv rcm'"
  using assms by (induction rule: rtranclp_induct) (auto simp: sizes_ok_def client_const rcm_step_inv)

lemma HandleError_total:
  assumes "sizes_ok (er_cleanupManager er)" "rcm_inv (er_cleanupManager er)"
  shows "\<exists>er' rerr. HandleError env (Some err) er = Some (er', rerr)"
proof -
  let ?d = "classifyError (he_now env) err"
  define er0 where "er0 = er\<lparr>er_metrics := (er_metrics er)\<lparr>rm_ErrorsByType := incr_key (err_Type ?d) (rm_ErrorsByType (er_metrics er))\<rparr>\<rparr>"
  obtain st where st: "selectRecoveryStrategy ?d er0 = Some st" using selectRecoveryStrategy_Some by blast
  have ok0: "sizes_ok (er_cleanupManager er0) \<and> rcm_inv (er_cleanupManager er0)" using assms by (simp add: er0_def)
  have "\<exists>er1 e1. executeRecoveryStrategy env st ?d er0 = Some (er1, e1)"
  proof -
    have "strategy_cleanup env st er0 \<noteq> None"
      using ok0 by (simp add: strategy_cleanup_def cleanups_total del: not_None_eq)
    then obtain er1 e1 where 1: "strategy_cleanup env st er0 = Some (er1, e1)" by fastforce
    then have "sizes_ok (er_cleanupManager er1)"
      using strategy_cleanup_outcome [OF 1] cleanups_keep [OF _ ok0] by (simp add: cleanup_frame_def)
    then have "recoverFromResourceExhaustion env er1 \<noteq> None"
      "recoverFromResourceExhaustion env (enableGracefulDegradation er1) \<noteq> None"
      by (simp_all add: recoverFromResourceExhaustion_def enableGracefulDegradation_def cleanups_total del: not_None_eq)
    with 1 show ?thesis by (cases e1) (auto simp: executeRecoveryStrategy_def performNetworkRecovery_def Let_def)
  qed
  then obtain er1 e1 where 1: "executeRecoveryStrategy env st ?d er0 = Some (er1, e1)" by blast
  then have "sizes_ok (er_cleanupManager er1)"
    using executeRecoveryStrategy_outcome [OF 1] cleanups_keep [OF _ ok0] by (simp add: cleanup_frame_def)
  then have "cleanup_after env ?d er1 \<noteq> None"
    by (simp add: cleanup_after_def cleanups_total del: not_None_eq)
  with 1 st show ?thesis by (cases e1) (auto simp: HandleError_def Let_def simp flip: er0_def)
qed

section \<open>A sequence of operations\<close>

fun recovery_run :: "'a exec_env list \<Rightarrow> ErrorRecovery \<Rightarrow> (ErrorRecovery \<times> (goerror + 'a) list) option" where
  "recovery_run [] er = Some (er, [])"
| "recovery_run (env # envs) er =
     (case ExecuteWithRecovery env er of
        None \<Rightarrow> None
      | Some (er, res) \<Rightarrow> map_option (\<lambda>(er, rs). (er, res # rs)) (recovery_run envs er))"

text \<open>To the breaker, an operation is one request of a sequential client.\<close>

definition exec_request :: "'a exec_env \<Rightarrow> ErrorRecovery \<Rightarrow> request" where
  "exec_request env er = \<lparr>rq_t0 = xe_t0 env, rq_t1 = xe_t1 env, rq_t2 = xe_t2 env, rq_t3 = xe_t3 env,
     rq_ok = \<not> isl (snd (Execute (xe_retry env) (er_retryPolicy er)))\<rparr>"

lemma record_outcome_cases:
  assumes "record_outcome env res er = Some (er', res')"
  obtains (ok) v where "res = Inr v" "res' = Inr v"
      "er' = er\<lparr>er_circuitBreaker := RecordSuccess (xe_t2 env) (er_circuitBreaker er),
               er_metrics := (er_metrics er)\<lparr>rm_TotalSuccesses := rm_TotalSuccesses (er_metrics er) + 1\<rparr>\<rparr>"
  | (failed) err er1 rerr where "res = Inl err"
      "HandleError (xe_handle env) (Some err)
         (er\<lparr>er_circuitBreaker := RecordFailure (xe_t2 env) (xe_t3 env) (er_circuitBreaker er),
             er_metrics := (er_metrics er)\<lparr>rm_TotalFailures := rm_TotalFailures (er_metrics er) + 1\<rparr>\<rparr>) = Some (er1, rerr)"
      "er' = (if rerr = None
              then er1\<lparr>er_metrics := (er_metrics er1)\<lparr>rm_SuccessfulRecoveries := rm_SuccessfulRecoveries (er_metrics er1) + 1\<rparr>\<rparr>
              else er1)"
      "res' = Inl (case rerr of None \<Rightarrow> err | Some e \<Rightarrow> recovery_failed_error err e)"
proof (cases res)
  case (Inl err)
  obtain er1 rerr where "HandleError (xe_handle env) (Some err)
         (er\<lparr>er_circuitBreaker := RecordFailure (xe_t2 env) (xe_t3 env) (er_circuitBreaker er),
             er_metrics := (er_metrics er)\<lparr>rm_TotalFailures := rm_TotalFailures (er_metrics er) + 1\<rparr>\<rparr>) = Some (er1, rerr)"
    using assms Inl by (fastforce simp: record_outcome_def Let_def split: option.splits)
  with assms Inl show ?thesis by (intro failed) (auto simp: record_outcome_def Let_def split: option.splits)
next
  case (Inr v)
  with assms show ?thesis by (intro ok) (auto simp: record_outcome_def)
qed

lemma exec_breaker:
  assumes "ExecuteWithRecovery env er = Some (er', res)"
  shows "er_circuitBreaker er' = cb_request (exec_request env er) (er_circuitBreaker er)"
proof -
  obtain cb b where cb: "CanExecute (xe_t0 env) (xe_t1 env) (er_circuitBreaker er) = (cb, b)" by fastforce
  show ?thesis
  proof (cases b)
    case True
    obtain rp r where ex: "Execute (xe_retry env) (er_retryPolicy er) = (rp, r)" by fastforce
    define er1 where "er1 = er\<lparr>er_circuitBreaker := cb, er_retryPolicy := rp,
        er_metrics := count_time (Sub (xe_end env) (xe_start env))
          ((er_metrics er)\<lparr>rm_TotalOperations := rm_TotalOperations (er_metrics er) + 1\<rparr>)\<rparr>"
    have "record_outcome env r er1 = Some (er', res)"
      using assms cb True ex by (simp add: ExecuteWithRecovery_def Let_def er1_def)
    then show ?thesis
    proof (cases rule: record_outcome_cases)
      case (failed err er2 rerr)
      then show ?thesis using HandleError_outcome [OF failed(2)] cb True ex
        by (simp add: cb_request_def exec_request_def cleanup_frame_def er1_def)
    qed (use cb True ex in \<open>simp add: cb_request_def exec_request_def er1_def\<close>)
  next
    case False
    then show ?thesis using assms cb by (auto simp: ExecuteWithRecovery_def Let_def cb_request_def exec_request_def)
  qed
qed

text \<open>
  The books of the recovery system: every operation was blocked, failed or succeeded; every failure was
  classified once and its recovery succeeded or failed; the breaker counts the same totals; and no
  operation ever switches degraded mode on.
\<close>

definition recovery_inv :: "ErrorRecovery \<Rightarrow> bool" where
  "recovery_inv er \<longleftrightarrow>
     (let m = er_metrics er; cb = er_circuitBreaker er in
      rm_TotalOperations m = rm_CircuitBreakerBlocks m + rm_TotalFailures m + rm_TotalSuccesses m \<and>
      rm_TotalFailures m = rm_SuccessfulRecoveries m + rm_FailedRecoveries m \<and>
      total_count (rm_ErrorsByType m) = rm_TotalFailures m \<and> gomap_ok (rm_ErrorsByType m) \<and>
      totalRequests cb = rm_TotalOperations m \<and> totalFailures cb = rm_TotalFailures m \<and>
      totalSuccesses cb = rm_TotalSuccesses m \<and> \<not> rm_DegradationEnabled m) \<and>
     \<not> RespectContext (rp_config (er_retryPolicy er)) \<and>
     sizes_ok (er_cleanupManager er) \<and> rcm_inv (er_cleanupManager er)"

lemma NewErrorRecovery_inv: "recovery_inv (NewErrorRecovery now client config)"
proof -
  have "sizes_ok (NewResourceCleanupManager (Some (recovery_cleanup_config c)))" for c
    by (simp add: sizes_ok_def NewResourceCleanupManager_def recovery_cleanup_config_def)
  then show ?thesis
    by (simp add: recovery_inv_def NewErrorRecovery_def new_recovery_metrics_def total_count_def NewCircuitBreaker_def
        NewRetryPolicy_def retry_defaults_def recovery_retry_config_def new_rcm_inv Let_def)
qed

lemma retry_loop_error_wrapped:
  "\<not> RespectContext cfg \<Longrightarrow> snd (retry_loop cfg env a m e) = Inl err \<Longrightarrow> \<exists>pre x. err = Errorf pre x []"
proof (induction a m e rule: retry_loop_induct [where cfg = cfg and env = env])
  case (stop a m e)
  then have "\<exists>pre. retry_loop cfg env a m e = (m\<lparr>FailedRetries := FailedRetries m + 1\<rparr>, Inl (Errorf pre e []))"
    by (subst retry_loop.simps) (auto simp: attempt_made_def)
  with stop show ?case by auto
qed (auto simp: retry_loop_end retry_loop_value retry_loop_failure retries_exhausted_def Let_def)

lemma Execute_error_wrapped:
  assumes "\<not> RespectContext (rp_config rp)" "Execute env rp = (rp', Inl err)"
  shows "\<exists>pre x. err = Errorf pre x []"
  using assms retry_loop_error_wrapped [OF assms(1), of env 1 "rp_metrics rp" "projl (op env 0)" err]
  by (auto simp: Execute_def split: sum.splits if_splits prod.splits)

lemma Execute_config: "Execute env rp = (rp', r) \<Longrightarrow> rp_config rp' = rp_config rp"
  by (auto simp: Execute_def split: sum.splits if_splits prod.splits)

lemma classified_strategy:
  "Recovery (classify_by_text now err) \<noteq> None \<and> \<not> GracefulDegrade (the (Recovery (classify_by_text now err))) \<and>
   \<not> CleanupResources (the (Recovery (classify_by_text now err))) \<and> \<not> NetworkRecovery (the (Recovery (classify_by_text now err)))"
  by (simp add: classify_by_text_def mk_diag_def advice_def empty_strategy_def Let_def)

lemma record_outcome_inv:
  assumes "recovery_inv er0" "record_outcome env r er1 = Some (er', res)"
    and er1: "er1 = er0\<lparr>er_circuitBreaker := cb, er_retryPolicy := rp, er_metrics := m\<rparr>"
    and rp: "\<not> RespectContext (rp_config rp)" and err: "\<forall>e. r = Inl e \<longrightarrow> (\<exists>pre x. e = Errorf pre x [])"
    and m: "outcome_counts m = outcome_counts ((er_metrics er0)\<lparr>rm_TotalOperations := rm_TotalOperations (er_metrics er0) + 1\<rparr>)"
      "rm_ErrorsByType m = rm_ErrorsByType (er_metrics er0)" "rm_FailedRecoveries m = rm_FailedRecoveries (er_metrics er0)"
      "rm_DegradationEnabled m = rm_DegradationEnabled (er_metrics er0)"
    and cb: "totalRequests cb = totalRequests (er_circuitBreaker er0) + 1"
      "totalFailures cb = totalFailures (er_circuitBreaker er0)" "totalSuccesses cb = totalSuccesses (er_circuitBreaker er0)"
  shows "recovery_inv er'"
  using assms(2)
proof (cases rule: record_outcome_cases)
  case (ok v)
  then show ?thesis using assms(1) rp m cb er1
    by (simp add: recovery_inv_def outcome_counts_def RecordSuccess_totals Let_def)
next
  case (failed e er2 rerr)
  let ?d = "classifyError (he_now (xe_handle env)) e"
  obtain pre x where "e = Errorf pre x []" using err failed(1) by blast
  then have d: "?d = classify_by_text (he_now (xe_handle env)) e" by (simp add: classifyError_def)
  have "\<not> GracefulDegrade (the (selectRecoveryStrategy ?d er))" for er
    using classified_strategy [of "he_now (xe_handle env)" e] by (simp add: d selectRecoveryStrategy_def)
  moreover note o = HandleError_outcome [OF failed(2)]
  have "sizes_ok (er_cleanupManager er2) \<and> rcm_inv (er_cleanupManager er2)"
    using cleanups_keep [of "er_cleanupManager er1" "er_cleanupManager er2"] o assms(1) er1
    by (simp add: cleanup_frame_def recovery_inv_def)
  ultimately show ?thesis using assms(1) rp m cb o er1 failed(3)
    by (simp add: recovery_inv_def cleanup_frame_def outcome_counts_def RecordFailure_totals total_count_incr Let_def)
qed

text \<open>One operation: blocked by the breaker, or executed and its outcome recorded.\<close>

lemma exec_cases:
  assumes "ExecuteWithRecovery env er = Some (er', res)"
  obtains (blocked) cb where "CanExecute (xe_t0 env) (xe_t1 env) (er_circuitBreaker er) = (cb, False)"
      "res = Inl (Diag (blocked_error cb))"
      "er' = er\<lparr>er_circuitBreaker := cb,
               er_metrics := (er_metrics er)\<lparr>rm_TotalOperations := rm_TotalOperations (er_metrics er) + 1,
                 rm_CircuitBreakerBlocks := rm_CircuitBreakerBlocks (er_metrics er) + 1\<rparr>\<rparr>"
  | (run) cb rp r where "CanExecute (xe_t0 env) (xe_t1 env) (er_circuitBreaker er) = (cb, True)"
      "Execute (xe_retry env) (er_retryPolicy er) = (rp, r)"
      "record_outcome env r (er\<lparr>er_circuitBreaker := cb, er_retryPolicy := rp,
         er_metrics := count_time (Sub (xe_end env) (xe_start env))
           ((er_metrics er)\<lparr>rm_TotalOperations := rm_TotalOperations (er_metrics er) + 1\<rparr>)\<rparr>) = Some (er', res)"
proof -
  obtain cb b where cb: "CanExecute (xe_t0 env) (xe_t1 env) (er_circuitBreaker er) = (cb, b)" by fastforce
  obtain rp r where ex: "Execute (xe_retry env) (er_retryPolicy er) = (rp, r)" by fastforce
  show ?thesis
  proof (cases b)
    case True
    then show ?thesis using assms cb ex run by (simp add: ExecuteWithRecovery_def Let_def)
  next
    case False
    then show ?thesis using assms cb by (intro blocked) (auto simp: ExecuteWithRecovery_def Let_def)
  qed
qed

lemma count_time_fields [simp]:
  "outcome_counts (count_time d m) = outcome_counts m" "rm_ErrorsByType (count_time d m) = rm_ErrorsByType m"
  "rm_FailedRecoveries (count_time d m) = rm_FailedRecoveries m"
  "rm_DegradationEnabled (count_time d m) = rm_DegradationEnabled m"
  by (simp_all add: count_time_def outcome_counts_def Let_def)

lemma exec_inv:
  assumes "ExecuteWithRecovery env er = Some (er', res)" "recovery_inv er"
  shows "recovery_inv er'"
  using assms(1)
proof (cases rule: exec_cases)
  case (blocked cb)
  have "totalRequests cb = totalRequests (er_circuitBreaker er) + 1"
    "totalFailures cb = totalFailures (er_circuitBreaker er)" "totalSuccesses cb = totalSuccesses (er_circuitBreaker er)"
    using CanExecute_totals [of "xe_t0 env" "xe_t1 env" "er_circuitBreaker er"] blocked(1) by simp_all
  then show ?thesis using assms(2) blocked(3) by (simp add: recovery_inv_def Let_def)
next
  case (run cb rp r)
  have "\<not> RespectContext (rp_config rp)" using Execute_config [OF run(2)] assms(2) by (simp add: recovery_inv_def)
  moreover have "\<forall>e. r = Inl e \<longrightarrow> (\<exists>pre x. e = Errorf pre x [])"
    using Execute_error_wrapped run(2) assms(2) by (auto simp: recovery_inv_def)
  ultimately show ?thesis
    using CanExecute_totals [of "xe_t0 env" "xe_t1 env" "er_circuitBreaker er"] run(1)
    by (intro record_outcome_inv [OF assms(2) run(3) refl]) simp_all
qed

lemma exec_total:
  assumes "recovery_inv er"
  shows "\<exists>er' res. ExecuteWithRecovery env er = Some (er', res)"
proof -
  obtain cb b where cb: "CanExecute (xe_t0 env) (xe_t1 env) (er_circuitBreaker er) = (cb, b)" by fastforce
  obtain rp r where ex: "Execute (xe_retry env) (er_retryPolicy er) = (rp, r)" by fastforce
  have "\<exists>er' res. record_outcome env r (er\<lparr>er_circuitBreaker := cb, er_retryPolicy := rp, er_metrics := m\<rparr>) = Some (er', res)" for m
  proof (cases r)
    case (Inl e)
    obtain er1 rerr where "HandleError (xe_handle env) (Some e)
        (er\<lparr>er_retryPolicy := rp, er_circuitBreaker := RecordFailure (xe_t2 env) (xe_t3 env) cb,
            er_metrics := m\<lparr>rm_TotalFailures := rm_TotalFailures m + 1\<rparr>\<rparr>) = Some (er1, rerr)"
      using HandleError_total assms unfolding recovery_inv_def by force
    with Inl show ?thesis by (cases rerr) (simp_all add: record_outcome_def)
  qed (simp add: record_outcome_def)
  with cb ex show ?thesis by (cases b) (simp_all add: ExecuteWithRecovery_def Let_def)
qed

lemma run_total:
  assumes "recovery_inv er"
  shows "\<exists>er' rs. recovery_run envs er = Some (er', rs) \<and> recovery_inv er' \<and> length rs = length envs \<and>
    rm_TotalOperations (er_metrics er') = rm_TotalOperations (er_metrics er) + int (length envs)"
  using assms
proof (induction envs arbitrary: er)
  case (Cons env envs)
  obtain er1 res where 1: "ExecuteWithRecovery env er = Some (er1, res)" using exec_total Cons.prems by blast
  have i: "recovery_inv er1" using exec_inv 1 Cons.prems by blast
  have "totalRequests (er_circuitBreaker er1) = totalRequests (er_circuitBreaker er) + 1"
    using requests_totalRequests [of "[exec_request env er]"] by (simp add: exec_breaker [OF 1])
  then have "rm_TotalOperations (er_metrics er1) = rm_TotalOperations (er_metrics er) + 1"
    using i Cons.prems by (simp add: recovery_inv_def Let_def)
  with Cons.IH [OF i] 1 show ?case by auto
qed simp

lemma run_breaker:
  assumes "recovery_run envs er = Some (er', rs)"
  shows "\<exists>reqs. er_circuitBreaker er' = fold cb_request reqs (er_circuitBreaker er) \<and> length reqs = length envs"
  using assms
proof (induction envs arbitrary: er rs)
  case (Cons env envs)
  obtain er1 res rs1 where 1: "ExecuteWithRecovery env er = Some (er1, res)" "recovery_run envs er1 = Some (er', rs1)"
    using Cons.prems by (auto split: option.splits)
  obtain reqs where "er_circuitBreaker er' = fold cb_request reqs (er_circuitBreaker er1)" "length reqs = length envs"
    using Cons.IH [OF 1(2)] by blast
  then show ?case using exec_breaker [OF 1(1)] by (intro exI [of _ "exec_request env er # reqs"]) simp
qed simp

section \<open>Properties\<close>

text \<open>
  C7: The recovery system returns for every sequence of operations, whatever they, the daemon and the
  cleanups do, and its books balance: each operation was blocked, failed or succeeded, each failure was
  classified under exactly one error type and its recovery counted as successful or failed, and the
  circuit breaker has seen the same totals.
\<close>

theorem recovery_accounting:
  "\<exists>er rs. recovery_run envs (NewErrorRecovery now client config) = Some (er, rs) \<and>
     rm_TotalOperations (er_GetMetrics er) = int (length envs) \<and>
     rm_TotalOperations (er_GetMetrics er) =
       rm_CircuitBreakerBlocks (er_GetMetrics er) + rm_TotalFailures (er_GetMetrics er) + rm_TotalSuccesses (er_GetMetrics er) \<and>
     rm_TotalFailures (er_GetMetrics er) = rm_SuccessfulRecoveries (er_GetMetrics er) + rm_FailedRecoveries (er_GetMetrics er) \<and>
     total_count (rm_ErrorsByType (er_GetMetrics er)) = rm_TotalFailures (er_GetMetrics er) \<and>
     totalRequests (er_circuitBreaker er) = rm_TotalOperations (er_GetMetrics er) \<and>
     totalFailures (er_circuitBreaker er) = rm_TotalFailures (er_GetMetrics er)"
proof -
  obtain er rs where r: "recovery_run envs (NewErrorRecovery now client config) = Some (er, rs)" "recovery_inv er"
    "rm_TotalOperations (er_metrics er) =
       rm_TotalOperations (er_metrics (NewErrorRecovery now client config)) + int (length envs)"
    using run_total [OF NewErrorRecovery_inv] by blast
  moreover have "rm_TotalOperations (er_metrics (NewErrorRecovery now client config)) = 0"
    by (simp add: NewErrorRecovery_def new_recovery_metrics_def Let_def)
  ultimately show ?thesis by (intro exI [of _ er] exI [of _ rs]) (simp add: recovery_inv_def er_GetMetrics_def Let_def)
qed

text \<open>
  Degradation is dead code: no sequence of operations enables it, although the default
  configuration allows it. The retry policy wraps every error, so the structured errors that carry a
  degradation request are never recognised, and the strategies attached by the classification request
  neither cleanup nor degradation.
\<close>

lemma recovery_never_degrades:
  "\<exists>er rs. recovery_run envs (NewErrorRecovery now client config) = Some (er, rs) \<and>
     \<not> rm_DegradationEnabled (er_GetMetrics er)"
  using run_total [OF NewErrorRecovery_inv, of envs now client config]
  by (auto simp: recovery_inv_def er_GetMetrics_def Let_def)

lemma errors_Is_mark [simp]: "errors_Is_diag t (mark_attempted msg d) = errors_Is_diag t d"
  by (cases d) simp

lemma recovery_failed_is:
  "target \<in> {Canceled, DeadlineExceeded} \<Longrightarrow> errors_Is target (recovery_failed_error err rerr) = errors_Is target err"
  by (cases err) (auto simp: recovery_failed_error_def)

text \<open>
  C25: An operation returns a value exactly when the breaker admits it and the retry policy obtained
  that value: recovery repairs for later calls, it never turns a failed call into a success. A blocked
  operation is not run at all and fails with the breaker's code; an error that is returned is the
  policy's error or wraps it, so that a cancelled or timed-out context is still recognised by the
  caller.
\<close>

theorem recovery_result:
  assumes "ExecuteWithRecovery env er = Some (er', res)"
    "CanExecute (xe_t0 env) (xe_t1 env) (er_circuitBreaker er) = (cb, admitted)"
    "Execute (xe_retry env) (er_retryPolicy er) = (rp, r)"
  shows "(res = Inr v \<longleftrightarrow> admitted \<and> r = Inr v) \<and>
    (\<not> admitted \<longrightarrow> er_retryPolicy er' = er_retryPolicy er \<and> er_cleanupManager er' = er_cleanupManager er \<and>
       (\<exists>d. res = Inl (Diag d) \<and> Code d = ErrCodeCircuitBreakerOpen)) \<and>
    (admitted \<and> r = Inl err \<and> target \<in> {Canceled, DeadlineExceeded} \<longrightarrow>
       (\<exists>e. res = Inl e \<and> errors_Is target e = errors_Is target err))"
  using assms(1)
proof (cases rule: exec_cases)
  case (blocked cb')
  then show ?thesis using assms(2) by (auto simp: blocked_error_def mk_diag_def)
next
  case (run cb' rp' r')
  then have r': "admitted" "r' = r" using assms(2, 3) by simp_all
  show ?thesis using run(3)
  proof (cases rule: record_outcome_cases)
    case (failed e er1 rerr)
    then show ?thesis using r' recovery_failed_is [of target e] by (auto split: option.splits)
  qed (use r' in auto)
qed

definition quiet_run :: run_env where
  "quiet_run = \<lparr>rn_clock = noon, rn_select = plain_select, rn_cleanup = idle_env\<rparr>"

definition quiet_handle :: handle_env where
  "quiet_handle = \<lparr>he_now = 0, he_manual = quiet_run, he_aggressive = quiet_run, he_after = quiet_run,
     he_ping = (\<lambda>_. None), he_done = None\<rparr>"

definition sample_exec :: "Time \<Rightarrow> (goerror + int) \<Rightarrow> int exec_env" where
  "sample_exec t res = \<lparr>xe_t0 = t, xe_t1 = t, xe_retry = flaky_env\<lparr>op := \<lambda>_. res\<rparr>, xe_start = t, xe_end = t + 5,
     xe_t2 = t + 6, xe_t3 = t + 6, xe_handle = quiet_handle\<rparr>"

theorem recovery_result_witness:
  "\<exists>er' res. ExecuteWithRecovery (sample_exec 1 (Inr 7)) (NewErrorRecovery 0 True None) = Some (er', res) \<and> res = Inr 7"
proof -
  let ?er = "NewErrorRecovery 0 True None"
  let ?e = "sample_exec 1 (Inr 7)"
  obtain er' res where x: "ExecuteWithRecovery ?e ?er = Some (er', res)"
    using exec_total [OF NewErrorRecovery_inv] by blast
  obtain cb where "CanExecute (xe_t0 ?e) (xe_t1 ?e) (er_circuitBreaker ?er) = (cb, True)"
    by (simp add: CanExecute_def NewErrorRecovery_def NewCircuitBreaker_def Let_def)
  moreover obtain rp where "Execute (xe_retry ?e) (er_retryPolicy ?er) = (rp, Inr 7)"
    by (simp add: Execute_def sample_exec_def)
  ultimately show ?thesis using recovery_result [OF x, of cb True rp "Inr 7" 7 Canceled Canceled] x by blast
qed

lemma exec_success:
  assumes "recovery_inv er" "op (xe_retry env) 0 = Inr v" "cb_state (er_circuitBreaker er) = CircuitStateOpen \<and>
      RecoveryTimeout (cb_config (er_circuitBreaker er)) \<le> Sub (xe_t0 env) (lastStateChange (er_circuitBreaker er)) \<or>
    cb_state (er_circuitBreaker er) = CircuitStateHalfOpen \<and>
      halfOpenRequestCount (er_circuitBreaker er) < HalfOpenMaxRequests (cb_config (er_circuitBreaker er))"
  shows "\<exists>er'. ExecuteWithRecovery env er = Some (er', Inr v)"
proof -
  obtain cb where "CanExecute (xe_t0 env) (xe_t1 env) (er_circuitBreaker er) = (cb, True)"
    using assms(3) by (auto simp: CanExecute_def Let_def)
  then show ?thesis using assms(2) by (simp add: ExecuteWithRecovery_def Execute_def record_outcome_def Let_def)
qed

lemma exhausted_probes_block:
  assumes "cb_state (er_circuitBreaker er) = CircuitStateHalfOpen"
    "HalfOpenMaxRequests (cb_config (er_circuitBreaker er)) \<le> halfOpenRequestCount (er_circuitBreaker er)"
  shows "\<exists>er' rs. recovery_run envs er = Some (er', rs) \<and> length rs = length envs \<and>
    list_all (\<lambda>r. \<exists>d. r = Inl (Diag d) \<and> Code d = ErrCodeCircuitBreakerOpen) rs \<and>
    cb_state (er_circuitBreaker er') = CircuitStateHalfOpen"
  using assms
proof (induction envs arbitrary: er)
  case (Cons env envs)
  obtain er1 d where 1: "ExecuteWithRecovery env er = Some (er1, Inl (Diag d))" "Code d = ErrCodeCircuitBreakerOpen"
    "cb_state (er_circuitBreaker er1) = CircuitStateHalfOpen"
    "HalfOpenMaxRequests (cb_config (er_circuitBreaker er1)) \<le> halfOpenRequestCount (er_circuitBreaker er1)"
    using Cons.prems by (simp add: ExecuteWithRecovery_def CanExecute_def blocked_error_def mk_diag_def Let_def)
  from Cons.IH [OF 1(3, 4)] 1 show ?case by auto
qed simp

text \<open>
  C26: A recovered daemon stays blocked. The configuration the recovery system gives its breaker admits
  two half-open probes while three successes are needed to close it: once the breaker has opened and
  the recovery timeout is over, the first two operations run and succeed, and every later operation is
  rejected, without any bound in time, although the breaker is not open.
\<close>

theorem recovered_daemon_stays_blocked:
  assumes "recovery_run before (NewErrorRecovery now client (Some c)) = Some (er, rs0)"
    and "rc_ConsecutiveSuccesses c = 0 \<or> 2 < rc_ConsecutiveSuccesses c"
    and "cb_state (er_circuitBreaker er) = CircuitStateOpen"
    and "RecoveryTimeout (cb_config (er_circuitBreaker er)) \<le> Sub (xe_t0 e1) (lastStateChange (er_circuitBreaker er))"
    and "op (xe_retry e1) 0 = Inr v1" "op (xe_retry e2) 0 = Inr v2"
  shows "\<exists>er' rs. recovery_run (e1 # e2 # envs) er = Some (er', Inr v1 # Inr v2 # rs) \<and> length rs = length envs \<and>
    list_all (\<lambda>r. \<exists>d. r = Inl (Diag d) \<and> Code d = ErrCodeCircuitBreakerOpen) rs \<and>
    cb_state (er_circuitBreaker er') = CircuitStateHalfOpen"
proof -
  let ?cb = er_circuitBreaker
  have inv: "recovery_inv er" using run_total [OF NewErrorRecovery_inv] assms(1) by (metis option.inject prod.inject)
  obtain reqs where "?cb er = fold cb_request reqs (?cb (NewErrorRecovery now client (Some c)))"
    using run_breaker [OF assms(1)] by blast
  then have cfg: "HalfOpenMaxRequests (cb_config (?cb er)) = 2" "2 < ConsecutiveSuccesses (cb_config (?cb er))"
    using assms(2) by (auto simp: NewErrorRecovery_def NewCircuitBreaker_def cb_defaults_def recovery_breaker_config_def Let_def)
  obtain er1 where 1: "ExecuteWithRecovery e1 er = Some (er1, Inr v1)" using exec_success [OF inv assms(5)] assms(3, 4) by auto
  have i1: "recovery_inv er1" using exec_inv 1 inv by blast
  have ok: "rq_ok (exec_request e1 er)" "rq_ok (exec_request e2 er1)"
    using assms(5, 6) by (simp_all add: exec_request_def Execute_def)
  have p1: "probing 1 (?cb er1)"
    unfolding exec_breaker [OF 1] using assms(3, 4) cfg ok by (intro probe_first) (simp_all add: exec_request_def)
  have cfg1: "cb_config (?cb er1) = cb_config (?cb er)" by (simp add: exec_breaker [OF 1])
  obtain er2 where 2: "ExecuteWithRecovery e2 er1 = Some (er2, Inr v2)"
    using exec_success [OF i1 assms(6)] p1 cfg cfg1 by (auto simp: probing_def)
  have "probing (Suc 1) (?cb er2)"
    unfolding exec_breaker [OF 2] using p1 cfg cfg1 ok by (intro probe_next) simp_all
  then have "cb_state (?cb er2) = CircuitStateHalfOpen" "HalfOpenMaxRequests (cb_config (?cb er2)) \<le> halfOpenRequestCount (?cb er2)"
    using cfg cfg1 by (simp_all add: probing_def exec_breaker [OF 2])
  from exhausted_probes_block [OF this, of envs] 1 2 show ?thesis by auto
qed

definition brittle_config :: RecoveryConfig where
  "brittle_config = default_recovery_config\<lparr>rc_FailureThreshold := 1\<rparr>"

definition fatal_error :: goerror where
  "fatal_error = Diag (NewDiagnosticError 0 ErrCodeCircuitBreakerOpen ''stop'')"

text \<open>A breaker with the threshold one opens with its first failure.\<close>

lemma threshold_one_opens:
  assumes "cb_state b = CircuitStateClosed" "0 \<le> failureCount b" "FailureThreshold (cb_config b) \<le> 1"
  shows "cb_state (RecordFailure t t' (fst (CanExecute s s' b))) = CircuitStateOpen \<and>
    lastStateChange (RecordFailure t t' (fst (CanExecute s s' b))) = t' \<and>
    cb_config (RecordFailure t t' (fst (CanExecute s s' b))) = cb_config b"
proof -
  obtain c where c: "fst (CanExecute s s' b) = c" "cb_state c = CircuitStateClosed" "0 \<le> failureCount c"
    "cb_config c = cb_config b"
    using assms by (simp add: CanExecute_def resetFailureCount_def Let_def)
  then show ?thesis
    using assms(3) by (simp add: RecordFailure_def shouldOpenCircuit_def transitionToOpen_def Let_def)
qed

theorem recovered_daemon_stays_blocked_witness:
  "\<exists>er rs0 er' rs. recovery_run [sample_exec 1 (Inl fatal_error)] (NewErrorRecovery 0 True (Some brittle_config)) = Some (er, rs0) \<and>
     recovery_run [sample_exec (60 * Second) (Inr 7), sample_exec (61 * Second) (Inr 8), sample_exec (900 * Hour) (Inr 9)] er =
       Some (er', Inr 7 # Inr 8 # rs) \<and> list_all isl rs"
proof -
  let ?er = "NewErrorRecovery 0 True (Some brittle_config)"
  let ?e = "sample_exec 1 (Inl fatal_error)"
  obtain er rs0 where r: "recovery_run [?e] ?er = Some (er, rs0)" using run_total [OF NewErrorRecovery_inv] by blast
  then obtain res where x: "ExecuteWithRecovery ?e ?er = Some (er, res)" by (auto split: option.splits)
  have "\<not> rq_ok (exec_request ?e ?er)"
    by (simp add: exec_request_def Execute_def sample_exec_def fatal_error_def isRetryable_def isRetryableDiagnosticError_def
        NewErrorRecovery_def NewRetryPolicy_def retry_defaults_def recovery_retry_config_def NewDiagnosticError_def mk_diag_def
        getErrorTypeFromCode_def code_at_def Let_def)
  then have cb: "er_circuitBreaker er = RecordFailure 7 7 (fst (CanExecute 1 1 (er_circuitBreaker ?er)))"
    unfolding exec_breaker [OF x] cb_request_def
    by (simp add: exec_request_def sample_exec_def CanExecute_def NewErrorRecovery_def NewCircuitBreaker_def Let_def)
  let ?b = "er_circuitBreaker ?er"
  have "cb_state ?b = CircuitStateClosed" "failureCount ?b = 0" "FailureThreshold (cb_config ?b) = 1"
    "RecoveryTimeout (cb_config ?b) = 30 * Second"
    by (simp_all add: NewErrorRecovery_def NewCircuitBreaker_def cb_defaults_def recovery_breaker_config_def
        brittle_config_def default_recovery_config_def Let_def)
  then have "cb_state (er_circuitBreaker er) = CircuitStateOpen" "lastStateChange (er_circuitBreaker er) = 7"
    "RecoveryTimeout (cb_config (er_circuitBreaker er)) = 30 * Second"
    unfolding cb using threshold_one_opens [of ?b 7 7 1 1] by simp_all
  then have "\<exists>er' rs. recovery_run [sample_exec (60 * Second) (Inr 7), sample_exec (61 * Second) (Inr 8), sample_exec (900 * Hour) (Inr 9)] er =
      Some (er', Inr 7 # Inr 8 # rs) \<and> length rs = length [sample_exec (900 * Hour) (Inr 9)] \<and>
      list_all (\<lambda>r. \<exists>d. r = Inl (Diag d) \<and> Code d = ErrCodeCircuitBreakerOpen) rs \<and>
      cb_state (er_circuitBreaker er') = CircuitStateHalfOpen"
    by (intro recovered_daemon_stays_blocked [OF r])
      (simp_all add: sample_exec_def brittle_config_def default_recovery_config_def Sub_def max_duration_def min_duration_def)
  then obtain er' rs where "recovery_run [sample_exec (60 * Second) (Inr 7), sample_exec (61 * Second) (Inr 8), sample_exec (900 * Hour) (Inr 9)] er =
      Some (er', Inr 7 # Inr 8 # rs)" "list_all (\<lambda>r. \<exists>d. r = Inl (Diag d) \<and> Code d = ErrCodeCircuitBreakerOpen) rs" by blast
  moreover from this(2) have "list_all isl rs" by (auto simp: list_all_iff)
  ultimately show ?thesis using r by blast
qed

text \<open>
  The retry configuration the recovery system builds leaves \<^verbatim>\<open>RespectContext\<close> unset, so a cancelled context
  does not end the retries.
\<close>

lemma retry_loop_ignores_context:
  "\<not> RespectContext cfg \<Longrightarrow> retry_loop cfg (env\<lparr>ctx_done := f\<rparr>) a m e = retry_loop cfg env a m e"
proof (induction cfg env a m e rule: retry_loop.induct)
  case (1 cfg env a m e)
  show ?case
    by (subst (1 2) retry_loop.simps)
      (use 1 in \<open>auto simp: retries_exhausted_def Let_def split: sum.split\<close>)
qed

lemma recovery_ignores_context:
  "Execute (env\<lparr>ctx_done := f\<rparr>) (er_retryPolicy (NewErrorRecovery now client config)) =
   Execute env (er_retryPolicy (NewErrorRecovery now client config))"
  using NewErrorRecovery_inv [of now client config]
  by (simp add: Execute_def recovery_inv_def retry_loop_ignores_context split: sum.split)

text \<open>Its cleanup configuration leaves the maximal age at zero: whatever was not used this very moment is an orphan.\<close>

lemma recovery_orphans_everything:
  "tr_LastUsed r < t \<Longrightarrow> isOrphanedResource t (er_cleanupManager (NewErrorRecovery now client config)) r"
  by (rule zero_age_orphans)
    (simp_all add: NewErrorRecovery_def NewResourceCleanupManager_def recovery_cleanup_config_def Let_def)

end
