(* ===== verification/Enhanced_Engine.thy ===== *)
theory Enhanced_Engine
  imports Engine Graceful_Degradation Error_Recovery
begin

text \<open>
  The enhanced engine of \<^verbatim>\<open>internal/diagnostics/enhanced_engine.go\<close>, which runs the default checks through
  the error recovery system, under graceful degradation. Its worker pool and rate limiter fields are never
  assigned and left out. An operation that panics, or waits for ever on a lock, is \<^term>\<open>None\<close>. The
  goroutines of a parallel run interleave at the locks of \<^verbatim>\<open>ExecuteWithRecovery\<close>: admission by the breaker,
  the retried operation, and the recording of its outcome are separate steps.
\<close>

section \<open>Data\<close>

record EnhancedConfig =
  ec_Parallel :: bool
  ec_Timeout :: Duration
  ec_Verbose :: bool
  ec_TargetFilter :: string
  ec_WorkerCount :: int
  ec_RateLimit :: f64
  ec_EnableErrorRecovery :: bool
  ec_MaxRetryAttempts :: int
  ec_RetryBaseDelay :: Duration
  ec_CircuitBreakerEnabled :: bool
  ec_EnableGracefulDegradation :: bool
  ec_DegradationThresholds :: "(string, f64) gomap option"
  ec_MinimalChecksMode :: bool
  ec_AutoResourceCleanup :: bool
  ec_CleanupAfterErrors :: bool
  ec_PreserveDebugResources :: bool
  ec_EnableHealthMonitoring :: bool
  ec_HealthCheckInterval :: Duration
  ec_HealthRecoveryEnabled :: bool
  ec_AdaptiveExecution :: bool
  ec_PerformanceOptimization :: bool
  ec_DetailedMetricsEnabled :: bool

record CircuitBreakerEvent =
  ev_Timestamp :: Time
  ev_FromState :: CircuitState
  ev_ToState :: CircuitState
  ev_Reason :: string
  ev_CheckName :: string

record ErrorRecoveryEvent =
  re_Timestamp :: Time
  re_CheckName :: string
  re_ErrorType :: ErrorType
  re_ErrorCode :: ErrorCode
  re_RecoveryAction :: string
  re_RecoverySuccess :: bool
  re_RetryAttempts :: int
  re_TimeTaken :: Duration

record ErrorRecoveryResults =
  TotalErrorsRecovered :: int
  RecoveryStrategiesUsed :: "(string, int) gomap option"
  RecoverySuccessRate :: f64
  CircuitBreakerEvents :: "CircuitBreakerEvent list"
  DetailedRecoveryLog :: "ErrorRecoveryEvent list"

record CleanupOperationSummary =
  cs_OperationID :: string
  cs_Timestamp :: Time
  cs_Trigger :: CleanupTrigger
  cs_ResourcesProcessed :: int
  cs_SuccessCount :: int
  cs_FailureCount :: int
  cs_Duration :: Duration

record CleanupResults =
  cl_ResourcesTracked :: int
  cl_ResourcesCleaned :: int
  cl_CleanupOperations :: "CleanupOperationSummary list"
  cl_StorageFreed :: int
  cl_CleanupEfficiency :: f64

datatype ComponentStatus = ComponentStatusHealthy | ComponentStatusDegraded | ComponentStatusCritical | ComponentStatusFailed

datatype IssueSeverity = IssueSeverityLow | IssueSeverityMedium | IssueSeverityHigh | IssueSeverityCritical

record ComponentIssue =
  IssueID :: string
  ci_Severity :: IssueSeverity
  ci_Description :: string
  ci_Impact :: string
  ci_Resolution :: string
  ci_DetectedAt :: Time
  ci_Metadata :: "(string, context_value) gomap option"

record ComponentHealth =
  ComponentName :: string
  ch_HealthScore :: f64
  ch_Status :: ComponentStatus
  ch_LastChecked :: Time
  ch_Issues :: "ComponentIssue list"
  ch_Metrics :: "(string, f64) gomap option"

datatype CriticalImpact =
  ImpactServiceDegradation | ImpactServiceOutage | ImpactDataLoss | ImpactSecurityBreach | ImpactResourceExhaustion

datatype IssueUrgency = UrgencyLow | UrgencyMedium | UrgencyHigh | UrgencyImmediate

record CriticalIssue =
  IssueType :: string
  cri_Description :: string
  cri_Impact :: CriticalImpact
  cri_DetectedAt :: Time
  cri_Resolution :: string
  cri_Urgency :: IssueUrgency

datatype RecommendationPriority =
  RecommendationPriorityLow | RecommendationPriorityMedium | RecommendationPriorityHigh | RecommendationPriorityCritical

datatype EffortLevel = EffortMinimal | EffortLow | EffortMedium | EffortHigh

record ActionItem =
  ActionID :: string
  ai_Description :: string
  ai_Command :: string
  ai_Automated :: bool
  ai_Metadata :: "(string, context_value) gomap option"

record HealthRecommendation =
  RecommendationID :: string
  hr_Category :: string
  hr_Title :: string
  hr_Description :: string
  hr_Priority :: RecommendationPriority
  hr_Actions :: "ActionItem list"
  hr_ExpectedBenefit :: string
  hr_EstimatedEffort :: EffortLevel

record HealthAssessment =
  ha_OverallHealthScore :: f64
  ha_ComponentHealth :: "(string, ComponentHealth option) gomap option"
  ha_HealthTrend :: HealthTrend
  ha_CriticalIssues :: "CriticalIssue list"
  ha_RecommendedActions :: "HealthRecommendation list"
  ha_NextHealthCheck :: Time

text \<open>\<^verbatim>\<open>PerformanceProfile\<close> and \<^verbatim>\<open>RecommendationEngine\<close> are empty structs.\<close>

datatype PerformanceProfile = PerformanceProfile

datatype RecommendationEngine = RecommendationEngine

record EnhancedResults =
  enr_Checks :: "CheckResult option list"
  enr_Summary :: Summary
  enr_Duration :: Duration
  enr_ErrorRecoveryResults :: "ErrorRecoveryResults option"
  enr_DegradationStatus :: "DegradationStatus option"
  enr_CleanupResults :: "CleanupResults option"
  enr_HealthAssessment :: "HealthAssessment option"
  enr_ExecutionMetrics :: "ExecutionMetrics option"
  enr_PerformanceProfile :: "PerformanceProfile option"
  enr_RecommendationEngine :: "RecommendationEngine option"

record PerformanceMetrics =
  CPUUsagePercent :: f64
  pfm_MemoryUsageMB :: f64
  MemoryPeakMB :: f64
  APICallsPerSecond :: f64
  ThroughputOperationsPS :: f64
  LatencyP50 :: Duration
  LatencyP95 :: Duration
  LatencyP99 :: Duration

record HealthMetrics =
  hm_OverallHealthScore :: f64
  ComponentHealthScores :: "(string, f64) gomap option"
  hm_HealthTrend :: HealthTrend
  CriticalIssueCount :: int
  LastHealthCheck :: Time
  HealthCheckFrequency :: Duration

text \<open>
  The subsystem metrics start with Go's zero values; \<^verbatim>\<open>GetMetrics\<close> overwrites them where the subsystem
  exists, and \<^term>\<open>None\<close> stands for a zero value never overwritten.
\<close>

record EnhancedEngineMetrics =
  eem_TotalOperations :: int
  eem_SuccessfulOperations :: int
  eem_FailedOperations :: int
  eem_TotalExecutionTime :: Duration
  eem_AverageExecutionTime :: Duration
  eem_ErrorRecoveryMetrics :: "RecoveryMetrics option"
  eem_CircuitBreakerMetrics :: "CircuitBreakerMetrics option"
  eem_DegradationMetrics :: "DegradationMetrics option"
  eem_CleanupMetrics :: "CleanupMetrics option"
  eem_PerformanceMetrics :: "PerformanceMetrics option"
  eem_HealthMetrics :: "HealthMetrics option"

datatype EngineStatus =
  EngineStatusHealthy | EngineStatusDegraded | EngineStatusCritical | EngineStatusFailed | EngineStatusRecovering

datatype IncidentStatus =
    IncidentStatusOpen | IncidentStatusInvestigating | IncidentStatusRecovering | IncidentStatusMonitoring
  | IncidentStatusResolved

record ActiveIncident =
  IncidentID :: string
  in_Title :: string
  in_Severity :: IssueSeverity
  in_StartTime :: Time
  in_Description :: string
  in_AffectedComponents :: "string list"
  in_RecoveryActions :: "string list"
  in_Status :: IncidentStatus
  in_Metadata :: "(string, context_value) gomap option"

record EngineHealthStatus =
  ehs_Status :: EngineStatus
  ehs_LastStatusChange :: Time
  ehs_StatusReason :: string
  ehs_ComponentStatuses :: "(string, ComponentStatus) gomap"
  ehs_ActiveIncidents :: "ActiveIncident list"
  ehs_RecoveryInProgress :: bool

record EnhancedDiagnosticEngine =
  ee_dockerClient :: bool
  ee_checks :: "Check list"
  ee_config :: EnhancedConfig
  ee_errorRecovery :: "ErrorRecovery option"
  ee_gracefulDegradation :: "GracefulDegradation option"
  ee_resourceCleanup :: "ResourceCleanupManager option"
  ee_results :: EnhancedResults
  ee_metrics :: EnhancedEngineMetrics
  ee_healthStatus :: EngineHealthStatus
  ee_stopped :: bool

section \<open>Construction\<close>

definition default_enhanced_config :: "int \<Rightarrow> EnhancedConfig" where
  "default_enhanced_config numCPU =
     \<lparr>ec_Parallel = True, ec_Timeout = 30 * Second, ec_Verbose = False, ec_TargetFilter = [], ec_WorkerCount = numCPU,
      ec_RateLimit = flit 10, ec_EnableErrorRecovery = True, ec_MaxRetryAttempts = 3,
      ec_RetryBaseDelay = 500 * Millisecond, ec_CircuitBreakerEnabled = True, ec_EnableGracefulDegradation = True,
      ec_DegradationThresholds = None, ec_MinimalChecksMode = False, ec_AutoResourceCleanup = True,
      ec_CleanupAfterErrors = True, ec_PreserveDebugResources = False, ec_EnableHealthMonitoring = True,
      ec_HealthCheckInterval = 30 * Second, ec_HealthRecoveryEnabled = True, ec_AdaptiveExecution = True,
      ec_PerformanceOptimization = True, ec_DetailedMetricsEnabled = True\<rparr>"

text \<open>The configurations of the three subsystems; the fields left out have Go's zero value.\<close>

definition enhanced_recovery_config :: "EnhancedConfig \<Rightarrow> RecoveryConfig" where
  "enhanced_recovery_config c =
     \<lparr>rc_MaxRetries = ec_MaxRetryAttempts c, rc_BaseDelay = ec_RetryBaseDelay c, rc_MaxDelay = 0,
      rc_BackoffStrategy = ExponentialBackoff, rc_FailureThreshold = 0, rc_RecoveryTimeout = 0,
      rc_ConsecutiveSuccesses = 0, rc_CleanupTimeout = 0, rc_AutoCleanup = ec_AutoResourceCleanup c,
      rc_PreserveDebugData = False, rc_EnableDegradation = ec_EnableGracefulDegradation c,
      rc_MinimalChecksOnly = False, rc_PartialResultsOK = False\<rparr>"

definition enhanced_degradation_config :: "EnhancedConfig \<Rightarrow> DegradationConfig" where
  "enhanced_degradation_config c =
     \<lparr>dc_EnableAutoDetection = True, dc_DefaultLevel = DegradationNormal, dc_ManualOverrideAllowed = False,
      dc_HealthCheckInterval = ec_HealthCheckInterval c, dc_RecoveryCheckInterval = 0, dc_StabilityPeriod = 0,
      dc_ErrorRateThresholds = None, dc_ResourceThresholds = None, dc_ResponseTimeThresholds = None,
      dc_EnableAutoRecovery = ec_HealthRecoveryEnabled c, dc_RecoveryStabilityPeriod = 0,
      dc_ConservativeRecovery = False\<rparr>"

definition enhanced_cleanup_config :: "EnhancedConfig \<Rightarrow> CleanupConfig" where
  "enhanced_cleanup_config c =
     \<lparr>cc_Timeout = 10 * Second, cc_AutoCleanup = True, cc_DryRun = False,
      cc_PreserveDebugData = ec_PreserveDebugResources c, cc_CleanupRetention = 0, cc_ResourceMaxAge = 0,
      cc_RequireConfirmation = False, cc_AllowForceCleanup = False, cc_BackupBeforeCleanup = False,
      cc_MaxConcurrentCleanups = 0, cc_CleanupBatchSize = 0, cc_EnablePeriodicCleanup = False,
      cc_PeriodicCleanupInterval = 0\<rparr>"

definition empty_enhanced_results :: EnhancedResults where
  "empty_enhanced_results =
     \<lparr>enr_Checks = [], enr_Summary = empty_summary, enr_Duration = 0, enr_ErrorRecoveryResults = None,
      enr_DegradationStatus = None, enr_CleanupResults = None, enr_HealthAssessment = None,
      enr_ExecutionMetrics = None, enr_PerformanceProfile = None, enr_RecommendationEngine = None\<rparr>"

definition empty_engine_metrics :: EnhancedEngineMetrics where
  "empty_engine_metrics =
     \<lparr>eem_TotalOperations = 0, eem_SuccessfulOperations = 0, eem_FailedOperations = 0, eem_TotalExecutionTime = 0,
      eem_AverageExecutionTime = 0, eem_ErrorRecoveryMetrics = None, eem_CircuitBreakerMetrics = None,
      eem_DegradationMetrics = None, eem_CleanupMetrics = None, eem_PerformanceMetrics = None, eem_HealthMetrics = None\<rparr>"

definition enhanced_registerDefaultChecks :: "Check list" where
  "enhanced_registerDefaultChecks = registerDefaultChecks"

text \<open>The clock is read for the engine, for the recovery system and twice for the degradation system.\<close>

definition NewEnhancedEngine :: "(nat \<Rightarrow> Time) \<Rightarrow> int \<Rightarrow> bool \<Rightarrow> EnhancedConfig option \<Rightarrow> EnhancedDiagnosticEngine" where
  "NewEnhancedEngine now numCPU client config =
     (let config = (case config of None \<Rightarrow> default_enhanced_config numCPU | Some c \<Rightarrow> c)
      in \<lparr>ee_dockerClient = client, ee_checks = enhanced_registerDefaultChecks, ee_config = config,
          ee_errorRecovery = (if ec_EnableErrorRecovery config
                              then Some (NewErrorRecovery (now 1) client (Some (enhanced_recovery_config config))) else None),
          ee_gracefulDegradation = (if ec_EnableGracefulDegradation config
                              then Some (NewGracefulDegradation (now 2) (now 3) (Some (enhanced_degradation_config config))) else None),
          ee_resourceCleanup = (if ec_AutoResourceCleanup config
                              then Some (NewResourceCleanupManager (Some (enhanced_cleanup_config config))) else None),
          ee_results = empty_enhanced_results, ee_metrics = empty_engine_metrics,
          ee_healthStatus = \<lparr>ehs_Status = EngineStatusHealthy, ehs_LastStatusChange = now 0, ehs_StatusReason = [],
            ehs_ComponentStatuses = [], ehs_ActiveIncidents = [], ehs_RecoveryInProgress = False\<rparr>,
          ee_stopped = False\<rparr>)"

section \<open>Placeholders of the source\<close>

definition assessSystemHealth :: "EnhancedDiagnosticEngine \<Rightarrow> f64" where
  "assessSystemHealth e = flit 1"

definition handleCriticalHealth :: "EnhancedDiagnosticEngine \<Rightarrow> goerror option" where
  "handleCriticalHealth e = None"

definition performErrorCleanup :: "goerror \<Rightarrow> EnhancedDiagnosticEngine \<Rightarrow> CleanupResults \<times> goerror option" where
  "performErrorCleanup err e =
     (\<lparr>cl_ResourcesTracked = 0, cl_ResourcesCleaned = 0, cl_CleanupOperations = [], cl_StorageFreed = 0,
       cl_CleanupEfficiency = Fin 0\<rparr>, None)"

definition collectErrorRecoveryResults :: "EnhancedDiagnosticEngine \<Rightarrow> ErrorRecoveryResults" where
  "collectErrorRecoveryResults e =
     \<lparr>TotalErrorsRecovered = 0, RecoveryStrategiesUsed = None, RecoverySuccessRate = Fin 0, CircuitBreakerEvents = [],
      DetailedRecoveryLog = []\<rparr>"

definition generateHealthAssessment :: "EnhancedDiagnosticEngine \<Rightarrow> HealthAssessment" where
  "generateHealthAssessment e =
     \<lparr>ha_OverallHealthScore = Fin 0, ha_ComponentHealth = None, ha_HealthTrend = TrendStable, ha_CriticalIssues = [],
      ha_RecommendedActions = [], ha_NextHealthCheck = zero_time\<rparr>"

definition generateRecommendations :: "EnhancedDiagnosticEngine \<Rightarrow> RecommendationEngine" where
  "generateRecommendations e = RecommendationEngine"

text \<open>
  One round of \<^verbatim>\<open>healthMonitoringLoop\<close>, which drops the score. Making its ticker panics in the goroutine
  when the interval is not positive: \<^term>\<open>None\<close>.
\<close>

definition ee_healthMonitoringLoop :: "EnhancedDiagnosticEngine \<Rightarrow> EnhancedDiagnosticEngine option" where
  "ee_healthMonitoringLoop e =
     (if ec_HealthCheckInterval (ee_config e) \<le> 0 then None else (let score = assessSystemHealth e in Some e))"

definition shouldStopOnError :: "Check \<Rightarrow> goerror \<Rightarrow> bool" where
  "shouldStopOnError check err \<longleftrightarrow> c_Severity check = SeverityCritical \<and> c_Name check = ''daemon_connectivity''"

section \<open>Running one check\<close>

text \<open>
  What the environment supplies for a run: the clock around it, the environment of each check's call of
  \<^verbatim>\<open>ExecuteWithRecovery\<close> (whose operation is the check), what a check returns when it is run directly,
  whether the context is done after each check, and what \<^verbatim>\<open>GetDegradationStatus\<close> needs.
\<close>

record enhanced_env =
  ne_start :: Time
  ne_end :: Time
  ne_exec :: "nat \<Rightarrow> CheckResult option exec_env"
  ne_direct :: "nat \<Rightarrow> goerror + CheckResult option"
  ne_done :: "nat \<Rightarrow> goerror option"
  ne_ord :: "string list"
  ne_status_time :: Time
  ne_writer :: bool

definition executeCheckWithRecovery ::
    "enhanced_env \<Rightarrow> nat \<Rightarrow> EnhancedDiagnosticEngine \<Rightarrow> (EnhancedDiagnosticEngine \<times> (goerror + CheckResult option)) option" where
  "executeCheckWithRecovery env i e =
     (case ee_errorRecovery e of
        Some er \<Rightarrow> map_option (\<lambda>(er, res). (e\<lparr>ee_errorRecovery := Some er\<rparr>, res)) (ExecuteWithRecovery (ne_exec env i) er)
      | None \<Rightarrow> Some (e, ne_direct env i))"

definition add_check :: "CheckResult option \<Rightarrow> EnhancedDiagnosticEngine \<Rightarrow> EnhancedDiagnosticEngine" where
  "add_check r e = e\<lparr>ee_results := (ee_results e)\<lparr>enr_Checks := enr_Checks (ee_results e) @ [r]\<rparr>\<rparr>"

section \<open>Sequential runs\<close>

fun recovery_loop ::
    "enhanced_env \<Rightarrow> nat \<Rightarrow> Check list \<Rightarrow> goerror list \<Rightarrow> EnhancedDiagnosticEngine \<Rightarrow>
     (EnhancedDiagnosticEngine \<times> (goerror + goerror list)) option" where
  "recovery_loop env i [] errors e = Some (e, Inr errors)"
| "recovery_loop env i (check # cs) errors e =
     (case executeCheckWithRecovery env i e of
        None \<Rightarrow> None
      | Some (e, Inl err) \<Rightarrow>
          if shouldStopOnError check err then Some (e, Inr (errors @ [err]))
          else (case ne_done env i of
                  Some cerr \<Rightarrow> Some (e, Inl cerr)
                | None \<Rightarrow> recovery_loop env (i + 1) cs (errors @ [err]) e)
      | Some (e, Inr result) \<Rightarrow>
          (case ne_done env i of
             Some cerr \<Rightarrow> Some (add_check result e, Inl cerr)
           | None \<Rightarrow> recovery_loop env (i + 1) cs errors (add_check result e)))"

definition execution_error :: "string \<Rightarrow> goerror list \<Rightarrow> goerror option" where
  "execution_error kind errors =
     (if length errors > 0
      then Some (ErrorString (''encountered '' @ show_int (int (length errors)) @ '' errors during '' @ kind @ '' execution: '' @
                              Error (hd errors)))
      else None)"

definition runSequentialWithRecovery ::
    "enhanced_env \<Rightarrow> Check list \<Rightarrow> EnhancedDiagnosticEngine \<Rightarrow> (EnhancedDiagnosticEngine \<times> goerror option) option" where
  "runSequentialWithRecovery env cs e =
     (case recovery_loop env 0 cs [] e of
        None \<Rightarrow> None
      | Some (e, Inl cerr) \<Rightarrow> Some (e, Some cerr)
      | Some (e, Inr errors) \<Rightarrow> Some (e, execution_error ''sequential'' errors))"

section \<open>Parallel runs\<close>

text \<open>The three steps of \<^verbatim>\<open>ExecuteWithRecovery\<close> between which other goroutines may run.\<close>

definition enter_exec :: "'a exec_env \<Rightarrow> ErrorRecovery \<Rightarrow> ErrorRecovery \<times> DiagnosticError option" where
  "enter_exec env er =
     (let er = er\<lparr>er_metrics := (er_metrics er)\<lparr>rm_TotalOperations := rm_TotalOperations (er_metrics er) + 1\<rparr>\<rparr>
      in case CanExecute (xe_t0 env) (xe_t1 env) (er_circuitBreaker er) of
           (cb, False) \<Rightarrow>
             (er\<lparr>er_circuitBreaker := cb,
                 er_metrics := (er_metrics er)\<lparr>rm_CircuitBreakerBlocks := rm_CircuitBreakerBlocks (er_metrics er) + 1\<rparr>\<rparr>,
              Some (blocked_error cb))
         | (cb, True) \<Rightarrow> (er\<lparr>er_circuitBreaker := cb\<rparr>, None))"

definition run_exec :: "'a exec_env \<Rightarrow> ErrorRecovery \<Rightarrow> ErrorRecovery \<times> (goerror + 'a)" where
  "run_exec env er =
     (case Execute (xe_retry env) (er_retryPolicy er) of
        (rp, res) \<Rightarrow> (er\<lparr>er_retryPolicy := rp,
                        er_metrics := count_time (Sub (xe_end env) (xe_start env)) (er_metrics er)\<rparr>, res))"

lemma ExecuteWithRecovery_steps:
  "ExecuteWithRecovery env er =
     (case enter_exec env er of
        (er, Some d) \<Rightarrow> Some (er, Inl (Diag d))
      | (er, None) \<Rightarrow> (case run_exec env er of (er, res) \<Rightarrow> record_outcome env res er))"
  by (simp add: ExecuteWithRecovery_def enter_exec_def run_exec_def Let_def split: prod.split bool.split)

text \<open>
  Where the goroutine of a check is: waiting for the semaphore, holding it, admitted by the breaker,
  back from the operation, back from the recovery system, having sent its result, or over.
\<close>

datatype task =
    AtSemaphore
  | HasSlot
  | Admitted
  | Ran "goerror + CheckResult option"
  | Back "goerror + CheckResult option"
  | Sent
  | Finished

definition holds :: "task \<Rightarrow> bool" where
  "holds t \<longleftrightarrow> t \<noteq> AtSemaphore \<and> t \<noteq> Finished"

record parallel_run =
  pl_engine :: EnhancedDiagnosticEngine
  pl_tasks :: "task list"
  pl_resultsChan :: "CheckResult option list"
  pl_errorsChan :: "goerror list"
  pl_errors :: "goerror list"

definition in_recovery :: "ErrorRecovery \<Rightarrow> parallel_run \<Rightarrow> parallel_run" where
  "in_recovery er p = p\<lparr>pl_engine := (pl_engine p)\<lparr>ee_errorRecovery := Some er\<rparr>\<rparr>"

definition set_task :: "nat \<Rightarrow> task \<Rightarrow> parallel_run \<Rightarrow> parallel_run" where
  "set_task i t p = p\<lparr>pl_tasks := (pl_tasks p)[i := t]\<rparr>"

inductive parallel_step :: "enhanced_env \<Rightarrow> parallel_run \<Rightarrow> parallel_run \<Rightarrow> bool"
  for env :: enhanced_env where
  acquires: "i < length (pl_tasks p) \<Longrightarrow> pl_tasks p ! i = AtSemaphore \<Longrightarrow>
    int (length (filter holds (pl_tasks p))) < ec_WorkerCount (ee_config (pl_engine p)) \<Longrightarrow>
    parallel_step env p (set_task i HasSlot p)"
| admitted: "i < length (pl_tasks p) \<Longrightarrow> pl_tasks p ! i = HasSlot \<Longrightarrow> ee_errorRecovery (pl_engine p) = Some er \<Longrightarrow>
    enter_exec (ne_exec env i) er = (er', None) \<Longrightarrow> parallel_step env p (set_task i Admitted (in_recovery er' p))"
| blocked: "i < length (pl_tasks p) \<Longrightarrow> pl_tasks p ! i = HasSlot \<Longrightarrow> ee_errorRecovery (pl_engine p) = Some er \<Longrightarrow>
    enter_exec (ne_exec env i) er = (er', Some d) \<Longrightarrow>
    parallel_step env p (set_task i (Back (Inl (Diag d))) (in_recovery er' p))"
| runs: "i < length (pl_tasks p) \<Longrightarrow> pl_tasks p ! i = Admitted \<Longrightarrow> ee_errorRecovery (pl_engine p) = Some er \<Longrightarrow>
    run_exec (ne_exec env i) er = (er', res) \<Longrightarrow> parallel_step env p (set_task i (Ran res) (in_recovery er' p))"
| records: "i < length (pl_tasks p) \<Longrightarrow> pl_tasks p ! i = Ran res \<Longrightarrow> ee_errorRecovery (pl_engine p) = Some er \<Longrightarrow>
    record_outcome (ne_exec env i) res er = Some (er', res') \<Longrightarrow>
    parallel_step env p (set_task i (Back res') (in_recovery er' p))"
| direct: "i < length (pl_tasks p) \<Longrightarrow> pl_tasks p ! i = HasSlot \<Longrightarrow> ee_errorRecovery (pl_engine p) = None \<Longrightarrow>
    parallel_step env p (set_task i (Back (ne_direct env i)) p)"
| sends_result: "i < length (pl_tasks p) \<Longrightarrow> pl_tasks p ! i = Back (Inr r) \<Longrightarrow>
    parallel_step env p (set_task i Sent (p\<lparr>pl_resultsChan := pl_resultsChan p @ [r]\<rparr>))"
| sends_error: "i < length (pl_tasks p) \<Longrightarrow> pl_tasks p ! i = Back (Inl err) \<Longrightarrow>
    parallel_step env p (set_task i Sent (p\<lparr>pl_errorsChan := pl_errorsChan p @ [err]\<rparr>))"
| releases: "i < length (pl_tasks p) \<Longrightarrow> pl_tasks p ! i = Sent \<Longrightarrow> parallel_step env p (set_task i Finished p)"
| takes_result: "pl_resultsChan p = r # rs \<Longrightarrow>
    parallel_step env p (p\<lparr>pl_engine := add_check r (pl_engine p), pl_resultsChan := rs\<rparr>)"
| takes_error: "pl_errorsChan p = err # errs \<Longrightarrow>
    parallel_step env p (p\<lparr>pl_errorsChan := errs, pl_errors := pl_errors p @ [err]\<rparr>)"

definition parallel_start :: "Check list \<Rightarrow> EnhancedDiagnosticEngine \<Rightarrow> parallel_run" where
  "parallel_start cs e =
     \<lparr>pl_engine = e, pl_tasks = replicate (length cs) AtSemaphore, pl_resultsChan = [], pl_errorsChan = [], pl_errors = []\<rparr>"

definition parallel_over :: "parallel_run \<Rightarrow> bool" where
  "parallel_over p \<longleftrightarrow> list_all (\<lambda>t. t = Finished) (pl_tasks p) \<and> pl_resultsChan p = [] \<and> pl_errorsChan p = []"

text \<open>A negative semaphore size panics; a run that waits for ever has no outcome.\<close>

definition runWithErrorRecovery ::
    "enhanced_env \<Rightarrow> Check list \<Rightarrow> EnhancedDiagnosticEngine \<Rightarrow> (EnhancedDiagnosticEngine \<times> goerror option) option \<Rightarrow> bool" where
  "runWithErrorRecovery env cs e res \<longleftrightarrow>
     (if ec_WorkerCount (ee_config e) < 0 then res = None
      else \<exists>p. (parallel_step env)\<^sup>*\<^sup>* (parallel_start cs e) p \<and> parallel_over p \<and>
             res = Some (pl_engine p, execution_error ''parallel'' (pl_errors p)))"

section \<open>Run\<close>

definition calculateExecutionMetrics :: "EnhancedEngineMetrics \<Rightarrow> EnhancedEngineMetrics" where
  "calculateExecutionMetrics m =
     (if eem_TotalOperations m > 0
      then m\<lparr>eem_AverageExecutionTime := go_quot (eem_TotalExecutionTime m) (eem_TotalOperations m)\<rparr> else m)"

definition enhanced_calculateSummary :: "EnhancedDiagnosticEngine \<Rightarrow> EnhancedDiagnosticEngine option" where
  "enhanced_calculateSummary e =
     map_option (\<lambda>rs. e\<lparr>ee_results := (ee_results e)\<lparr>enr_Summary :=
         fold (count_result (ee_checks e)) rs (empty_summary\<lparr>TotalChecks := int (length rs)\<rparr>)\<rparr>\<rparr>)
       (deref (enr_Checks (ee_results e)))"

definition prepare_run ::
    "enhanced_env \<Rightarrow> EnhancedDiagnosticEngine \<Rightarrow> (EnhancedDiagnosticEngine \<times> (goerror + Check list)) option" where
  "prepare_run env e =
     (let e = e\<lparr>ee_metrics := (ee_metrics e)\<lparr>eem_TotalOperations := eem_TotalOperations (ee_metrics e) + 1\<rparr>\<rparr>;
          critical = (if ec_EnableHealthMonitoring (ee_config e) \<and> f_lt (assessSystemHealth e) (flit (3 / 10))
                      then handleCriticalHealth e else None)
      in case critical of
           Some err \<Rightarrow> Some (e, Inl (Errorf ''system critically unhealthy and recovery failed: '' err []))
         | None \<Rightarrow>
             (case ee_gracefulDegradation e of
                None \<Rightarrow> Some (e, Inr (ee_checks e))
              | Some gd \<Rightarrow> do {
                  (gd, cs) \<leftarrow> FilterChecks (ee_checks e) gd;
                  status \<leftarrow> GetDegradationStatus (ne_ord env) (ne_status_time env) (ne_writer env) gd;
                  Some (e\<lparr>ee_gracefulDegradation := Some gd,
                          ee_results := (ee_results e)\<lparr>enr_DegradationStatus := Some status\<rparr>\<rparr>, Inr cs)
                }))"

definition attach_results :: "goerror option \<Rightarrow> EnhancedDiagnosticEngine \<Rightarrow> EnhancedDiagnosticEngine" where
  "attach_results executionErr e =
     (let e = (case executionErr of
                 Some err \<Rightarrow>
                   if ec_CleanupAfterErrors (ee_config e) \<and> ee_resourceCleanup e \<noteq> None
                   then e\<lparr>ee_results := (ee_results e)\<lparr>enr_CleanupResults := Some (fst (performErrorCleanup err e))\<rparr>\<rparr> else e
               | None \<Rightarrow> e);
          e = (if ee_errorRecovery e \<noteq> None
               then e\<lparr>ee_results := (ee_results e)\<lparr>enr_ErrorRecoveryResults := Some (collectErrorRecoveryResults e)\<rparr>\<rparr> else e);
          e = (if ec_EnableHealthMonitoring (ee_config e)
               then e\<lparr>ee_results := (ee_results e)\<lparr>enr_HealthAssessment := Some (generateHealthAssessment e)\<rparr>\<rparr> else e)
      in e\<lparr>ee_results := (ee_results e)\<lparr>enr_RecommendationEngine := Some (generateRecommendations e)\<rparr>\<rparr>)"

definition count_run :: "goerror option \<Rightarrow> EnhancedEngineMetrics \<Rightarrow> EnhancedEngineMetrics" where
  "count_run executionErr m =
     (if executionErr \<noteq> None then m\<lparr>eem_FailedOperations := eem_FailedOperations m + 1\<rparr>
      else m\<lparr>eem_SuccessfulOperations := eem_SuccessfulOperations m + 1\<rparr>)"

definition complete_run ::
    "enhanced_env \<Rightarrow> goerror option \<Rightarrow> EnhancedDiagnosticEngine \<Rightarrow> (EnhancedDiagnosticEngine \<times> EnhancedResults option \<times> goerror option) option" where
  "complete_run env executionErr e =
     (let d = Sub (ne_end env) (ne_start env);
          e = e\<lparr>ee_results := (ee_results e)\<lparr>enr_Duration := d\<rparr>,
                ee_metrics := calculateExecutionMetrics
                  ((ee_metrics e)\<lparr>eem_TotalExecutionTime := wrap64 (eem_TotalExecutionTime (ee_metrics e) + d)\<rparr>)\<rparr>;
          e = attach_results executionErr e;
          e = e\<lparr>ee_metrics := count_run executionErr (ee_metrics e)\<rparr>
      in map_option (\<lambda>e. (e, Some (ee_results e), executionErr)) (enhanced_calculateSummary e))"

definition enhanced_Run ::
    "enhanced_env \<Rightarrow> EnhancedDiagnosticEngine \<Rightarrow>
     (EnhancedDiagnosticEngine \<times> EnhancedResults option \<times> goerror option) option \<Rightarrow> bool" where
  "enhanced_Run env e res \<longleftrightarrow>
     (case prepare_run env e of
        None \<Rightarrow> False
      | Some (e, Inl err) \<Rightarrow> res = Some (e, None, Some err)
      | Some (e, Inr cs) \<Rightarrow>
          if ec_Parallel (ee_config e)
          then \<exists>out. runWithErrorRecovery env cs e out \<and>
                 res = (case out of None \<Rightarrow> None | Some (e, err) \<Rightarrow> complete_run env err e)
          else res = (case runSequentialWithRecovery env cs e of None \<Rightarrow> None | Some (e, err) \<Rightarrow> complete_run env err e))"

section \<open>Metrics, status and shutdown\<close>

definition ee_GetMetrics ::
    "string list \<Rightarrow> Time \<Rightarrow> Time \<Rightarrow> EnhancedDiagnosticEngine \<Rightarrow> (EnhancedDiagnosticEngine \<times> EnhancedEngineMetrics) option" where
  "ee_GetMetrics ord now now' e =
     (let e = (case ee_errorRecovery e of
                 Some er \<Rightarrow> e\<lparr>ee_metrics := (ee_metrics e)\<lparr>eem_ErrorRecoveryMetrics := Some (er_GetMetrics er)\<rparr>\<rparr>
               | None \<Rightarrow> e);
          cleanup = (\<lambda>e. case ee_resourceCleanup e of
                 Some rcm \<Rightarrow> e\<lparr>ee_metrics := (ee_metrics e)\<lparr>eem_CleanupMetrics := Some (rcm_GetMetrics now' rcm)\<rparr>\<rparr>
               | None \<Rightarrow> e)
      in case ee_gracefulDegradation e of
           None \<Rightarrow> Some (cleanup e, ee_metrics (cleanup e))
         | Some gd \<Rightarrow> do {
             (gd, dm) \<leftarrow> GracefulDegradation_GetMetrics ord now gd;
             let e = e\<lparr>ee_gracefulDegradation := Some gd,
                       ee_metrics := (ee_metrics e)\<lparr>eem_DegradationMetrics := Some dm\<rparr>\<rparr>;
             Some (cleanup e, ee_metrics (cleanup e))
           })"

definition GetHealthStatus :: "EnhancedDiagnosticEngine \<Rightarrow> EngineHealthStatus" where
  "GetHealthStatus e = ee_healthStatus e"

definition ee_Shutdown ::
    "run_env \<Rightarrow> run_env \<Rightarrow> run_env \<Rightarrow> EnhancedDiagnosticEngine \<Rightarrow> (EnhancedDiagnosticEngine \<times> goerror option) option" where
  "ee_Shutdown env env' env'' e = do {
     let e = e\<lparr>ee_stopped := True\<rparr>;
     (e, errors) \<leftarrow>
       (case ee_errorRecovery e of
          None \<Rightarrow> Some (e, [])
        | Some er \<Rightarrow> map_option (\<lambda>(er, err). (e\<lparr>ee_errorRecovery := Some er\<rparr>,
              case err of Some x \<Rightarrow> [Errorf ''error recovery shutdown failed: '' x []] | None \<Rightarrow> []))
            (er_Shutdown env env' er));
     (e, errors) \<leftarrow>
       (case ee_resourceCleanup e of
          None \<Rightarrow> Some (e, errors)
        | Some rcm \<Rightarrow> map_option (\<lambda>(rcm, err). (e\<lparr>ee_resourceCleanup := Some rcm\<rparr>,
              errors @ (case err of Some x \<Rightarrow> [Errorf ''resource cleanup shutdown failed: '' x []] | None \<Rightarrow> [])))
            (rcm_Shutdown (rn_clock env'') (rn_select env'') (rn_cleanup env'') rcm));
     let e = e\<lparr>ee_gracefulDegradation := map_option gd_Stop (ee_gracefulDegradation e)\<rparr>;
     Some (e, if length errors > 0
              then Some (ErrorString (''shutdown completed with errors: '' @ show_strings (map Error errors))) else None)
   }"

section \<open>Accounting of parallel runs\<close>

definition delivered :: "task \<Rightarrow> bool" where
  "delivered t \<longleftrightarrow> t = Sent \<or> t = Finished"

text \<open>
  At most the configured number of checks is in progress, and every check that has delivered its outcome
  is found exactly once: among the results, among the errors or in one of the channels.
\<close>

definition parallel_inv :: "Check list \<Rightarrow> EnhancedDiagnosticEngine \<Rightarrow> parallel_run \<Rightarrow> bool" where
  "parallel_inv cs e p \<longleftrightarrow> length (pl_tasks p) = length cs \<and> ee_config (pl_engine p) = ee_config e \<and>
     ee_checks (pl_engine p) = ee_checks e \<and> ee_metrics (pl_engine p) = ee_metrics e \<and>
     int (length (filter holds (pl_tasks p))) \<le> max 0 (ec_WorkerCount (ee_config e)) \<and>
     (ec_WorkerCount (ee_config e) \<le> 0 \<longrightarrow> list_all (\<lambda>t. t = AtSemaphore) (pl_tasks p)) \<and>
     (\<exists>new. enr_Checks (ee_results (pl_engine p)) = enr_Checks (ee_results e) @ new \<and>
        int (length new) + int (length (pl_resultsChan p)) + int (length (pl_errorsChan p)) + int (length (pl_errors p)) =
          int (length (filter delivered (pl_tasks p))))"

lemma parallel_start_inv: "parallel_inv cs e (parallel_start cs e)"
  by (simp add: parallel_inv_def parallel_start_def holds_def delivered_def list_all_iff)

text \<open>A task that moves on keeps the invariant when it accounts for what it delivers.\<close>

lemma parallel_inv_move:
  assumes "parallel_inv cs e p" "i < length (pl_tasks p)" "holds (pl_tasks p ! i)"
    "pl_tasks p' = (pl_tasks p)[i := pl_tasks p' ! i]" "ee_config (pl_engine p') = ee_config (pl_engine p)"
    "ee_checks (pl_engine p') = ee_checks (pl_engine p)" "ee_metrics (pl_engine p') = ee_metrics (pl_engine p)"
    "ee_results (pl_engine p') = ee_results (pl_engine p)" "pl_errors p' = pl_errors p"
    "int (length (pl_resultsChan p')) + int (length (pl_errorsChan p')) =
       int (length (pl_resultsChan p)) + int (length (pl_errorsChan p)) +
       (if delivered (pl_tasks p' ! i) then 1 else 0) - (if delivered (pl_tasks p ! i) then 1 else 0)"
  shows "parallel_inv cs e p'"
proof -
  have w: "0 < ec_WorkerCount (ee_config e)"
    using assms(1-3) by (fastforce simp: parallel_inv_def list_all_length holds_def)
  have h: "int (length (filter holds (pl_tasks p'))) \<le> int (length (filter holds (pl_tasks p)))"
    using assms(2, 3) count_list_update [of i "pl_tasks p" holds "pl_tasks p' ! i"] assms(4) by simp
  have d: "int (length (filter delivered (pl_tasks p'))) = int (length (filter delivered (pl_tasks p))) +
      (if delivered (pl_tasks p' ! i) then 1 else 0) - (if delivered (pl_tasks p ! i) then 1 else 0)"
    using assms(2) count_list_update [of i "pl_tasks p" delivered "pl_tasks p' ! i"] assms(4) by simp
  from assms(1) obtain new where new: "enr_Checks (ee_results (pl_engine p)) = enr_Checks (ee_results e) @ new"
    "int (length new) + int (length (pl_resultsChan p)) + int (length (pl_errorsChan p)) + int (length (pl_errors p)) =
       int (length (filter delivered (pl_tasks p)))" by (auto simp: parallel_inv_def)
  have "length (pl_tasks p') = length cs" using assms(1) arg_cong [OF assms(4), of length] by (simp add: parallel_inv_def)
  moreover have "enr_Checks (ee_results (pl_engine p')) = enr_Checks (ee_results e) @ new" using new(1) assms(8) by simp
  moreover have "int (length new) + int (length (pl_resultsChan p')) + int (length (pl_errorsChan p')) + int (length (pl_errors p')) =
        int (length (filter delivered (pl_tasks p')))"
    using new(2) d assms(9, 10) by simp
  ultimately show ?thesis using assms(1, 5-7) w h unfolding parallel_inv_def by auto
qed

lemma parallel_step_inv:
  assumes "parallel_step env p p'" "parallel_inv cs e p"
  shows "parallel_inv cs e p'"
  using assms(1)
proof cases
  case (acquires i)
  then have "int (length (filter holds (pl_tasks p'))) = int (length (filter holds (pl_tasks p))) + 1"
    "length (filter delivered (pl_tasks p')) = length (filter delivered (pl_tasks p))"
    using count_list_update [of i "pl_tasks p" holds HasSlot] count_list_update [of i "pl_tasks p" delivered HasSlot]
    by (simp_all add: set_task_def holds_def delivered_def)
  moreover have "0 < ec_WorkerCount (ee_config e)" using acquires(4) assms(2) by (simp add: parallel_inv_def)
  ultimately show ?thesis using acquires assms(2) by (simp add: parallel_inv_def set_task_def)
next
  case (takes_result r rs)
  obtain new where "enr_Checks (ee_results (pl_engine p)) = enr_Checks (ee_results e) @ new"
    "int (length new) + int (length (pl_resultsChan p)) + int (length (pl_errorsChan p)) + int (length (pl_errors p)) =
       int (length (filter delivered (pl_tasks p)))" using assms(2) by (auto simp: parallel_inv_def)
  then have "enr_Checks (ee_results (pl_engine p')) = enr_Checks (ee_results e) @ new @ [r] \<and>
      int (length (new @ [r])) + int (length (pl_resultsChan p')) + int (length (pl_errorsChan p')) + int (length (pl_errors p')) =
        int (length (filter delivered (pl_tasks p')))"
    using takes_result by (simp add: add_check_def)
  then show ?thesis using takes_result assms(2) unfolding parallel_inv_def by (auto simp: add_check_def)
next
  case (takes_error err errs)
  then show ?thesis using assms(2) by (auto simp: parallel_inv_def)
qed ((rule parallel_inv_move [OF assms(2)], assumption,
      simp_all add: set_task_def in_recovery_def holds_def delivered_def)[1])+

lemma parallel_steps_inv:
  "(parallel_step env)\<^sup>*\<^sup>* p p' \<Longrightarrow> parallel_inv cs e p \<Longrightarrow> parallel_inv cs e p'"
  by (induction rule: rtranclp_induct) (auto intro: parallel_step_inv)

section \<open>Accounting of sequential runs\<close>

definition run_frame :: "EnhancedDiagnosticEngine \<Rightarrow> EnhancedDiagnosticEngine \<Rightarrow> CheckResult option list \<Rightarrow> bool" where
  "run_frame e e' new \<longleftrightarrow> ee_config e' = ee_config e \<and> ee_checks e' = ee_checks e \<and> ee_metrics e' = ee_metrics e \<and>
     enr_Checks (ee_results e') = enr_Checks (ee_results e) @ new"

lemma executeCheck_frame: "executeCheckWithRecovery env i e = Some (e', res) \<Longrightarrow> run_frame e e' []"
  by (auto simp: executeCheckWithRecovery_def run_frame_def split: option.splits)

lemma run_frame_add: "run_frame e e' new \<Longrightarrow> run_frame e (add_check r e') (new @ [r])"
  by (simp add: run_frame_def add_check_def)

lemma run_frame_trans: "run_frame a b xs \<Longrightarrow> run_frame b c ys \<Longrightarrow> run_frame a c (xs @ ys)"
  by (simp add: run_frame_def)

lemma recovery_loop_frame:
  assumes "recovery_loop env i cs errors e = Some (e', r)"
  shows "\<exists>new. run_frame e e' new \<and> length new \<le> length cs"
  using assms
proof (induction cs arbitrary: i errors e)
  case Nil
  then show ?case by (auto simp: run_frame_def)
next
  case (Cons check cs)
  obtain e1 res where 1: "executeCheckWithRecovery env i e = Some (e1, res)"
    using Cons.prems by (auto split: option.splits)
  note f = executeCheck_frame [OF 1]
  show ?case
  proof (cases res)
    case (Inl err)
    have "e' = e1 \<or> recovery_loop env (i + 1) cs (errors @ [err]) e1 = Some (e', r)"
      using Cons.prems 1 Inl by (auto split: if_splits option.splits)
    then show ?thesis using f Cons.IH run_frame_trans [OF f] by (metis append_Nil le_SucI length_Cons list.size(3) zero_le)
  next
    case (Inr v)
    have f': "run_frame e (add_check v e1) [v]" using run_frame_add [OF f] by simp
    have "e' = add_check v e1 \<or> recovery_loop env (i + 1) cs errors (add_check v e1) = Some (e', r)"
      using Cons.prems 1 Inr by (auto split: option.splits)
    then show ?thesis
    proof
      assume "recovery_loop env (i + 1) cs errors (add_check v e1) = Some (e', r)"
      from Cons.IH [OF this] obtain new where "run_frame (add_check v e1) e' new" "length new \<le> length cs" by blast
      then show ?thesis using run_frame_trans [OF f'] by (intro exI [of _ "[v] @ new"]) simp
    qed (use f' in auto)
  qed
qed

lemma runSequential_frame:
  assumes "runSequentialWithRecovery env cs e = Some (e', err)"
  shows "\<exists>new. run_frame e e' new \<and> length new \<le> length cs"
  using assms recovery_loop_frame [of env 0 cs "[]" e]
  by (auto simp: runSequentialWithRecovery_def split: option.splits sum.splits)

lemma runParallel_frame:
  assumes "runWithErrorRecovery env cs e (Some (e', err))"
  shows "\<exists>new. run_frame e e' new \<and> length new \<le> length cs"
proof -
  obtain p where p: "(parallel_step env)\<^sup>*\<^sup>* (parallel_start cs e) p" "pl_engine p = e'"
    using assms by (auto simp: runWithErrorRecovery_def split: if_splits)
  note i = parallel_steps_inv [OF p(1) parallel_start_inv]
  obtain new where n: "enr_Checks (ee_results e') = enr_Checks (ee_results e) @ new"
    "int (length new) + int (length (pl_resultsChan p)) + int (length (pl_errorsChan p)) + int (length (pl_errors p)) =
       int (length (filter delivered (pl_tasks p)))" using i p(2) by (auto simp: parallel_inv_def)
  have "length (filter delivered (pl_tasks p)) \<le> length cs"
    using i length_filter_le [of delivered "pl_tasks p"] by (simp add: parallel_inv_def)
  with n have "length new \<le> length cs" by linarith
  then show ?thesis using i n(1) p(2) by (auto simp: parallel_inv_def run_frame_def)
qed

lemma prepare_run_frame:
  assumes "prepare_run env e = Some (e', Inr cs)"
  shows "ee_config e' = ee_config e \<and> ee_checks e' = ee_checks e \<and> ee_errorRecovery e' = ee_errorRecovery e \<and>
    enr_Checks (ee_results e') = enr_Checks (ee_results e) \<and> length cs \<le> length (ee_checks e) \<and>
    ee_metrics e' = (ee_metrics e)\<lparr>eem_TotalOperations := eem_TotalOperations (ee_metrics e) + 1\<rparr> \<and>
    (ee_gracefulDegradation e = None \<longrightarrow> cs = ee_checks e) \<and>
    (\<forall>gd level. ee_gracefulDegradation e = Some gd \<and> GetCurrentLevel gd = Some level \<longrightarrow>
       cs = filter (shouldExecuteCheck level) (ee_checks e))"
  using assms
  by (auto simp: prepare_run_def handleCriticalHealth_def FilterChecks_def bind_eq_Some_conv Let_def
      split: option.splits if_splits)

lemma attach_results_frame [simp]:
  "ee_checks (attach_results err e) = ee_checks e" "ee_metrics (attach_results err e) = ee_metrics e"
  "enr_Checks (ee_results (attach_results err e)) = enr_Checks (ee_results e)"
  by (cases err; simp add: attach_results_def Let_def)+

lemma complete_run_outcome:
  assumes "complete_run env err e = Some (e', res, err')"
  shows "err' = err \<and> res = Some (ee_results e') \<and>
    (\<exists>rs. enr_Checks (ee_results e) = map Some rs \<and> enr_Checks (ee_results e') = map Some rs \<and>
       enr_Summary (ee_results e') = fold (count_result (ee_checks e)) rs (empty_summary\<lparr>TotalChecks := int (length rs)\<rparr>)) \<and>
    eem_TotalOperations (ee_metrics e') = eem_TotalOperations (ee_metrics e) \<and>
    eem_FailedOperations (ee_metrics e') = eem_FailedOperations (ee_metrics e) + (if err = None then 0 else 1) \<and>
    eem_SuccessfulOperations (ee_metrics e') = eem_SuccessfulOperations (ee_metrics e) + (if err = None then 1 else 0)"
  using assms
  by (auto simp: complete_run_def enhanced_calculateSummary_def deref_iff calculateExecutionMetrics_def count_run_def Let_def)

section \<open>A breaker without a failure threshold\<close>

lemma first_outcome_opens:
  assumes "ExecuteWithRecovery env (NewErrorRecovery now client (Some (enhanced_recovery_config c))) = Some (er, res)"
  shows "cb_state (er_circuitBreaker er) = CircuitStateOpen \<and>
    lastStateChange (er_circuitBreaker er) \<in> {xe_t2 env, xe_t3 env} \<and>
    RecoveryTimeout (cb_config (er_circuitBreaker er)) = 30 * Second"
proof -
  let ?er = "NewErrorRecovery now client (Some (enhanced_recovery_config c))"
  define cb where "cb = er_circuitBreaker ?er"
  have new: "cb_state cb = CircuitStateClosed" "failureCount cb = 0" "FailureThreshold (cb_config cb) = 0"
    "RecoveryTimeout (cb_config cb) = 30 * Second"
    by (simp_all add: cb_def NewErrorRecovery_def NewCircuitBreaker_def cb_defaults_def recovery_breaker_config_def
        enhanced_recovery_config_def Let_def)
  then show ?thesis
    unfolding exec_breaker [OF assms] cb_def [symmetric]
    by (simp add: cb_request_def CanExecute_def RecordSuccess_def RecordFailure_def transitionToOpen_def shouldOpenCircuit_def
        resetFailureCount_def exec_request_def Let_def)
qed

definition soon :: "'a exec_env \<Rightarrow> ErrorRecovery \<Rightarrow> bool" where
  "soon env er \<longleftrightarrow> Sub (xe_t0 env) (lastStateChange (er_circuitBreaker er)) < RecoveryTimeout (cb_config (er_circuitBreaker er))"

lemma open_blocks:
  assumes "cb_state (er_circuitBreaker er) = CircuitStateOpen" "soon env er"
  shows "\<exists>er' d. ExecuteWithRecovery env er = Some (er', Inl (Diag d)) \<and> Code d = ErrCodeCircuitBreakerOpen \<and>
    cb_state (er_circuitBreaker er') = CircuitStateOpen \<and> (\<forall>env' :: 'b exec_env. soon env' er' = soon env' er)"
  using assms by (simp add: ExecuteWithRecovery_def CanExecute_def blocked_error_def mk_diag_def soon_def Let_def)

lemma blocked_loop:
  assumes "ee_errorRecovery e = Some er" "cb_state (er_circuitBreaker er) = CircuitStateOpen"
    "\<forall>j \<ge> i. soon (ne_exec env j) er"
  shows "\<exists>e' r. recovery_loop env i cs errors e = Some (e', r) \<and> enr_Checks (ee_results e') = enr_Checks (ee_results e) \<and>
    (cs \<noteq> [] \<or> errors \<noteq> [] \<longrightarrow> r \<noteq> Inr [])"
  using assms
proof (induction cs arbitrary: i errors e er)
  case (Cons check cs)
  obtain er1 d where 1: "ExecuteWithRecovery (ne_exec env i) er = Some (er1, Inl (Diag d))"
    "cb_state (er_circuitBreaker er1) = CircuitStateOpen" "\<forall>env' :: CheckResult option exec_env. soon env' er1 = soon env' er"
    using open_blocks [of er "ne_exec env i"] Cons.prems(2, 3) by blast
  have ex: "executeCheckWithRecovery env i e = Some (e\<lparr>ee_errorRecovery := Some er1\<rparr>, Inl (Diag d))"
    using 1(1) Cons.prems(1) by (simp add: executeCheckWithRecovery_def)
  obtain e' r where r: "recovery_loop env (i + 1) cs (errors @ [Diag d]) (e\<lparr>ee_errorRecovery := Some er1\<rparr>) = Some (e', r)"
    "enr_Checks (ee_results e') = enr_Checks (ee_results e)" "r \<noteq> Inr []"
    using Cons.IH [of "e\<lparr>ee_errorRecovery := Some er1\<rparr>" er1 "i + 1" "errors @ [Diag d]"] 1 Cons.prems(3) by auto
  then show ?case using ex by (cases "ne_done env i") auto
qed simp

section \<open>Properties\<close>

lemma default_checks: "length enhanced_registerDefaultChecks = 11"
  by (simp add: enhanced_registerDefaultChecks_def registerDefaultChecks_def)

lemma new_degradation_level: "GetCurrentLevel (NewGracefulDegradation t t' (Some c)) = Some (dc_DefaultLevel c)"
proof -
  have "dc_DefaultLevel (degradation_defaults c) = dc_DefaultLevel c"
    by (simp add: degradation_defaults_def Let_def if_distrib [of dc_DefaultLevel])
  then show ?thesis by (simp add: NewGracefulDegradation_def GetCurrentLevel_def Let_def)
qed

lemma prepare_new_engine:
  assumes "prepare_run env (NewEnhancedEngine now cpus client (Some c)) = Some (e, Inr cs)"
  shows "cs = enhanced_registerDefaultChecks \<and> ee_config e = c \<and> enr_Checks (ee_results e) = [] \<and>
    ee_errorRecovery e = (if ec_EnableErrorRecovery c
      then Some (NewErrorRecovery (now 1) client (Some (enhanced_recovery_config c))) else None)"
proof -
  let ?e = "NewEnhancedEngine now cpus client (Some c)"
  have new: "ee_config ?e = c" "enr_Checks (ee_results ?e) = []" "ee_checks ?e = enhanced_registerDefaultChecks"
    "ee_errorRecovery ?e = (if ec_EnableErrorRecovery c
      then Some (NewErrorRecovery (now 1) client (Some (enhanced_recovery_config c))) else None)"
    by (simp_all add: NewEnhancedEngine_def empty_enhanced_results_def Let_def)
  have level: "GetCurrentLevel gd = Some DegradationNormal" if "ee_gracefulDegradation ?e = Some gd" for gd
    using that by (auto simp: NewEnhancedEngine_def new_degradation_level enhanced_degradation_config_def Let_def split: if_splits)
  have "filter (shouldExecuteCheck DegradationNormal) cs = cs" for cs
    by (simp add: shouldExecuteCheck_def)
  then have "cs = enhanced_registerDefaultChecks"
    using prepare_run_frame [OF assms] level new(3) by (cases "ee_gracefulDegradation ?e") auto
  then show ?thesis using prepare_run_frame [OF assms] new by simp
qed

lemma enhanced_Run_Some:
  assumes "enhanced_Run env e (Some (e', Some res, err))"
  obtains e1 cs e2 where "prepare_run env e = Some (e1, Inr cs)" "complete_run env err e2 = Some (e', Some res, err)"
    "if ec_Parallel (ee_config e1) then runWithErrorRecovery env cs e1 (Some (e2, err))
     else runSequentialWithRecovery env cs e1 = Some (e2, err)"
proof -
  obtain e1 x where p: "prepare_run env e = Some (e1, x)" using assms by (auto simp: enhanced_Run_def split: option.splits)
  obtain cs where x: "x = Inr cs" using assms p by (cases x) (auto simp: enhanced_Run_def)
  have "\<exists>e2 err'. (if ec_Parallel (ee_config e1) then runWithErrorRecovery env cs e1 (Some (e2, err'))
     else runSequentialWithRecovery env cs e1 = Some (e2, err')) \<and> complete_run env err' e2 = Some (e', Some res, err)"
  proof (cases "ec_Parallel (ee_config e1)")
    case True
    then obtain out where o: "runWithErrorRecovery env cs e1 out"
      "Some (e', Some res, err) = (case out of None \<Rightarrow> None | Some (e, err) \<Rightarrow> complete_run env err e)"
      using assms p x by (auto simp: enhanced_Run_def)
    then obtain e2 err' where "out = Some (e2, err')" by (cases out) auto
    then show ?thesis using o True by (metis case_prod_conv option.case(2))
  next
    case False
    then show ?thesis using assms p x
      by (cases "runSequentialWithRecovery env cs e1") (auto simp: enhanced_Run_def)
  qed
  then show ?thesis using that p x complete_run_outcome by metis
qed

lemma one_check_loop:
  assumes "recovery_loop env 0 (check # rest) [] e = Some (e1, r)" "rest \<noteq> []"
    "ee_errorRecovery e = Some (NewErrorRecovery now client (Some (enhanced_recovery_config c)))"
    "\<forall>i \<ge> 1. xe_t0 (ne_exec env i) < xe_t2 (ne_exec env 0) + 30 * Second \<and>
             xe_t0 (ne_exec env i) < xe_t3 (ne_exec env 0) + 30 * Second"
  shows "length (enr_Checks (ee_results e1)) \<le> length (enr_Checks (ee_results e)) + 1 \<and> r \<noteq> Inr []"
proof -
  obtain er out where x: "executeCheckWithRecovery env 0 e = Some (e\<lparr>ee_errorRecovery := Some er\<rparr>, out)"
    "ExecuteWithRecovery (ne_exec env 0) (NewErrorRecovery now client (Some (enhanced_recovery_config c))) = Some (er, out)"
    using assms(1, 3) by (auto simp: executeCheckWithRecovery_def split: option.splits)
  note opened = first_outcome_opens [OF x(2)]
  have soon: "\<forall>j \<ge> 1. soon (ne_exec env j) er"
    using opened assms(4) by (auto simp: soon_def Sub_def max_duration_def min_duration_def)
  have rest: "\<exists>e2 r2. recovery_loop env 1 rest errors e3 = Some (e2, r2) \<and>
      enr_Checks (ee_results e2) = enr_Checks (ee_results e3) \<and> r2 \<noteq> Inr []"
    if "ee_errorRecovery e3 = Some er" for errors e3
    using blocked_loop [OF that _ soon, of rest errors] opened assms(2) by blast
  show ?thesis
  proof (cases out)
    case (Inl er1)
    then show ?thesis using assms(1) x(1) rest [of "e\<lparr>ee_errorRecovery := Some er\<rparr>" "[er1]"]
      by (auto split: if_splits option.splits)
  next
    case (Inr v)
    then show ?thesis
      using assms(1) x(1) rest [of "add_check v (e\<lparr>ee_errorRecovery := Some er\<rparr>)" "[]"]
      by (auto simp: add_check_def split: option.splits)
  qed
qed

text \<open>A sequential engine with the default settings, and checks that pass one after the other.\<close>

definition sample_config :: EnhancedConfig where
  "sample_config = (default_enhanced_config 4)\<lparr>ec_Parallel := False\<rparr>"

definition passing :: CheckResult where
  "passing = (failed_result 1 ''daemon_connectivity'' ''ok'')\<lparr>cr_Success := True\<rparr>"

definition passing_op :: "CheckResult option retry_env" where
  "passing_op = \<lparr>op = (\<lambda>_. Inr (Some passing)), budget_elapsed = (\<lambda>_. 0), ctx_done = (\<lambda>_. None), op_duration = (\<lambda>_. 1),
     total_elapsed = 1, random = (\<lambda>_. Fin 0), out_of_range = (\<lambda>_. 0)\<rparr>"

definition sample_run :: enhanced_env where
  "sample_run =
     \<lparr>ne_start = 0, ne_end = 9,
      ne_exec = (\<lambda>i. \<lparr>xe_t0 = (if i = 0 then 0 else 5), xe_t1 = 0, xe_retry = passing_op, xe_start = 0, xe_end = 1,
        xe_t2 = 2, xe_t3 = 2, xe_handle = quiet_handle\<rparr>),
      ne_direct = (\<lambda>_. Inl Canceled), ne_done = (\<lambda>_. None), ne_ord = [], ne_status_time = 0, ne_writer = False\<rparr>"

lemma sample_prepared:
  "\<exists>e. prepare_run sample_run (NewEnhancedEngine (\<lambda>_. 0) 4 True (Some sample_config)) = Some (e, Inr enhanced_registerDefaultChecks)"
proof -
  let ?e = "NewEnhancedEngine (\<lambda>_. 0) 4 True (Some sample_config)"
  define gd where "gd = NewGracefulDegradation 0 0 (Some (enhanced_degradation_config sample_config))"
  have gd: "ee_gracefulDegradation ?e = Some gd"
    by (simp add: NewEnhancedEngine_def sample_config_def default_enhanced_config_def gd_def Let_def)
  have mu: "gd_mu gd = mutex_free" by (simp add: gd_def NewGracefulDegradation_def Let_def)
  have "\<exists>e cs. prepare_run sample_run ?e = Some (e, Inr cs)"
    by (simp add: prepare_run_def gd handleCriticalHealth_def FilterChecks_def GetCurrentLevel_def GetDegradationStatus_def mu
        sample_run_def RLock_def mutex_free_def Let_def)
  then show ?thesis using prepare_new_engine by blast
qed

lemma sample_run_ends:
  "\<exists>e' res err. enhanced_Run sample_run (NewEnhancedEngine (\<lambda>_. 0) 4 True (Some sample_config)) (Some (e', Some res, err))"
proof -
  let ?er = "NewErrorRecovery 0 True (Some (enhanced_recovery_config sample_config))"
  obtain e where p: "prepare_run sample_run (NewEnhancedEngine (\<lambda>_. 0) 4 True (Some sample_config)) =
      Some (e, Inr enhanced_registerDefaultChecks)" using sample_prepared by blast
  note new = prepare_new_engine [OF p]
  have er: "ee_errorRecovery e = Some ?er" using new by (simp add: sample_config_def default_enhanced_config_def)
  have "\<exists>er. ExecuteWithRecovery (ne_exec sample_run 0) ?er = Some (er, Inr (Some passing))"
    by (simp add: ExecuteWithRecovery_def CanExecute_def NewErrorRecovery_def NewCircuitBreaker_def Execute_def record_outcome_def
        sample_run_def passing_op_def Let_def)
  then obtain er where x: "ExecuteWithRecovery (ne_exec sample_run 0) ?er = Some (er, Inr (Some passing))" by blast
  have o: "cb_state (er_circuitBreaker er) = CircuitStateOpen" "\<forall>j \<ge> 1. soon (ne_exec sample_run j) er"
    using first_outcome_opens [OF x] by (auto simp: soon_def sample_run_def Sub_def max_duration_def min_duration_def)
  obtain check rest where cs: "enhanced_registerDefaultChecks = check # rest"
    by (simp add: enhanced_registerDefaultChecks_def registerDefaultChecks_def)
  obtain e2 r where "recovery_loop sample_run 1 rest [] (add_check (Some passing) (e\<lparr>ee_errorRecovery := Some er\<rparr>)) = Some (e2, r)"
    "enr_Checks (ee_results e2) = [Some passing]"
    using blocked_loop [of "add_check (Some passing) (e\<lparr>ee_errorRecovery := Some er\<rparr>)" er 1 sample_run rest "[]"] o new
    by (auto simp: add_check_def)
  moreover from this(1) have "recovery_loop sample_run 0 (check # rest) [] e = Some (e2, r)"
    using x er by (simp add: executeCheckWithRecovery_def) (simp add: sample_run_def)
  ultimately obtain e2 err where run: "runSequentialWithRecovery sample_run (check # rest) e = Some (e2, err)"
    "enr_Checks (ee_results e2) = map Some [passing]"
    by (cases r) (auto simp: runSequentialWithRecovery_def)
  have "\<exists>e'. complete_run sample_run err e2 = Some (e', Some (ee_results e'), err)"
    using run(2) by (simp add: complete_run_def enhanced_calculateSummary_def Let_def)
  then show ?thesis using p run(1) new cs
    by (fastforce simp: enhanced_Run_def sample_config_def default_enhanced_config_def)
qed

text \<open>
  C27: The enhanced engine runs one check. The configuration it gives to the recovery system leaves the
  failure threshold of the circuit breaker at zero, so the first recorded outcome, a success included,
  opens the circuit: a sequential run whose other checks start within the recovery timeout of thirty
  seconds holds the result of at most one of the eleven default checks and ends with an error.
\<close>

theorem enhanced_engine_runs_one_check:
  assumes "ec_EnableErrorRecovery c" "\<not> ec_Parallel c"
    and "\<forall>i \<ge> 1. xe_t0 (ne_exec env i) < xe_t2 (ne_exec env 0) + 30 * Second \<and>
                 xe_t0 (ne_exec env i) < xe_t3 (ne_exec env 0) + 30 * Second"
    and "enhanced_Run env (NewEnhancedEngine now cpus client (Some c)) (Some (e', Some res, err))"
  shows "length (enr_Checks res) \<le> 1 \<and> err \<noteq> None"
  using assms(4)
proof (rule enhanced_Run_Some)
  fix e cs e1
  assume e: "prepare_run env (NewEnhancedEngine now cpus client (Some c)) = Some (e, Inr cs)"
    and fin: "complete_run env err e1 = Some (e', Some res, err)"
    and run: "if ec_Parallel (ee_config e) then runWithErrorRecovery env cs e (Some (e1, err))
              else runSequentialWithRecovery env cs e = Some (e1, err)"
  note new = prepare_new_engine [OF e]
  have "length cs = 11" using new default_checks by simp
  then obtain check rest where cs: "cs = check # rest" "rest \<noteq> []" by (cases cs) fastforce+
  obtain r where loop: "recovery_loop env 0 cs [] e = Some (e1, r)"
    "err = (case r of Inl cerr \<Rightarrow> Some cerr | Inr errors \<Rightarrow> execution_error ''sequential'' errors)"
    using run new assms(2) by (auto simp: runSequentialWithRecovery_def split: option.splits sum.splits)
  have "length (enr_Checks (ee_results e1)) \<le> 1 \<and> r \<noteq> Inr []"
    using one_check_loop [of env check rest e e1 r] loop(1) cs new assms(1, 3) by auto
  moreover have "length (enr_Checks res) = length (enr_Checks (ee_results e1))"
    using complete_run_outcome [OF fin] by auto
  ultimately show ?thesis using loop(2) by (auto simp: execution_error_def split: sum.splits)
qed

theorem enhanced_engine_runs_one_check_witness:
  "\<exists>e' res err. enhanced_Run sample_run (NewEnhancedEngine (\<lambda>_. 0) 4 True (Some sample_config)) (Some (e', Some res, err)) \<and>
     length (enr_Checks res) \<le> 1 \<and> err \<noteq> None"
proof -
  obtain e' res err where run: "enhanced_Run sample_run (NewEnhancedEngine (\<lambda>_. 0) 4 True (Some sample_config)) (Some (e', Some res, err))"
    using sample_run_ends by blast
  have "length (enr_Checks res) \<le> 1 \<and> err \<noteq> None"
    by (rule enhanced_engine_runs_one_check [OF _ _ _ run])
      (simp_all add: sample_config_def default_enhanced_config_def sample_run_def)
  with run show ?thesis by blast
qed

text \<open>
  C8: A parallel run with recovery never runs more checks at a time than workers are configured, under
  every interleaving, and when it ends every check has exactly one outcome, a result or an error. If the
  number of workers is left at zero, the semaphore admits nobody: no state it reaches is an end, so a run
  of at least one check waits for ever.
\<close>

theorem parallel_recovery_accounting:
  assumes "(parallel_step env)\<^sup>*\<^sup>* (parallel_start cs e) p"
  shows "int (length (filter holds (pl_tasks p))) \<le> max 0 (ec_WorkerCount (ee_config e)) \<and>
    (parallel_over p \<longrightarrow> (\<exists>new. enr_Checks (ee_results (pl_engine p)) = enr_Checks (ee_results e) @ new \<and>
       length new + length (pl_errors p) = length cs)) \<and>
    (ec_WorkerCount (ee_config e) = 0 \<and> cs \<noteq> [] \<longrightarrow> \<not> parallel_over p)"
proof -
  note i = parallel_steps_inv [OF assms parallel_start_inv]
  have "filter delivered (pl_tasks p) = pl_tasks p" if "parallel_over p"
    using that by (auto simp: parallel_over_def list_all_iff delivered_def filter_id_conv)
  moreover have "\<not> parallel_over p" if "ec_WorkerCount (ee_config e) = 0" "cs \<noteq> []"
    using i that by (cases "pl_tasks p") (auto simp: parallel_inv_def parallel_over_def)
  moreover obtain new where "enr_Checks (ee_results (pl_engine p)) = enr_Checks (ee_results e) @ new"
    "int (length new) + int (length (pl_resultsChan p)) + int (length (pl_errorsChan p)) + int (length (pl_errors p)) =
       int (length (filter delivered (pl_tasks p)))" using i by (auto simp: parallel_inv_def)
  ultimately show ?thesis using i
    by (intro conjI impI exI [of _ new]) (auto simp: parallel_inv_def parallel_over_def)
qed

text \<open>One worker runs one check without a recovery system: the check fails and its error is collected.\<close>

definition lone_engine :: EnhancedDiagnosticEngine where
  "lone_engine = NewEnhancedEngine (\<lambda>_. 0) 4 True (Some (sample_config\<lparr>ec_EnableErrorRecovery := False, ec_WorkerCount := 1\<rparr>))"

definition lone_run :: "task \<Rightarrow> goerror list \<Rightarrow> goerror list \<Rightarrow> parallel_run" where
  "lone_run t sent errors =
     \<lparr>pl_engine = lone_engine, pl_tasks = [t], pl_resultsChan = [], pl_errorsChan = sent, pl_errors = errors\<rparr>"

lemma lone_run_ends: "(parallel_step sample_run)\<^sup>*\<^sup>* (parallel_start [check] lone_engine) (lone_run Finished [] [Canceled])"
proof -
  have e: "ee_errorRecovery lone_engine = None" "ec_WorkerCount (ee_config lone_engine) = 1"
    by (simp_all add: lone_engine_def NewEnhancedEngine_def Let_def)
  have d: "ne_direct sample_run 0 = Inl Canceled" by (simp add: sample_run_def)
  note run = lone_run_def set_task_def holds_def
  have "parallel_start [check] lone_engine = lone_run AtSemaphore [] []" by (simp add: parallel_start_def lone_run_def)
  also have "parallel_step sample_run (lone_run AtSemaphore [] []) (lone_run HasSlot [] [])"
    using acquires [of 0 "lone_run AtSemaphore [] []" sample_run] e by (simp add: run)
  moreover have "parallel_step sample_run (lone_run HasSlot [] []) (lone_run (Back (Inl Canceled)) [] [])"
    using direct [of 0 "lone_run HasSlot [] []" sample_run] e d by (simp add: run)
  moreover have "parallel_step sample_run (lone_run (Back (Inl Canceled)) [] []) (lone_run Sent [Canceled] [])"
    using sends_error [of 0 "lone_run (Back (Inl Canceled)) [] []" Canceled sample_run] by (simp add: run)
  moreover have "parallel_step sample_run (lone_run Sent [Canceled] []) (lone_run Sent [] [Canceled])"
    using takes_error [of "lone_run Sent [Canceled] []" Canceled "[]" sample_run] by (simp add: run)
  moreover have "parallel_step sample_run (lone_run Sent [] [Canceled]) (lone_run Finished [] [Canceled])"
    using releases [of 0 "lone_run Sent [] [Canceled]" sample_run] by (simp add: run)
  ultimately show ?thesis by (metis converse_rtranclp_into_rtranclp r_into_rtranclp)
qed

theorem parallel_recovery_accounting_witness:
  "parallel_over (lone_run Finished [] [Canceled]) \<and>
   (\<exists>new. enr_Checks (ee_results (pl_engine (lone_run Finished [] [Canceled]))) = enr_Checks (ee_results lone_engine) @ new \<and>
      length new + length (pl_errors (lone_run Finished [] [Canceled])) = 1)"
  using parallel_recovery_accounting [OF lone_run_ends [of "check_of ''iptables'' [] 3"]]
  by (simp add: lone_run_def parallel_over_def)

text \<open>
  Results accumulate: a run appends to the results of the runs before it, at most one per registered
  check, and its summary counts all of them, passed and failed adding up to the total. Every run is
  counted once, as successful or as failed.
\<close>

lemma enhanced_results_accumulate:
  assumes "enhanced_Run env e (Some (e', Some res, err))"
  shows "\<exists>new rs. enr_Checks res = enr_Checks (ee_results e) @ new \<and> length new \<le> length (ee_checks e) \<and>
    enr_Checks res = map Some rs \<and> TotalChecks (enr_Summary res) = int (length rs) \<and>
    PassedChecks (enr_Summary res) = int (length (filter cr_Success rs)) \<and>
    PassedChecks (enr_Summary res) + FailedChecks (enr_Summary res) = TotalChecks (enr_Summary res) \<and>
    eem_TotalOperations (ee_metrics e') = eem_TotalOperations (ee_metrics e) + 1 \<and>
    eem_SuccessfulOperations (ee_metrics e') + eem_FailedOperations (ee_metrics e') =
      eem_SuccessfulOperations (ee_metrics e) + eem_FailedOperations (ee_metrics e) + 1"
  using assms
proof (rule enhanced_Run_Some)
  fix e1 cs e2
  assume p: "prepare_run env e = Some (e1, Inr cs)" and fin: "complete_run env err e2 = Some (e', Some res, err)"
    and run: "if ec_Parallel (ee_config e1) then runWithErrorRecovery env cs e1 (Some (e2, err))
              else runSequentialWithRecovery env cs e1 = Some (e2, err)"
  obtain new where new: "run_frame e1 e2 new" "length new \<le> length cs"
    using run runSequential_frame runParallel_frame by (metis (full_types))
  obtain rs where rs: "res = ee_results e'" "enr_Checks (ee_results e2) = map Some rs" "enr_Checks (ee_results e') = map Some rs"
    "enr_Summary (ee_results e') = fold (count_result (ee_checks e2)) rs (empty_summary\<lparr>TotalChecks := int (length rs)\<rparr>)"
    using complete_run_outcome [OF fin] by blast
  moreover have "int (length (filter cr_Success rs)) + int (length (filter (\<lambda>r. \<not> cr_Success r) rs)) = int (length rs)"
    using sum_length_filter_compl [of cr_Success rs] by linarith
  ultimately show ?thesis
    using new prepare_run_frame [OF p] complete_run_outcome [OF fin]
      fold_count_result [of "ee_checks e2" rs "empty_summary\<lparr>TotalChecks := int (length rs)\<rparr>"]
    by (intro exI [of _ new] exI [of _ rs]) (simp add: run_frame_def empty_summary_def)
qed

text \<open>
  The recovery configuration of the enhanced engine also leaves the maximal delay at zero, so its retries
  follow each other without any backoff.
\<close>

lemma enhanced_retries_without_backoff:
  assumes "0 \<le> ec_RetryBaseDelay c" "ec_RetryBaseDelay c \<le> 2 ^ 53" "ec_RetryBaseDelay c * 2 ^ k < 2 ^ 63" "k \<le> 970"
  shows "calculateBackoffDelay oor
    (rp_config (er_retryPolicy (NewErrorRecovery now client (Some (enhanced_recovery_config c))))) r (int k + 1) = 0"
proof -
  have "0 \<le> ec_RetryBaseDelay c * 2 ^ k" using assms(1) by simp
  then show ?thesis
    using exponential_exact [OF assms, of oor]
    by (simp add: NewErrorRecovery_def NewRetryPolicy_def recovery_retry_config_def enhanced_recovery_config_def
        retry_defaults_def calculateBackoffDelay_def Let_def)
qed

text \<open>
  Health monitoring without an interval brings the program down: a configuration that enables it and leaves
  \<^verbatim>\<open>HealthCheckInterval\<close> at zero is not given a default (the degradation controller replaces only its own
  copy), so the goroutine the constructor starts panics when it makes its ticker.
\<close>

lemma unset_interval_panics:
  assumes "ec_HealthCheckInterval c = 0" "ec_EnableGracefulDegradation c"
  shows "ee_healthMonitoringLoop (NewEnhancedEngine now cpus client (Some c)) = None \<and>
         (\<exists>gd. ee_gracefulDegradation (NewEnhancedEngine now cpus client (Some c)) = Some gd \<and>
            dc_HealthCheckInterval (gd_config gd) = 30 * Second)"
  using assms
  by (simp add: ee_healthMonitoringLoop_def NewEnhancedEngine_def NewGracefulDegradation_def enhanced_degradation_config_def
      degradation_defaults_def Let_def)

end
