(* ===== verification/Spec2Isabelle.thy ===== *)
theory Spec2Isabelle
  imports Command_Line Benchmark_Helpers Profile_Reporter Enhanced_Engine
begin

text \<open>
  Verification of Docker Network Doctor, a Go program that diagnoses the network set-up of a
  Docker host. This theory imports the whole development; the properties stand in the theories of
  the components they are about, each at the end of its theory under the heading \<open>Properties\<close>.

  \<^bold>\<open>The program.\<close> Paths are relative to \<^verbatim>\<open>internal/\<close>. The commands (\<^verbatim>\<open>cli/commands.go\<close>) connect to
  the daemon, run the engine or a single check and print a table. A set of diagnostic checks is run by one of
  two engines. The plain engine (\<^verbatim>\<open>diagnostics/engine.go\<close>) runs them one by one or through a pool of
  workers (\<^verbatim>\<open>worker_pool.go\<close>); the pool asks a validator (\<^verbatim>\<open>security_validator.go\<close>) whether a check
  may run and a rate limiter (\<^verbatim>\<open>rate_limiter.go\<close>) when. The enhanced engine
  (\<^verbatim>\<open>enhanced_engine.go\<close>) runs every check through an error recovery system
  (\<^verbatim>\<open>error_recovery.go\<close>), which guards it with a circuit breaker (\<^verbatim>\<open>circuit_breaker.go\<close>) around a retry
  policy (\<^verbatim>\<open>retry_policy.go\<close>), classifies what went wrong (\<^verbatim>\<open>error_types.go\<close>) and may call the
  cleanup manager (\<^verbatim>\<open>resource_cleanup.go\<close>); a degradation controller
  (\<^verbatim>\<open>graceful_degradation.go\<close>) decides which checks are worth running. The Docker client
  (\<^verbatim>\<open>docker/\<close>) wraps the Docker SDK with its own retry policy, response cache and metrics; the checks
  (\<^verbatim>\<open>*_checks.go\<close>) call it and the host. The profiler (\<^verbatim>\<open>performance_profiler.go\<close>) measures with a
  precision timer (\<^verbatim>\<open>profiling/\<close>), keeps its measurements in a timing storage
  (\<^verbatim>\<open>timing_storage.go\<close>) and owns a metrics collector (\<^verbatim>\<open>metrics_collector.go\<close>).

  \<^bold>\<open>The theories\<close>, a theory after those it uses:
  \<^item> \<open>Go_Prelude\<close>: wrap-around of \<open>int64\<close>, clock values, slices, map iteration orders, arrival orders
    of goroutines, read-write mutexes that can block their own holder, and the two contracts
    \<open>bounded_history\<close> and \<open>substring_test\<close>. \<open>Go_Float\<close>: \<open>float64\<close> as rationals rounded to 53 bits.
    \<open>Go_Fmt\<close>: the verbs of \<open>fmt.Sprintf\<close> the sources use.
  \<^item> \<open>Circuit_Breaker\<close>, \<open>Error_Types\<close>, \<open>Retry_Policy\<close>, \<open>Resource_Cleanup\<close>, \<open>Error_Recovery\<close>,
    \<open>Graceful_Degradation\<close>, \<open>Enhanced_Engine\<close>: the recovery side, one theory per file, composed as
    the code composes them: \<open>ExecuteWithRecovery\<close> calls the model of the retry policy inside the
    model of the breaker, and the enhanced engine threads that recovery system through its runs.
  \<^item> \<open>Security_Validator\<close>, \<open>Rate_Limiter\<close>, \<open>Worker_Pool\<close>, \<open>Engine\<close>: the plain engine and what it calls.
  \<^item> \<open>Docker_Retry\<close>, \<open>Response_Cache\<close>, \<open>Client_Metrics\<close>: the Docker client's parts, and \<open>Docker_Client\<close>:
    the enhanced client composed of them and the standard one that delegates to it.
  \<^item> \<open>Go_Net\<close>: what the checks use of \<open>net\<close> (addresses, masks, parsing of CIDR blocks).
    \<open>Diagnostic_Checks\<close>: the eleven checks, on any client that keeps the contract \<open>working_client\<close>.
    \<open>Command_Line\<close>: the commands, composed of client, checks and engine. \<open>Benchmark_Helpers\<close>: the engines
    that measure runs or group the checks.
  \<^item> \<open>Swap_Sort\<close>: the sort that two files write out by hand. \<open>Timing_Storage\<close>, \<open>Precision_Timer\<close>,
    \<open>Metrics_Collector\<close>, \<open>Performance_Profiler\<close>, \<open>Profile_Reporter\<close>: the profiler, a theory per file.

  Definitions carry the names of the Go functions, methods, structs and constants they translate;
  a suffix or prefix is added where a name is taken or where a function is cut into steps.

  \<^bold>\<open>How the code is modelled.\<close>
  \<^item> A struct is a record, an enumeration a datatype, a method a function from the old state to the
    new one and its results. Methods that hold a mutex from entry to return are atomic. Where
    locking itself goes wrong (\<open>Graceful_Degradation\<close>) the mutex is part of the state and the result
    \<open>None\<close> means that the call never returns; elsewhere \<open>None\<close> stands for a Go panic or for a
    \<open>nil\<close> pointer, as each definition says.
  \<^item> Goroutines are step relations (\<open>pool_step\<close>, \<open>run_step\<close>, \<open>parallel_step\<close>, \<open>call_step\<close>,
    \<open>collector_step\<close>, \<open>profiling_step\<close>, \<open>lock_step\<close>) with a rule per atomic action, or, where they only
    deliver results, an arrival order that is any permutation. Claims about them hold for every
    interleaving. A method that is not atomic is cut where others can come in between: an update of the
    connections into the counter and the peak, a worker's use of the limiter into asking and being told,
    the collector's \<open>Start\<close> and \<open>Stop\<close> into the flag and what follows it, the profiler's methods into the
    sections that hold the lock of the metrics. The profiler's \<open>Reset\<close> replaces that lock: a run in which
    it overtakes a waiting call is marked as torn, and nothing is claimed about its metrics.
  \<^item> The clock, the context, the random source and what a called operation returns are arguments: an
    environment that answers the n-th request. Third-party code is a parameter too: the token
    bucket of \<open>golang.org/x/time/rate\<close>, the answers of the Docker SDK, and
    \<open>strings.ToLower\<close> beyond ASCII. So are the commands, interfaces and connections of the host. Iteration over a Go map takes an order as argument, and the claims hold
    for every order that lists the keys.
  \<^item> Durations and times wrap at 64 bits (\<open>wrap64\<close>) wherever the code adds or multiplies them. Plain
    counters are unbounded integers: to overflow they would need more than 2 to the 63 events;
    counters the source declares 32 bits wide are words.
  \<^item> \<open>float64\<close> results are the exact rational rounded to nearest even. The sign of zero is not kept,
    and overflow, infinities and NaN are separate values only where the code can reach them.
  \<^item> Loops are structural recursions on the list they run over, or on the number of attempts that are
    left (\<open>retry_loop\<close>, \<open>docker_loop\<close>), which the configuration bounds; no fuel is needed, and the
    claims about these loops say how often the operation is called, not only what a run that ends returns.

  \<^bold>\<open>What the lemmas show.\<close>
  \<^item> \<open>Circuit_Breaker\<close>: any sequence of calls keeps the counters below the thresholds that would have
    changed the state, for every configuration; a breaker that counts failures implements an abstract
    breaker of three states, in which a success while open moves to half-open, as the code does and its
    comment does not say; and a breaker whose half-open admissions reach the required successes closes
    again. Health scores lie in the unit interval.
  \<^item> \<open>Retry_Policy\<close>, \<open>Docker_Retry\<close>: when a retry loop succeeds, how often the operation was called,
    what the metrics then say, and the exact value and bound of a backoff without jitter.
  \<^item> \<open>Error_Recovery\<close>, \<open>Resource_Cleanup\<close>, \<open>Graceful_Degradation\<close>, \<open>Enhanced_Engine\<close>: conservation
    of the counters over arbitrary runs, cleanup of exactly the selected resources and never of the
    protected ones, the times at which the degradation level may change, and what the configurations the program really
    constructs do: they are run inside the logic, and several of them block, leak or reject.
  \<^item> \<open>Security_Validator\<close>, \<open>Rate_Limiter\<close>, \<open>Worker_Pool\<close>, \<open>Engine\<close>: which checks are admitted,
    conservation of requests and jobs over every interleaving, which jobs the end of \<open>Submit\<close> makes
    fail, the exact results of sequential runs and what a parallel run can lose.
  \<^item> \<open>Response_Cache\<close>, \<open>Client_Metrics\<close>, \<open>Timing_Storage\<close>: lookup after store with expiry, the size
    limit (for keys that are not empty), refinement of the circular buffer to a bounded list with consistent indexes, sortedness of
    the hand-written sorts and the percentiles read from them.
  \<^item> \<open>Docker_Client\<close>: every operation of the enhanced client finishes (reading the network
    configuration of a container may panic on an incomplete answer), its cache is typed, connections
    are conserved under every interleaving, cached answers are reused while they live, and with an
    empty cache it answers as the standard client does. \<open>Diagnostic_Checks\<close>: on the standard client no check panics or
    blocks and the engine completes over them; the subnet and the port check decide exactly.
    \<open>Command_Line\<close>: the command for a single check ends with its result or its error on every
    documented answer, and a sequential diagnosis always reports a failure, because its rate limiter, of
    rate zero, runs out of tokens.
    \<open>Benchmark_Helpers\<close>: grouped runs return every result once, but without a summary.
  \<^item> \<open>Precision_Timer\<close>, \<open>Metrics_Collector\<close>, \<open>Performance_Profiler\<close>, \<open>Profile_Reporter\<close>: bounds of benchmarks on a monotonic
    clock, the life of the sampling goroutine, the balance of the profiler's counters and the exactness
    of its percentiles, reports that never divide by zero; and what goes wrong: metrics that are never set
    and bottlenecks that are therefore never found, an index that only grows, a second run that panics, and
    a mutex that is replaced while others wait for it.

  \<^bold>\<open>Interfaces.\<close> \<open>bounded_history\<close> is the contract of a list that keeps the latest entries; it is
  interpreted by the sample and error lists of the client metrics, the audit log, the cleanup
  history, the degradation history, the ring buffer and the samples of the collector.
  \<open>substring_test\<close> is the contract of a substring search; it is interpreted by the library function and
  by the two hand-written searches.
  \<open>sequential_client\<close> describes a client that calls a breaker in the order the code does and is
  interpreted for its accounting and for a starved breaker. \<open>typed_accessors\<close> is the contract of a
  getter and setter pair of the response cache, interpreted four times. \<open>working_client\<close> is what the checks
  rely on: a client whose operations return; it is interpreted on the model of the standard client.

  \<^bold>\<open>Not modelled.\<close> Printing and logging; the metadata of measurements and how a call stack is
  captured; the runner of the \<^verbatim>\<open>testing\<close> package; the JSON and YAML encoders, which are parameters; the documentation server, the
  generated Swagger tables and the example, which hold static text. Data races that the locking permits
  are reported as findings, not modelled as torn reads. A sample of the collector is taken in one step.
\<close>

end
